(* ===== verification/Prelude.thy ===== *)
theory Prelude
  imports Main "HOL-Library.List_Lexorder" "HOL-Library.Char_ord" "HOL-Library.Product_Lexorder"
begin

text \<open>
  Shared vocabulary of the development: the typed errors of
  \<open>models/errors.py\<close> and the result type of everything that can raise; the fragments of
  Python's standard library the source relies on (\<open>str\<close>, \<open>sorted\<close>, \<open>dict\<close> as an
  insertion-ordered association list, \<open>min\<close> with a key, regular expressions of the form
  \<open>\bword\b\<close>); and the facts about them that every component uses.

  A Python \<open>str\<close> is the list of its UTF-8 bytes. Comparing UTF-8 byte strings
  lexicographically gives the same order as comparing code points, so \<open>sorted\<close> is
  faithful on all strings; \<open>lower\<close>, \<open>strip\<close> and the word class of regular expressions
  are those of ASCII text.
\<close>

named_theorems res_simps \<open>rules for the result monad\<close>

section \<open>Errors and results\<close>

datatype parse_error_code =
    MALFORMED_JSON | MALFORMED_YAML | EMPTY_DOCUMENT | ROOT_NOT_MAPPING
  | UNKNOWN_KERNEL | EMPTY_PLAN | MISSING_REQUIRED

text \<open>
  The classes of \<open>models/errors.py\<close>, \<open>parsing\<close> and \<open>mcp/run_store.py\<close>, each with its
  message and path; the diagnostic \<open>details\<close> payload is not modelled. The last six
  constructors are the built-in exceptions the code can let escape.
\<close>

datatype cog_error =
    InvalidValueError string string
  | UnknownFieldError string string
  | CanonicalizationError string
  | StrictParseError parse_error_code string string
  | RunNotFoundError string
  | PyKeyError string
  | PyIndexError
  | PyTypeError
  | PyAttributeError
  | PyOSError
  | PyValueError string

type_synonym 'a res = "cog_error + 'a"

text \<open>\<open>ModelValidationError\<close> is the base class of the typed, anticipated failures.\<close>

fun is_model_validation_error :: "cog_error \<Rightarrow> bool" where
  "is_model_validation_error (InvalidValueError _ _) = True"
| "is_model_validation_error (UnknownFieldError _ _) = True"
| "is_model_validation_error (CanonicalizationError _) = True"
| "is_model_validation_error (StrictParseError _ _ _) = True"
| "is_model_validation_error (RunNotFoundError _) = True"
| "is_model_validation_error _ = False"

definition bindR :: "'a res \<Rightarrow> ('a \<Rightarrow> 'b res) \<Rightarrow> 'b res" where
  "bindR m f = (case m of Inl e \<Rightarrow> Inl e | Inr x \<Rightarrow> f x)"

definition guardR :: "bool \<Rightarrow> cog_error \<Rightarrow> unit res" where
  "guardR ok e = (if ok then Inr () else Inl e)"

fun mapR :: "('a \<Rightarrow> 'b res) \<Rightarrow> 'a list \<Rightarrow> 'b list res" where
  "mapR f [] = Inr []"
| "mapR f (x # xs) = bindR (f x) (\<lambda>y. bindR (mapR f xs) (\<lambda>ys. Inr (y # ys)))"

lemma bindR_simps [simp, res_simps]:
  "bindR (Inl e) f = Inl e" "bindR (Inr x) f = f x"
  by (simp_all add: bindR_def)

lemma bindR_eq_Inr [res_simps]: "bindR m f = Inr y \<longleftrightarrow> (\<exists>x. m = Inr x \<and> f x = Inr y)"
  by (cases m) auto

lemma bindR_eq_Inl [res_simps]:
  "bindR m f = Inl e \<longleftrightarrow> m = Inl e \<or> (\<exists>x. m = Inr x \<and> f x = Inl e)"
  by (cases m) auto

lemma guardR_simps [simp, res_simps]:
  "guardR True e = Inr ()" "guardR False e = Inl e"
  "guardR b e = Inr u \<longleftrightarrow> b" "guardR b e = Inl e' \<longleftrightarrow> \<not> b \<and> e = e'"
  by (auto simp: guardR_def)

lemma mapR_Inr: "mapR f xs = Inr ys \<Longrightarrow> list_all2 (\<lambda>x y. f x = Inr y) xs ys"
  by (induction xs arbitrary: ys) (auto simp: bindR_eq_Inr)

lemma mapR_Inr_conv: "mapR f xs = Inr ys \<longleftrightarrow> list_all2 (\<lambda>x y. f x = Inr y) xs ys"
  by (induction xs arbitrary: ys) (auto simp: bindR_eq_Inr list_all2_Cons1)

lemma mapR_total: "(\<And>x. x \<in> set xs \<Longrightarrow> f x = Inr (g x)) \<Longrightarrow> mapR f xs = Inr (map g xs)"
  by (induction xs) auto

section \<open>Ordered duplicates removal and dictionaries\<close>

text \<open>\<open>list(dict.fromkeys(xs))\<close>: the first occurrence of every value, in order.\<close>

fun dedup_first :: "'a list \<Rightarrow> 'a list" where
  "dedup_first [] = []"
| "dedup_first (x # xs) = x # filter (\<lambda>y. y \<noteq> x) (dedup_first xs)"

lemma set_dedup_first [simp]: "set (dedup_first xs) = set xs"
  by (induction xs) auto

lemma distinct_dedup_first [simp]: "distinct (dedup_first xs)"
  by (induction xs) (auto intro: distinct_filter)

lemma dedup_first_distinct: "distinct xs \<Longrightarrow> dedup_first xs = xs"
proof (induction xs)
  case (Cons x xs)
  then show ?case by (auto intro: filter_True)
qed simp

text \<open>\<open>sorted(dict.fromkeys(xs))\<close> and \<open>sorted(set(xs))\<close>.\<close>

definition sorted_unique :: "'a::linorder list \<Rightarrow> 'a list" where
  "sorted_unique xs = sort (dedup_first xs)"

lemma set_sorted_unique [simp]: "set (sorted_unique xs) = set xs"
  by (simp add: sorted_unique_def)

lemma distinct_sorted_unique [simp]: "distinct (sorted_unique xs)"
  by (simp add: sorted_unique_def)

lemma sorted_sorted_unique [simp]: "sorted (sorted_unique xs)"
  by (simp add: sorted_unique_def)

lemma sorted_unique_id: "sorted xs \<Longrightarrow> distinct xs \<Longrightarrow> sorted_unique xs = xs"
  by (simp add: sorted_unique_def dedup_first_distinct sorted_sort_id)

lemma sorted_unique_idem [simp]: "sorted_unique (sorted_unique xs) = sorted_unique xs"
  by (simp add: sorted_unique_id)

lemma sorted_unique_cong: "set xs = set ys \<Longrightarrow> sorted_unique xs = sorted_unique ys"
  by (rule sorted_distinct_set_unique) auto

lemma sorted_unique_Nil_iff [simp]: "sorted_unique xs = [] \<longleftrightarrow> xs = []"
  by (metis set_empty set_sorted_unique)

text \<open>
  \<open>d.setdefault(k, []).append(v)\<close> on an insertion-ordered dictionary, and the loop that
  groups a list with it.
\<close>

fun setdefault_append :: "'k \<Rightarrow> 'v \<Rightarrow> ('k \<times> 'v list) list \<Rightarrow> ('k \<times> 'v list) list" where
  "setdefault_append k v [] = [(k, [v])]"
| "setdefault_append k v ((k', vs) # d) =
     (if k' = k then (k', vs @ [v]) # d else (k', vs) # setdefault_append k v d)"

fun group_loop :: "('v \<Rightarrow> 'k) \<Rightarrow> 'v list \<Rightarrow> ('k \<times> 'v list) list \<Rightarrow> ('k \<times> 'v list) list" where
  "group_loop f [] d = d"
| "group_loop f (x # xs) d = group_loop f xs (setdefault_append (f x) x d)"

definition group_by :: "('v \<Rightarrow> 'k) \<Rightarrow> 'v list \<Rightarrow> ('k \<times> 'v list) list" where
  "group_by f xs = group_loop f xs []"

definition al_get :: "('k \<times> 'v) list \<Rightarrow> 'k \<Rightarrow> 'v \<Rightarrow> 'v" where
  "al_get d k z = (case map_of d k of None \<Rightarrow> z | Some v \<Rightarrow> v)"

lemma map_of_setdefault_append:
  "map_of (setdefault_append k v d) =
     (map_of d)(k \<mapsto> (case map_of d k of None \<Rightarrow> [v] | Some vs \<Rightarrow> vs @ [v]))"
  by (induction k v d rule: setdefault_append.induct) (auto simp: fun_eq_iff)

lemma keys_setdefault_append:
  "fst ` set (setdefault_append k v d) = insert k (fst ` set d)"
  by (induction k v d rule: setdefault_append.induct) auto

lemma distinct_setdefault_append:
  "distinct (map fst d) \<Longrightarrow> distinct (map fst (setdefault_append k v d))"
  by (induction k v d rule: setdefault_append.induct) (auto simp: keys_setdefault_append)

lemma distinct_group_loop: "distinct (map fst d) \<Longrightarrow> distinct (map fst (group_loop f xs d))"
  by (induction xs arbitrary: d) (auto simp: distinct_setdefault_append simp del: distinct_map)

lemma map_of_group_loop:
  "map_of (group_loop f xs d) k =
     (case (map_of d k, filter (\<lambda>x. f x = k) xs) of
        (None, []) \<Rightarrow> None | (None, ys) \<Rightarrow> Some ys | (Some vs, ys) \<Rightarrow> Some (vs @ ys))"
  by (induction xs arbitrary: d)
     (auto simp: map_of_setdefault_append split: option.splits list.splits)

lemma distinct_group_by [simp]: "distinct (map fst (group_by f xs))"
  by (simp add: group_by_def distinct_group_loop)

lemma map_of_group_by:
  "map_of (group_by f xs) k =
     (let ys = filter (\<lambda>x. f x = k) xs in if ys = [] then None else Some ys)"
  by (auto simp: group_by_def map_of_group_loop Let_def split: list.splits)

lemma group_by_mem_iff:
  "(k, ys) \<in> set (group_by f xs) \<longleftrightarrow> ys = filter (\<lambda>x. f x = k) xs \<and> ys \<noteq> []"
proof -
  have "(k, ys) \<in> set (group_by f xs) \<longleftrightarrow> map_of (group_by f xs) k = Some ys"
    by (rule map_of_eq_Some_iff [symmetric]) simp
  then show ?thesis by (auto simp: map_of_group_by Let_def)
qed

lemma keys_group_by: "set (map fst (group_by f xs)) = f ` set xs"
proof -
  have "k \<in> fst ` set (group_by f xs) \<longleftrightarrow> (\<exists>ys. (k, ys) \<in> set (group_by f xs))" for k
    by force
  then show ?thesis by (auto simp: group_by_mem_iff filter_empty_conv)
qed

lemma al_get_group_by: "al_get (group_by f xs) k [] = filter (\<lambda>x. f x = k) xs"
  by (simp add: al_get_def map_of_group_by Let_def split: option.splits)

text \<open>\<open>min(xs, key=f)\<close>: the first element with the least key.\<close>

fun min_by :: "('a \<Rightarrow> 'k::linorder) \<Rightarrow> 'a list \<Rightarrow> 'a option" where
  "min_by f [] = None"
| "min_by f (x # xs) =
     (case min_by f xs of None \<Rightarrow> Some x | Some y \<Rightarrow> Some (if f x \<le> f y then x else y))"

lemma min_by_mem: "min_by f xs = Some x \<Longrightarrow> x \<in> set xs"
  by (induction xs arbitrary: x) (auto split: option.splits if_splits)

lemma min_by_None [simp]: "min_by f xs = None \<longleftrightarrow> xs = []"
  by (cases xs) (auto split: option.splits)

lemma min_by_least: "min_by f xs = Some x \<Longrightarrow> y \<in> set xs \<Longrightarrow> f x \<le> f y"
proof (induction xs arbitrary: x)
  case (Cons a xs)
  show ?case
  proof (cases "min_by f xs")
    case None
    with Cons.prems show ?thesis by auto
  next
    case (Some m)
    have "y = a \<or> f m \<le> f y" using Cons.IH [OF Some] Cons.prems(2) by auto
    with Some Cons.prems(1) show ?thesis by (auto split: if_splits intro: order_trans)
  qed
qed simp

section \<open>Strings\<close>

definition char_nat :: "char \<Rightarrow> nat" where
  "char_nat c = of_char c"

definition is_space :: "char \<Rightarrow> bool" where
  "is_space c \<longleftrightarrow> char_nat c \<in> {9, 10, 11, 12, 13, 28, 29, 30, 31, 32}"

text \<open>Faster evaluation of the character classes on the bits of a character.\<close>

lemma char_nat_bits: "char_nat (Char b0 b1 b2 b3 b4 b5 b6 b7) =
   of_bool b0 + 2 * of_bool b1 + 4 * of_bool b2 + 8 * of_bool b3 + 16 * of_bool b4 + 32 * of_bool b5 + 64 * of_bool b6 + 128 * of_bool b7"
  by (simp add: char_nat_def of_char_Char horner_sum_simps)

lemma is_space_code [code]:
  "is_space (Char b0 b1 b2 b3 b4 b5 b6 b7) \<longleftrightarrow>
     (if b6 \<or> b7 then False else char_nat (Char b0 b1 b2 b3 b4 b5 b6 b7) \<in> {9, 10, 11, 12, 13, 28, 29, 30, 31, 32})"
  unfolding is_space_def char_nat_bits
  by (cases b6; cases b7; simp)

definition strip :: "string \<Rightarrow> string" where
  "strip s = rev (dropWhile is_space (rev (dropWhile is_space s)))"

text \<open>\<open>bool(s.strip())\<close>.\<close>

definition non_blank :: "string \<Rightarrow> bool" where
  "non_blank s \<longleftrightarrow> \<not> list_all is_space s"

lemma strip_Nil_iff: "strip s = [] \<longleftrightarrow> \<not> non_blank s"
proof -
  have "x \<in> set (takeWhile is_space s) \<or> x \<in> set (dropWhile is_space s)" if "x \<in> set s" for x
    using that by (metis Un_iff set_append takeWhile_dropWhile_id)
  then show ?thesis
    by (auto simp: strip_def non_blank_def list_all_iff dest: set_dropWhileD set_takeWhileD)
qed

definition lower_char :: "char \<Rightarrow> char" where
  "lower_char c = (if 65 \<le> char_nat c \<and> char_nat c \<le> 90 then char_of (char_nat c + 32) else c)"

lemma lower_char_code [code]:
  "lower_char (Char b0 b1 b2 b3 b4 b5 b6 b7) =
     (let c = Char b0 b1 b2 b3 b4 b5 b6 b7 in
      if b6 \<and> \<not> b5 \<and> \<not> b7 then
        (if 65 \<le> char_nat c \<and> char_nat c \<le> 90 then char_of (char_nat c + 32) else c)
      else c)"
  unfolding lower_char_def char_nat_bits Let_def
  by (cases b5; cases b6; cases b7; simp)

definition lower :: "string \<Rightarrow> string" where
  "lower s = map lower_char s"

definition is_word_char :: "char \<Rightarrow> bool" where
  "is_word_char c \<longleftrightarrow>
     (let n = char_nat c in (48 \<le> n \<and> n \<le> 57) \<or> (65 \<le> n \<and> n \<le> 90) \<or> n = 95 \<or> (97 \<le> n \<and> n \<le> 122))"

fun starts_with :: "string \<Rightarrow> string \<Rightarrow> bool" where
  "starts_with s [] = True"
| "starts_with [] (_ # _) = False"
| "starts_with (c # s) (d # p) = (c = d \<and> starts_with s p)"

definition ends_with :: "string \<Rightarrow> string \<Rightarrow> bool" where
  "ends_with s p = starts_with (rev s) (rev p)"

text \<open>\<open>p in s\<close> for strings.\<close>

fun contains :: "string \<Rightarrow> string \<Rightarrow> bool" where
  "contains [] p = (p = [])"
| "contains (c # s) p = (starts_with (c # s) p \<or> contains s p)"

lemma starts_with_iff: "starts_with s p \<longleftrightarrow> (\<exists>t. s = p @ t)"
  by (induction s p rule: starts_with.induct) auto

lemma starts_with_append [simp]: "starts_with (p @ t) p"
  by (auto simp: starts_with_iff)

lemma contains_iff: "contains s p \<longleftrightarrow> (\<exists>a b. s = a @ p @ b)"
proof (induction s)
  case (Cons c s)
  have "(\<exists>a b. c # s = a @ p @ b) \<longleftrightarrow> (\<exists>b. c # s = p @ b) \<or> (\<exists>a b. s = a @ p @ b)"
    by (metis append_Cons append_Nil list.inject neq_Nil_conv)
  with Cons show ?case by (simp add: starts_with_iff)
qed auto

text \<open>
  A word boundary \<open>\b\<close> lies between two positions of which exactly one carries a word
  character; \<open>word_search prev s w\<close> is \<open>re.search(r"\bw\b", s)\<close> for an escaped literal
  \<open>w\<close>, with \<open>prev\<close> the character before the current position.
\<close>

definition word_at :: "char option \<Rightarrow> bool" where
  "word_at c = (case c of None \<Rightarrow> False | Some x \<Rightarrow> is_word_char x)"

definition head_opt :: "'a list \<Rightarrow> 'a option" where
  "head_opt xs = (case xs of [] \<Rightarrow> None | x # _ \<Rightarrow> Some x)"

definition word_match_here :: "char option \<Rightarrow> string \<Rightarrow> string \<Rightarrow> bool" where
  "word_match_here prev s w \<longleftrightarrow>
     starts_with s w \<and>
     word_at prev \<noteq> word_at (head_opt s) \<and>
     (let lst = (if w = [] then prev else Some (last w))
      in word_at lst \<noteq> word_at (head_opt (drop (length w) s)))"

fun word_search :: "char option \<Rightarrow> string \<Rightarrow> string \<Rightarrow> bool" where
  "word_search prev [] w = word_match_here prev [] w"
| "word_search prev (c # s) w = (word_match_here prev (c # s) w \<or> word_search (Some c) s w)"

definition has_token :: "string \<Rightarrow> string \<Rightarrow> bool" where
  "has_token text w = word_search None text w"

lemma word_search_occurs: "word_search prev s w \<Longrightarrow> contains s w"
  by (induction s arbitrary: prev) (auto simp: word_match_here_def starts_with_iff)

lemma has_token_contains: "has_token s w \<Longrightarrow> contains s w"
  by (simp add: has_token_def word_search_occurs)

text \<open>\<open>sep.join(parts)\<close>.\<close>

fun join_with :: "string \<Rightarrow> string list \<Rightarrow> string" where
  "join_with sep [] = []"
| "join_with sep [s] = s"
| "join_with sep (s # t # ss) = s @ sep @ join_with sep (t # ss)"

section \<open>Decimal text of integers\<close>

definition digit_char :: "nat \<Rightarrow> char" where
  "digit_char d = char_of (48 + d)"

fun nat_text :: "nat \<Rightarrow> string" where
  "nat_text n = (if n < 10 then [digit_char n] else nat_text (n div 10) @ [digit_char (n mod 10)])"

declare nat_text.simps [simp del]

definition int_text :: "int \<Rightarrow> string" where
  "int_text i = (if i < 0 then CHR ''-'' # nat_text (nat (- i)) else nat_text (nat i))"

definition digit_val :: "char \<Rightarrow> nat" where
  "digit_val c = char_nat c - 48"

definition text_nat :: "string \<Rightarrow> nat" where
  "text_nat s = foldl (\<lambda>n c. 10 * n + digit_val c) 0 s"

lemma char_nat_digit_char [simp]: "d < 10 \<Longrightarrow> char_nat (digit_char d) = 48 + d"
  by (simp add: char_nat_def digit_char_def)

lemma text_nat_nat_text [simp]: "text_nat (nat_text n) = n"
proof (induction n rule: nat_text.induct)
  case (1 n)
  show ?case
  proof (cases "n < 10")
    case True
    then show ?thesis by (subst nat_text.simps) (simp add: text_nat_def digit_val_def)
  next
    case False
    then have "text_nat (nat_text (n div 10)) = n div 10" using "1" by simp
    with False show ?thesis
      by (subst nat_text.simps) (simp add: text_nat_def digit_val_def)
  qed
qed

lemma nat_text_inject [simp]: "nat_text m = nat_text n \<longleftrightarrow> m = n"
  by (metis text_nat_nat_text)

lemma nat_text_digits: "c \<in> set (nat_text n) \<Longrightarrow> 48 \<le> char_nat c \<and> char_nat c \<le> 57"
proof (induction n rule: nat_text.induct)
  case (1 n)
  show ?case
  proof (cases "n < 10")
    case True
    with "1.prems" show ?thesis by (subst (asm) nat_text.simps) simp
  next
    case False
    with "1.prems" have "c \<in> set (nat_text (n div 10)) \<or> c = digit_char (n mod 10)"
      by (subst (asm) nat_text.simps) auto
    moreover have "n mod 10 < 10" by simp
    ultimately show ?thesis using "1.IH" False by fastforce
  qed
qed

lemma nat_text_nonempty [simp]: "nat_text n \<noteq> []"
  by (subst nat_text.simps) simp

lemma int_text_inject [simp]: "int_text i = int_text j \<longleftrightarrow> i = j"
proof -
  have *: "CHR ''-'' \<notin> set (nat_text n)" for n
    using nat_text_digits [of "CHR ''-''" n] by (auto simp: char_nat_def)
  have "nat_text m \<noteq> CHR ''-'' # t" for m t
    using * [of m] by (metis list.set_intros(1))
  then show ?thesis
    by (auto simp: int_text_def) (metis)
qed

end
