(* ===== verification/Canonical.thy ===== *)
theory Canonical
  imports Prelude "HOL-Library.Multiset"
begin

text \<open>
  Canonical JSON and digests (\<open>models/canonical.py\<close>, \<open>derive_id\<close> of \<open>models/context.py\<close>).
  A JSON-shaped Python value is a \<open>json\<close>; \<open>JFloat\<close> carries the \<open>repr\<close> text of a finite
  float. The digest primitive of \<open>hashlib\<close> is the parameter \<open>H\<close> of every definition that
  hashes: a function from the encoded bytes to the hexadecimal digest.

  The lemmas show that the encoding is injective up to the order of object keys, and the
  locale \<open>identity_recipe\<close> turns that into the statement every derived identity of the
  compiler relies on: equal identities mean equal payloads, or a hash collision.
\<close>

section \<open>JSON values and their canonical encoding\<close>

datatype json =
    JNull
  | JBool bool
  | JInt int
  | JFloat string
  | JStr string
  | JList "json list"
  | JObj "(string \<times> json) list"

fun normalize_json :: "json \<Rightarrow> json" where
  "normalize_json (JList xs) = JList (map normalize_json xs)"
| "normalize_json (JObj kvs) = JObj (sort_key fst (map (\<lambda>(k, v). (k, normalize_json v)) kvs))"
| "normalize_json v = v"

definition hex_digit :: "nat \<Rightarrow> char" where
  "hex_digit d = (if d < 10 then char_of (48 + d) else char_of (87 + d))"

text \<open>The escapes of \<open>json.dumps(..., ensure_ascii=False)\<close>.\<close>

definition esc_char :: "char \<Rightarrow> string" where
  "esc_char c =
     (let n = char_nat c in
      if n = 34 then [CHR 0x5C, CHR 0x22]
      else if n = 92 then [CHR 0x5C, CHR 0x5C]
      else if n = 10 then [CHR 0x5C, CHR ''n'']
      else if n = 13 then [CHR 0x5C, CHR ''r'']
      else if n = 9 then [CHR 0x5C, CHR ''t'']
      else if n = 12 then [CHR 0x5C, CHR ''f'']
      else if n = 8 then [CHR 0x5C, CHR ''b'']
      else if n < 32 then
        [CHR 0x5C, CHR ''u'', CHR ''0'', CHR ''0'', hex_digit (n div 16), hex_digit (n mod 16)]
      else [c])"

lemma esc_char_code [code]:
  "esc_char (Char b0 b1 b2 b3 b4 b5 b6 b7) =
     (if b5 \<or> b6 \<or> b7 then
        (if b1 \<and> b5 \<and> \<not> b0 \<and> \<not> b2 \<and> \<not> b3 \<and> \<not> b4 \<and> \<not> b6 \<and> \<not> b7 then [CHR 0x5C, CHR 0x22]
         else if b2 \<and> b3 \<and> b4 \<and> b6 \<and> \<not> b0 \<and> \<not> b1 \<and> \<not> b5 \<and> \<not> b7 then [CHR 0x5C, CHR 0x5C]
         else [Char b0 b1 b2 b3 b4 b5 b6 b7])
      else (let n = char_nat (Char b0 b1 b2 b3 b4 b5 b6 b7) in
      if n = 10 then [CHR 0x5C, CHR ''n'']
      else if n = 13 then [CHR 0x5C, CHR ''r'']
      else if n = 9 then [CHR 0x5C, CHR ''t'']
      else if n = 12 then [CHR 0x5C, CHR ''f'']
      else if n = 8 then [CHR 0x5C, CHR ''b'']
      else [CHR 0x5C, CHR ''u'', CHR ''0'', CHR ''0'', hex_digit (n div 16), hex_digit (n mod 16)]))"
  unfolding esc_char_def char_nat_bits Let_def
  by (cases b0; cases b1; cases b2; cases b3; cases b4; cases b5; cases b6; cases b7; simp)

definition quote :: char where
  "quote = CHR 0x22"

definition enc_str :: "string \<Rightarrow> string" where
  "enc_str s = quote # concat (map esc_char s) @ [quote]"

fun encode :: "json \<Rightarrow> string" where
  "encode JNull = ''null''"
| "encode (JBool b) = (if b then ''true'' else ''false'')"
| "encode (JInt i) = int_text i"
| "encode (JFloat s) = s"
| "encode (JStr s) = enc_str s"
| "encode (JList xs) = ''['' @ join_with '','' (map encode xs) @ '']''"
| "encode (JObj kvs) =
     ''{'' @ join_with '','' (map (\<lambda>(k, v). enc_str k @ '':'' @ encode v) kvs) @ ''}''"

text \<open>\<open>canonical_json_bytes\<close> on a value with finite floats, and \<open>sha256_digest\<close>.\<close>

definition canonical_json_bytes :: "json \<Rightarrow> string" where
  "canonical_json_bytes v = encode (normalize_json v)"

definition sha256_digest :: "(string \<Rightarrow> string) \<Rightarrow> json \<Rightarrow> string" where
  "sha256_digest H v = H (canonical_json_bytes v)"

definition derive_id :: "(string \<Rightarrow> string) \<Rightarrow> string \<Rightarrow> json \<Rightarrow> string" where
  "derive_id H prefix v = prefix @ ''.sha256:'' @ sha256_digest H v"

text \<open>\<open>d.get(k)\<close> on a JSON object and the conversions the code applies to values.\<close>

fun jget :: "json \<Rightarrow> string \<Rightarrow> json option" where
  "jget (JObj kvs) k = map_of kvs k"
| "jget _ k = None"

definition jopt :: "string option \<Rightarrow> json" where
  "jopt s = (case s of None \<Rightarrow> JNull | Some t \<Rightarrow> JStr t)"

definition jstrs :: "string list \<Rightarrow> json" where
  "jstrs xs = JList (map JStr xs)"

definition jnat :: "nat \<Rightarrow> json" where
  "jnat n = JInt (int n)"

definition jint_opt :: "int option \<Rightarrow> json" where
  "jint_opt i = (case i of None \<Rightarrow> JNull | Some n \<Rightarrow> JInt n)"

section \<open>Well-formed values\<close>

definition num_char :: "char \<Rightarrow> bool" where
  "num_char c \<longleftrightarrow> (let n = char_nat c in (48 \<le> n \<and> n \<le> 57) \<or> n \<in> {43, 45, 46, 101})"

definition float_text :: "string \<Rightarrow> bool" where
  "float_text s \<longleftrightarrow> list_all num_char s \<and> list_ex (\<lambda>c. char_nat c = 46 \<or> char_nat c = 101) s"

fun wf_json :: "json \<Rightarrow> bool" where
  "wf_json (JFloat s) = float_text s"
| "wf_json (JList xs) = list_all wf_json xs"
| "wf_json (JObj kvs) = (distinct (map fst kvs) \<and> list_all (\<lambda>(k, v). wf_json v) kvs)"
| "wf_json _ = True"

lemma wf_jopt [simp]: "wf_json (jopt s)"
  by (simp add: jopt_def split: option.split)

lemma wf_jstrs [simp]: "wf_json (jstrs xs)"
  by (simp add: jstrs_def list_all_iff)

lemma wf_jint_opt [simp]: "wf_json (jint_opt i)"
  by (simp add: jint_opt_def split: option.split)

lemma wf_jnat [simp]: "wf_json (jnat n)"
  by (simp add: jnat_def)

lemma wf_normalize_json: "wf_json v \<Longrightarrow> wf_json (normalize_json v)"
proof (induction v rule: normalize_json.induct)
  case (2 kvs)
  let ?f = "\<lambda>(k, v). (k, normalize_json v)"
  have "map fst (map ?f kvs) = map fst kvs" by (induction kvs) auto
  moreover have "mset (map fst (sort_key fst (map ?f kvs))) = mset (map fst (map ?f kvs))"
    by (subst mset_map, subst mset_map) simp
  ultimately have "distinct (map fst (sort_key fst (map ?f kvs)))"
    using "2.prems" by (metis mset_eq_imp_distinct_iff wf_json.simps(3))
  then show ?case using 2 by (auto simp: list_all_iff)
qed (auto simp: list_all_iff)

lemma normalize_json_idem: "normalize_json (normalize_json v) = normalize_json v"
proof (induction v rule: normalize_json.induct)
  case (2 kvs)
  let ?f = "\<lambda>(k, v). (k, normalize_json v)"
  have "map ?f (sort_key fst (map ?f kvs)) = sort_key fst (map ?f kvs)"
    by (rule map_idI) (use 2 in force)
  then show ?case by (simp add: sorted_sort_id sort_key_id_if_sorted sorted_sort_key)
qed auto

section \<open>The encoding is injective\<close>

lemma esc_char_nonempty [simp]: "esc_char c \<noteq> []"
  by (simp add: esc_char_def Let_def)

lemma char_nat_inject [simp]: "char_nat c = char_nat d \<longleftrightarrow> c = d"
  by (simp add: char_nat_def)

lemma char_nat_char_of [simp]: "n < 256 \<Longrightarrow> char_nat (char_of n) = n"
  by (simp add: char_nat_def)

lemma char_of_char_nat [simp]: "char_of (char_nat c) = c"
  by (simp add: char_nat_def)

text \<open>A one-character decoder, used only to show that the escapes form a prefix code.\<close>

definition hex_val :: "char \<Rightarrow> nat" where
  "hex_val c = (if char_nat c < 58 then char_nat c - 48 else char_nat c - 87)"

definition unesc_simple :: "char \<Rightarrow> nat" where
  "unesc_simple u =
     (if u = CHR ''n'' then 10 else if u = CHR ''r'' then 13 else if u = CHR ''t'' then 9
      else if u = CHR ''f'' then 12 else if u = CHR ''b'' then 8 else char_nat u)"

fun unesc :: "string \<Rightarrow> (char \<times> string) option" where
  "unesc (b # u # s) =
     (if char_nat b \<noteq> 92 then Some (b, u # s)
      else if u = CHR ''u'' then
        (case s of _ # _ # h # l # r \<Rightarrow> Some (char_of (16 * hex_val h + hex_val l), r) | _ \<Rightarrow> None)
      else Some (char_of (unesc_simple u), s))"
| "unesc [b] = Some (b, [])"
| "unesc [] = None"

lemma hex_val_hex_digit [simp]: "d < 16 \<Longrightarrow> hex_val (hex_digit d) = d"
  by (auto simp: hex_val_def hex_digit_def)

lemma char_nat_Char [simp]:
  "char_nat (Char b0 b1 b2 b3 b4 b5 b6 b7) = of_char (Char b0 b1 b2 b3 b4 b5 b6 b7)"
  by (simp add: char_nat_def)

lemma unesc_plain: "char_nat b \<noteq> 92 \<Longrightarrow> unesc (b # s) = Some (b, s)"
  by (cases s) simp_all

lemma unesc_esc_char: "unesc (esc_char c @ xs) = Some (c, xs)"
proof (cases "char_nat c < 32 \<and> char_nat c \<notin> {8, 9, 10, 12, 13}")
  case True
  moreover have "16 * (char_nat c div 16) + char_nat c mod 16 = char_nat c" by simp
  ultimately show ?thesis by (auto simp: esc_char_def Let_def)
next
  case False
  have lit: "char_of (34 :: nat) = CHR 0x22" "char_of (92 :: nat) = CHR 0x5C"
    by (simp_all flip: char_nat_inject)
  have simple: "unesc (esc_char (char_of n) @ xs) = Some (char_of n, xs)"
    if "n \<in> {34, 92, 10, 13, 9, 12, 8 :: nat}" for n
    using that by (elim insertE emptyE) (simp_all add: esc_char_def unesc_simple_def lit)
  show ?thesis
  proof (cases "char_nat c \<in> {34, 92, 10, 13, 9, 12, 8}")
    case True
    from simple [OF this] show ?thesis by simp
  next
    case False
    with \<open>\<not> (char_nat c < 32 \<and> char_nat c \<notin> {8, 9, 10, 12, 13})\<close>
    have "esc_char c = [c]" "char_nat c \<noteq> 92" by (auto simp: esc_char_def Let_def)
    then show ?thesis by (simp add: unesc_plain)
  qed
qed

lemma esc_char_prefix: "esc_char c @ xs = esc_char d @ ys \<Longrightarrow> c = d \<and> xs = ys"
  by (metis unesc_esc_char option.inject prod.inject)

lemma esc_char_head: "esc_char c = d # t \<Longrightarrow> d \<noteq> quote"
  by (auto simp: esc_char_def Let_def quote_def split: if_splits)

lemma esc_char_not_quote: "quote # u \<noteq> esc_char c @ v"
  using esc_char_nonempty [of c] esc_char_head [of c] by (cases "esc_char c") auto

lemma enc_str_prefix: "enc_str s @ xs = enc_str t @ ys \<Longrightarrow> s = t \<and> xs = ys"
proof -
  have "concat (map esc_char s) @ quote # xs = concat (map esc_char t) @ quote # ys \<Longrightarrow> s = t \<and> xs = ys"
  proof (induction s arbitrary: t)
    case Nil
    then show ?case
    proof (cases t)
      case (Cons c t')
      with Nil esc_char_not_quote show ?thesis by auto
    qed simp
  next
    case (Cons c s)
    show ?case
    proof (cases t)
      case Nil
      with Cons.prems esc_char_not_quote [of _ c] show ?thesis by (auto dest: sym)
    next
      case (Cons d t')
      with Cons.prems have "c = d \<and>
          concat (map esc_char s) @ quote # xs = concat (map esc_char t') @ quote # ys"
        by (intro esc_char_prefix) simp
      with Cons Cons.IH show ?thesis by blast
    qed
  qed
  then show "enc_str s @ xs = enc_str t @ ys \<Longrightarrow> s = t \<and> xs = ys"
    by (simp add: enc_str_def)
qed

definition delim :: "string \<Rightarrow> bool" where
  "delim s \<longleftrightarrow> s = [] \<or> hd s \<in> {CHR '','', CHR '']'', CHR ''}''}"

lemma delim_simps [simp]:
  "delim []" "delim (CHR '','' # s)" "delim (CHR '']'' # s)" "delim (CHR ''}'' # s)"
  by (simp_all add: delim_def)

lemma delim_not_num: "delim (c # s) \<Longrightarrow> \<not> num_char c"
  by (auto simp: delim_def num_char_def)

lemma num_span:
  assumes "list_all num_char a" "list_all num_char b" "delim xs" "delim ys" "a @ xs = b @ ys"
  shows "a = b \<and> xs = ys"
proof -
  have "takeWhile num_char (a @ xs) = a" if "list_all num_char a" "delim xs" for a xs
    using that by (cases xs) (auto simp: takeWhile_append2 list_all_iff dest: delim_not_num)
  with assms have "a = b" by metis
  with assms show ?thesis by simp
qed

lemma int_text_chars: "c \<in> set (int_text i) \<Longrightarrow> char_nat c = 45 \<or> 48 \<le> char_nat c \<and> char_nat c \<le> 57"
  using nat_text_digits by (auto simp: int_text_def split: if_splits)

lemma num_char_int_text: "list_all num_char (int_text i)"
  using int_text_chars by (fastforce simp: list_all_iff num_char_def Let_def)

lemma int_text_not_float: "\<not> float_text (int_text i)"
  using int_text_chars by (fastforce simp: float_text_def list_ex_iff)

definition seq_tail :: "('a \<Rightarrow> string) \<Rightarrow> 'a list \<Rightarrow> string" where
  "seq_tail f zs = concat (map (\<lambda>z. CHR '','' # f z) zs)"

lemma seq_tail_simps: "seq_tail f [] = []" "seq_tail f (z # zs) = CHR '','' # f z @ seq_tail f zs"
  by (simp_all add: seq_tail_def)

lemma join_with_map: "join_with '','' (map f (x # xs)) = f x @ seq_tail f xs"
  by (induction xs arbitrary: x) (auto simp: seq_tail_simps)

lemma delim_seq_tail: "delim (c # u) \<Longrightarrow> delim (seq_tail f zs @ c # u)"
  by (cases zs) (auto simp: seq_tail_simps)

lemma seq_prefix:
  assumes elem: "\<And>x y u v. x \<in> set xs \<Longrightarrow> P x \<Longrightarrow> P y \<Longrightarrow> delim u \<Longrightarrow> delim v \<Longrightarrow>
      f x @ u = f y @ v \<Longrightarrow> x = y \<and> u = v"
    and start: "\<And>x t. P x \<Longrightarrow> f x @ t \<noteq> cl # u \<and> f x @ t \<noteq> cl # v"
    and cl: "cl \<noteq> CHR '',''" "\<And>s. delim (cl # s)"
    and P: "list_all P xs" "list_all P ys"
    and eq: "join_with '','' (map f xs) @ cl # u = join_with '','' (map f ys) @ cl # v"
  shows "xs = ys \<and> u = v"
proof -
  have step: "x = y \<and> seq_tail f zs @ cl # u = seq_tail f ws @ cl # v"
    if "x \<in> set xs" "P x" "P y" "f x @ seq_tail f zs @ cl # u = f y @ seq_tail f ws @ cl # v"
    for x y zs ws
    by (rule elem [OF that(1-3) _ _ that(4)]) (simp_all add: delim_seq_tail cl)
  have tail: "zs = ws \<and> u = v"
    if "set zs \<subseteq> set xs" "list_all P zs" "list_all P ws"
      "seq_tail f zs @ cl # u = seq_tail f ws @ cl # v" for zs ws
    using that
  proof (induction zs arbitrary: ws)
    case Nil
    with cl show ?case by (cases ws) (auto simp: seq_tail_simps)
  next
    case (Cons z zs)
    then obtain w ws' where ws: "ws = w # ws'"
      using cl by (cases ws) (auto simp: seq_tail_simps)
    with Cons.prems step [of z w zs ws'] Cons.IH [of ws'] show ?case
      by (auto simp: seq_tail_simps)
  qed
  show ?thesis
  proof (cases "xs = [] \<or> ys = []")
    case True
    consider "xs = []" "ys = []" | y ys' where "xs = []" "ys = y # ys'"
      | x xs' where "xs = x # xs'" "ys = []"
      using True by (meson neq_Nil_conv)
    then show ?thesis
    proof cases
      case 2
      then have "f y @ seq_tail f ys' @ cl # v = cl # u"
        using eq by (simp only: join_with_map list.map(1) join_with.simps append.simps append_assoc)
      with start 2 P show ?thesis by force
    next
      case 3
      then have "f x @ seq_tail f xs' @ cl # u = cl # v"
        using eq by (simp only: join_with_map list.map(1) join_with.simps append.simps append_assoc)
      with start 3 P show ?thesis by force
    qed (use eq in simp)
  next
    case False
    then obtain x xs' y ys' where xy: "xs = x # xs'" "ys = y # ys'" by (meson neq_Nil_conv)
    with eq have "f x @ seq_tail f xs' @ cl # u = f y @ seq_tail f ys' @ cl # v"
      by (simp add: join_with_map del: list.map)
    with step [of x y xs' ys'] tail [of xs' ys'] xy P show ?thesis by auto
  qed
qed

text \<open>The first byte of an encoding tells the kind of the value.\<close>

definition json_tag :: "json \<Rightarrow> nat" where
  "json_tag v = (case v of JNull \<Rightarrow> 0 | JBool b \<Rightarrow> (if b then 1 else 2) | JInt _ \<Rightarrow> 3 | JFloat _ \<Rightarrow> 3
     | JStr _ \<Rightarrow> 4 | JList _ \<Rightarrow> 5 | JObj _ \<Rightarrow> 6)"

definition head_tag :: "char \<Rightarrow> nat" where
  "head_tag c = (if num_char c then 3 else if c = CHR ''n'' then 0 else if c = CHR ''t'' then 1
     else if c = CHR ''f'' then 2 else if c = quote then 4 else if c = CHR ''['' then 5
     else if c = CHR ''{'' then 6 else 7)"

lemma num_text_head: "list_all num_char s \<Longrightarrow> s \<noteq> [] \<Longrightarrow> \<exists>c t. s = c # t \<and> head_tag c = 3"
  by (cases s) (auto simp: head_tag_def)

lemma encode_head: "wf_json v \<Longrightarrow> \<exists>c t. encode v = c # t \<and> head_tag c = json_tag v"
proof (cases v)
  case (JInt i)
  have "int_text i \<noteq> []" by (simp add: int_text_def)
  with JInt num_text_head [OF num_char_int_text] show ?thesis by (auto simp: json_tag_def)
next
  case (JFloat s)
  moreover assume "wf_json v"
  ultimately show ?thesis
    using num_text_head [of s] by (cases s) (auto simp: json_tag_def float_text_def)
qed (auto simp: json_tag_def head_tag_def num_char_def enc_str_def quote_def)

lemma encode_append_tag:
  "wf_json a \<Longrightarrow> wf_json b \<Longrightarrow> encode a @ xs = encode b @ ys \<Longrightarrow> json_tag a = json_tag b"
  using encode_head [of a] encode_head [of b] by auto

lemma encode_not_closer: "wf_json v \<Longrightarrow> head_tag c = 7 \<Longrightarrow> encode v @ t \<noteq> c # u"
  using encode_head [of v] by (auto simp: json_tag_def split: json.splits if_splits)

lemma head_tag_closers: "head_tag CHR '']'' = 7" "head_tag CHR ''}'' = 7"
  by (simp_all add: head_tag_def num_char_def quote_def)

lemma json_tag_cases:
  "json_tag v = 0 \<longleftrightarrow> v = JNull" "json_tag v = Suc 0 \<longleftrightarrow> v = JBool True"
  "json_tag v = 2 \<longleftrightarrow> v = JBool False" "json_tag v = 3 \<longleftrightarrow> (\<exists>i. v = JInt i) \<or> (\<exists>s. v = JFloat s)"
  "json_tag v = 4 \<longleftrightarrow> (\<exists>s. v = JStr s)" "json_tag v = 5 \<longleftrightarrow> (\<exists>xs. v = JList xs)"
  "json_tag v = 6 \<longleftrightarrow> (\<exists>kvs. v = JObj kvs)"
  by (auto simp: json_tag_def split: json.splits if_splits)

lemma encode_number_prefix:
  assumes "json_tag a = 3" "json_tag b = 3" "wf_json a" "wf_json b" "delim xs" "delim ys"
    "encode a @ xs = encode b @ ys"
  shows "a = b \<and> xs = ys"
proof -
  have num: "list_all num_char (encode v)" if "json_tag v = 3" "wf_json v" for v
    using that num_char_int_text by (auto simp: json_tag_cases float_text_def)
  have "encode a = encode b \<and> xs = ys"
    by (rule num_span) (use assms num in auto)
  with assms int_text_not_float show ?thesis by (auto simp: json_tag_cases)
qed

lemma encode_prefix:
  assumes "wf_json a" "wf_json b" "delim xs" "delim ys" "encode a @ xs = encode b @ ys"
  shows "a = b \<and> xs = ys"
  using assms
proof (induction a arbitrary: b xs ys rule: encode.induct)
  case 1
  have "json_tag b = 0" using encode_append_tag [OF "1.prems"(1,2,5)] by (simp add: json_tag_def)
  with "1.prems"(5) show ?case by (simp add: json_tag_cases)
next
  case (2 v)
  have "json_tag b = (if v then Suc 0 else 2)"
    using encode_append_tag [OF "2.prems"(1,2,5)]
    by (auto simp: json_tag_def [of "JBool _"] split: if_splits)
  with "2.prems"(5) show ?case by (auto simp: json_tag_cases split: if_splits)
next
  case (3 i)
  then show ?case
    using encode_append_tag [OF "3.prems"(1,2,5)] by (intro encode_number_prefix) (simp_all add: json_tag_def)
next
  case (4 s)
  then show ?case
    using encode_append_tag [OF "4.prems"(1,2,5)] by (intro encode_number_prefix) (simp_all add: json_tag_def)
next
  case (5 s)
  have "json_tag b = 4" using encode_append_tag [OF "5.prems"(1,2,5)] by (simp add: json_tag_def)
  with "5.prems"(5) show ?case by (auto simp: json_tag_cases dest: enc_str_prefix)
next
  case (6 as)
  have "json_tag b = 5" using encode_append_tag [OF "6.prems"(1,2,5)] by (simp add: json_tag_def)
  then obtain bs where b: "b = JList bs" by (auto simp: json_tag_cases)
  have "as = bs \<and> xs = ys"
  proof (rule seq_prefix [where P = wf_json and f = encode and cl = "CHR '']''"])
    show "x = y \<and> u = v"
      if "x \<in> set as" "wf_json x" "wf_json y" "delim u" "delim v" "encode x @ u = encode y @ v"
      for x y u v using "6.IH" that by blast
  qed (use "6.prems" b encode_not_closer head_tag_closers in auto)
  with b show ?case by simp
next
  case (7 as)
  have "json_tag b = 6" using encode_append_tag [OF "7.prems"(1,2,5)] by (simp add: json_tag_def)
  then obtain bs where b: "b = JObj bs" by (auto simp: json_tag_cases)
  let ?f = "\<lambda>(k, v). enc_str k @ '':'' @ encode v"
  have "as = bs \<and> xs = ys"
  proof (rule seq_prefix [where P = "\<lambda>(k, v). wf_json v" and f = ?f and cl = "CHR ''}''"])
    show "x = y \<and> u = v"
      if "x \<in> set as" "(\<lambda>(k, v). wf_json v) x" "(\<lambda>(k, v). wf_json v) y" "delim u" "delim v"
        "?f x @ u = ?f y @ v" for x y u v
    proof -
      obtain k w k' w' where xy: "x = (k, w)" "y = (k', w')" by (cases x, cases y)
      with that have "k = k' \<and> '':'' @ encode w @ u = '':'' @ encode w' @ v"
        by (intro enc_str_prefix) simp
      with xy that "7.IH" [of x k w] show ?thesis by auto
    qed
  qed (use "7.prems" b in \<open>auto simp: enc_str_def quote_def\<close>)
  with b show ?case by simp
qed

text \<open>
  The canonical text determines the value up to the order of object keys.
\<close>

lemma canonical_json_bytes_inj:
  assumes "wf_json a" "wf_json b" "canonical_json_bytes a = canonical_json_bytes b"
  shows "normalize_json a = normalize_json b"
  using encode_prefix [of "normalize_json a" "normalize_json b" "[]" "[]"] assms
  by (simp add: canonical_json_bytes_def wf_normalize_json)

text \<open>Reordering the keys of an object never changes its canonical text.\<close>

lemma normalize_json_key_order:
  assumes "distinct (map fst kvs)" "mset kvs = mset kvs'"
  shows "normalize_json (JObj kvs) = normalize_json (JObj kvs')"
proof -
  let ?g = "map (\<lambda>(k, v). (k, normalize_json v))"
  have fst: "map fst (?g xs) = map fst xs" for xs :: "(string \<times> json) list"
    by (induction xs) auto
  have perm: "mset (?g kvs) = mset (?g kvs')" using assms(2) by (metis mset_map)
  have "inj_on fst (set (?g kvs))"
    using assms(1) fst by (metis distinct_map)
  with perm have "sort_key fst (?g kvs) = sort_key fst (?g kvs')"
    by (intro sort_key_inj_key_eq) auto
  then show ?thesis by simp
qed

section \<open>Derived identities\<close>

text \<open>Two values that differ canonically and have the same digest.\<close>

definition hash_collision :: "(string \<Rightarrow> string) \<Rightarrow> json \<Rightarrow> json \<Rightarrow> bool" where
  "hash_collision H a b \<longleftrightarrow> canonical_json_bytes a \<noteq> canonical_json_bytes b
     \<and> H (canonical_json_bytes a) = H (canonical_json_bytes b)"

lemma sha256_digest_eq:
  assumes "wf_json a" "wf_json b" "sha256_digest H a = sha256_digest H b"
  shows "normalize_json a = normalize_json b \<or> hash_collision H a b"
proof (cases "canonical_json_bytes a = canonical_json_bytes b")
  case True
  with assms canonical_json_bytes_inj show ?thesis by blast
next
  case False
  with assms(3) show ?thesis unfolding sha256_digest_def hash_collision_def by blast
qed

lemma sha256_digest_cong: "normalize_json a = normalize_json b \<Longrightarrow> sha256_digest H a = sha256_digest H b"
  by (simp add: sha256_digest_def canonical_json_bytes_def)

text \<open>
  Every identity recipe of the compiler (item, unknown, requirement, plan, scope, capability
  and authority requirement) has this shape: a fixed prefix and the digest of a payload.
\<close>

locale identity_recipe =
  fixes payload :: "'a \<Rightarrow> json"
    and ident :: "(string \<Rightarrow> string) \<Rightarrow> 'a \<Rightarrow> string"
    and prefix :: string
    and ok :: "'a \<Rightarrow> bool"
  assumes ident_eq: "ident H x = derive_id H prefix (payload x)"
    and wf_payload: "ok x \<Longrightarrow> wf_json (payload x)"
begin

lemma ident_cong: "normalize_json (payload x) = normalize_json (payload y) \<Longrightarrow> ident H x = ident H y"
  unfolding ident_eq derive_id_def by (auto dest: sha256_digest_cong)

lemma ident_inj:
  assumes "ok x" "ok y" "ident H x = ident H y"
  shows "normalize_json (payload x) = normalize_json (payload y) \<or> hash_collision H (payload x) (payload y)"
proof (rule sha256_digest_eq)
  show "sha256_digest H (payload x) = sha256_digest H (payload y)"
    using assms(3) by (simp add: ident_eq derive_id_def)
qed (use assms wf_payload in auto)

lemma ident_nonempty: "ident H x \<noteq> []"
  by (simp add: ident_eq derive_id_def)

end

section \<open>Properties\<close>



end
