(* ===== verification/Artifacts.thy ===== *)
theory Artifacts
  imports Canonical
begin

text \<open>
  The typed artifacts of \<open>models/artifacts.py\<close>: one datatype per \<open>StrEnum\<close> with its
  \<open>value\<close>, one record per \<open>ArtifactModel\<close> class, and for every class its canonical
  dictionary (\<open>to_canonical_dict\<close> of \<open>models/base.py\<close>). Field names carry a prefix where
  two classes share one.
\<close>

section \<open>Enumerations\<close>

datatype validation_status =
  VS_PASSED | VS_FAILED | VS_BLOCKED | VS_NOT_RUN | VS_UNKNOWN | VS_NOT_APPLICABLE_WITH_REASON

fun validation_status_value :: "validation_status \<Rightarrow> string" where
  "validation_status_value VS_PASSED = ''passed''"
| "validation_status_value VS_FAILED = ''failed''"
| "validation_status_value VS_BLOCKED = ''blocked''"
| "validation_status_value VS_NOT_RUN = ''not_run''"
| "validation_status_value VS_UNKNOWN = ''unknown''"
| "validation_status_value VS_NOT_APPLICABLE_WITH_REASON = ''not_applicable_with_reason''"

definition all_validation_statuses :: "validation_status list" where
  "all_validation_statuses =
     [VS_PASSED, VS_FAILED, VS_BLOCKED, VS_NOT_RUN, VS_UNKNOWN, VS_NOT_APPLICABLE_WITH_REASON]"

datatype realization_mode = MUTATION | ARTIFACT | ANALYSIS | DECISION | UNKNOWN_MODE

fun realization_mode_value :: "realization_mode \<Rightarrow> string" where
  "realization_mode_value MUTATION = ''MUTATION''"
| "realization_mode_value ARTIFACT = ''ARTIFACT''"
| "realization_mode_value ANALYSIS = ''ANALYSIS''"
| "realization_mode_value DECISION = ''DECISION''"
| "realization_mode_value UNKNOWN_MODE = ''UNKNOWN''"

datatype delivery_mode =
  RETURNED_ARCHIVE | RETURNED_FILES | PERSISTED_REPOSITORY | IN_PLACE_WORKSPACE | NO_DELIVERY

fun delivery_mode_value :: "delivery_mode \<Rightarrow> string" where
  "delivery_mode_value RETURNED_ARCHIVE = ''RETURNED_ARCHIVE''"
| "delivery_mode_value RETURNED_FILES = ''RETURNED_FILES''"
| "delivery_mode_value PERSISTED_REPOSITORY = ''PERSISTED_REPOSITORY''"
| "delivery_mode_value IN_PLACE_WORKSPACE = ''IN_PLACE_WORKSPACE''"
| "delivery_mode_value NO_DELIVERY = ''NONE''"

datatype obligation_kind =
  REALIZATION | ARCHITECTURE | VALIDATION | DELIVERY | AUTHORITY | EPISTEMIC | CONVERGENCE

fun obligation_kind_value :: "obligation_kind \<Rightarrow> string" where
  "obligation_kind_value REALIZATION = ''REALIZATION''"
| "obligation_kind_value ARCHITECTURE = ''ARCHITECTURE''"
| "obligation_kind_value VALIDATION = ''VALIDATION''"
| "obligation_kind_value DELIVERY = ''DELIVERY''"
| "obligation_kind_value AUTHORITY = ''AUTHORITY''"
| "obligation_kind_value EPISTEMIC = ''EPISTEMIC''"
| "obligation_kind_value CONVERGENCE = ''CONVERGENCE''"

datatype obligation_disposition =
    PENDING
  | SATISFIED
  | VALID_BLOCK
  | SUPERSEDED_BY_HIGHER_AUTHORITY
  | NOT_APPLICABLE_WITH_DETERMINISTIC_PROOF

fun disposition_value :: "obligation_disposition \<Rightarrow> string" where
  "disposition_value PENDING = ''PENDING''"
| "disposition_value SATISFIED = ''SATISFIED''"
| "disposition_value VALID_BLOCK = ''VALID_BLOCK''"
| "disposition_value SUPERSEDED_BY_HIGHER_AUTHORITY = ''SUPERSEDED_BY_HIGHER_AUTHORITY''"
| "disposition_value NOT_APPLICABLE_WITH_DETERMINISTIC_PROOF =
     ''NOT_APPLICABLE_WITH_DETERMINISTIC_PROOF''"

section \<open>Intent\<close>

record objective_spec =
  requested :: bool
  realization_mode :: realization_mode
  acceptance_conditions :: "string list"
  validation_required :: bool
  delivery_required :: bool
  delivery_mode :: delivery_mode

definition objective_json :: "objective_spec \<Rightarrow> json" where
  "objective_json x = JObj
     [(''requested'', JBool (requested x)),
      (''realization_mode'', JStr (realization_mode_value (realization_mode x))),
      (''acceptance_conditions'', jstrs (acceptance_conditions x)),
      (''validation_required'', JBool (validation_required x)),
      (''delivery_required'', JBool (delivery_required x)),
      (''delivery_mode'', JStr (delivery_mode_value (delivery_mode x)))]"

record obligation =
  obligation_id :: string
  ob_kind :: obligation_kind
  ob_source_ref :: string
  ob_required :: bool
  owner :: string
  consumer_refs :: "string list"
  evidence_requirements :: "string list"
  disposition :: obligation_disposition

definition obligation_json :: "obligation \<Rightarrow> json" where
  "obligation_json x = JObj
     [(''obligation_id'', JStr (obligation_id x)),
      (''kind'', JStr (obligation_kind_value (ob_kind x))),
      (''source_ref'', JStr (ob_source_ref x)),
      (''required'', JBool (ob_required x)),
      (''owner'', JStr (owner x)),
      (''consumer_refs'', jstrs (consumer_refs x)),
      (''evidence_requirements'', jstrs (evidence_requirements x)),
      (''disposition'', JStr (disposition_value (disposition x)))]"

record validation_property =
  property_id :: string
  obligation_ref :: string
  evaluator :: string
  evidence_type :: string
  vp_required :: bool
  vp_status :: validation_status
  vp_evidence_refs :: "string list"

definition validation_property_json :: "validation_property \<Rightarrow> json" where
  "validation_property_json p = JObj
     [(''property_id'', JStr (property_id p)),
      (''obligation_ref'', JStr (obligation_ref p)),
      (''evaluator'', JStr (evaluator p)),
      (''evidence_type'', JStr (evidence_type p)),
      (''required'', JBool (vp_required p)),
      (''status'', JStr (validation_status_value (vp_status p))),
      (''evidence_refs'', jstrs (vp_evidence_refs p))]"

record intent_contract =
  intent_id :: string
  mission :: string
  task_type :: string
  int_constraints :: "string list"
  desired_outputs :: "string list"
  source_context :: "(string \<times> json) list"
  int_unknowns :: "string list"
  objective :: objective_spec
  accountability_required :: bool
  int_obligations :: "obligation list"

text \<open>\<open>mission: str = Field(min_length=1)\<close> is the one constraint of \<open>from_mapping\<close>.\<close>

definition make_intent :: "intent_contract \<Rightarrow> intent_contract res" where
  "make_intent i =
     (if mission i = [] then Inl (InvalidValueError ''String should have at least 1 character'' ''mission'')
      else Inr i)"

definition intent_json :: "intent_contract \<Rightarrow> json" where
  "intent_json i = JObj
     [(''intent_id'', JStr (intent_id i)),
      (''mission'', JStr (mission i)),
      (''task_type'', JStr (task_type i)),
      (''constraints'', jstrs (int_constraints i)),
      (''desired_outputs'', jstrs (desired_outputs i)),
      (''source_context'', JObj (source_context i)),
      (''unknowns'', jstrs (int_unknowns i)),
      (''objective'', objective_json (objective i)),
      (''accountability'', JObj [(''required'', JBool (accountability_required i))]),
      (''obligations'', JList (map obligation_json (int_obligations i)))]"

section \<open>Execution, validation and handoff contracts\<close>

record execution_step =
  step_id :: string
  phase :: string
  kernel_refs :: "string list"
  obligation_refs :: "string list"
  input_refs :: "string list"
  output_refs :: "string list"
  entry_gates :: "string list"
  exit_gates :: "string list"
  step_evidence :: "string list"
  failure_routes :: "string list"

definition execution_step_json :: "execution_step \<Rightarrow> json" where
  "execution_step_json s = JObj
     [(''step_id'', JStr (step_id s)),
      (''phase'', JStr (phase s)),
      (''kernel_refs'', jstrs (kernel_refs s)),
      (''obligation_refs'', jstrs (obligation_refs s)),
      (''input_refs'', jstrs (input_refs s)),
      (''output_refs'', jstrs (output_refs s)),
      (''entry_gates'', jstrs (entry_gates s)),
      (''exit_gates'', jstrs (exit_gates s)),
      (''evidence_requirements'', jstrs (step_evidence s)),
      (''failure_routes'', jstrs (failure_routes s))]"

record execution_contract =
  contract_id :: string
  source_activation_plan :: string
  terminal_doctrine :: string
  exec_objective :: string
  authority_order :: "string list"
  kernel_activation :: "string list"
  execution_sequence :: "string list"
  validation_requirements :: "string list"
  output_contract :: "string list"
  adapter_targets :: "string list"
  exec_version :: "string option"
  stop_conditions :: "string list"
  metadata :: "(string \<times> json) list"
  obligations :: "obligation list"
  execution_steps :: "execution_step list"

definition execution_json :: "execution_contract \<Rightarrow> json" where
  "execution_json e = JObj
     [(''contract_id'', JStr (contract_id e)),
      (''contract_type'', JStr ''universal_execution_contract''),
      (''source_activation_plan'', JStr (source_activation_plan e)),
      (''terminal_doctrine'', JStr (terminal_doctrine e)),
      (''objective'', JStr (exec_objective e)),
      (''authority_order'', jstrs (authority_order e)),
      (''kernel_activation'', jstrs (kernel_activation e)),
      (''execution_sequence'', jstrs (execution_sequence e)),
      (''validation_requirements'', jstrs (validation_requirements e)),
      (''output_contract'', jstrs (output_contract e)),
      (''adapter_targets'', jstrs (adapter_targets e)),
      (''version'', jopt (exec_version e)),
      (''stop_conditions'', jstrs (stop_conditions e)),
      (''metadata'', JObj (metadata e)),
      (''obligations'', JList (map obligation_json (obligations e))),
      (''execution_steps'', JList (map execution_step_json (execution_steps e)))]"

record validation_contract =
  val_contract_id :: string
  validation_ladder :: "string list"
  evidence_required :: "string list"
  allowed_statuses :: "validation_status list"
  report_outputs :: "string list"
  validation_properties :: "validation_property list"

definition validation_json :: "validation_contract \<Rightarrow> json" where
  "validation_json v = JObj
     [(''contract_id'', JStr (val_contract_id v)),
      (''contract_type'', JStr ''validation_contract''),
      (''validation_ladder'', jstrs (validation_ladder v)),
      (''evidence_required'', jstrs (evidence_required v)),
      (''allowed_statuses'', jstrs (map validation_status_value (allowed_statuses v))),
      (''report_outputs'', jstrs (report_outputs v)),
      (''validation_properties'', JList (map validation_property_json (validation_properties v)))]"

record handoff_contract =
  hand_contract_id :: string
  handoff_summary :: string
  loaded_context :: "string list"
  next_action :: string
  hand_unknowns :: "string list"
  decisions :: "string list"
  adapter_notes :: "(string \<times> string) list"
  hand_obligations :: "obligation list"

definition handoff_json :: "handoff_contract \<Rightarrow> json" where
  "handoff_json h = JObj
     [(''contract_id'', JStr (hand_contract_id h)),
      (''contract_type'', JStr ''handoff_contract''),
      (''handoff_summary'', JStr (handoff_summary h)),
      (''loaded_context'', jstrs (loaded_context h)),
      (''next_action'', JStr (next_action h)),
      (''unknowns'', jstrs (hand_unknowns h)),
      (''decisions'', jstrs (decisions h)),
      (''adapter_notes'', JObj (map (\<lambda>(k, v). (k, JStr v)) (adapter_notes h))),
      (''obligations'', JList (map obligation_json (hand_obligations h)))]"

section \<open>Execution graph\<close>

record graph_node =
  node_id :: string
  node_phase :: string
  node_kernel_refs :: "string list"
  node_outputs :: "string list"
  node_status :: "string option"
  node_obligation_refs :: "string list"
  node_inputs :: "string list"
  node_entry_gates :: "string list"
  node_exit_gates :: "string list"
  node_evidence :: "string list"
  node_failure_routes :: "string list"
  node_disposition :: "string option"

definition graph_node_json :: "graph_node \<Rightarrow> json" where
  "graph_node_json n = JObj
     [(''id'', JStr (node_id n)),
      (''phase'', JStr (node_phase n)),
      (''kernel_refs'', jstrs (node_kernel_refs n)),
      (''outputs'', jstrs (node_outputs n)),
      (''status'', jopt (node_status n)),
      (''obligation_refs'', jstrs (node_obligation_refs n)),
      (''inputs'', jstrs (node_inputs n)),
      (''entry_gates'', jstrs (node_entry_gates n)),
      (''exit_gates'', jstrs (node_exit_gates n)),
      (''evidence_requirements'', jstrs (node_evidence n)),
      (''failure_routes'', jstrs (node_failure_routes n)),
      (''disposition'', jopt (node_disposition n))]"

record graph_edge =
  from_node :: string
  to_node :: string
  edge_reason :: "string option"

definition graph_edge_json :: "graph_edge \<Rightarrow> json" where
  "graph_edge_json e = JObj
     [(''from'', JStr (from_node e)), (''to'', JStr (to_node e)), (''reason'', jopt (edge_reason e))]"

record execution_graph =
  graph_id :: string
  source_contract :: string
  nodes :: "graph_node list"
  edges :: "graph_edge list"
  terminal_node :: string
  validation_gates :: "string list"
  graph_obligation_refs :: "string list"
  terminal_disposition :: "string option"

definition graph_json :: "execution_graph \<Rightarrow> json" where
  "graph_json g = JObj
     [(''graph_id'', JStr (graph_id g)),
      (''source_contract'', JStr (source_contract g)),
      (''nodes'', JList (map graph_node_json (nodes g))),
      (''edges'', JList (map graph_edge_json (edges g))),
      (''terminal_node'', JStr (terminal_node g)),
      (''validation_gates'', jstrs (validation_gates g)),
      (''obligation_refs'', jstrs (graph_obligation_refs g)),
      (''terminal_disposition'', jopt (terminal_disposition g))]"

section \<open>The enumerations are read back from their values\<close>

lemma obligation_kind_value_inject [simp]:
  "obligation_kind_value a = obligation_kind_value b \<longleftrightarrow> a = b"
  by (cases a; cases b) simp_all

lemma disposition_value_inject [simp]: "disposition_value a = disposition_value b \<longleftrightarrow> a = b"
  by (cases a; cases b) simp_all

lemma realization_mode_value_inject [simp]:
  "realization_mode_value a = realization_mode_value b \<longleftrightarrow> a = b"
  by (cases a; cases b) simp_all

lemma validation_status_value_inject [simp]:
  "validation_status_value a = validation_status_value b \<longleftrightarrow> a = b"
  by (cases a; cases b) simp_all

end
