(* ===== verification/ContextModels.thy ===== *)
theory ContextModels
  imports Artifacts
begin

text \<open>
  The typed context IR of \<open>models/context.py\<close>. A context item is one record: the fields of
  \<open>ContextItemIdentity\<close> and a \<open>body\<close> whose constructor is the item's class, so the
  \<open>Literal\<close> context kind of each class is a function of the body (\<open>item_kind\<close>). Every
  class with validators has a \<open>make_\<close> function that runs them in the order the code does and
  returns the canonical, identified value or the error.
\<close>

section \<open>Enumerations and bounds\<close>

definition SNAPSHOT_MAX_ITEMS :: nat where "SNAPSHOT_MAX_ITEMS = 256"
definition SNAPSHOT_MAX_BYTES :: nat where "SNAPSHOT_MAX_BYTES = 1048576"

datatype context_kind =
    RELEVANT_ENTITY | REPOSITORY_STATE | ARCHITECTURE_CONSTRAINT | APPLICABLE_LAW
  | PRIOR_DECISION | DEPENDENCY_CONTEXT | EVIDENCE_REF | MEMORY_CONTEXT | CAPABILITY_FACT
  | AUTHORITY_FACT

fun kind_value :: "context_kind \<Rightarrow> string" where
  "kind_value RELEVANT_ENTITY = ''relevant_entity''"
| "kind_value REPOSITORY_STATE = ''repository_state''"
| "kind_value ARCHITECTURE_CONSTRAINT = ''architecture_constraint''"
| "kind_value APPLICABLE_LAW = ''applicable_law''"
| "kind_value PRIOR_DECISION = ''prior_decision''"
| "kind_value DEPENDENCY_CONTEXT = ''dependency_context''"
| "kind_value EVIDENCE_REF = ''evidence_ref''"
| "kind_value MEMORY_CONTEXT = ''memory_context''"
| "kind_value CAPABILITY_FACT = ''capability_fact''"
| "kind_value AUTHORITY_FACT = ''authority_fact''"

datatype context_scope_mode = SCOPED | GLOBAL

fun scope_mode_value :: "context_scope_mode \<Rightarrow> string" where
  "scope_mode_value SCOPED = ''scoped''"
| "scope_mode_value GLOBAL = ''global''"

datatype authority_level = GOVERNED_AUTHORITATIVE | GOVERNED_VERIFIED | INFORMATIVE | UNVERIFIED

fun authority_level_value :: "authority_level \<Rightarrow> string" where
  "authority_level_value GOVERNED_AUTHORITATIVE = ''governed_authoritative''"
| "authority_level_value GOVERNED_VERIFIED = ''governed_verified''"
| "authority_level_value INFORMATIVE = ''informative''"
| "authority_level_value UNVERIFIED = ''unverified''"

text \<open>\<open>AUTHORITY_RANK\<close>: strongest first.\<close>

fun AUTHORITY_RANK :: "authority_level \<Rightarrow> nat" where
  "AUTHORITY_RANK GOVERNED_AUTHORITATIVE = 0"
| "AUTHORITY_RANK GOVERNED_VERIFIED = 1"
| "AUTHORITY_RANK INFORMATIVE = 2"
| "AUTHORITY_RANK UNVERIFIED = 3"

fun is_governed :: "authority_level \<Rightarrow> bool" where
  "is_governed GOVERNED_AUTHORITATIVE = True"
| "is_governed GOVERNED_VERIFIED = True"
| "is_governed _ = False"

definition GOVERNED_ONLY_KINDS :: "context_kind list" where
  "GOVERNED_ONLY_KINDS = [AUTHORITY_FACT, CAPABILITY_FACT]"

datatype decision_status = ACTIVE | SUPERSEDED | STATUS_UNKNOWN

fun decision_status_value :: "decision_status \<Rightarrow> string" where
  "decision_status_value ACTIVE = ''active''"
| "decision_status_value SUPERSEDED = ''superseded''"
| "decision_status_value STATUS_UNKNOWN = ''unknown''"

datatype missing_policy = BLOCK | PRESERVE_UNKNOWN | OPTIONAL

fun missing_policy_value :: "missing_policy \<Rightarrow> string" where
  "missing_policy_value BLOCK = ''BLOCK''"
| "missing_policy_value PRESERVE_UNKNOWN = ''PRESERVE_UNKNOWN''"
| "missing_policy_value OPTIONAL = ''OPTIONAL''"

datatype coverage_mode = MINIMUM | ALL_ELIGIBLE | SEMANTIC_KEYS

fun coverage_mode_value :: "coverage_mode \<Rightarrow> string" where
  "coverage_mode_value MINIMUM = ''minimum''"
| "coverage_mode_value ALL_ELIGIBLE = ''all_eligible''"
| "coverage_mode_value SEMANTIC_KEYS = ''semantic_keys''"

datatype unknown_materiality = BLOCKING | NON_BLOCKING

fun materiality_value :: "unknown_materiality \<Rightarrow> string" where
  "materiality_value BLOCKING = ''blocking''"
| "materiality_value NON_BLOCKING = ''non_blocking''"

datatype unknown_reason_code =
    AMBIGUOUS_SCOPE | MISSING_REQUIRED_CONTEXT | CONFLICTING_GOVERNED_CLAIMS | MISSING_REVISION
  | INVALID_PROVENANCE | BUDGET_INSUFFICIENT | UNSUPPORTED_CAPABILITY | MISSING_AUTHORITY
  | UNKNOWN_SUPERSESSION | DANGLING_SUPERSESSION | UNRESOLVED_FRESHNESS

fun reason_code_value :: "unknown_reason_code \<Rightarrow> string" where
  "reason_code_value AMBIGUOUS_SCOPE = ''ambiguous_scope''"
| "reason_code_value MISSING_REQUIRED_CONTEXT = ''missing_required_context''"
| "reason_code_value CONFLICTING_GOVERNED_CLAIMS = ''conflicting_governed_claims''"
| "reason_code_value MISSING_REVISION = ''missing_revision''"
| "reason_code_value INVALID_PROVENANCE = ''invalid_provenance''"
| "reason_code_value BUDGET_INSUFFICIENT = ''budget_insufficient''"
| "reason_code_value UNSUPPORTED_CAPABILITY = ''unsupported_capability''"
| "reason_code_value MISSING_AUTHORITY = ''missing_authority''"
| "reason_code_value UNKNOWN_SUPERSESSION = ''unknown_supersession''"
| "reason_code_value DANGLING_SUPERSESSION = ''dangling_supersession''"
| "reason_code_value UNRESOLVED_FRESHNESS = ''unresolved_freshness''"

datatype authority_order_source = GOVERNED_CONTEXT | COMPILER_DEFAULT

fun order_source_value :: "authority_order_source \<Rightarrow> string" where
  "order_source_value GOVERNED_CONTEXT = ''governed_context''"
| "order_source_value COMPILER_DEFAULT = ''compiler_default''"

datatype freshness_requirement = EXACT_REVISION | SNAPSHOT_BOUND | ANY_FRESHNESS

fun freshness_value :: "freshness_requirement \<Rightarrow> string" where
  "freshness_value EXACT_REVISION = ''exact_revision''"
| "freshness_value SNAPSHOT_BOUND = ''snapshot_bound''"
| "freshness_value ANY_FRESHNESS = ''any''"

datatype capability_state = AVAILABLE | UNAVAILABLE | CAP_UNKNOWN

fun capability_state_value :: "capability_state \<Rightarrow> string" where
  "capability_state_value AVAILABLE = ''available''"
| "capability_state_value UNAVAILABLE = ''unavailable''"
| "capability_state_value CAP_UNKNOWN = ''unknown''"

datatype authority_state = GRANTED | LIMIT | AUTH_UNKNOWN

fun authority_state_value :: "authority_state \<Rightarrow> string" where
  "authority_state_value GRANTED = ''granted''"
| "authority_state_value LIMIT = ''limit''"
| "authority_state_value AUTH_UNKNOWN = ''unknown''"

section \<open>Source references\<close>

record context_source_ref =
  source_id :: string
  source_kind :: string
  locator :: string
  immutable_coordinate :: "string option"
  content_digest :: "string option"

definition check_source_ref :: "context_source_ref \<Rightarrow> unit res" where
  "check_source_ref r =
     (if \<not> non_blank (source_id r) then Inl (InvalidValueError ''must be non-empty'' ''source_id'')
      else if \<not> non_blank (source_kind r) then Inl (InvalidValueError ''must be non-empty'' ''source_kind'')
      else if \<not> non_blank (locator r) then Inl (InvalidValueError ''must be non-empty'' ''locator'')
      else Inr ())"

text \<open>\<open>bool(x)\<close> of an optional string: present and not empty.\<close>

definition truthy :: "string option \<Rightarrow> bool" where
  "truthy s \<longleftrightarrow> s \<noteq> None \<and> s \<noteq> Some []"

definition or_empty :: "string option \<Rightarrow> string" where
  "or_empty s = (case s of None \<Rightarrow> [] | Some t \<Rightarrow> t)"

definition has_immutable_provenance :: "context_source_ref \<Rightarrow> bool" where
  "has_immutable_provenance r \<longleftrightarrow> truthy (immutable_coordinate r) \<or> truthy (content_digest r)"

definition source_identity_payload :: "context_source_ref \<Rightarrow> json" where
  "source_identity_payload r = JObj
     [(''source_id'', JStr (source_id r)),
      (''source_kind'', JStr (source_kind r)),
      (''locator'', JStr (locator r)),
      (''immutable_coordinate'', jopt (immutable_coordinate r)),
      (''content_digest'', jopt (content_digest r))]"

section \<open>Context items\<close>

datatype item_body =
    EntityContext string string string
      \<comment> \<open>entity_id, entity_type, relation_to_task\<close>
  | RepositoryState string string string string json
      \<comment> \<open>repository_id, revision, subject_ref, fact_type, value\<close>
  | GovernedConstraint string string "string list" "string list"
      \<comment> \<open>constraint_id, statement, applies_because, evidence_refs\<close>
  | ApplicableLaw string string "string list" "int option" "string list"
      \<comment> \<open>law_id, statement, applies_because, precedence, supersedes_refs\<close>
  | PriorDecision string decision_status string "string list" "string list"
      \<comment> \<open>decision_id, status, statement, supersedes_refs, superseded_by_refs\<close>
  | DependencyContext string string string string "string option"
      \<comment> \<open>dependency_id, relationship, direction, target_ref, version_or_revision\<close>
  | EvidenceRef string string "string list" "string option"
      \<comment> \<open>evidence_id, evidence_type, supports_semantic_keys, digest\<close>
  | MemoryContext string string json string
      \<comment> \<open>memory_id, memory_kind, content, relevance_reason\<close>
  | CapabilityFact string capability_state "string list"
      \<comment> \<open>capability_id, state, evidence_refs\<close>
  | AuthorityFact string authority_state "string option" "string list" "int option"
      \<comment> \<open>authority_id, state, subject_ref, action_scope, precedence\<close>

fun body_kind :: "item_body \<Rightarrow> context_kind" where
  "body_kind (EntityContext _ _ _) = RELEVANT_ENTITY"
| "body_kind (RepositoryState _ _ _ _ _) = REPOSITORY_STATE"
| "body_kind (GovernedConstraint _ _ _ _) = ARCHITECTURE_CONSTRAINT"
| "body_kind (ApplicableLaw _ _ _ _ _) = APPLICABLE_LAW"
| "body_kind (PriorDecision _ _ _ _ _) = PRIOR_DECISION"
| "body_kind (DependencyContext _ _ _ _ _) = DEPENDENCY_CONTEXT"
| "body_kind (EvidenceRef _ _ _ _) = EVIDENCE_REF"
| "body_kind (MemoryContext _ _ _ _) = MEMORY_CONTEXT"
| "body_kind (CapabilityFact _ _ _) = CAPABILITY_FACT"
| "body_kind (AuthorityFact _ _ _ _ _) = AUTHORITY_FACT"

record context_item =
  item_id :: string
  semantic_key :: string
  authority_level :: authority_level
  source_ref :: context_source_ref
  scope_mode :: context_scope_mode
  scope_refs :: "string list"
  selected_because :: "string list"
  body :: item_body

definition item_kind :: "context_item \<Rightarrow> context_kind" where
  "item_kind it = body_kind (body it)"

definition authority_rank :: "context_item \<Rightarrow> nat" where
  "authority_rank it = AUTHORITY_RANK (authority_level it)"

definition authority_semantic_key :: "string \<Rightarrow> string option \<Rightarrow> string list \<Rightarrow> string" where
  "authority_semantic_key aid subj acts =
     aid @ '':'' @ or_empty subj @ '':'' @ join_with '','' (sorted_unique acts)"

text \<open>\<open>expected_semantic_key\<close>: the recipe each class overrides.\<close>

fun expected_semantic_key :: "item_body \<Rightarrow> string" where
  "expected_semantic_key (EntityContext eid etype _) = etype @ '':'' @ eid"
| "expected_semantic_key (RepositoryState rid _ subj ft _) = rid @ '':'' @ subj @ '':'' @ ft"
| "expected_semantic_key (GovernedConstraint cid _ _ _) = cid"
| "expected_semantic_key (ApplicableLaw lid _ _ _ _) = lid"
| "expected_semantic_key (PriorDecision did _ _ _ _) = did"
| "expected_semantic_key (DependencyContext did rel dir tgt _) =
     did @ '':'' @ dir @ '':'' @ rel @ '':'' @ tgt"
| "expected_semantic_key (EvidenceRef eid _ _ _) = eid"
| "expected_semantic_key (MemoryContext mid _ _ _) = mid"
| "expected_semantic_key (CapabilityFact cid _ _) = cid"
| "expected_semantic_key (AuthorityFact aid _ subj acts _) = authority_semantic_key aid subj acts"

text \<open>The fields a class adds to the identity fields, as they are dumped.\<close>

fun body_fields :: "item_body \<Rightarrow> (string \<times> json) list" where
  "body_fields (EntityContext eid etype rel) =
     [(''entity_id'', JStr eid), (''entity_type'', JStr etype), (''relation_to_task'', JStr rel)]"
| "body_fields (RepositoryState rid rvn subj ft v) =
     [(''repository_id'', JStr rid), (''revision'', JStr rvn), (''subject_ref'', JStr subj),
      (''fact_type'', JStr ft), (''value'', v)]"
| "body_fields (GovernedConstraint cid st app ev) =
     [(''constraint_id'', JStr cid), (''statement'', JStr st), (''applies_because'', jstrs app),
      (''evidence_refs'', jstrs ev)]"
| "body_fields (ApplicableLaw lid st app prec sups) =
     [(''law_id'', JStr lid), (''statement'', JStr st), (''applies_because'', jstrs app),
      (''precedence'', jint_opt prec), (''supersedes_refs'', jstrs sups)]"
| "body_fields (PriorDecision did stat st sups supby) =
     [(''decision_id'', JStr did), (''status'', JStr (decision_status_value stat)),
      (''statement'', JStr st), (''supersedes_refs'', jstrs sups),
      (''superseded_by_refs'', jstrs supby)]"
| "body_fields (DependencyContext did rel dir tgt ver) =
     [(''dependency_id'', JStr did), (''relationship'', JStr rel), (''direction'', JStr dir),
      (''target_ref'', JStr tgt), (''version_or_revision'', jopt ver)]"
| "body_fields (EvidenceRef eid etype sups dg) =
     [(''evidence_id'', JStr eid), (''evidence_type'', JStr etype),
      (''supports_semantic_keys'', jstrs sups), (''digest'', jopt dg)]"
| "body_fields (MemoryContext mid mk c why) =
     [(''memory_id'', JStr mid), (''memory_kind'', JStr mk), (''content'', c),
      (''relevance_reason'', JStr why)]"
| "body_fields (CapabilityFact cid st ev) =
     [(''capability_id'', JStr cid), (''state'', JStr (capability_state_value st)),
      (''evidence_refs'', jstrs ev)]"
| "body_fields (AuthorityFact aid st subj acts prec) =
     [(''authority_id'', JStr aid), (''state'', JStr (authority_state_value st)),
      (''subject_ref'', jopt subj), (''action_scope'', jstrs acts),
      (''precedence'', jint_opt prec)]"

definition item_fields :: "context_item \<Rightarrow> (string \<times> json) list" where
  "item_fields it =
     [(''item_id'', JStr (item_id it)),
      (''semantic_key'', JStr (semantic_key it)),
      (''context_kind'', JStr (kind_value (item_kind it))),
      (''authority_level'', JStr (authority_level_value (authority_level it))),
      (''source_ref'', source_identity_payload (source_ref it)),
      (''scope_mode'', JStr (scope_mode_value (scope_mode it))),
      (''scope_refs'', jstrs (scope_refs it)),
      (''selected_because'', jstrs (selected_because it))] @ body_fields (body it)"

definition item_json :: "context_item \<Rightarrow> json" where
  "item_json it = JObj (item_fields it)"

definition CLAIM_EXCLUDED_FIELDS :: "string list" where
  "CLAIM_EXCLUDED_FIELDS =
     [''item_id'', ''semantic_key'', ''context_kind'', ''authority_level'', ''source_ref'',
      ''scope_mode'', ''scope_refs'', ''selected_because'']"

definition APPLICABILITY_FIELDS :: "string list" where
  "APPLICABILITY_FIELDS = [''scope_mode'', ''scope_refs'']"

definition claim_payload :: "context_item \<Rightarrow> json" where
  "claim_payload it = JObj (filter (\<lambda>(k, v). k \<notin> set CLAIM_EXCLUDED_FIELDS) (item_fields it))"

definition applicability_payload :: "context_item \<Rightarrow> json" where
  "applicability_payload it =
     JObj (map (\<lambda>f. (f, al_get (item_fields it) f JNull)) APPLICABILITY_FIELDS)"

definition item_identity_payload :: "context_item \<Rightarrow> json" where
  "item_identity_payload it = JObj
     [(''context_kind'', JStr (kind_value (item_kind it))),
      (''semantic_key'', JStr (semantic_key it)),
      (''claim'', claim_payload it),
      (''applicability'', applicability_payload it),
      (''source_identity'', source_identity_payload (source_ref it))]"

definition expected_item_id :: "(string \<Rightarrow> string) \<Rightarrow> context_item \<Rightarrow> string" where
  "expected_item_id H it = derive_id H ''ctxitem'' (item_identity_payload it)"

text \<open>\<open>_validate_identity\<close>, the model validator of \<open>ContextItemIdentity\<close>.\<close>

definition validate_identity :: "(string \<Rightarrow> string) \<Rightarrow> context_item \<Rightarrow> context_item res" where
  "validate_identity H it =
     (if scope_mode it = SCOPED \<and> scope_refs it = [] then
        Inl (InvalidValueError ''scoped context item requires non-empty scope_refs'' ''<root>'')
      else if scope_mode it = GLOBAL \<and> scope_refs it \<noteq> [] then
        Inl (InvalidValueError ''global context item requires empty scope_refs'' ''<root>'')
      else if semantic_key it \<noteq> expected_semantic_key (body it) then
        Inl (InvalidValueError (''semantic_key must equal the '' @ kind_value (item_kind it) @ '' recipe'')
               ''<root>'')
      else if is_governed (authority_level it) \<and> \<not> has_immutable_provenance (source_ref it) then
        Inl (InvalidValueError
               ''governed context item requires an immutable_coordinate or content_digest'' ''<root>'')
      else if item_id it = [] then Inr (it\<lparr>item_id := expected_item_id H it\<rparr>)
      else if item_id it \<noteq> expected_item_id H it then
        Inl (InvalidValueError ''item_id must equal the canonical ctxitem recipe'' ''<root>'')
      else Inr it)"

text \<open>The field validators a class declares, and the ceiling of \<open>MemoryContext\<close>.\<close>

definition non_negative :: "int option \<Rightarrow> bool" where
  "non_negative p = (case p of None \<Rightarrow> True | Some n \<Rightarrow> 0 \<le> n)"

fun check_body :: "item_body \<Rightarrow> unit res" where
  "check_body (RepositoryState _ rvn subj ft _) =
     (if \<not> non_blank rvn then Inl (InvalidValueError ''must be non-empty'' ''revision'')
      else if \<not> non_blank subj then Inl (InvalidValueError ''must be non-empty'' ''subject_ref'')
      else if \<not> non_blank ft then Inl (InvalidValueError ''must be non-empty'' ''fact_type'')
      else Inr ())"
| "check_body (ApplicableLaw _ _ _ prec _) =
     guardR (non_negative prec) (InvalidValueError ''precedence must be non-negative'' ''precedence'')"
| "check_body (AuthorityFact _ _ _ _ prec) =
     guardR (non_negative prec) (InvalidValueError ''precedence must be non-negative'' ''precedence'')"
| "check_body _ = Inr ()"

fun canonical_body :: "item_body \<Rightarrow> item_body" where
  "canonical_body (AuthorityFact aid st subj acts prec) =
     AuthorityFact aid st subj (sorted_unique acts) prec"
| "canonical_body b = b"

definition authority_ceiling :: "context_item \<Rightarrow> context_item res" where
  "authority_ceiling it =
     (if item_kind it = MEMORY_CONTEXT \<and> is_governed (authority_level it) then
        Inl (InvalidValueError ''memory_context authority is ceilinged at informative'' ''<root>'')
      else Inr it)"

text \<open>The field validators that canonicalize: sorted, duplicate-free reference lists.\<close>

definition canon_item :: "context_item \<Rightarrow> context_item" where
  "canon_item it = it\<lparr>scope_refs := sorted_unique (scope_refs it),
                     selected_because := sorted_unique (selected_because it),
                     body := canonical_body (body it)\<rparr>"

definition make_item :: "(string \<Rightarrow> string) \<Rightarrow> context_item \<Rightarrow> context_item res" where
  "make_item H it =
     bindR (guardR (non_blank (semantic_key it)) (InvalidValueError ''must be non-empty'' ''semantic_key''))
       (\<lambda>_. bindR (check_source_ref (source_ref it))
       (\<lambda>_. bindR (check_body (body it))
       (\<lambda>_. bindR (validate_identity H (canon_item it)) authority_ceiling)))"

definition candidate_dict :: "context_item \<Rightarrow> json" where
  "candidate_dict it = item_json (it\<lparr>selected_because := []\<rparr>)"

definition candidate_digest :: "(string \<Rightarrow> string) \<Rightarrow> context_item \<Rightarrow> string" where
  "candidate_digest H it = sha256_digest H (candidate_dict it)"

definition item_sort_key :: "context_item \<Rightarrow> string \<times> string \<times> string" where
  "item_sort_key it = (kind_value (item_kind it), semantic_key it, item_id it)"

definition canonical_cost :: "context_item \<Rightarrow> nat" where
  "canonical_cost it = length (canonical_json_bytes (candidate_dict it))"


section \<open>Item identity\<close>

fun body_ok :: "item_body \<Rightarrow> bool" where
  "body_ok (RepositoryState _ _ _ _ v) = wf_json v"
| "body_ok (MemoryContext _ _ c _) = wf_json c"
| "body_ok _ = True"

text \<open>The only opaque JSON of an item is the value of a repository fact or of a memory.\<close>

definition item_ok :: "context_item \<Rightarrow> bool" where
  "item_ok it = body_ok (body it)"

lemma wf_source_identity_payload [simp]: "wf_json (source_identity_payload r)"
  by (simp add: source_identity_payload_def)

lemma body_fields_wf: "body_ok b \<Longrightarrow> list_all (\<lambda>(k, v). wf_json v) (body_fields b)"
  by (cases b) auto

lemma body_fields_distinct: "distinct (map fst (body_fields b))"
  by (cases b) auto

lemma body_fields_fresh: "set (map fst (body_fields b)) \<inter> set CLAIM_EXCLUDED_FIELDS = {}"
  by (cases b) (auto simp: CLAIM_EXCLUDED_FIELDS_def)

lemma claim_payload_eq: "claim_payload it = JObj (body_fields (body it))"
proof -
  have "filter (\<lambda>(k, v). k \<notin> set CLAIM_EXCLUDED_FIELDS) (body_fields (body it)) = body_fields (body it)"
    by (rule filter_True) (use body_fields_fresh [of "body it"] in force)
  then show ?thesis
    by (simp add: claim_payload_def item_fields_def CLAIM_EXCLUDED_FIELDS_def)
qed

lemma applicability_payload_eq:
  "applicability_payload it = JObj
     [(''scope_mode'', JStr (scope_mode_value (scope_mode it))),
      (''scope_refs'', jstrs (scope_refs it))]"
  by (simp add: applicability_payload_def APPLICABILITY_FIELDS_def item_fields_def al_get_def)

lemma wf_item_identity_payload: "item_ok it \<Longrightarrow> wf_json (item_identity_payload it)"
  using body_fields_wf [of "body it"] body_fields_distinct [of "body it"]
  by (auto simp: item_identity_payload_def claim_payload_eq applicability_payload_eq item_ok_def)

interpretation item_ident: identity_recipe item_identity_payload expected_item_id "''ctxitem''" item_ok
  by unfold_locales (auto simp: expected_item_id_def intro: wf_item_identity_payload)

lemma canonical_body_simps [simp]:
  "canonical_body (canonical_body b) = canonical_body b"
  "body_kind (canonical_body b) = body_kind b"
  "expected_semantic_key (canonical_body b) = expected_semantic_key b"
  "check_body (canonical_body b) = check_body b"
  "body_ok (canonical_body b) = body_ok b"
  by (cases b; simp add: authority_semantic_key_def)+

text \<open>The identity does not read the fields that validation fills or canonicalizes last.\<close>

lemma expected_item_id_update [simp]:
  "expected_item_id H (it\<lparr>item_id := i\<rparr>) = expected_item_id H it"
  "expected_item_id H (it\<lparr>selected_because := refs\<rparr>) = expected_item_id H it"
  "expected_item_id H (it\<lparr>authority_level := lvl\<rparr>) = expected_item_id H it"
  by (simp_all add: expected_item_id_def item_identity_payload_def claim_payload_eq
      applicability_payload_eq item_kind_def)

definition valid_item :: "(string \<Rightarrow> string) \<Rightarrow> context_item \<Rightarrow> bool" where
  "valid_item H it \<longleftrightarrow> make_item H it = Inr it"

lemma validate_identity_Inr:
  "validate_identity H it = Inr it' \<Longrightarrow>
     it' = it\<lparr>item_id := expected_item_id H it\<rparr> \<and>
     (scope_mode it = SCOPED \<longleftrightarrow> scope_refs it \<noteq> []) \<and>
     semantic_key it = expected_semantic_key (body it) \<and>
     (is_governed (authority_level it) \<longrightarrow> has_immutable_provenance (source_ref it))"
  by (cases "scope_mode it") (auto simp: validate_identity_def split: if_splits)

lemma canon_item_simps [simp]:
  "canon_item (canon_item it) = canon_item it"
  "canon_item (it\<lparr>item_id := i\<rparr>) = (canon_item it)\<lparr>item_id := i\<rparr>"
  "item_kind (canon_item it) = item_kind it" "item_id (canon_item it) = item_id it"
  "semantic_key (canon_item it) = semantic_key it" "source_ref (canon_item it) = source_ref it"
  "authority_level (canon_item it) = authority_level it" "scope_mode (canon_item it) = scope_mode it"
  "set (scope_refs (canon_item it)) = set (scope_refs it)"
  "body (canon_item it) = canonical_body (body it)"
  by (simp_all add: canon_item_def item_kind_def)

lemma item_kind_update [simp]:
  "item_kind (it\<lparr>item_id := i\<rparr>) = item_kind it"
  "item_kind (it\<lparr>selected_because := refs\<rparr>) = item_kind it"
  "item_kind (it\<lparr>authority_level := lvl\<rparr>) = item_kind it"
  by (simp_all add: item_kind_def)

lemma make_item_Inr:
  assumes "make_item H it = Inr it'"
  shows "it' = (canon_item it)\<lparr>item_id := expected_item_id H (canon_item it)\<rparr>"
    and "non_blank (semantic_key it)" and "check_source_ref (source_ref it) = Inr ()"
    and "check_body (body it) = Inr ()"
    and "scope_mode it = SCOPED \<longleftrightarrow> scope_refs it \<noteq> []"
    and "semantic_key it = expected_semantic_key (body it)"
    and "is_governed (authority_level it) \<Longrightarrow> has_immutable_provenance (source_ref it)"
    and "item_kind it = MEMORY_CONTEXT \<Longrightarrow> \<not> is_governed (authority_level it)"
proof -
  obtain v where v: "validate_identity H (canon_item it) = Inr v" "authority_ceiling v = Inr it'"
    and c: "non_blank (semantic_key it)" "check_source_ref (source_ref it) = Inr ()"
      "check_body (body it) = Inr ()"
    using assms by (auto simp: make_item_def bindR_eq_Inr)
  note w = validate_identity_Inr [OF v(1)]
  have e: "it' = v" and m: "item_kind v = MEMORY_CONTEXT \<Longrightarrow> \<not> is_governed (authority_level v)"
    using v(2) by (auto simp: authority_ceiling_def split: if_splits)
  show "it' = (canon_item it)\<lparr>item_id := expected_item_id H (canon_item it)\<rparr>"
    using w e by simp
  show "non_blank (semantic_key it)" "check_source_ref (source_ref it) = Inr ()"
    "check_body (body it) = Inr ()" by fact+
  show "scope_mode it = SCOPED \<longleftrightarrow> scope_refs it \<noteq> []"
    using w by (simp add: canon_item_def)
  show "semantic_key it = expected_semantic_key (body it)" using w by simp
  show "is_governed (authority_level it) \<Longrightarrow> has_immutable_provenance (source_ref it)"
    using w by simp
  show "item_kind it = MEMORY_CONTEXT \<Longrightarrow> \<not> is_governed (authority_level it)"
    using w m by simp
qed

lemma make_item_complete:
  assumes "non_blank (semantic_key it)" "check_source_ref (source_ref it) = Inr ()"
    "check_body (body it) = Inr ()" "scope_mode it = SCOPED \<longleftrightarrow> scope_refs it \<noteq> []"
    "semantic_key it = expected_semantic_key (body it)"
    "is_governed (authority_level it) \<Longrightarrow> has_immutable_provenance (source_ref it)"
    "item_kind it = MEMORY_CONTEXT \<Longrightarrow> \<not> is_governed (authority_level it)"
    "item_id it = [] \<or> item_id it = expected_item_id H (canon_item it)"
  shows "make_item H it = Inr ((canon_item it)\<lparr>item_id := expected_item_id H (canon_item it)\<rparr>)"
proof -
  have "scope_refs (canon_item it) = [] \<longleftrightarrow> scope_refs it = []"
    by (simp add: canon_item_def)
  then have "validate_identity H (canon_item it)
      = Inr ((canon_item it)\<lparr>item_id := expected_item_id H (canon_item it)\<rparr>)"
    using assms by (cases "scope_mode it") (auto simp: validate_identity_def)
  then show ?thesis using assms
    by (auto simp: make_item_def bindR_eq_Inr authority_ceiling_def)
qed

lemma make_item_idem:
  assumes "make_item H it = Inr it'" shows "valid_item H it'"
proof -
  note f = make_item_Inr [OF assms]
  have s: "scope_refs it' = sorted_unique (scope_refs it)" and c: "canon_item it' = it'"
    and x: "expected_item_id H it' = item_id it'"
    using f(1) by (simp_all add: canon_item_def)
  have "make_item H it' = Inr ((canon_item it')\<lparr>item_id := expected_item_id H (canon_item it')\<rparr>)"
    by (rule make_item_complete) (use f s c x in auto)
  then show ?thesis by (simp add: valid_item_def c x)
qed

text \<open>What is known of an item that passed validation.\<close>

lemma valid_itemD:
  assumes "valid_item H it"
  shows "item_id it = expected_item_id H it"
    and "scope_mode it = SCOPED \<longleftrightarrow> scope_refs it \<noteq> []"
    and "semantic_key it = expected_semantic_key (body it)"
    and "is_governed (authority_level it) \<Longrightarrow> has_immutable_provenance (source_ref it)"
    and "item_kind it = MEMORY_CONTEXT \<Longrightarrow> \<not> is_governed (authority_level it)"
proof -
  note f = make_item_Inr [OF assms [unfolded valid_item_def]]
  show "item_id it = expected_item_id H it"
    by (subst (1 2) f(1)) simp
qed (use make_item_Inr [OF assms [unfolded valid_item_def]] in auto)

section \<open>Properties\<close>

lemma scope_mode_value_inject [simp]: "scope_mode_value a = scope_mode_value b \<longleftrightarrow> a = b"
  by (cases a; cases b) simp_all

lemma kind_value_inject [simp]: "kind_value a = kind_value b \<longleftrightarrow> a = b"
  by (cases a; cases b) simp_all

lemma jopt_inject [simp]: "jopt a = jopt b \<longleftrightarrow> a = b"
  by (cases a; cases b) (simp_all add: jopt_def)

lemma jstrs_inject [simp]: "jstrs a = jstrs b \<longleftrightarrow> a = b"
  by (simp add: jstrs_def inj_map_eq_map inj_def)

lemma normalize_jopt [simp]: "normalize_json (jopt a) = jopt a"
  by (cases a) (simp_all add: jopt_def)

lemma normalize_jstrs [simp]: "normalize_json (jstrs a) = jstrs a"
  by (simp add: jstrs_def comp_def)

definition sample_source :: context_source_ref where
  "sample_source = \<lparr>source_id = ''pack'', source_kind = ''file'', locator = ''law.yaml'',
     immutable_coordinate = Some ''rev1'', content_digest = None\<rparr>"

definition sample_law :: "string \<Rightarrow> authority_level \<Rightarrow> string list \<Rightarrow> string list \<Rightarrow> context_item" where
  "sample_law lid lvl srefs sups = \<lparr>item_id = [], semantic_key = lid, authority_level = lvl,
     source_ref = sample_source, scope_mode = (if srefs = [] then GLOBAL else SCOPED),
     scope_refs = srefs, selected_because = [], body = ApplicableLaw lid ''text'' [] None sups\<rparr>"

text \<open>C31: Whatever an item's construction returns carries the canonical identity of its own
  content, passes validation unchanged, and keeps the class invariants: scope references exactly
  when scoped, the semantic key of its recipe, immutable provenance when governed, and no
  governed memory.\<close>

theorem make_item_canonical:
  assumes "make_item H it = Inr it'"
  shows "make_item H it' = Inr it' \<and> item_id it' = expected_item_id H it'
    \<and> (scope_mode it' = SCOPED \<longleftrightarrow> scope_refs it' \<noteq> [])
    \<and> semantic_key it' = expected_semantic_key (body it')
    \<and> \<not> (is_governed (authority_level it') \<and> \<not> has_immutable_provenance (source_ref it'))
    \<and> \<not> (is_governed (authority_level it') \<and> item_kind it' = MEMORY_CONTEXT)"
  using make_item_idem [OF assms] valid_itemD [OF make_item_idem [OF assms]]
  by (auto simp: valid_item_def)

theorem make_item_canonical_witness:
  "\<exists>it'. make_item (\<lambda>_. ''0'') (sample_law ''L1'' GOVERNED_VERIFIED [''b'', ''a''] []) = Inr it' \<and>
     make_item (\<lambda>_. ''0'') it' = Inr it' \<and> scope_refs it' = [''a'', ''b'']"
proof -
  define it' where "it' = (sample_law ''L1'' GOVERNED_VERIFIED [''a'', ''b''] [])
    \<lparr>item_id := ''ctxitem.sha256:0''\<rparr>"
  have m: "make_item (\<lambda>_. ''0'') (sample_law ''L1'' GOVERNED_VERIFIED [''b'', ''a''] []) = Inr it'"
    by (code_simp; simp add: it'_def sample_law_def sample_source_def)
  show ?thesis using make_item_canonical [OF m] m by (simp add: it'_def sample_law_def)
qed

text \<open>Item identity is injective up to a hash collision: two valid items with the same
  \<open>item_id\<close> make the same claim, about the same key, with the same applicability and from the
  same source.\<close>

theorem item_identity_injective:
  assumes "valid_item H a" "valid_item H b" "item_ok a" "item_ok b"
    and "item_id a = item_id b" "\<not> hash_collision H (item_identity_payload a) (item_identity_payload b)"
  shows "item_kind a = item_kind b \<and> semantic_key a = semantic_key b
    \<and> scope_mode a = scope_mode b \<and> scope_refs a = scope_refs b
    \<and> source_identity_payload (source_ref a) = source_identity_payload (source_ref b)
    \<and> normalize_json (claim_payload a) = normalize_json (claim_payload b)"
proof -
  have "expected_item_id H a = expected_item_id H b"
    using assms(5) valid_itemD(1) [OF assms(1)] valid_itemD(1) [OF assms(2)] by simp
  with item_ident.ident_inj [OF assms(3,4)] assms(6)
  have n: "normalize_json (item_identity_payload a) = normalize_json (item_identity_payload b)"
    by blast
  have s: "normalize_json (source_identity_payload r) = normalize_json (source_identity_payload r')
      \<Longrightarrow> source_identity_payload r = source_identity_payload r'" for r r'
    by (simp add: source_identity_payload_def)
  show ?thesis
    using n s by (simp add: item_identity_payload_def applicability_payload_eq)
qed

theorem item_identity_injective_witness:
  "\<exists>a b. valid_item (\<lambda>_. ''0'') a \<and> valid_item (\<lambda>_. ''0'') b \<and> item_id a = item_id b
     \<and> authority_level a \<noteq> authority_level b \<and> scope_refs a = scope_refs b"
proof -
  define a where "a = (sample_law ''L1'' INFORMATIVE [''a''] [])\<lparr>item_id := ''ctxitem.sha256:0''\<rparr>"
  define b where "b = (sample_law ''L1'' UNVERIFIED [''a''] [])\<lparr>item_id := ''ctxitem.sha256:0''\<rparr>"
  have v: "valid_item (\<lambda>_. ''0'') a" "valid_item (\<lambda>_. ''0'') b"
    unfolding a_def b_def by code_simp+
  have k: "item_ok a" "item_ok b" "item_id a = item_id b"
    by (simp_all add: a_def b_def item_ok_def sample_law_def)
  have "item_identity_payload a = item_identity_payload b"
    by (simp add: a_def b_def sample_law_def item_identity_payload_def claim_payload_eq
        applicability_payload_eq item_kind_def)
  then have "\<not> hash_collision (\<lambda>_. ''0'') (item_identity_payload a) (item_identity_payload b)"
    by (simp add: hash_collision_def)
  from item_identity_injective [OF v k this]
  have "scope_refs a = scope_refs b" by simp
  moreover have "authority_level a \<noteq> authority_level b"
    by (simp add: a_def b_def sample_law_def)
  ultimately show ?thesis using v k(3) by blast
qed

end
