(* ===== verification/ContextRequirements.thy ===== *)
theory ContextRequirements
  imports ContextModels
begin

text \<open>
  The demand side of \<open>models/context.py\<close>: unknowns, the task scope, context requirements,
  the budgeted requirement plan, and the capability and authority requirements with the
  coverage relations between an authority fact and a requirement. Each \<open>make_\<close> function is
  the construction of the class: its field validators, then its model validators, in order.
\<close>

section \<open>Unknowns\<close>

record context_unknown =
  unknown_id :: string
  unk_requirement_ref :: "string option"
  unk_key :: "string option"
  reason_code :: unknown_reason_code
  details :: json
  materiality :: unknown_materiality
  unk_sources :: "context_source_ref list"

definition unknown_identity_payload :: "context_unknown \<Rightarrow> json" where
  "unknown_identity_payload u = JObj
     [(''requirement_ref'', jopt (unk_requirement_ref u)),
      (''semantic_key'', jopt (unk_key u)),
      (''reason_code'', JStr (reason_code_value (reason_code u))),
      (''details'', details u)]"

definition expected_unknown_id :: "(string \<Rightarrow> string) \<Rightarrow> context_unknown \<Rightarrow> string" where
  "expected_unknown_id H u = derive_id H ''ctxunk'' (unknown_identity_payload u)"

definition make_unknown :: "(string \<Rightarrow> string) \<Rightarrow> context_unknown \<Rightarrow> context_unknown res" where
  "make_unknown H u =
     (if unknown_id u = [] then Inr (u\<lparr>unknown_id := expected_unknown_id H u\<rparr>)
      else if unknown_id u \<noteq> expected_unknown_id H u then
        Inl (InvalidValueError ''unknown_id must be the deterministic ctxunk recipe'' ''<root>'')
      else Inr u)"

text \<open>Construction with no \<open>unknown_id\<close>, as every compiler stage does it: it cannot fail.\<close>

definition new_unknown ::
  "(string \<Rightarrow> string) \<Rightarrow> string option \<Rightarrow> string option \<Rightarrow> unknown_reason_code \<Rightarrow> json \<Rightarrow>
    unknown_materiality \<Rightarrow> context_source_ref list \<Rightarrow> context_unknown" where
  "new_unknown H rref key code det mat srcs =
     (let u = \<lparr>unknown_id = [], unk_requirement_ref = rref, unk_key = key, reason_code = code,
               details = det, materiality = mat, unk_sources = srcs\<rparr>
      in u\<lparr>unknown_id := expected_unknown_id H u\<rparr>)"

definition unknown_json :: "context_unknown \<Rightarrow> json" where
  "unknown_json u = JObj
     [(''unknown_id'', JStr (unknown_id u)),
      (''requirement_ref'', jopt (unk_requirement_ref u)),
      (''semantic_key'', jopt (unk_key u)),
      (''reason_code'', JStr (reason_code_value (reason_code u))),
      (''details'', details u),
      (''materiality'', JStr (materiality_value (materiality u))),
      (''source_refs'', JList (map source_identity_payload (unk_sources u)))]"

section \<open>Task scope\<close>

record task_scope =
  scope_id :: string
  mission :: string
  task_type :: string
  target_refs :: "string list"
  in_scope_refs :: "string list"
  excluded_refs :: "string list"
  requested_outputs :: "string list"
  sc_constraints :: "string list"
  sc_unknowns :: "context_unknown list"

definition canonical_refs :: "string list \<Rightarrow> string list" where
  "canonical_refs xs = sorted_unique (filter non_blank xs)"

definition scope_payload :: "task_scope \<Rightarrow> json" where
  "scope_payload s = JObj
     [(''mission'', JStr (mission s)),
      (''task_type'', JStr (task_type s)),
      (''target_refs'', jstrs (target_refs s)),
      (''in_scope_refs'', jstrs (in_scope_refs s)),
      (''excluded_refs'', jstrs (excluded_refs s)),
      (''requested_outputs'', jstrs (requested_outputs s)),
      (''constraints'', jstrs (sc_constraints s)),
      (''unresolved_unknowns'', JList (map unknown_json (sc_unknowns s)))]"

definition expected_scope_id :: "(string \<Rightarrow> string) \<Rightarrow> task_scope \<Rightarrow> string" where
  "expected_scope_id H s = derive_id H ''scope'' (scope_payload s)"

definition canon_scope :: "task_scope \<Rightarrow> task_scope" where
  "canon_scope s = s\<lparr>target_refs := canonical_refs (target_refs s),
                    in_scope_refs := canonical_refs (in_scope_refs s),
                    excluded_refs := canonical_refs (excluded_refs s),
                    requested_outputs := canonical_refs (requested_outputs s),
                    sc_constraints := canonical_refs (sc_constraints s)\<rparr>"

definition make_scope :: "(string \<Rightarrow> string) \<Rightarrow> task_scope \<Rightarrow> task_scope res" where
  "make_scope H s0 =
     (let s = canon_scope s0 in
      if scope_id s = [] then Inr (s\<lparr>scope_id := expected_scope_id H s\<rparr>)
      else if scope_id s \<noteq> expected_scope_id H s then
        Inl (InvalidValueError ''scope_id must be the deterministic scope recipe'' ''<root>'')
      else Inr s)"

definition scope_json :: "task_scope \<Rightarrow> json" where
  "scope_json s = JObj
     [(''scope_id'', JStr (scope_id s)),
      (''mission'', JStr (mission s)),
      (''task_type'', JStr (task_type s)),
      (''target_refs'', jstrs (target_refs s)),
      (''in_scope_refs'', jstrs (in_scope_refs s)),
      (''excluded_refs'', jstrs (excluded_refs s)),
      (''requested_outputs'', jstrs (requested_outputs s)),
      (''constraints'', jstrs (sc_constraints s)),
      (''unresolved_unknowns'', JList (map unknown_json (sc_unknowns s)))]"

definition scope_sha256 :: "(string \<Rightarrow> string) \<Rightarrow> task_scope \<Rightarrow> string" where
  "scope_sha256 H s = sha256_digest H (scope_json s)"

text \<open>A Python set of references is the list of its insertions, read only for membership.\<close>

definition eligible_refs :: "task_scope \<Rightarrow> string list" where
  "eligible_refs s =
     filter (\<lambda>r. r \<notin> set (excluded_refs s)) (target_refs s @ in_scope_refs s)"

definition scope_conflicts :: "task_scope \<Rightarrow> string list" where
  "scope_conflicts s =
     sorted_unique (filter (\<lambda>r. r \<in> set (excluded_refs s)) (target_refs s @ in_scope_refs s))"

section \<open>Context requirements\<close>

record context_requirement =
  requirement_id :: string
  req_kind :: context_kind
  req_reason :: string
  required :: bool
  req_scope_mode :: context_scope_mode
  req_scope_refs :: "string list"
  freshness_requirement :: freshness_requirement
  coordinate_constraint :: "string option"
  minimum_authority :: authority_level
  priority :: int
  coverage_mode :: coverage_mode
  min_items :: int
  required_semantic_keys :: "string list"
  max_items :: "int option"
  max_bytes :: "int option"
  missing_policy :: missing_policy
  kernel_need_refs :: "string list"

definition requirement_fields :: "context_requirement \<Rightarrow> (string \<times> json) list" where
  "requirement_fields r =
     [(''requirement_id'', JStr (requirement_id r)),
      (''context_kind'', JStr (kind_value (req_kind r))),
      (''reason'', JStr (req_reason r)),
      (''required'', JBool (required r)),
      (''scope_mode'', JStr (scope_mode_value (req_scope_mode r))),
      (''scope_refs'', jstrs (req_scope_refs r)),
      (''freshness_requirement'', JStr (freshness_value (freshness_requirement r))),
      (''coordinate_constraint'', jopt (coordinate_constraint r)),
      (''minimum_authority'', JStr (authority_level_value (minimum_authority r))),
      (''priority'', JInt (priority r)),
      (''coverage_mode'', JStr (coverage_mode_value (coverage_mode r))),
      (''min_items'', JInt (min_items r)),
      (''required_semantic_keys'', jstrs (required_semantic_keys r)),
      (''max_items'', jint_opt (max_items r)),
      (''max_bytes'', jint_opt (max_bytes r)),
      (''missing_policy'', JStr (missing_policy_value (missing_policy r))),
      (''kernel_need_refs'', jstrs (kernel_need_refs r))]"

definition requirement_json :: "context_requirement \<Rightarrow> json" where
  "requirement_json r = JObj (requirement_fields r)"

definition requirement_payload :: "context_requirement \<Rightarrow> json" where
  "requirement_payload r =
     JObj (filter (\<lambda>(k, v). k \<noteq> ''requirement_id'') (requirement_fields r))"

definition expected_requirement_id :: "(string \<Rightarrow> string) \<Rightarrow> context_requirement \<Rightarrow> string" where
  "expected_requirement_id H r = derive_id H ''ctxreq'' (requirement_payload r)"

definition canon_requirement :: "context_requirement \<Rightarrow> context_requirement" where
  "canon_requirement r = r\<lparr>req_scope_refs := sorted_unique (req_scope_refs r),
                          required_semantic_keys := sorted_unique (required_semantic_keys r),
                          kernel_need_refs := sorted_unique (kernel_need_refs r)\<rparr>"

text \<open>The checks of \<open>_validate_requirement\<close> before the identity, in the order of the code.\<close>

definition requirement_violations :: "context_requirement \<Rightarrow> (bool \<times> string) list" where
  "requirement_violations r =
     [(priority r < 0, ''priority must be non-negative''),
      (min_items r < 0, ''min_items must be non-negative''),
      (req_scope_mode r = SCOPED \<and> req_scope_refs r = [],
         ''scoped requirement requires non-empty scope_refs''),
      (req_scope_mode r = GLOBAL \<and> req_scope_refs r \<noteq> [],
         ''global requirement requires empty scope_refs''),
      (required r \<and> min_items r < 1, ''required requirement needs min_items >= 1''),
      ((case max_items r of None \<Rightarrow> False | Some m \<Rightarrow> m < 1), ''max_items must be positive''),
      ((case max_items r of None \<Rightarrow> False | Some m \<Rightarrow> m < min_items r),
         ''max_items must be at least min_items''),
      ((case max_bytes r of None \<Rightarrow> False | Some m \<Rightarrow> m < 1), ''max_bytes must be positive''),
      (max_items r = None \<and> max_bytes r = None,
         ''requirement needs at least one of max_items or max_bytes''),
      (coverage_mode r \<in> {MINIMUM, ALL_ELIGIBLE} \<and> required_semantic_keys r \<noteq> [],
         coverage_mode_value (coverage_mode r) @ '' coverage forbids required_semantic_keys''),
      (coverage_mode r = SEMANTIC_KEYS \<and> required_semantic_keys r = [],
         ''semantic_keys coverage requires required_semantic_keys''),
      (coverage_mode r = SEMANTIC_KEYS \<and> min_items r < int (length (required_semantic_keys r)),
         ''semantic_keys coverage requires min_items >= number of required keys''),
      (freshness_requirement r = EXACT_REVISION
         \<and> \<not> non_blank (or_empty (coordinate_constraint r)),
         ''exact_revision freshness requires a coordinate_constraint''),
      (required r \<and> missing_policy r = OPTIONAL,
         ''required requirement cannot use the OPTIONAL missing policy'')]"

fun first_violation :: "(bool \<times> string) list \<Rightarrow> unit res" where
  "first_violation [] = Inr ()"
| "first_violation ((bad, msg) # vs) =
     (if bad then Inl (InvalidValueError msg ''<root>'') else first_violation vs)"

definition make_requirement ::
  "(string \<Rightarrow> string) \<Rightarrow> context_requirement \<Rightarrow> context_requirement res" where
  "make_requirement H r0 =
     bindR (guardR (non_blank (req_reason r0))
              (InvalidValueError ''reason must be non-empty'' ''reason''))
       (\<lambda>_. let r = canon_requirement r0 in
          bindR (first_violation (requirement_violations r))
            (\<lambda>_. if requirement_id r = [] then
                    Inr (r\<lparr>requirement_id := expected_requirement_id H r\<rparr>)
                  else if requirement_id r \<noteq> expected_requirement_id H r then
                    Inl (InvalidValueError ''requirement_id must be the deterministic ctxreq recipe''
                           ''<root>'')
                  else Inr r))"

definition req_order_key :: "context_requirement \<Rightarrow> int \<times> string \<times> string" where
  "req_order_key r = (priority r, kind_value (req_kind r), requirement_id r)"

section \<open>The requirement plan\<close>

record context_budget =
  max_total_items :: int
  max_total_bytes :: int

definition make_budget :: "int \<Rightarrow> int \<Rightarrow> context_budget res" where
  "make_budget items bytes =
     (if items < 1 \<or> bytes < 1 then
        Inl (InvalidValueError ''global budget bounds must be positive'' ''<root>'')
      else Inr \<lparr>max_total_items = items, max_total_bytes = bytes\<rparr>)"

definition budget_json :: "context_budget \<Rightarrow> json" where
  "budget_json b = JObj [(''max_total_items'', JInt (max_total_items b)),
                        (''max_total_bytes'', JInt (max_total_bytes b))]"

record context_requirement_plan =
  plan_id :: string
  plan_scope_digest :: string
  plan_route :: string
  global_budget :: context_budget
  plan_requirements :: "context_requirement list"

definition plan_payload :: "context_requirement_plan \<Rightarrow> json" where
  "plan_payload p = JObj
     [(''task_scope_digest'', JStr (plan_scope_digest p)),
      (''matched_route'', JStr (plan_route p)),
      (''global_budget'', budget_json (global_budget p)),
      (''requirements'', JList (map requirement_json (plan_requirements p)))]"

definition expected_plan_id :: "(string \<Rightarrow> string) \<Rightarrow> context_requirement_plan \<Rightarrow> string" where
  "expected_plan_id H p = derive_id H ''ctxplan'' (plan_payload p)"

definition plan_json :: "context_requirement_plan \<Rightarrow> json" where
  "plan_json p = JObj
     [(''plan_id'', JStr (plan_id p)),
      (''task_scope_digest'', JStr (plan_scope_digest p)),
      (''matched_route'', JStr (plan_route p)),
      (''global_budget'', budget_json (global_budget p)),
      (''requirements'', JList (map requirement_json (plan_requirements p)))]"

definition order_requirements :: "context_requirement list \<Rightarrow> context_requirement list" where
  "order_requirements rs = sort_key req_order_key rs"

definition make_plan ::
  "(string \<Rightarrow> string) \<Rightarrow> context_requirement_plan \<Rightarrow> context_requirement_plan res" where
  "make_plan H p0 =
     (let ordered = order_requirements (plan_requirements p0);
          p = (if map requirement_id ordered \<noteq> map requirement_id (plan_requirements p0)
               then p0\<lparr>plan_requirements := ordered\<rparr> else p0);
          payload = plan_payload (p\<lparr>plan_requirements := ordered\<rparr>);
          expected = derive_id H ''ctxplan'' payload
      in if \<not> distinct (map requirement_id ordered) then
           Inl (InvalidValueError ''duplicate requirement_id in plan'' ''<root>'')
         else if plan_id p = [] then Inr (p\<lparr>plan_id := expected\<rparr>)
         else if plan_id p \<noteq> expected then
           Inl (InvalidValueError ''plan_id must be the deterministic ctxplan recipe'' ''<root>'')
         else Inr p)"

section \<open>Capability and authority requirements\<close>

record capability_requirement =
  cr_id :: string
  cr_capability_id :: string
  cr_reason :: string
  cr_source_refs :: "string list"

definition capreq_payload :: "capability_requirement \<Rightarrow> json" where
  "capreq_payload c = JObj
     [(''capability_id'', JStr (cr_capability_id c)),
      (''reason'', JStr (cr_reason c)),
      (''source_refs'', jstrs (cr_source_refs c))]"

definition expected_capreq_id :: "(string \<Rightarrow> string) \<Rightarrow> capability_requirement \<Rightarrow> string" where
  "expected_capreq_id H c = derive_id H ''capreq'' (capreq_payload c)"

definition make_capability_requirement ::
  "(string \<Rightarrow> string) \<Rightarrow> capability_requirement \<Rightarrow> capability_requirement res" where
  "make_capability_requirement H c0 =
     (let c = c0\<lparr>cr_source_refs := sorted_unique (cr_source_refs c0)\<rparr> in
      if \<not> non_blank (cr_reason c) then
        Inl (InvalidValueError ''reason must be non-empty'' ''<root>'')
      else if cr_id c = [] then Inr (c\<lparr>cr_id := expected_capreq_id H c\<rparr>)
      else if cr_id c \<noteq> expected_capreq_id H c then
        Inl (InvalidValueError ''requirement_id must be the deterministic capreq recipe'' ''<root>'')
      else Inr c)"

record authority_requirement =
  ar_id :: string
  ar_authority_id :: string
  ar_subject_ref :: "string option"
  ar_action_scope :: "string list"
  ar_reason :: string
  ar_source_refs :: "string list"

definition authreq_payload :: "authority_requirement \<Rightarrow> json" where
  "authreq_payload a = JObj
     [(''authority_id'', JStr (ar_authority_id a)),
      (''subject_ref'', jopt (ar_subject_ref a)),
      (''action_scope'', jstrs (ar_action_scope a)),
      (''reason'', JStr (ar_reason a)),
      (''source_refs'', jstrs (ar_source_refs a))]"

definition expected_authreq_id :: "(string \<Rightarrow> string) \<Rightarrow> authority_requirement \<Rightarrow> string" where
  "expected_authreq_id H a = derive_id H ''authreq'' (authreq_payload a)"

definition make_authority_requirement ::
  "(string \<Rightarrow> string) \<Rightarrow> authority_requirement \<Rightarrow> authority_requirement res" where
  "make_authority_requirement H a0 =
     (let a = a0\<lparr>ar_action_scope := sorted_unique (ar_action_scope a0),
                 ar_source_refs := sorted_unique (ar_source_refs a0)\<rparr> in
      if \<not> non_blank (ar_reason a) then
        Inl (InvalidValueError ''reason must be non-empty'' ''<root>'')
      else if ar_id a = [] then Inr (a\<lparr>ar_id := expected_authreq_id H a\<rparr>)
      else if ar_id a \<noteq> expected_authreq_id H a then
        Inl (InvalidValueError ''requirement_id must be the deterministic authreq recipe'' ''<root>'')
      else Inr a)"

definition ar_semantic_key :: "authority_requirement \<Rightarrow> string" where
  "ar_semantic_key a = authority_semantic_key (ar_authority_id a) (ar_subject_ref a) (ar_action_scope a)"

definition capreq_json :: "capability_requirement \<Rightarrow> json" where
  "capreq_json c = JObj
     [(''requirement_id'', JStr (cr_id c)),
      (''capability_id'', JStr (cr_capability_id c)),
      (''reason'', JStr (cr_reason c)),
      (''source_refs'', jstrs (cr_source_refs c))]"

definition authreq_json :: "authority_requirement \<Rightarrow> json" where
  "authreq_json a = JObj
     [(''requirement_id'', JStr (ar_id a)),
      (''authority_id'', JStr (ar_authority_id a)),
      (''subject_ref'', jopt (ar_subject_ref a)),
      (''action_scope'', jstrs (ar_action_scope a)),
      (''reason'', JStr (ar_reason a)),
      (''source_refs'', jstrs (ar_source_refs a))]"

section \<open>Authority coverage\<close>

definition grant_subject_covers :: "string option \<Rightarrow> string option \<Rightarrow> bool" where
  "grant_subject_covers g r = (case g of None \<Rightarrow> True | Some _ \<Rightarrow> g = r)"

definition grant_actions_cover :: "string list \<Rightarrow> string list \<Rightarrow> bool" where
  "grant_actions_cover g r = (if g = [] then True else set r \<subseteq> set g)"

definition limit_subject_bears :: "string option \<Rightarrow> string option \<Rightarrow> bool" where
  "limit_subject_bears l r = (if l = None \<or> r = None then True else l = r)"

definition limit_actions_bear :: "string list \<Rightarrow> string list \<Rightarrow> bool" where
  "limit_actions_bear l r = (if l = [] \<or> r = [] then True else list_ex (\<lambda>a. a \<in> set r) l)"

fun grant_covers_requirement :: "item_body \<Rightarrow> authority_requirement \<Rightarrow> bool" where
  "grant_covers_requirement (AuthorityFact aid _ subj acts _) r \<longleftrightarrow>
     aid = ar_authority_id r \<and> grant_subject_covers subj (ar_subject_ref r)
     \<and> grant_actions_cover acts (ar_action_scope r)"
| "grant_covers_requirement _ r \<longleftrightarrow> False"

fun limit_bears_on_requirement :: "item_body \<Rightarrow> authority_requirement \<Rightarrow> bool" where
  "limit_bears_on_requirement (AuthorityFact aid _ subj acts _) r \<longleftrightarrow>
     aid = ar_authority_id r \<and> limit_subject_bears subj (ar_subject_ref r)
     \<and> limit_actions_bear acts (ar_action_scope r)"
| "limit_bears_on_requirement _ r \<longleftrightarrow> False"

section \<open>Identities\<close>

interpretation unknown_ident: identity_recipe unknown_identity_payload expected_unknown_id
  "''ctxunk''" "\<lambda>u. wf_json (details u)"
  by unfold_locales (auto simp: expected_unknown_id_def unknown_identity_payload_def)

lemma wf_unknown_json: "wf_json (details u) \<Longrightarrow> wf_json (unknown_json u)"
  by (auto simp: unknown_json_def list_all_iff)

interpretation scope_ident: identity_recipe scope_payload expected_scope_id
  "''scope''" "\<lambda>s. \<forall>u \<in> set (sc_unknowns s). wf_json (details u)"
  by unfold_locales
    (auto simp: expected_scope_id_def scope_payload_def list_all_iff wf_unknown_json)

lemma wf_requirement_payload [simp]: "wf_json (requirement_payload r)"
  by (simp add: requirement_payload_def requirement_fields_def)

lemma wf_requirement_json [simp]: "wf_json (requirement_json r)"
  by (simp add: requirement_json_def requirement_fields_def)

interpretation requirement_ident: identity_recipe requirement_payload expected_requirement_id
  "''ctxreq''" "\<lambda>_. True"
  by unfold_locales (auto simp: expected_requirement_id_def)

interpretation plan_ident: identity_recipe plan_payload expected_plan_id "''ctxplan''" "\<lambda>_. True"
  by unfold_locales (auto simp: expected_plan_id_def plan_payload_def budget_json_def list_all_iff)

interpretation capreq_ident: identity_recipe capreq_payload expected_capreq_id "''capreq''" "\<lambda>_. True"
  by unfold_locales (auto simp: expected_capreq_id_def capreq_payload_def)

interpretation authreq_ident: identity_recipe authreq_payload expected_authreq_id "''authreq''" "\<lambda>_. True"
  by unfold_locales (auto simp: expected_authreq_id_def authreq_payload_def)

lemma new_unknown_is_make:
  "make_unknown H \<lparr>unknown_id = [], unk_requirement_ref = rref, unk_key = key, reason_code = code,
     details = det, materiality = mat, unk_sources = srcs\<rparr> = Inr (new_unknown H rref key code det mat srcs)"
  by (simp add: make_unknown_def new_unknown_def)

lemma new_unknown_fields [simp]:
  "unk_requirement_ref (new_unknown H rref key code det mat srcs) = rref"
  "unk_key (new_unknown H rref key code det mat srcs) = key"
  "reason_code (new_unknown H rref key code det mat srcs) = code"
  "details (new_unknown H rref key code det mat srcs) = det"
  "materiality (new_unknown H rref key code det mat srcs) = mat"
  "unk_sources (new_unknown H rref key code det mat srcs) = srcs"
  by (simp_all add: new_unknown_def Let_def)

lemma new_unknown_id [simp]:
  "expected_unknown_id H (new_unknown H rref key code det mat srcs)
     = unknown_id (new_unknown H rref key code det mat srcs)"
  by (simp add: new_unknown_def expected_unknown_id_def unknown_identity_payload_def Let_def)

section \<open>Validity\<close>

definition valid_requirement :: "(string \<Rightarrow> string) \<Rightarrow> context_requirement \<Rightarrow> bool" where
  "valid_requirement H r \<longleftrightarrow> make_requirement H r = Inr r"

lemma first_violation_Inr [simp]: "first_violation vs = Inr u \<longleftrightarrow> (\<forall>p \<in> set vs. \<not> fst p)"
  by (induction vs rule: first_violation.induct) auto

lemma canon_requirement_simps [simp]:
  "canon_requirement (canon_requirement r) = canon_requirement r"
  "canon_requirement (r\<lparr>requirement_id := i\<rparr>) = (canon_requirement r)\<lparr>requirement_id := i\<rparr>"
  "requirement_id (canon_requirement r) = requirement_id r"
  "req_reason (canon_requirement r) = req_reason r"
  by (simp_all add: canon_requirement_def)

lemma requirement_update [simp]:
  "expected_requirement_id H (r\<lparr>requirement_id := i\<rparr>) = expected_requirement_id H r"
  "requirement_violations (r\<lparr>requirement_id := i\<rparr>) = requirement_violations r"
  by (simp add: expected_requirement_id_def requirement_payload_def requirement_fields_def)
    (cases "max_items r"; simp add: requirement_violations_def)

lemma make_requirement_Inr:
  assumes "make_requirement H r = Inr r'"
  shows "r' = (canon_requirement r)\<lparr>requirement_id := expected_requirement_id H (canon_requirement r)\<rparr>"
    and "non_blank (req_reason r)"
    and "first_violation (requirement_violations (canon_requirement r)) = Inr ()"
  using assms by (auto simp: make_requirement_def bindR_eq_Inr Let_def split: if_splits)

lemma make_requirement_fresh:
  assumes "non_blank (req_reason r)" "requirement_id r = []"
    "first_violation (requirement_violations (canon_requirement r)) = Inr ()"
  shows "make_requirement H r
    = Inr ((canon_requirement r)\<lparr>requirement_id := expected_requirement_id H (canon_requirement r)\<rparr>)"
  using assms(1,2) bindR_simps(2) [of "()"] assms(3) by (simp add: make_requirement_def Let_def
      del: first_violation_Inr)

lemma make_requirement_idem:
  assumes "make_requirement H r = Inr r'" shows "valid_requirement H r'"
proof -
  note f = make_requirement_Inr [OF assms]
  have "canon_requirement r' = r'" "expected_requirement_id H r' = requirement_id r'"
    "requirement_violations r' = requirement_violations (canon_requirement r)"
    "req_reason r' = req_reason r"
    using f(1) by simp_all
  with f(2,3) show ?thesis
    by (simp add: valid_requirement_def make_requirement_def Let_def bindR_def
        del: first_violation_Inr)
qed

lemma valid_requirementD:
  assumes "valid_requirement H r"
  shows "requirement_id r = expected_requirement_id H r"
    and "0 \<le> min_items r" and "required r \<Longrightarrow> 1 \<le> min_items r"
    and "req_scope_mode r = SCOPED \<longleftrightarrow> req_scope_refs r \<noteq> []"
    and "max_items r = Some n \<Longrightarrow> 1 \<le> n \<and> min_items r \<le> n"
    and "max_bytes r = Some n \<Longrightarrow> 1 \<le> n"
    and "max_items r = None \<Longrightarrow> max_bytes r \<noteq> None"
    and "coverage_mode r = SEMANTIC_KEYS \<longleftrightarrow> required_semantic_keys r \<noteq> []"
    and "coverage_mode r = SEMANTIC_KEYS \<Longrightarrow> int (length (required_semantic_keys r)) \<le> min_items r"
    and "required r \<Longrightarrow> missing_policy r \<noteq> OPTIONAL"
proof -
  note f = make_requirement_Inr [OF assms [unfolded valid_requirement_def]]
  have c: "canon_requirement r = r"
    by (subst (1 2) f(1)) simp
  show "requirement_id r = expected_requirement_id H r"
    by (subst (1 2) f(1)) (simp add: c)
  have v: "\<forall>p \<in> set (requirement_violations r). \<not> fst p"
    using f(3) by (simp add: c)
  note w = v [unfolded requirement_violations_def, simplified]
  show "0 \<le> min_items r" using w by simp
  show "required r \<Longrightarrow> 1 \<le> min_items r" using w by simp
  show "req_scope_mode r = SCOPED \<longleftrightarrow> req_scope_refs r \<noteq> []"
    using w by (cases "req_scope_mode r") simp_all
  show "max_items r = Some n \<Longrightarrow> 1 \<le> n \<and> min_items r \<le> n" using w by simp
  show "max_bytes r = Some n \<Longrightarrow> 1 \<le> n" using w by simp
  show "max_items r = None \<Longrightarrow> max_bytes r \<noteq> None" using w by simp
  show "coverage_mode r = SEMANTIC_KEYS \<longleftrightarrow> required_semantic_keys r \<noteq> []"
    using w by (cases "coverage_mode r") simp_all
  show "coverage_mode r = SEMANTIC_KEYS \<Longrightarrow> int (length (required_semantic_keys r)) \<le> min_items r"
    using w by simp
  show "required r \<Longrightarrow> missing_policy r \<noteq> OPTIONAL" using w by simp
qed

lemma make_plan_Inr:
  assumes "make_plan H p = Inr q"
  shows "plan_requirements q = order_requirements (plan_requirements p)
         \<or> plan_requirements q = plan_requirements p"
    and "distinct (map requirement_id (plan_requirements q))"
    and "set (plan_requirements q) = set (plan_requirements p)"
    and "global_budget q = global_budget p" and "plan_route q = plan_route p"
    and "plan_scope_digest q = plan_scope_digest p"
  using assms by (auto simp: make_plan_def Let_def order_requirements_def split: if_splits)

section \<open>What authority coverage promises\<close>

text \<open>
  The permissions a subject and an action scope stand for. An absent subject is every subject;
  an empty action scope is every action on a fact.
\<close>

definition fact_permissions :: "string option \<Rightarrow> string list \<Rightarrow> (string \<times> string) set" where
  "fact_permissions subj acts =
     {(s, a). (subj = None \<or> subj = Some s) \<and> (acts = [] \<or> a \<in> set acts)}"

lemma fact_permissions_subset:
  assumes "acts \<noteq> []"
  shows "fact_permissions subj acts \<subseteq> fact_permissions g gacts
    \<longleftrightarrow> grant_subject_covers g subj \<and> grant_actions_cover gacts acts"
proof
  assume L: "fact_permissions subj acts \<subseteq> fact_permissions g gacts"
  obtain a where a: "a \<in> set acts" using assms by (cases acts) auto
  have "grant_subject_covers g subj"
  proof (cases g)
    case (Some t)
    have "(case subj of None \<Rightarrow> CHR ''x'' # t | Some u \<Rightarrow> u, a) \<in> fact_permissions subj acts"
      using a by (auto simp: fact_permissions_def split: option.splits)
    with L Some show ?thesis
      by (auto simp: fact_permissions_def grant_subject_covers_def split: option.splits)
  qed (simp add: grant_subject_covers_def)
  moreover have "grant_actions_cover gacts acts"
  proof -
    have "(case subj of None \<Rightarrow> [] | Some u \<Rightarrow> u, b) \<in> fact_permissions subj acts" if "b \<in> set acts" for b
      using that by (auto simp: fact_permissions_def split: option.splits)
    then show ?thesis using L by (fastforce simp: grant_actions_cover_def fact_permissions_def)
  qed
  ultimately show "grant_subject_covers g subj \<and> grant_actions_cover gacts acts" by simp
next
  assume "grant_subject_covers g subj \<and> grant_actions_cover gacts acts"
  then show "fact_permissions subj acts \<subseteq> fact_permissions g gacts"
    using assms by (auto simp: fact_permissions_def grant_subject_covers_def grant_actions_cover_def
        split: option.splits if_splits)
qed

lemma fact_permissions_meet:
  "fact_permissions l lacts \<inter> fact_permissions subj acts \<noteq> {}
    \<longleftrightarrow> limit_subject_bears l subj \<and> limit_actions_bear lacts acts"
proof -
  have s: "(\<exists>s. (l = None \<or> l = Some s) \<and> (subj = None \<or> subj = Some s)) \<longleftrightarrow> limit_subject_bears l subj"
    by (cases l; cases subj) (auto simp: limit_subject_bears_def)
  have a: "(\<exists>a. (lacts = [] \<or> a \<in> set lacts) \<and> (acts = [] \<or> a \<in> set acts)) \<longleftrightarrow> limit_actions_bear lacts acts"
    by (cases lacts; cases acts) (auto simp: limit_actions_bear_def list_ex_iff)
  have "fact_permissions l lacts \<inter> fact_permissions subj acts \<noteq> {} \<longleftrightarrow>
      (\<exists>s a. ((l = None \<or> l = Some s) \<and> (subj = None \<or> subj = Some s))
        \<and> ((lacts = [] \<or> a \<in> set lacts) \<and> (acts = [] \<or> a \<in> set acts)))"
    by (auto simp: fact_permissions_def)
  also have "\<dots> \<longleftrightarrow> limit_subject_bears l subj \<and> limit_actions_bear lacts acts"
    unfolding s [symmetric] a [symmetric] by blast
  finally show ?thesis .
qed

section \<open>Properties\<close>

text \<open>Construction of a requirement is sound: what it returns validates unchanged, carries
  its own identity, is bounded, and demands no more than its bounds allow; a required one asks
  for at least one item and is never optional.\<close>

theorem make_requirement_sound:
  assumes "make_requirement H r = Inr r'"
  shows "make_requirement H r' = Inr r' \<and> requirement_id r' = expected_requirement_id H r'
    \<and> (case max_items r' of None \<Rightarrow> max_bytes r' \<noteq> None | Some n \<Rightarrow> 1 \<le> n \<and> min_items r' \<le> n)
    \<and> \<not> (required r' \<and> (min_items r' < 1 \<or> missing_policy r' = OPTIONAL))
    \<and> (coverage_mode r' = SEMANTIC_KEYS \<longleftrightarrow> required_semantic_keys r' \<noteq> [])
    \<and> (req_scope_mode r' = SCOPED \<longleftrightarrow> req_scope_refs r' \<noteq> [])"
proof -
  note v = make_requirement_idem [OF assms]
  show ?thesis
    using v valid_requirementD(1,4,8) [OF v] valid_requirementD(3,10) [OF v]
      valid_requirementD(5,7) [OF v]
    by (auto simp: valid_requirement_def split: option.splits)
qed

definition sample_requirement :: "context_kind \<Rightarrow> missing_policy \<Rightarrow> context_requirement" where
  "sample_requirement k pol = \<lparr>requirement_id = [], req_kind = k, req_reason = ''why'',
     required = False, req_scope_mode = GLOBAL, req_scope_refs = [],
     freshness_requirement = ANY_FRESHNESS, coordinate_constraint = None,
     minimum_authority = INFORMATIVE, priority = 10, coverage_mode = ALL_ELIGIBLE, min_items = 0,
     required_semantic_keys = [], max_items = Some 4, max_bytes = None, missing_policy = pol,
     kernel_need_refs = []\<rparr>"

theorem make_requirement_sound_witness:
  "\<exists>r'. make_requirement (\<lambda>_. ''0'') (sample_requirement APPLICABLE_LAW OPTIONAL) = Inr r'
     \<and> make_requirement (\<lambda>_. ''0'') r' = Inr r'"
proof -
  have "first_violation (requirement_violations
      (canon_requirement (sample_requirement APPLICABLE_LAW OPTIONAL))) = Inr ()"
    by code_simp
  then obtain r' where m: "make_requirement (\<lambda>_. ''0'') (sample_requirement APPLICABLE_LAW OPTIONAL) = Inr r'"
    using make_requirement_fresh [of "sample_requirement APPLICABLE_LAW OPTIONAL"]
    by (fastforce simp: sample_requirement_def non_blank_def is_space_def char_nat_def)
  show ?thesis using m make_requirement_sound [OF m] by blast
qed

text \<open>A grant covers a requirement exactly when it permits every (subject, action) pair the
  requirement needs; a limit bears on it exactly when the two have a pair in common.\<close>

theorem authority_coverage_is_containment:
  assumes "ar_action_scope r \<noteq> []"
  shows "(grant_covers_requirement (AuthorityFact aid st subj acts prec) r \<longleftrightarrow>
      aid = ar_authority_id r \<and>
      fact_permissions (ar_subject_ref r) (ar_action_scope r) \<subseteq> fact_permissions subj acts)
    \<and> (limit_bears_on_requirement (AuthorityFact aid st subj acts prec) r \<longleftrightarrow>
      aid = ar_authority_id r \<and>
      fact_permissions subj acts \<inter> fact_permissions (ar_subject_ref r) (ar_action_scope r) \<noteq> {})"
  by (simp only: grant_covers_requirement.simps limit_bears_on_requirement.simps
      fact_permissions_subset [OF assms] fact_permissions_meet simp_thms)

definition sample_authreq :: "string option \<Rightarrow> string list \<Rightarrow> authority_requirement" where
  "sample_authreq subj acts = \<lparr>ar_id = [], ar_authority_id = ''repository_write'',
     ar_subject_ref = subj, ar_action_scope = acts, ar_reason = ''why'', ar_source_refs = []\<rparr>"

theorem authority_coverage_is_containment_witness:
  "fact_permissions (Some ''repo'') [''a''] \<subseteq> fact_permissions None [''a'', ''b'']
   \<and> \<not> fact_permissions None [''a''] \<subseteq> fact_permissions (Some ''repo'') []"
  using authority_coverage_is_containment [of "sample_authreq (Some ''repo'') [''a'']"
      "''repository_write''" GRANTED None "[''a'', ''b'']" None]
    authority_coverage_is_containment [of "sample_authreq None [''a'']"
      "''repository_write''" GRANTED "Some ''repo''" "[]" None]
  by (simp add: sample_authreq_def grant_subject_covers_def grant_actions_cover_def)

end
