(* ===== verification/Kernels.thy ===== *)
theory Kernels
  imports ContextRequirements
begin

text \<open>
  Kernel resolution, \<open>compiler/kernels.py\<close>: the typed outputs and context needs a kernel
  document declares, parsed fail-closed, and the binding of every activated kernel. A parsed
  YAML document is a \<open>json\<close> object; the pack (confinement, existence, verified bytes), the
  YAML parser and the digest of the bytes are parameters of \<open>resolve_kernels\<close>.
\<close>

section \<open>Bindings\<close>

definition CONSUMER_SURFACES :: "string list" where
  "CONSUMER_SURFACES =
     [''execution_gate'', ''validation_contract'', ''handoff_contract'', ''convergence_gate'',
      ''adapter_renderer'']"

definition CONTEXT_NEED_KEYS :: "string list" where
  "CONTEXT_NEED_KEYS =
     [''id'', ''context_kind'', ''required'', ''reason'', ''coverage'', ''minimum_authority'',
      ''required_semantic_keys'']"

record kernel_output =
  output_id :: string
  ko_required :: bool
  ko_consumer_refs :: "string list"

record kernel_context_need =
  need_id :: string
  need_kind :: context_kind
  need_required :: bool
  need_reason :: string
  need_coverage :: coverage_mode
  need_authority :: authority_level
  need_keys :: "string list"

definition need_json :: "kernel_context_need \<Rightarrow> json" where
  "need_json n = JObj
     [(''id'', JStr (need_id n)),
      (''context_kind'', JStr (kind_value (need_kind n))),
      (''required'', JBool (need_required n)),
      (''reason'', JStr (need_reason n)),
      (''coverage'', JStr (coverage_mode_value (need_coverage n))),
      (''minimum_authority'', JStr (authority_level_value (need_authority n))),
      (''required_semantic_keys'', jstrs (need_keys n))]"

record kernel_binding =
  kernel_id :: string
  kb_source_ref :: string
  kb_source_digest :: string
  kb_outputs :: "kernel_output list"
  kb_context_needs :: "kernel_context_need list"

definition output_json :: "kernel_output \<Rightarrow> json" where
  "output_json k = JObj
     [(''id'', JStr (output_id k)),
      (''required'', JBool (ko_required k)),
      (''consumer_refs'', jstrs (ko_consumer_refs k))]"

definition binding_json :: "kernel_binding \<Rightarrow> json" where
  "binding_json b = JObj
     [(''kernel_id'', JStr (kernel_id b)),
      (''source_ref'', JStr (kb_source_ref b)),
      (''source_digest'', JStr (kb_source_digest b)),
      (''outputs'', JList (map output_json (kb_outputs b))),
      (''context_needs'', JList (map need_json (kb_context_needs b)))]"

section \<open>Declared outputs\<close>

text \<open>\<open>x or []\<close>: a missing or falsy value is the empty list.\<close>

fun falsy :: "json \<Rightarrow> bool" where
  "falsy JNull \<longleftrightarrow> True"
| "falsy (JBool b) \<longleftrightarrow> \<not> b"
| "falsy (JInt i) \<longleftrightarrow> i = 0"
| "falsy (JFloat s) \<longleftrightarrow> s = ''0.0'' \<or> s = ''-0.0''"
| "falsy (JStr s) \<longleftrightarrow> s = []"
| "falsy (JList xs) \<longleftrightarrow> xs = []"
| "falsy (JObj kvs) \<longleftrightarrow> kvs = []"

definition or_list :: "json option \<Rightarrow> json" where
  "or_list v = (case v of None \<Rightarrow> JList [] | Some w \<Rightarrow> if falsy w then JList [] else w)"

text \<open>A list of strings, or nothing.\<close>

fun strings_of :: "json \<Rightarrow> string list option" where
  "strings_of (JList xs) =
     (if list_all (\<lambda>x. case x of JStr _ \<Rightarrow> True | _ \<Rightarrow> False) xs
      then Some (concat (map (\<lambda>x. case x of JStr s \<Rightarrow> [s] | _ \<Rightarrow> []) xs)) else None)"
| "strings_of _ = None"

fun non_blank_str :: "json option \<Rightarrow> string option" where
  "non_blank_str (Some (JStr s)) = (if non_blank s then Some s else None)"
| "non_blank_str _ = None"

fun bool_of :: "json option \<Rightarrow> bool option" where
  "bool_of (Some (JBool b)) = Some b"
| "bool_of _ = None"

definition parse_output :: "string \<Rightarrow> string list \<Rightarrow> json \<Rightarrow> kernel_output res" where
  "parse_output src seen entry = (case entry of
     JObj kvs \<Rightarrow>
       (case non_blank_str (map_of kvs ''id'') of
          None \<Rightarrow> Inl (InvalidValueError ''kernel output requires a non-empty id'' src)
        | Some oid \<Rightarrow> (case bool_of (map_of kvs ''required'') of
            None \<Rightarrow> Inl (InvalidValueError ''kernel output requires a boolean required flag'' src)
          | Some r \<Rightarrow>
            if oid \<in> set seen then Inl (InvalidValueError ''duplicate kernel output id'' src)
            else (case strings_of (or_list (map_of kvs ''consumer_refs'')) of
                None \<Rightarrow> Inl (InvalidValueError ''kernel output consumer_refs must be strings'' src)
              | Some refs \<Rightarrow>
                if list_ex (\<lambda>c. c \<notin> set CONSUMER_SURFACES) refs then
                  Inl (InvalidValueError ''kernel output consumer does not resolve'' src)
                else if r \<and> refs = [] then
                  Inl (InvalidValueError ''required kernel output has no consumer'' src)
                else Inr \<lparr>output_id = oid, ko_required = r, ko_consumer_refs = refs\<rparr>)))
   | _ \<Rightarrow> Inl (InvalidValueError ''kernel output entry must be a mapping'' src))"

fun parse_outputs_loop :: "string \<Rightarrow> string list \<Rightarrow> json list \<Rightarrow> kernel_output list res" where
  "parse_outputs_loop src seen [] = Inr []"
| "parse_outputs_loop src seen (e # es) =
     bindR (parse_output src seen e)
       (\<lambda>k. bindR (parse_outputs_loop src (seen @ [output_id k]) es) (\<lambda>ks. Inr (k # ks)))"

definition parse_declared_outputs :: "json \<Rightarrow> string \<Rightarrow> kernel_output list res" where
  "parse_declared_outputs doc src = (case jget doc ''typed_outputs'' of
     None \<Rightarrow> Inr []
   | Some JNull \<Rightarrow> Inr []
   | Some (JList es) \<Rightarrow> parse_outputs_loop src [] es
   | Some _ \<Rightarrow> Inl (InvalidValueError ''kernel outputs must be a list'' src))"

section \<open>Declared context needs\<close>

text \<open>\<open>enum_type(raw)\<close> over the members of an enumeration.\<close>

definition enum_value ::
  "('e \<Rightarrow> string) \<Rightarrow> 'e list \<Rightarrow> string \<Rightarrow> string \<Rightarrow> json option \<Rightarrow> 'e res" where
  "enum_value val members field src raw = (case raw of
     Some (JStr s) \<Rightarrow> (case find (\<lambda>e. val e = s) members of
         Some e \<Rightarrow> Inr e
       | None \<Rightarrow> Inl (InvalidValueError (''kernel context need has an unknown '' @ field) src))
   | _ \<Rightarrow> Inl (InvalidValueError (''kernel context need has an unknown '' @ field) src))"

definition all_kinds :: "context_kind list" where
  "all_kinds =
     [RELEVANT_ENTITY, REPOSITORY_STATE, ARCHITECTURE_CONSTRAINT, APPLICABLE_LAW, PRIOR_DECISION,
      DEPENDENCY_CONTEXT, EVIDENCE_REF, MEMORY_CONTEXT, CAPABILITY_FACT, AUTHORITY_FACT]"

definition parse_need :: "string \<Rightarrow> string list \<Rightarrow> json \<Rightarrow> kernel_context_need res" where
  "parse_need src seen entry = (case entry of
     JObj kvs \<Rightarrow>
       if list_ex (\<lambda>k. k \<notin> set CONTEXT_NEED_KEYS) (map fst kvs) then
         Inl (InvalidValueError ''kernel context need declares fields a kernel cannot know'' src)
       else (case non_blank_str (map_of kvs ''id'') of
          None \<Rightarrow> Inl (InvalidValueError ''kernel context need requires a non-empty id'' src)
        | Some nid \<Rightarrow>
          if nid \<in> set seen then Inl (InvalidValueError ''duplicate kernel context need id'' src)
          else (case bool_of (map_of kvs ''required'') of
            None \<Rightarrow> Inl (InvalidValueError ''kernel context need requires a boolean required flag'' src)
          | Some r \<Rightarrow> (case non_blank_str (map_of kvs ''reason'') of
              None \<Rightarrow> Inl (InvalidValueError ''kernel context need requires a non-empty reason'' src)
            | Some why \<Rightarrow> (case strings_of (or_list (map_of kvs ''required_semantic_keys'')) of
                None \<Rightarrow> Inl (InvalidValueError
                    ''kernel context need required_semantic_keys must be strings'' src)
              | Some ks \<Rightarrow>
                bindR (enum_value kind_value all_kinds ''context_kind'' src (map_of kvs ''context_kind''))
                (\<lambda>k. bindR (enum_value coverage_mode_value [MINIMUM, ALL_ELIGIBLE, SEMANTIC_KEYS]
                        ''coverage'' src (map_of kvs ''coverage''))
                (\<lambda>c. bindR (enum_value authority_level_value
                        [GOVERNED_AUTHORITATIVE, GOVERNED_VERIFIED, INFORMATIVE, UNVERIFIED]
                        ''minimum_authority'' src (map_of kvs ''minimum_authority''))
                (\<lambda>a.
                  if c = SEMANTIC_KEYS \<and> ks = [] then
                    Inl (InvalidValueError ''semantic_keys coverage requires required_semantic_keys'' src)
                  else if c \<noteq> SEMANTIC_KEYS \<and> ks \<noteq> [] then
                    Inl (InvalidValueError
                      ''required_semantic_keys is only meaningful for semantic_keys coverage'' src)
                  else Inr \<lparr>need_id = nid, need_kind = k, need_required = r, need_reason = why,
                            need_coverage = c, need_authority = a,
                            need_keys = sorted_unique ks\<rparr>)))))))
   | _ \<Rightarrow> Inl (InvalidValueError ''kernel context need must be a mapping'' src))"

fun parse_needs_loop :: "string \<Rightarrow> string list \<Rightarrow> json list \<Rightarrow> kernel_context_need list res" where
  "parse_needs_loop src seen [] = Inr []"
| "parse_needs_loop src seen (e # es) =
     bindR (parse_need src seen e)
       (\<lambda>n. bindR (parse_needs_loop src (seen @ [need_id n]) es) (\<lambda>ns. Inr (n # ns)))"

definition parse_context_needs :: "json \<Rightarrow> string \<Rightarrow> kernel_context_need list res" where
  "parse_context_needs doc src = (case jget doc ''context_needs'' of
     None \<Rightarrow> Inr []
   | Some JNull \<Rightarrow> Inr []
   | Some (JList es) \<Rightarrow> bindR (parse_needs_loop src [] es) (\<lambda>ns. Inr (sort_key need_id ns))
   | Some _ \<Rightarrow> Inl (InvalidValueError ''kernel context_needs must be a list'' src))"

section \<open>Resolution against a pack\<close>

fun split_on :: "char \<Rightarrow> string \<Rightarrow> string list" where
  "split_on d [] = [[]]"
| "split_on d (c # cs) =
     (if c = d then [] # split_on d cs
      else (case split_on d cs of [] \<Rightarrow> [[c]] | w # ws \<Rightarrow> (c # w) # ws))"

text \<open>\<open>Path(p).parts\<close> of a relative POSIX path, and its last part.\<close>

definition path_parts :: "string \<Rightarrow> string list" where
  "path_parts p = filter (\<lambda>w. w \<noteq> [] \<and> w \<noteq> ''.'') (split_on CHR ''/'' p)"

definition path_name :: "string \<Rightarrow> string" where
  "path_name p = (if path_parts p = [] then [] else last (path_parts p))"

definition normalize_ref :: "string \<Rightarrow> string" where
  "normalize_ref item = map (\<lambda>c. if c = CHR 0x5C then CHR ''/'' else c) (strip item)"

text \<open>\<open>Path(name).stem\<close> where the suffix is \<open>.yaml\<close> or \<open>.yml\<close>; a leading dot is no suffix.\<close>

definition yaml_suffix :: "string \<Rightarrow> bool" where
  "yaml_suffix p \<longleftrightarrow> (let n = path_name p in
     ends_with n ''.yaml'' \<and> length n > 5 \<or> ends_with n ''.yml'' \<and> length n > 4)"

definition kernel_id_of :: "string \<Rightarrow> string" where
  "kernel_id_of item = (let n = path_name (normalize_ref item) in
     if ends_with n ''.yaml'' then (if length n > 5 then take (length n - 5) n else n)
     else if ends_with n ''.yml'' then (if length n > 4 then take (length n - 4) n else n)
     else n)"

text \<open>
  The pack: whether a confined path resolves outside its root (a symbolic link), what it
  resolves to, whether it is a file, its bytes (verified against the manifest, or plain), and the YAML parser on them.
\<close>

record pack_access =
  pk_outside :: "string \<Rightarrow> bool"
  pk_target :: "string \<Rightarrow> string"
  pk_is_file :: "string \<Rightarrow> bool"
  pk_read :: "string \<Rightarrow> string res"
  pk_yaml :: "string \<Rightarrow> string \<Rightarrow> json res"

definition bind_kernel ::
  "(string \<Rightarrow> string) \<Rightarrow> pack_access \<Rightarrow> string \<Rightarrow> kernel_binding res" where
  "bind_kernel H pk rel =
     bindR (pk_read pk rel) (\<lambda>data.
     bindR (if yaml_suffix (pk_target pk rel) then
              bindR (pk_yaml pk rel data) (\<lambda>doc.
              bindR (parse_declared_outputs doc rel) (\<lambda>outs.
              bindR (parse_context_needs doc rel) (\<lambda>needs. Inr (outs, needs))))
            else Inr ([], []))
       (\<lambda>(outs, needs). Inr
         \<lparr>kernel_id = kernel_id_of rel, kb_source_ref = rel, kb_source_digest = H data,
          kb_outputs = outs, kb_context_needs = needs\<rparr>))"

fun resolve_kernels_loop ::
  "(string \<Rightarrow> string) \<Rightarrow> pack_access \<Rightarrow> string list \<Rightarrow> string list \<Rightarrow> kernel_binding list res" where
  "resolve_kernels_loop H pk seen [] = Inr []"
| "resolve_kernels_loop H pk seen (item # rest) =
     (let rel = normalize_ref item in
      if rel = [] \<or> starts_with rel ''/'' \<or> ''..'' \<in> set (path_parts rel) then
        Inl (StrictParseError UNKNOWN_KERNEL ''kernel path escapes pack root'' rel)
      else if pk_outside pk rel then
        Inl (StrictParseError UNKNOWN_KERNEL ''kernel path escapes pack root'' rel)
      else if \<not> pk_is_file pk rel then
        Inl (StrictParseError UNKNOWN_KERNEL ''activated kernel missing from pack'' rel)
      else if rel \<in> set seen then resolve_kernels_loop H pk seen rest
      else bindR (bind_kernel H pk rel)
        (\<lambda>b. bindR (resolve_kernels_loop H pk (seen @ [rel]) rest) (\<lambda>bs. Inr (b # bs))))"

definition resolve_kernels ::
  "(string \<Rightarrow> string) \<Rightarrow> pack_access \<Rightarrow> string list \<Rightarrow> kernel_binding list res" where
  "resolve_kernels H pk active = resolve_kernels_loop H pk [] active"

section \<open>What a successful parse guarantees\<close>

definition output_ok :: "kernel_output \<Rightarrow> bool" where
  "output_ok k \<longleftrightarrow> non_blank (output_id k) \<and> set (ko_consumer_refs k) \<subseteq> set CONSUMER_SURFACES
     \<and> (ko_required k \<longrightarrow> ko_consumer_refs k \<noteq> [])"

lemma non_blank_str_Some [simp]:
  "non_blank_str v = Some s \<longleftrightarrow> v = Some (JStr s) \<and> non_blank s"
  by (cases v rule: non_blank_str.cases) auto

lemma parse_output_ok: "parse_output src seen e = Inr k \<Longrightarrow> output_ok k \<and> output_id k \<notin> set seen"
  by (auto simp: parse_output_def output_ok_def list_ex_iff
      split: json.splits option.splits if_splits)

lemma parse_outputs_loop_ok:
  "parse_outputs_loop src seen es = Inr ks \<Longrightarrow>
     list_all output_ok ks \<and> distinct (map output_id ks) \<and> set (map output_id ks) \<inter> set seen = {}"
  by (induction src seen es arbitrary: ks rule: parse_outputs_loop.induct)
     (fastforce simp: bindR_eq_Inr dest!: parse_output_ok)+

lemma parse_declared_outputs_ok:
  "parse_declared_outputs doc src = Inr ks \<Longrightarrow> list_all output_ok ks \<and> distinct (map output_id ks)"
  by (auto simp: parse_declared_outputs_def dest: parse_outputs_loop_ok
      split: option.splits json.splits)

definition need_ok :: "kernel_context_need \<Rightarrow> bool" where
  "need_ok n \<longleftrightarrow> non_blank (need_id n) \<and> non_blank (need_reason n)
     \<and> (need_coverage n = SEMANTIC_KEYS \<longleftrightarrow> need_keys n \<noteq> [])
     \<and> sorted (need_keys n) \<and> distinct (need_keys n)"

lemma parse_need_ok: "parse_need src seen e = Inr n \<Longrightarrow> need_ok n \<and> need_id n \<notin> set seen"
  by (auto simp: parse_need_def need_ok_def bindR_eq_Inr
      split: json.splits option.splits if_splits)

lemma parse_needs_loop_ok:
  "parse_needs_loop src seen es = Inr ns \<Longrightarrow>
     list_all need_ok ns \<and> distinct (map need_id ns) \<and> set (map need_id ns) \<inter> set seen = {}"
  by (induction src seen es arbitrary: ns rule: parse_needs_loop.induct)
     (fastforce simp: bindR_eq_Inr dest!: parse_need_ok)+

lemma parse_context_needs_ok:
  assumes "parse_context_needs doc src = Inr ns"
  shows "list_all need_ok ns \<and> distinct (map need_id ns) \<and> sorted (map need_id ns)"
proof -
  consider "ns = []" | es ms where "parse_needs_loop src [] es = Inr ms" "ns = sort_key need_id ms"
    using assms by (auto simp: parse_context_needs_def bindR_eq_Inr split: option.splits json.splits)
  then show ?thesis
  proof cases
    case 2
    then show ?thesis using parse_needs_loop_ok [OF 2(1)]
      by (simp add: list_all_iff distinct_map)
  qed simp
qed

definition binding_ok :: "kernel_binding \<Rightarrow> bool" where
  "binding_ok b \<longleftrightarrow> list_all output_ok (kb_outputs b) \<and> distinct (map output_id (kb_outputs b))
     \<and> list_all need_ok (kb_context_needs b) \<and> distinct (map need_id (kb_context_needs b))"

lemma bind_kernel_ok:
  assumes "bind_kernel H pk rel = Inr b"
  shows "binding_ok b \<and> kb_source_ref b = rel \<and>
    (\<exists>data. pk_read pk rel = Inr data \<and> kb_source_digest b = H data)"
  using assms
  by (auto simp: bind_kernel_def bindR_eq_Inr binding_ok_def split: if_splits
      dest: parse_declared_outputs_ok parse_context_needs_ok)

lemma resolve_kernels_loop_ok:
  "resolve_kernels_loop H pk seen items = Inr bs \<Longrightarrow>
     list_all binding_ok bs
     \<and> (\<forall>b \<in> set bs. pk_is_file pk (kb_source_ref b) \<and> \<not> pk_outside pk (kb_source_ref b)
          \<and> ''..'' \<notin> set (path_parts (kb_source_ref b)) \<and> \<not> starts_with (kb_source_ref b) ''/''
          \<and> (\<exists>data. pk_read pk (kb_source_ref b) = Inr data \<and> kb_source_digest b = H data))
     \<and> distinct (map kb_source_ref bs) \<and> set (map kb_source_ref bs) \<inter> set seen = {}
     \<and> set (map kb_source_ref bs) \<union> set seen = set (map normalize_ref items) \<union> set seen"
proof (induction H pk seen items arbitrary: bs rule: resolve_kernels_loop.induct)
  case (2 H pk seen item rest)
  let ?rel = "normalize_ref item"
  from "2.prems" have c: "?rel \<noteq> []" "\<not> starts_with ?rel ''/''" "''..'' \<notin> set (path_parts ?rel)"
    "\<not> pk_outside pk ?rel" "pk_is_file pk ?rel"
    by (auto simp: Let_def split: if_splits)
  show ?case
  proof (cases "?rel \<in> set seen")
    case True
    then show ?thesis using 2 c by (auto simp: Let_def)
  next
    case False
    then obtain b bs' where b: "bind_kernel H pk ?rel = Inr b"
      "resolve_kernels_loop H pk (seen @ [?rel]) rest = Inr bs'" "bs = b # bs'"
      using "2.prems" c by (auto simp: Let_def bindR_eq_Inr)
    note k = bind_kernel_ok [OF b(1)]
    have i: "list_all binding_ok bs'
     \<and> (\<forall>b \<in> set bs'. pk_is_file pk (kb_source_ref b) \<and> \<not> pk_outside pk (kb_source_ref b)
          \<and> ''..'' \<notin> set (path_parts (kb_source_ref b)) \<and> \<not> starts_with (kb_source_ref b) ''/''
          \<and> (\<exists>data. pk_read pk (kb_source_ref b) = Inr data \<and> kb_source_digest b = H data))
     \<and> distinct (map kb_source_ref bs') \<and> set (map kb_source_ref bs') \<inter> set (seen @ [?rel]) = {}
     \<and> set (map kb_source_ref bs') \<union> set (seen @ [?rel])
       = set (map normalize_ref rest) \<union> set (seen @ [?rel])"
      by (rule "2.IH"(2)) (use c False b in auto)
    have e: "kb_source_ref b = ?rel" using k by blast
    show ?thesis unfolding b(3) using i k c False by (auto simp: e)
  qed
qed simp

section \<open>Properties\<close>

text \<open>C8: Kernel resolution fails closed: a successful resolution binds exactly the activated
  references, each once, none of them outside the pack root, each to the digest of the bytes it
  was parsed from, and every required output it declares has a known consumer.\<close>

theorem resolve_kernels_sound:
  assumes "resolve_kernels H pk active = Inr bs"
  shows "set (map kb_source_ref bs) = set (map normalize_ref active) \<and> distinct (map kb_source_ref bs)
    \<and> list_all (\<lambda>b. ''..'' \<notin> set (path_parts (kb_source_ref b)) \<and> \<not> starts_with (kb_source_ref b) ''/''
         \<and> pk_is_file pk (kb_source_ref b) \<and> \<not> pk_outside pk (kb_source_ref b)
         \<and> (\<exists>data. pk_read pk (kb_source_ref b) = Inr data \<and> kb_source_digest b = H data)) bs
    \<and> list_all (\<lambda>b. list_all (\<lambda>k. set (ko_consumer_refs k) \<subseteq> set CONSUMER_SURFACES
         \<and> \<not> (ko_required k \<and> ko_consumer_refs k = [])) (kb_outputs b)
         \<and> list_all (\<lambda>n. need_coverage n = SEMANTIC_KEYS \<longleftrightarrow> need_keys n \<noteq> []) (kb_context_needs b)) bs"
  using resolve_kernels_loop_ok [OF assms [unfolded resolve_kernels_def]]
  by (auto simp: list_all_iff binding_ok_def output_ok_def need_ok_def)

definition sample_pack :: pack_access where
  "sample_pack = \<lparr>pk_outside = (\<lambda>_. False), pk_target = (\<lambda>p. p), pk_is_file = (\<lambda>p. p = ''k/one.yaml''),
     pk_read = (\<lambda>_. Inr ''bytes''),
     pk_yaml = (\<lambda>_ _. Inr (JObj [(''typed_outputs'', JList [JObj [(''id'', JStr ''out''),
       (''required'', JBool True), (''consumer_refs'', JList [JStr ''execution_gate''])]])]))\<rparr>"

theorem resolve_kernels_sound_witness:
  "\<exists>b. resolve_kernels (\<lambda>s. s) sample_pack [''k/one.yaml'', '' k/one.yaml''] = Inr [b]
     \<and> kernel_id b = ''one'' \<and> kb_source_digest b = ''bytes''
     \<and> set (map kb_source_ref [b]) = set (map normalize_ref [''k/one.yaml'', '' k/one.yaml''])"
proof -
  define b where "b = \<lparr>kernel_id = ''one'', kb_source_ref = ''k/one.yaml'', kb_source_digest = ''bytes'',
    kb_outputs = [\<lparr>output_id = ''out'', ko_required = True, ko_consumer_refs = [''execution_gate'']\<rparr>],
    kb_context_needs = []\<rparr>"
  have r: "resolve_kernels (\<lambda>s. s) sample_pack [''k/one.yaml'', '' k/one.yaml''] = Inr [b]"
    unfolding b_def by code_simp
  from resolve_kernels_sound [OF r] r show ?thesis by (intro exI [of _ b]) (simp add: b_def)
qed

end
