(* ===== verification/ContextSnapshots.thy ===== *)
theory ContextSnapshots
  imports ContextRequirements
begin

text \<open>
  The supply side of \<open>models/context.py\<close>: the snapshot of governed candidates, its ingress
  measures, the capability, authority and discovery contexts, the compiled task context and
  the public context plan. The ten buckets of a snapshot are lists of items; that a bucket
  holds items of its own class is \<open>snapshot_typed\<close> (in the code, the static types).
\<close>

section \<open>Capability, authority and discovery contexts\<close>

record capability_context =
  cap_required :: "capability_requirement list"
  cap_available :: "context_item list"
  cap_unavailable :: "context_item list"
  cap_unknown :: "context_item list"

definition capability_context_json :: "capability_context \<Rightarrow> json" where
  "capability_context_json c = JObj
     [(''required'', JList (map capreq_json (cap_required c))),
      (''available'', JList (map item_json (cap_available c))),
      (''unavailable'', JList (map item_json (cap_unavailable c))),
      (''unknown'', JList (map item_json (cap_unknown c)))]"

record authority_context =
  auth_required :: "authority_requirement list"
  auth_granted :: "context_item list"
  auth_limits :: "context_item list"
  auth_unknown :: "context_item list"
  effective_order :: "string list"
  effective_order_source :: authority_order_source

definition authority_context_json :: "authority_context \<Rightarrow> json" where
  "authority_context_json a = JObj
     [(''required'', JList (map authreq_json (auth_required a))),
      (''granted'', JList (map item_json (auth_granted a))),
      (''limits'', JList (map item_json (auth_limits a))),
      (''unknown'', JList (map item_json (auth_unknown a))),
      (''effective_order'', jstrs (effective_order a)),
      (''effective_order_source'', JStr (order_source_value (effective_order_source a)))]"

text \<open>A \<open>dict[str, str]\<close> of digests is an association list in insertion order.\<close>

definition jdict :: "(string \<times> string) list \<Rightarrow> json" where
  "jdict d = JObj (map (\<lambda>(k, v). (k, JStr v)) d)"

record discovery_context =
  disc_scope_digest :: string
  routing_fact_refs :: "string list"
  architecture_signal_refs :: "string list"
  disc_unknowns :: "context_unknown list"
  disc_item_digests :: "(string \<times> string) list"

definition make_discovery :: "discovery_context \<Rightarrow> discovery_context" where
  "make_discovery d = d\<lparr>routing_fact_refs := sorted_unique (routing_fact_refs d),
                        architecture_signal_refs := sorted_unique (architecture_signal_refs d)\<rparr>"

definition discovery_json :: "discovery_context \<Rightarrow> json" where
  "discovery_json d = JObj
     [(''task_scope_digest'', JStr (disc_scope_digest d)),
      (''routing_fact_refs'', jstrs (routing_fact_refs d)),
      (''architecture_signal_refs'', jstrs (architecture_signal_refs d)),
      (''unresolved_unknowns'', JList (map unknown_json (disc_unknowns d))),
      (''selected_item_digests'', jdict (disc_item_digests d))]"

record compiler_identity =
  package_version :: string
  semantics_version :: string

definition make_compiler_identity :: "string \<Rightarrow> string \<Rightarrow> compiler_identity res" where
  "make_compiler_identity pv sv =
     (if \<not> non_blank pv then Inl (InvalidValueError ''must be non-empty'' ''package_version'')
      else if \<not> non_blank sv then Inl (InvalidValueError ''must be non-empty'' ''semantics_version'')
      else Inr \<lparr>package_version = pv, semantics_version = sv\<rparr>)"

definition compiler_identity_json :: "compiler_identity \<Rightarrow> json" where
  "compiler_identity_json c = JObj [(''package_version'', JStr (package_version c)),
                                  (''semantics_version'', JStr (semantics_version c))]"

record context_provenance =
  prov_scope_digest :: string
  discovery_digest :: string
  context_requirements_digest :: string
  prov_discovery_digests :: "(string \<times> string) list"
  prov_item_digests :: "(string \<times> string) list"
  prov_kernel_digests :: "(string \<times> string) list"
  prov_compiler :: compiler_identity

definition context_provenance_json :: "context_provenance \<Rightarrow> json" where
  "context_provenance_json p = JObj
     [(''task_scope_digest'', JStr (prov_scope_digest p)),
      (''discovery_digest'', JStr (discovery_digest p)),
      (''context_requirements_digest'', JStr (context_requirements_digest p)),
      (''discovery_item_digests'', jdict (prov_discovery_digests p)),
      (''selected_item_digests'', jdict (prov_item_digests p)),
      (''kernel_digests'', jdict (prov_kernel_digests p)),
      (''compiler_identity'', compiler_identity_json (prov_compiler p))]"

section \<open>The public context plan\<close>

definition CONTEXT_PLAN_SCHEMA_VERSION :: string where
  "CONTEXT_PLAN_SCHEMA_VERSION = ''l9.context-plan/v1''"

record context_plan =
  context_plan_id :: string
  cp_scope :: task_scope
  cp_discovery :: discovery_context
  cp_requirement_plan :: context_requirement_plan
  active_kernel_digests :: "(string \<times> string) list"
  pack_manifest_digest :: string
  routing_rules_digest :: string
  pipeline_digest :: string
  cp_compiler :: compiler_identity

definition context_plan_payload :: "context_plan \<Rightarrow> json" where
  "context_plan_payload p = JObj
     [(''schema_version'', JStr CONTEXT_PLAN_SCHEMA_VERSION),
      (''task_scope'', scope_json (cp_scope p)),
      (''discovery'', discovery_json (cp_discovery p)),
      (''requirement_plan'', plan_json (cp_requirement_plan p)),
      (''active_kernel_digests'', jdict (active_kernel_digests p)),
      (''pack_manifest_digest'', JStr (pack_manifest_digest p)),
      (''routing_rules_digest'', JStr (routing_rules_digest p)),
      (''pipeline_digest'', JStr (pipeline_digest p)),
      (''compiler_identity'', compiler_identity_json (cp_compiler p))]"

definition expected_context_plan_id :: "(string \<Rightarrow> string) \<Rightarrow> context_plan \<Rightarrow> string" where
  "expected_context_plan_id H p = derive_id H ''context-plan'' (context_plan_payload p)"

definition make_context_plan :: "(string \<Rightarrow> string) \<Rightarrow> context_plan \<Rightarrow> context_plan res" where
  "make_context_plan H p =
     (if disc_scope_digest (cp_discovery p) \<noteq> scope_sha256 H (cp_scope p) then
        Inl (InvalidValueError ''context plan discovery does not bind the task scope'' ''<root>'')
      else if plan_scope_digest (cp_requirement_plan p) \<noteq> scope_sha256 H (cp_scope p) then
        Inl (InvalidValueError ''context requirement plan does not bind the task scope'' ''<root>'')
      else if \<not> non_blank (plan_route (cp_requirement_plan p)) then
        Inl (InvalidValueError ''context plan requires a matched route'' ''<root>'')
      else if context_plan_id p = [] then
        Inr (p\<lparr>context_plan_id := expected_context_plan_id H p\<rparr>)
      else if context_plan_id p \<noteq> expected_context_plan_id H p then
        Inl (InvalidValueError ''context_plan_id must be the deterministic context-plan recipe''
               ''<root>'')
      else Inr p)"

section \<open>Snapshots\<close>

record context_snapshot =
  snap_relevant_entities :: "context_item list"
  snap_repository_state :: "context_item list"
  snap_architecture_constraints :: "context_item list"
  snap_applicable_law :: "context_item list"
  snap_prior_decisions :: "context_item list"
  snap_dependency_context :: "context_item list"
  snap_evidence_refs :: "context_item list"
  snap_memory_context :: "context_item list"
  snap_capability_facts :: "context_item list"
  snap_authority_facts :: "context_item list"

definition SNAPSHOT_BUCKETS :: "string list" where
  "SNAPSHOT_BUCKETS =
     [''relevant_entities'', ''repository_state'', ''architecture_constraints'', ''applicable_law'',
      ''prior_decisions'', ''dependency_context'', ''evidence_refs'', ''memory_context'',
      ''capability_facts'', ''authority_facts'']"

definition snap_buckets :: "context_snapshot \<Rightarrow> context_item list list" where
  "snap_buckets s =
     [snap_relevant_entities s, snap_repository_state s, snap_architecture_constraints s,
      snap_applicable_law s, snap_prior_decisions s, snap_dependency_context s,
      snap_evidence_refs s, snap_memory_context s, snap_capability_facts s,
      snap_authority_facts s]"

definition BUCKET_KINDS :: "context_kind list" where
  "BUCKET_KINDS =
     [RELEVANT_ENTITY, REPOSITORY_STATE, ARCHITECTURE_CONSTRAINT, APPLICABLE_LAW, PRIOR_DECISION,
      DEPENDENCY_CONTEXT, EVIDENCE_REF, MEMORY_CONTEXT, CAPABILITY_FACT, AUTHORITY_FACT]"

text \<open>The static types of the buckets.\<close>

definition snapshot_typed :: "context_snapshot \<Rightarrow> bool" where
  "snapshot_typed s \<longleftrightarrow>
     list_all2 (\<lambda>b k. list_all (\<lambda>it. item_kind it = k) b) (snap_buckets s) BUCKET_KINDS"

definition empty_snapshot :: context_snapshot where
  "empty_snapshot =
     \<lparr>snap_relevant_entities = [], snap_repository_state = [], snap_architecture_constraints = [],
      snap_applicable_law = [], snap_prior_decisions = [], snap_dependency_context = [],
      snap_evidence_refs = [], snap_memory_context = [], snap_capability_facts = [],
      snap_authority_facts = []\<rparr>"

definition all_items :: "context_snapshot \<Rightarrow> context_item list" where
  "all_items s = concat (snap_buckets s)"

definition item_count :: "context_snapshot \<Rightarrow> nat" where
  "item_count s = sum_list (map length (snap_buckets s))"

definition snapshot_json :: "context_snapshot \<Rightarrow> json" where
  "snapshot_json s =
     JObj (zip SNAPSHOT_BUCKETS (map (\<lambda>b. JList (map item_json b)) (snap_buckets s)))"

definition canonical_byte_size :: "context_snapshot \<Rightarrow> nat" where
  "canonical_byte_size s = length (canonical_json_bytes (snapshot_json s))"

definition check_snapshot :: "context_snapshot \<Rightarrow> context_snapshot res" where
  "check_snapshot s =
     (if list_ex (\<lambda>it. selected_because it \<noteq> []) (all_items s) then
        Inl (InvalidValueError
          ''snapshot candidate must not supply selected_because; selection lineage is compiler-generated''
          ''<root>'')
      else Inr s)"

definition audit_digest :: "(string \<Rightarrow> string) \<Rightarrow> context_snapshot \<Rightarrow> string" where
  "audit_digest H s = sha256_digest H (snapshot_json s)"

text \<open>The same measures on a payload that has not been typed yet.\<close>

definition payload_item_count :: "json \<Rightarrow> nat" where
  "payload_item_count payload =
     sum_list (map (\<lambda>k. case jget payload k of Some (JList vs) \<Rightarrow> length vs | _ \<Rightarrow> 0)
       SNAPSHOT_BUCKETS)"

definition payload_canonical_byte_size :: "json \<Rightarrow> nat" where
  "payload_canonical_byte_size payload = length (canonical_json_bytes payload)"

section \<open>The compiled task context\<close>

record compiled_task_context =
  ctx_scope :: task_scope
  ctx_entities :: "context_item list"
  ctx_repository_state :: "context_item list"
  ctx_constraints :: "context_item list"
  ctx_law :: "context_item list"
  ctx_decisions :: "context_item list"
  ctx_dependencies :: "context_item list"
  ctx_evidence :: "context_item list"
  ctx_memory :: "context_item list"
  ctx_kernels :: "json list"
  ctx_capabilities :: capability_context
  ctx_authority :: authority_context
  ctx_unknowns :: "context_unknown list"
  ctx_provenance :: context_provenance

definition selected_items :: "compiled_task_context \<Rightarrow> context_item list" where
  "selected_items c =
     ctx_entities c @ ctx_repository_state c @ ctx_constraints c @ ctx_law c @ ctx_decisions c
     @ ctx_dependencies c @ ctx_evidence c @ ctx_memory c
     @ cap_available (ctx_capabilities c) @ cap_unavailable (ctx_capabilities c)
     @ cap_unknown (ctx_capabilities c)
     @ auth_granted (ctx_authority c) @ auth_limits (ctx_authority c)
     @ auth_unknown (ctx_authority c)"

definition context_json :: "compiled_task_context \<Rightarrow> json" where
  "context_json c = JObj
     [(''task_scope'', scope_json (ctx_scope c)),
      (''relevant_entities'', JList (map item_json (ctx_entities c))),
      (''repository_state'', JList (map item_json (ctx_repository_state c))),
      (''architecture_constraints'', JList (map item_json (ctx_constraints c))),
      (''applicable_law'', JList (map item_json (ctx_law c))),
      (''prior_decisions'', JList (map item_json (ctx_decisions c))),
      (''dependency_context'', JList (map item_json (ctx_dependencies c))),
      (''evidence_refs'', JList (map item_json (ctx_evidence c))),
      (''memory_context'', JList (map item_json (ctx_memory c))),
      (''selected_kernels'', JList (ctx_kernels c)),
      (''capabilities'', capability_context_json (ctx_capabilities c)),
      (''authority'', authority_context_json (ctx_authority c)),
      (''unresolved_unknowns'', JList (map unknown_json (ctx_unknowns c))),
      (''provenance'', context_provenance_json (ctx_provenance c))]"

section \<open>Properties of the measures\<close>

lemma item_count_all_items: "item_count s = length (all_items s)"
  by (simp add: item_count_def all_items_def length_concat)

lemma payload_measures:
  "payload_item_count (snapshot_json s) = item_count s"
  "payload_canonical_byte_size (snapshot_json s) = canonical_byte_size s"
proof -
  show "payload_item_count (snapshot_json s) = item_count s"
    by (simp add: payload_item_count_def snapshot_json_def SNAPSHOT_BUCKETS_def snap_buckets_def
        item_count_def)
qed (simp add: payload_canonical_byte_size_def canonical_byte_size_def)

lemma item_sort_key_kind:
  "item_sort_key a = item_sort_key b \<Longrightarrow> kind_value (item_kind a) = kind_value (item_kind b)"
  by (simp add: item_sort_key_def)

lemma make_context_plan_Inr:
  assumes "make_context_plan H p = Inr q"
  shows "q = p\<lparr>context_plan_id := expected_context_plan_id H p\<rparr>"
    and "disc_scope_digest (cp_discovery q) = scope_sha256 H (cp_scope q)"
    and "plan_scope_digest (cp_requirement_plan q) = scope_sha256 H (cp_scope q)"
    and "context_plan_id q = expected_context_plan_id H q"
  using assms
  by (auto simp: make_context_plan_def expected_context_plan_id_def context_plan_payload_def
      split: if_splits)

definition context_plan_ok :: "context_plan \<Rightarrow> bool" where
  "context_plan_ok p \<longleftrightarrow>
     distinct (map fst (active_kernel_digests p)) \<and> distinct (map fst (disc_item_digests (cp_discovery p)))
     \<and> (\<forall>u \<in> set (sc_unknowns (cp_scope p)). wf_json (details u))
     \<and> (\<forall>u \<in> set (disc_unknowns (cp_discovery p)). wf_json (details u))"

lemma wf_jdict [simp]: "wf_json (jdict d) \<longleftrightarrow> distinct (map fst d)"
  by (auto simp: jdict_def list_all_iff comp_def case_prod_unfold)

interpretation context_plan_ident: identity_recipe context_plan_payload expected_context_plan_id
  "''context-plan''" context_plan_ok
  by unfold_locales
    (auto simp: expected_context_plan_id_def context_plan_payload_def context_plan_ok_def
      scope_json_def discovery_json_def plan_json_def budget_json_def compiler_identity_json_def
      list_all_iff wf_unknown_json)

end
