(* ===== verification/Reachability.thy ===== *)
theory Reachability
  imports Prelude
begin

text \<open>
  The graph part of supersession in \<open>compiler/task_context.py\<close>: \<open>_reachable_set\<close> (an
  explicit-stack depth-first search) and \<open>_cycle_components\<close>, over an adjacency dictionary.
  A Python set of nodes is the list of its insertions; its iteration order is not specified,
  and nothing below depends on it. The lemmas show that the search computes the transitive
  closure and that the components are the classes of mutual reachability on the cycles.
\<close>

section \<open>Depth-first search\<close>

text \<open>\<open>adjacency.get(node, ())\<close>.\<close>

definition neighbours :: "('a \<times> 'a list) list \<Rightarrow> 'a \<Rightarrow> 'a list" where
  "neighbours adj n = al_get adj n []"

definition targets :: "('a \<times> 'a list) list \<Rightarrow> 'a set" where
  "targets adj = \<Union> (set ` snd ` set adj)"

lemma neighbours_targets: "set (neighbours adj n) \<subseteq> targets adj"
proof (cases "map_of adj n")
  case (Some ns)
  then show ?thesis using map_of_SomeD [OF Some] by (force simp: neighbours_def al_get_def targets_def)
qed (simp add: neighbours_def al_get_def)

lemma finite_targets [simp]: "finite (targets adj)"
  by (simp add: targets_def)

text \<open>The loop of \<open>_reachable_set\<close>: the head of the list is the top of the stack.\<close>

function reach_loop :: "('a \<times> 'a list) list \<Rightarrow> 'a list \<Rightarrow> 'a list \<Rightarrow> 'a list" where
  "reach_loop adj seen [] = seen"
| "reach_loop adj seen (c # stack) =
     (if c \<in> set seen then reach_loop adj seen stack
      else reach_loop adj (c # seen) (neighbours adj c @ stack))"
  by pat_completeness auto

termination
proof (relation "(\<lambda>(adj, seen, stack). card ((set stack \<union> targets adj) - set seen))
    <*mlex*> measure (\<lambda>(adj, seen, stack). length stack)")
  fix adj :: "('a \<times> 'a list) list" and seen stack :: "'a list" and c :: 'a
  { assume "c \<in> set seen"
    then have "card ((set stack \<union> targets adj) - set seen)
        \<le> card ((set (c # stack) \<union> targets adj) - set seen)"
      by (intro card_mono) auto
    then show "((adj, seen, stack), (adj, seen, c # stack))
        \<in> (\<lambda>(adj, seen, stack). card ((set stack \<union> targets adj) - set seen))
            <*mlex*> measure (\<lambda>(adj, seen, stack). length stack)"
      by (intro mlex_leq) auto }
  { assume n: "c \<notin> set seen"
    have "(set (neighbours adj c @ stack) \<union> targets adj) - set (c # seen)
        \<subset> (set (c # stack) \<union> targets adj) - set seen"
      using n neighbours_targets [of adj c] by auto
    then have "card ((set (neighbours adj c @ stack) \<union> targets adj) - set (c # seen))
        < card ((set (c # stack) \<union> targets adj) - set seen)"
      by (intro psubset_card_mono) auto
    then show "((adj, c # seen, neighbours adj c @ stack), (adj, seen, c # stack))
        \<in> (\<lambda>(adj, seen, stack). card ((set stack \<union> targets adj) - set seen))
            <*mlex*> measure (\<lambda>(adj, seen, stack). length stack)"
      by (intro mlex_less) auto }
qed (auto intro: wf_mlex)

definition reachable_set :: "('a \<times> 'a list) list \<Rightarrow> 'a \<Rightarrow> 'a list" where
  "reachable_set adj node = reach_loop adj [] (neighbours adj node)"

text \<open>The edge relation an adjacency dictionary stands for.\<close>

definition edge_rel :: "('a \<times> 'a list) list \<Rightarrow> ('a \<times> 'a) set" where
  "edge_rel adj = {(a, b). b \<in> set (neighbours adj a)}"

lemma reach_loop_incl: "set seen \<union> set stack \<subseteq> set (reach_loop adj seen stack)"
  by (induction adj seen stack rule: reach_loop.induct) auto

lemma reach_loop_closed:
  "\<forall>x \<in> set seen. set (neighbours adj x) \<subseteq> set seen \<union> set stack \<Longrightarrow>
   \<forall>x \<in> set (reach_loop adj seen stack). set (neighbours adj x) \<subseteq> set (reach_loop adj seen stack)"
  by (induction adj seen stack rule: reach_loop.induct) (auto split: if_splits)

lemma reach_loop_sound:
  "x \<in> set (reach_loop adj seen stack) \<Longrightarrow> x \<in> set seen \<or> (\<exists>s \<in> set stack. (s, x) \<in> (edge_rel adj)\<^sup>*)"
proof (induction adj seen stack rule: reach_loop.induct)
  case (2 adj seen c stack)
  show ?case
  proof (cases "c \<in> set seen")
    case False
    have "(s, x) \<in> (edge_rel adj)\<^sup>* \<Longrightarrow> s \<in> set (neighbours adj c) \<Longrightarrow> (c, x) \<in> (edge_rel adj)\<^sup>*" for s
      by (rule converse_rtrancl_into_rtrancl) (auto simp: edge_rel_def)
    then show ?thesis using 2 False by (auto split: if_splits)
  qed (use 2 in auto)
qed auto

theorem reachable_set_trancl:
  "x \<in> set (reachable_set adj node) \<longleftrightarrow> (node, x) \<in> (edge_rel adj)\<^sup>+"
proof
  assume "x \<in> set (reachable_set adj node)"
  then obtain s where "s \<in> set (neighbours adj node)" "(s, x) \<in> (edge_rel adj)\<^sup>*"
    using reach_loop_sound by (fastforce simp: reachable_set_def)
  then show "(node, x) \<in> (edge_rel adj)\<^sup>+"
    by (intro rtrancl_into_trancl2 [of node s]) (auto simp: edge_rel_def)
next
  have closed: "\<forall>y \<in> set (reachable_set adj node). set (neighbours adj y) \<subseteq> set (reachable_set adj node)"
    unfolding reachable_set_def by (rule reach_loop_closed) simp
  assume "(node, x) \<in> (edge_rel adj)\<^sup>+"
  then show "x \<in> set (reachable_set adj node)"
  proof (induction rule: trancl_induct)
    case (base y)
    then show ?case using reach_loop_incl [of "[]" "neighbours adj node" adj]
      by (auto simp: reachable_set_def edge_rel_def)
  next
    case (step y z)
    then show ?case using closed by (auto simp: edge_rel_def)
  qed
qed

section \<open>Classes of mutual reachability\<close>

fun components_loop :: "('a \<Rightarrow> 'a \<Rightarrow> bool) \<Rightarrow> 'a list \<Rightarrow> 'a list \<Rightarrow> 'a list \<Rightarrow> 'a list list" where
  "components_loop reaches on_cycle assigned [] = []"
| "components_loop reaches on_cycle assigned (node # rest) =
     (if node \<in> set assigned then components_loop reaches on_cycle assigned rest
      else let component = filter (\<lambda>other. reaches node other \<and> reaches other node) on_cycle
           in component # components_loop reaches on_cycle (assigned @ component) rest)"

definition cycle_components :: "('a::linorder \<times> 'a list) list \<Rightarrow> 'a list list" where
  "cycle_components adj =
     (let reaches = (\<lambda>a b. b \<in> set (reachable_set adj a));
          on_cycle = sort (filter (\<lambda>n. reaches n n) (map fst adj))
      in components_loop reaches on_cycle [] on_cycle)"

text \<open>Every node still to visit is on a cycle, and the assigned nodes are whole classes.\<close>

definition whole_classes :: "('a \<Rightarrow> 'a \<Rightarrow> bool) \<Rightarrow> 'a list \<Rightarrow> 'a list \<Rightarrow> bool" where
  "whole_classes reaches on_cycle assigned \<longleftrightarrow> (\<forall>n \<in> set on_cycle. reaches n n) \<and>
     (\<forall>a \<in> set assigned. \<forall>b \<in> set on_cycle. reaches a b \<and> reaches b a \<longrightarrow> b \<in> set assigned)"

text \<open>What the component loop relies on: reachability is transitive.\<close>

locale reachability_oracle =
  fixes reaches :: "'a \<Rightarrow> 'a \<Rightarrow> bool"
  assumes reaches_trans: "reaches a b \<Longrightarrow> reaches b c \<Longrightarrow> reaches a c"
begin

lemma cyc_step:
  "whole_classes reaches on_cycle assigned \<Longrightarrow>
     whole_classes reaches on_cycle (assigned @ filter (\<lambda>o2. reaches n o2 \<and> reaches o2 n) on_cycle)"
  unfolding whole_classes_def by (auto intro: reaches_trans)

lemma components_class:
  "scc \<in> set (components_loop reaches on_cycle assigned rest) \<Longrightarrow>
     \<exists>n \<in> set rest. scc = filter (\<lambda>o2. reaches n o2 \<and> reaches o2 n) on_cycle"
  by (induction rest arbitrary: assigned) (auto simp: Let_def split: if_splits)

lemma components_cover:
  assumes "whole_classes reaches on_cycle assigned" "set rest \<subseteq> set on_cycle" "n \<in> set rest" "n \<notin> set assigned"
  shows "n \<in> \<Union> (set ` set (components_loop reaches on_cycle assigned rest))"
  using assms
proof (induction rest arbitrary: assigned)
  case (Cons m rest)
  let ?c = "filter (\<lambda>o2. reaches m o2 \<and> reaches o2 m) on_cycle"
  show ?case
  proof (cases "m \<in> set assigned")
    case False
    show ?thesis
    proof (cases "n \<in> set ?c")
      case out: False
      have "n \<noteq> m" using out Cons.prems by (auto simp: whole_classes_def)
      then have "n \<in> \<Union> (set ` set (components_loop reaches on_cycle (assigned @ ?c) rest))"
        using Cons.prems out by (intro Cons.IH cyc_step) auto
      then show ?thesis using False by (simp add: Let_def)
    qed (use False in \<open>auto simp: Let_def\<close>)
  qed (use Cons in auto)
qed simp

lemma components_fresh:
  assumes "whole_classes reaches on_cycle assigned" "set rest \<subseteq> set on_cycle"
    "scc \<in> set (components_loop reaches on_cycle assigned rest)"
  shows "set scc \<inter> set assigned = {}"
  using assms
proof (induction rest arbitrary: assigned)
  case (Cons m rest)
  let ?c = "filter (\<lambda>o2. reaches m o2 \<and> reaches o2 m) on_cycle"
  show ?case
  proof (cases "m \<in> set assigned")
    case False
    consider "scc = ?c" | "scc \<in> set (components_loop reaches on_cycle (assigned @ ?c) rest)"
      using Cons.prems(3) False by (auto simp: Let_def)
    then show ?thesis
    proof cases
      case 1
      then show ?thesis using Cons.prems(1,2) False unfolding whole_classes_def by auto
    next
      case 2
      then have "set scc \<inter> set (assigned @ ?c) = {}"
        using Cons.prems by (intro Cons.IH cyc_step) auto
      then show ?thesis by auto
    qed
  qed (use Cons in auto)
qed simp

lemma components_disjoint:
  assumes "whole_classes reaches on_cycle assigned" "set rest \<subseteq> set on_cycle" "distinct on_cycle"
  shows "distinct (concat (components_loop reaches on_cycle assigned rest))"
  using assms
proof (induction rest arbitrary: assigned)
  case (Cons m rest)
  let ?c = "filter (\<lambda>o2. reaches m o2 \<and> reaches o2 m) on_cycle"
  show ?case
  proof (cases "m \<in> set assigned")
    case False
    have "distinct (concat (components_loop reaches on_cycle (assigned @ ?c) rest))"
      using Cons.prems by (intro Cons.IH cyc_step) auto
    moreover have "set scc \<inter> set ?c = {}"
      if "scc \<in> set (components_loop reaches on_cycle (assigned @ ?c) rest)" for scc
      using components_fresh [OF cyc_step _ that] Cons.prems by auto
    ultimately show ?thesis
      using False Cons.prems(3) by (auto simp: Let_def)
  qed (use Cons in auto)
qed simp

end

interpretation dfs: reachability_oracle "\<lambda>a b. b \<in> set (reachable_set adj a)" for adj
  by unfold_locales (auto simp: reachable_set_trancl intro: trancl_trans)

lemma edge_rel_key:
  assumes "(a, b) \<in> (edge_rel adj)\<^sup>+"
  shows "a \<in> set (map fst adj)"
proof -
  from assms obtain c where "(a, c) \<in> edge_rel adj"
    by (meson tranclD)
  then show ?thesis
    by (cases "map_of adj a")
      (auto simp: edge_rel_def neighbours_def al_get_def dest!: map_of_SomeD intro: rev_image_eqI)
qed

lemma mem_cycle_components:
  assumes "distinct (map fst adj)"
  shows "n \<in> \<Union> (set ` set (cycle_components adj)) \<longleftrightarrow> (n, n) \<in> (edge_rel adj)\<^sup>+"
    and "scc \<in> set (cycle_components adj) \<Longrightarrow> a \<in> set scc \<Longrightarrow>
           b \<in> set scc \<longleftrightarrow> (a, b) \<in> (edge_rel adj)\<^sup>+ \<and> (b, a) \<in> (edge_rel adj)\<^sup>+"
    and "distinct (concat (cycle_components adj))"
    and "scc \<in> set (cycle_components adj) \<Longrightarrow> sorted scc"
proof -
  define oc where "oc = sort (filter (\<lambda>n. n \<in> set (reachable_set adj n)) (map fst adj))"
  have cc: "cycle_components adj = components_loop (\<lambda>a b. b \<in> set (reachable_set adj a)) oc [] oc"
    by (simp add: cycle_components_def oc_def Let_def)
  have oc: "set oc = {n. (n, n) \<in> (edge_rel adj)\<^sup>+}"
    using edge_rel_key [of _ _ adj] by (auto simp: oc_def reachable_set_trancl simp del: set_map)
  have cyc: "whole_classes (\<lambda>a b. b \<in> set (reachable_set adj a)) oc []"
    by (simp add: whole_classes_def oc reachable_set_trancl)
  have cls: "\<exists>m. (m, m) \<in> (edge_rel adj)\<^sup>+ \<and>
      scc = filter (\<lambda>p. (m, p) \<in> (edge_rel adj)\<^sup>+ \<and> (p, m) \<in> (edge_rel adj)\<^sup>+) oc"
    if "scc \<in> set (cycle_components adj)" for scc
    using dfs.components_class [OF that [unfolded cc]] by (auto simp: reachable_set_trancl oc)
  show "n \<in> \<Union> (set ` set (cycle_components adj)) \<longleftrightarrow> (n, n) \<in> (edge_rel adj)\<^sup>+"
  proof
    assume "(n, n) \<in> (edge_rel adj)\<^sup>+"
    then show "n \<in> \<Union> (set ` set (cycle_components adj))"
      unfolding cc using dfs.components_cover [OF cyc] oc by auto
  qed (use cls oc in fastforce)
  show "distinct (concat (cycle_components adj))"
    unfolding cc using assms by (intro dfs.components_disjoint [OF cyc]) (auto simp: oc_def)
  { assume "scc \<in> set (cycle_components adj)"
    from cls [OF this] show "sorted scc"
      by (auto simp: oc_def intro!: sorted_wrt_filter) }
  { assume "scc \<in> set (cycle_components adj)" and a: "a \<in> set scc"
    with cls obtain m where m: "scc = filter (\<lambda>p. (m, p) \<in> (edge_rel adj)\<^sup>+ \<and> (p, m) \<in> (edge_rel adj)\<^sup>+) oc"
      by blast
    show "b \<in> set scc \<longleftrightarrow> (a, b) \<in> (edge_rel adj)\<^sup>+ \<and> (b, a) \<in> (edge_rel adj)\<^sup>+"
      using a unfolding m by (auto simp: oc intro: trancl_trans) }
qed

text \<open>The components depend on the edges alone, not on how the dictionary was filled.\<close>

lemma cycle_components_cong:
  assumes d: "distinct (map fst adj)" "distinct (map fst adj')" and e: "edge_rel adj = edge_rel adj'"
  shows "cycle_components adj = cycle_components adj'"
proof -
  have r: "(b \<in> set (reachable_set adj a)) = (b \<in> set (reachable_set adj' a))" for a b
    by (simp add: reachable_set_trancl e)
  have key: "n \<in> set (map fst a)" if "(n, n) \<in> (edge_rel a)\<^sup>+" for n and a :: "('a \<times> 'a list) list"
    using that by (rule edge_rel_key)
  let ?f = "\<lambda>a::('a \<times> 'a list) list. filter (\<lambda>n. n \<in> set (reachable_set a n)) (map fst a)"
  have st: "set (?f a) = {n. (n, n) \<in> (edge_rel a)\<^sup>+}" for a :: "('a \<times> 'a list) list"
    using key [of _ a] by (auto simp: reachable_set_trancl simp del: set_map)
  have "sorted_list_of_set (set (?f adj)) = sorted_list_of_set (set (?f adj'))"
    unfolding st e ..
  then have "sort (?f adj) = sort (?f adj')"
    unfolding sorted_list_of_set_sort_remdups using d by (simp add: distinct_remdups_id)
  then show ?thesis
    unfolding cycle_components_def Let_def by (simp only: r)
qed

end
