(* ===== verification/Supersession.thy ===== *)
theory Supersession
  imports ContextSnapshots Reachability "HOL-Library.Multiset"
begin

text \<open>
  Kind-wide explicit supersession, the first half of \<open>compiler/task_context.py\<close>: the index of
  the claims, the expansion of a reference, the authority gate on the proposed edges, the
  cycles, and the claims that survive. Dictionaries keyed by identity are maps (a later
  insertion replaces an earlier one, as in Python); sets are lists of insertions.
\<close>

section \<open>Indexing\<close>

text \<open>\<open>SUPERSESSION_KINDS\<close> names the domain identifier of each kind that supersedes.\<close>

fun SUPERSESSION_KINDS :: "context_kind \<Rightarrow> string option" where
  "SUPERSESSION_KINDS APPLICABLE_LAW = Some ''law_id''"
| "SUPERSESSION_KINDS PRIOR_DECISION = Some ''decision_id''"
| "SUPERSESSION_KINDS _ = None"

fun domain_id :: "item_body \<Rightarrow> string" where
  "domain_id (ApplicableLaw lid _ _ _ _) = lid"
| "domain_id (PriorDecision did _ _ _ _) = did"
| "domain_id _ = []"

fun supersedes_refs :: "item_body \<Rightarrow> string list" where
  "supersedes_refs (ApplicableLaw _ _ _ _ refs) = refs"
| "supersedes_refs (PriorDecision _ _ _ refs _) = refs"
| "supersedes_refs _ = []"

fun superseded_by_refs :: "item_body \<Rightarrow> string list" where
  "superseded_by_refs (PriorDecision _ _ _ _ refs) = refs"
| "superseded_by_refs _ = []"

record supersession_index =
  by_domain :: "(string \<times> string list) list"
  by_item :: "string \<Rightarrow> context_item option"
  domain_of :: "string \<Rightarrow> string option"

definition index_item :: "context_item \<Rightarrow> supersession_index \<Rightarrow> supersession_index" where
  "index_item it idx =
     \<lparr>by_domain = setdefault_append (domain_id (body it)) (item_id it) (by_domain idx),
      by_item = (by_item idx)(item_id it \<mapsto> it),
      domain_of = (domain_of idx)(item_id it \<mapsto> domain_id (body it))\<rparr>"

definition make_index :: "context_item list \<Rightarrow> supersession_index" where
  "make_index members =
     fold index_item members \<lparr>by_domain = [], by_item = Map.empty, domain_of = Map.empty\<rparr>"

definition item_at :: "supersession_index \<Rightarrow> string \<Rightarrow> context_item" where
  "item_at idx i = the (by_item idx i)"

definition domain_at :: "supersession_index \<Rightarrow> string \<Rightarrow> string" where
  "domain_at idx i = the (domain_of idx i)"

text \<open>The items a reference names, and whether it names anything at all.\<close>

definition expand_supersession_ref ::
  "supersession_index \<Rightarrow> string \<Rightarrow> context_item \<Rightarrow> string list \<times> bool" where
  "expand_supersession_ref idx ref referrer =
     (if by_item idx ref \<noteq> None then (if ref \<noteq> item_id referrer then [ref] else [], True)
      else if ref \<in> set (map fst (by_domain idx)) then
        (if ref = domain_at idx (item_id referrer) then ([], True)
         else (filter (\<lambda>t. t \<noteq> item_id referrer) (al_get (by_domain idx) ref []), True))
      else ([], False))"

section \<open>Provenance and materiality of an unknown\<close>

definition source_sort_key ::
  "context_source_ref \<Rightarrow> string \<times> string \<times> string \<times> string \<times> string" where
  "source_sort_key r =
     (source_id r, source_kind r, locator r, or_empty (immutable_coordinate r),
      or_empty (content_digest r))"

definition causal_source_refs :: "context_item list \<Rightarrow> context_source_ref list" where
  "causal_source_refs items =
     (let indexed = fold (\<lambda>it m. m(source_sort_key (source_ref it) \<mapsto> source_ref it)) items Map.empty
      in map (\<lambda>k. the (indexed k)) (sorted_unique (map (source_sort_key \<circ> source_ref) items)))"

definition truth_tier_materiality :: "context_item list \<Rightarrow> unknown_materiality" where
  "truth_tier_materiality items =
     (if list_ex (\<lambda>it. is_governed (authority_level it)) items then BLOCKING else NON_BLOCKING)"

section \<open>Proposed edges\<close>

type_synonym edge = "string \<times> string"
type_synonym proposals = "edge list \<times> ((string \<times> string) \<times> string list) list"

definition propose_ref ::
  "supersession_index \<Rightarrow> bool \<Rightarrow> context_item \<Rightarrow> string \<Rightarrow> proposals \<Rightarrow> proposals" where
  "propose_ref idx forward it ref st =
     (case expand_supersession_ref idx ref it of (refs, resolved) \<Rightarrow>
        if \<not> resolved then
          (fst st, setdefault_append (domain_at idx (item_id it), ref) (item_id it) (snd st))
        else
          (fst st @ map (\<lambda>t. if forward then (item_id it, t) else (t, item_id it)) refs, snd st))"

definition propose_item :: "supersession_index \<Rightarrow> context_item \<Rightarrow> proposals \<Rightarrow> proposals" where
  "propose_item idx it st =
     fold (propose_ref idx False it) (superseded_by_refs (body it))
       (fold (propose_ref idx True it) (supersedes_refs (body it)) st)"

definition propose_all :: "supersession_index \<Rightarrow> context_item list \<Rightarrow> proposals" where
  "propose_all idx members = fold (propose_item idx) members ([], [])"

text \<open>The authority gate: a lower rank is a stronger authority.\<close>

definition gate :: "supersession_index \<Rightarrow> edge \<Rightarrow> bool" where
  "gate idx e \<longleftrightarrow> authority_rank (item_at idx (fst e)) \<le> authority_rank (item_at idx (snd e))"

definition adjacency_of :: "edge list \<Rightarrow> (string \<times> string list) list" where
  "adjacency_of es = fold (\<lambda>(a, b). setdefault_append a b) es []"

section \<open>Resolution\<close>

definition cycle_unknowns ::
  "(string \<Rightarrow> string) \<Rightarrow> supersession_index \<Rightarrow> context_kind \<Rightarrow> string list \<Rightarrow> context_unknown list" where
  "cycle_unknowns H idx kind component =
     (let claims = map (item_at idx) component;
          domains = sorted_unique (map (domain_at idx) component);
          srcs = causal_source_refs claims;
          mat = truth_tier_materiality claims
      in map (\<lambda>d. new_unknown H None (Some d) UNKNOWN_SUPERSESSION
           (JObj [(''context_kind'', JStr (kind_value kind)),
                  (''reason'', JStr ''supersession cycle''),
                  (''cycle_members'', jstrs domains),
                  (''cycle_item_ids'', jstrs (sort component))]) mat srcs) domains)"

definition refused_unknown ::
  "(string \<Rightarrow> string) \<Rightarrow> supersession_index \<Rightarrow> context_kind \<Rightarrow> edge \<Rightarrow> context_unknown" where
  "refused_unknown H idx kind e =
     (case e of (superseder, superseded) \<Rightarrow>
        new_unknown H None (Some (domain_at idx superseder)) UNKNOWN_SUPERSESSION
          (JObj [(''context_kind'', JStr (kind_value kind)),
                 (''reason'', JStr ''weaker authority may not supersede a stronger claim''),
                 (''superseder_authority'',
                    JStr (authority_level_value (authority_level (item_at idx superseder)))),
                 (''superseded'', JStr (domain_at idx superseded)),
                 (''superseded_authority'',
                    JStr (authority_level_value (authority_level (item_at idx superseded))))])
          NON_BLOCKING (causal_source_refs [item_at idx superseder, item_at idx superseded]))"

definition dangling_unknown ::
  "(string \<Rightarrow> string) \<Rightarrow> supersession_index \<Rightarrow> context_kind \<Rightarrow> (string \<times> string) \<times> string list \<Rightarrow>
     context_unknown" where
  "dangling_unknown H idx kind d =
     (case d of ((dom_id, ref), referrers) \<Rightarrow>
        new_unknown H None (Some dom_id) DANGLING_SUPERSESSION
          (JObj [(''context_kind'', JStr (kind_value kind)), (''unresolved_ref'', JStr ref)])
          NON_BLOCKING (causal_source_refs (map (item_at idx) referrers)))"

fun status_superseded :: "item_body \<Rightarrow> bool" where
  "status_superseded (PriorDecision _ st _ _ _) \<longleftrightarrow> st = SUPERSEDED"
| "status_superseded _ \<longleftrightarrow> False"

definition resolve_supersession ::
  "(string \<Rightarrow> string) \<Rightarrow> context_item list \<Rightarrow> context_kind \<Rightarrow>
     context_item list \<times> context_unknown list" where
  "resolve_supersession H members kind =
     (let idx = make_index members;
          proposed = fst (propose_all idx members);
          dangling = snd (propose_all idx members);
          accepted = filter (gate idx) proposed;
          refused = filter (\<lambda>e. \<not> gate idx e) proposed;
          components = cycle_components (adjacency_of accepted);
          on_cycle = concat components;
          superseded_items = map snd (filter (\<lambda>e. fst e \<notin> set on_cycle) accepted);
          unknowns = concat (map (cycle_unknowns H idx kind) components)
            @ map (refused_unknown H idx kind) (sorted_unique refused)
            @ map (dangling_unknown H idx kind) (sort_key fst dangling);
          survivors = filter (\<lambda>it. item_id it \<notin> set on_cycle
            \<and> \<not> status_superseded (body it) \<and> item_id it \<notin> set superseded_items) members
      in (survivors, unknowns))"

definition apply_step ::
  "(string \<Rightarrow> string) \<Rightarrow> context_kind \<times> context_item list \<Rightarrow>
     context_item list \<times> context_unknown list \<Rightarrow> context_item list \<times> context_unknown list" where
  "apply_step H km st =
     (case SUPERSESSION_KINDS (fst km) of
        None \<Rightarrow> (fst st @ snd km, snd st)
      | Some _ \<Rightarrow> (case resolve_supersession H (snd km) (fst km) of
          (kept, us) \<Rightarrow> (fst st @ kept, snd st @ us)))"

definition apply_supersession ::
  "(string \<Rightarrow> string) \<Rightarrow> context_item list \<Rightarrow> context_item list \<times> context_unknown list" where
  "apply_supersession H items = fold (apply_step H) (group_by item_kind items) ([], [])"

section \<open>What the index and the proposals hold\<close>

lemma make_index_snoc: "make_index (ms @ [it]) = index_item it (make_index ms)"
  by (simp add: make_index_def)

lemma make_index_Nil [simp]:
  "make_index [] = \<lparr>by_domain = [], by_item = Map.empty, domain_of = Map.empty\<rparr>"
  by (simp add: make_index_def)

lemma by_item_keys [simp]: "by_item (make_index ms) i = None \<longleftrightarrow> i \<notin> item_id ` set ms"
  by (induction ms rule: rev_induct) (auto simp: make_index_snoc index_item_def)

lemma by_item_mem: "by_item (make_index ms) i = Some it \<Longrightarrow> it \<in> set ms \<and> item_id it = i"
  by (induction ms rule: rev_induct) (auto simp: make_index_snoc index_item_def split: if_splits)

lemma item_at_self:
  assumes "distinct (map item_id ms)" "it \<in> set ms"
  shows "item_at (make_index ms) (item_id it) = it"
proof -
  have "by_item (make_index ms) (item_id it) \<noteq> None" using assms(2) by auto
  then obtain j where j: "by_item (make_index ms) (item_id it) = Some j" by blast
  with by_item_mem [OF j] have "j = it"
    using assms by (auto simp: distinct_map inj_on_def)
  with j show ?thesis by (simp add: item_at_def)
qed

lemma domain_of_item:
  "domain_of (make_index ms) i = map_option (\<lambda>it. domain_id (body it)) (by_item (make_index ms) i)"
  by (induction ms rule: rev_induct) (auto simp: make_index_snoc index_item_def)

lemma domain_at_self:
  assumes "distinct (map item_id ms)" "it \<in> set ms"
  shows "domain_at (make_index ms) (item_id it) = domain_id (body it)"
proof -
  obtain j where "by_item (make_index ms) (item_id it) = Some j"
    using assms(2) by fastforce
  then show ?thesis using item_at_self [OF assms] by (simp add: domain_at_def domain_of_item item_at_def)
qed

lemma by_domain_index:
  "map_of (by_domain (make_index ms)) d =
     (if filter (\<lambda>it. domain_id (body it) = d) ms = [] then None
      else Some (map item_id (filter (\<lambda>it. domain_id (body it) = d) ms)))"
proof (induction ms rule: rev_induct)
  case (snoc it ms)
  then show ?case
    by (cases "d = domain_id (body it)")
       (simp_all add: make_index_snoc index_item_def map_of_setdefault_append)
qed simp

lemma by_domain_keys [simp]:
  "d \<in> fst ` set (by_domain (make_index ms)) \<longleftrightarrow> d \<in> (\<lambda>it. domain_id (body it)) ` set ms"
proof -
  have "d \<in> fst ` set (by_domain (make_index ms)) \<longleftrightarrow> map_of (by_domain (make_index ms)) d \<noteq> None"
    by (simp add: map_of_eq_None_iff)
  then show ?thesis by (auto simp: by_domain_index filter_empty_conv)
qed

lemma al_get_by_domain:
  "al_get (by_domain (make_index ms)) d [] = map item_id (filter (\<lambda>it. domain_id (body it) = d) ms)"
  by (auto simp: al_get_def by_domain_index)

lemma expand_ref_mem:
  assumes "distinct (map item_id ms)" "it \<in> set ms"
  shows "t \<in> set (fst (expand_supersession_ref (make_index ms) ref it)) \<longleftrightarrow>
    t \<noteq> item_id it \<and> (\<exists>b \<in> set ms. item_id b = t \<and>
      (t = ref \<or> ref \<notin> item_id ` set ms \<and> domain_id (body b) = ref
        \<and> ref \<noteq> domain_id (body it)))"
proof (cases "ref \<in> item_id ` set ms")
  case True
  then show ?thesis by (auto simp: expand_supersession_ref_def)
next
  case False
  then have "item_id b = t \<Longrightarrow> b \<in> set ms \<Longrightarrow> t \<noteq> ref" for b by auto
  then show ?thesis using False assms
    by (auto simp: expand_supersession_ref_def domain_at_self al_get_by_domain)
qed

lemma expand_ref_resolved:
  "snd (expand_supersession_ref (make_index ms) ref it) \<longleftrightarrow>
     ref \<in> item_id ` set ms \<or> ref \<in> (\<lambda>it. domain_id (body it)) ` set ms"
  by (auto simp: expand_supersession_ref_def simp del: not_None_eq)

lemma expand_ref_unresolved:
  "\<not> snd (expand_supersession_ref idx ref it) \<Longrightarrow> fst (expand_supersession_ref idx ref it) = []"
  by (auto simp: expand_supersession_ref_def split: if_splits)


text \<open>An edge one claim proposes.\<close>

definition proposes :: "supersession_index \<Rightarrow> context_item \<Rightarrow> edge \<Rightarrow> bool" where
  "proposes idx it e \<longleftrightarrow>
     (\<exists>ref \<in> set (supersedes_refs (body it)).
        fst e = item_id it \<and> snd e \<in> set (fst (expand_supersession_ref idx ref it))) \<or>
     (\<exists>ref \<in> set (superseded_by_refs (body it)).
        snd e = item_id it \<and> fst e \<in> set (fst (expand_supersession_ref idx ref it)))"

lemma propose_ref_edges:
  "e \<in> set (fst (propose_ref idx fwd it ref st)) \<longleftrightarrow> e \<in> set (fst st) \<or>
     (if fwd then fst e = item_id it \<and> snd e \<in> set (fst (expand_supersession_ref idx ref it))
      else snd e = item_id it \<and> fst e \<in> set (fst (expand_supersession_ref idx ref it)))"
  by (cases e) (auto simp: propose_ref_def case_prod_beta expand_ref_unresolved)

lemma propose_refs_edges:
  "e \<in> set (fst (fold (propose_ref idx fwd it) refs st)) \<longleftrightarrow> e \<in> set (fst st) \<or>
     (\<exists>ref \<in> set refs.
       if fwd then fst e = item_id it \<and> snd e \<in> set (fst (expand_supersession_ref idx ref it))
       else snd e = item_id it \<and> fst e \<in> set (fst (expand_supersession_ref idx ref it)))"
  by (induction refs arbitrary: st) (auto simp: propose_ref_edges)

lemma propose_item_edges:
  "e \<in> set (fst (propose_item idx it st)) \<longleftrightarrow> e \<in> set (fst st) \<or> proposes idx it e"
  by (auto simp: propose_item_def propose_refs_edges proposes_def)

lemma propose_all_edges:
  "e \<in> set (fst (propose_all idx ms)) \<longleftrightarrow> (\<exists>it \<in> set ms. proposes idx it e)"
proof -
  have "e \<in> set (fst (fold (propose_item idx) ms st)) \<longleftrightarrow>
      e \<in> set (fst st) \<or> (\<exists>it \<in> set ms. proposes idx it e)" for st
    by (induction ms arbitrary: st) (auto simp: propose_item_edges)
  then show ?thesis by (simp add: propose_all_def)
qed

lemma propose_ref_dangling:
  "fst ` set (snd (propose_ref idx fwd it ref st)) = fst ` set (snd st) \<union>
     (if snd (expand_supersession_ref idx ref it) then {} else {(domain_at idx (item_id it), ref)})"
  "distinct (map fst (snd st)) \<Longrightarrow> distinct (map fst (snd (propose_ref idx fwd it ref st)))"
  by (auto simp: propose_ref_def case_prod_beta keys_setdefault_append distinct_setdefault_append
      simp del: distinct_map)

lemma propose_refs_dangling:
  "fst ` set (snd (fold (propose_ref idx fwd it) refs st)) = fst ` set (snd st) \<union>
     {(domain_at idx (item_id it), ref) |ref. ref \<in> set refs \<and> \<not> snd (expand_supersession_ref idx ref it)}"
  "distinct (map fst (snd st)) \<Longrightarrow>
     distinct (map fst (snd (fold (propose_ref idx fwd it) refs st)))"
  by (induction refs arbitrary: st)
     (auto simp: propose_ref_dangling simp del: distinct_map)

definition dangles :: "supersession_index \<Rightarrow> context_item \<Rightarrow> (string \<times> string) set" where
  "dangles idx it = {(domain_at idx (item_id it), ref) |ref.
     ref \<in> set (supersedes_refs (body it) @ superseded_by_refs (body it))
     \<and> \<not> snd (expand_supersession_ref idx ref it)}"

lemma propose_all_dangling:
  "fst ` set (snd (propose_all idx ms)) = \<Union> (dangles idx ` set ms)"
  "distinct (map fst (snd (propose_all idx ms)))"
proof -
  have k: "fst ` set (snd (fold (propose_item idx) ms st))
      = fst ` set (snd st) \<union> \<Union> (dangles idx ` set ms)" for st
    by (induction ms arbitrary: st)
       (auto simp: propose_item_def propose_refs_dangling dangles_def)
  have d: "distinct (map fst (snd st)) \<Longrightarrow> distinct (map fst (snd (fold (propose_item idx) ms st)))" for st
    by (induction ms arbitrary: st)
       (simp_all add: propose_item_def propose_refs_dangling del: distinct_map)
  show "fst ` set (snd (propose_all idx ms)) = \<Union> (dangles idx ` set ms)"
    using k [of "([], [])"] by (simp add: propose_all_def)
  show "distinct (map fst (snd (propose_all idx ms)))"
    using d [of "([], [])"] by (simp add: propose_all_def)
qed

lemma adjacency_edges:
  "neighbours (fold (\<lambda>(a, b). setdefault_append a b) es d) n
     = neighbours d n @ map snd (filter (\<lambda>e. fst e = n) es)"
  "distinct (map fst d) \<Longrightarrow> distinct (map fst (fold (\<lambda>(a, b). setdefault_append a b) es d))"
proof -
  show "neighbours (fold (\<lambda>(a, b). setdefault_append a b) es d) n
     = neighbours d n @ map snd (filter (\<lambda>e. fst e = n) es)"
    by (induction es arbitrary: d)
       (auto simp: neighbours_def al_get_def map_of_setdefault_append split: option.splits)
  show "distinct (map fst d) \<Longrightarrow> distinct (map fst (fold (\<lambda>(a, b). setdefault_append a b) es d))"
    by (induction es arbitrary: d) (auto simp: distinct_setdefault_append simp del: distinct_map)
qed

lemma edge_rel_adjacency_of [simp]: "edge_rel (adjacency_of es) = set es"
  by (force simp: edge_rel_def adjacency_of_def adjacency_edges neighbours_def [of "[]"] al_get_def)

lemma distinct_adjacency_of [simp]: "distinct (map fst (adjacency_of es))"
  unfolding adjacency_of_def by (rule adjacency_edges) simp

section \<open>The abstract specification\<close>

text \<open>
  What supersession means on a set of claims with distinct identities: a reference names one
  claim by its identity, or every other claim of a foreign domain; an edge counts when the
  superseder's authority is at least as strong; a claim stands when it is on no cycle, is not
  declared superseded, and every claim that supersedes it is itself on a cycle.
\<close>

definition names :: "context_item set \<Rightarrow> string \<Rightarrow> context_item \<Rightarrow> context_item \<Rightarrow> bool" where
  "names S ref a b \<longleftrightarrow> item_id b \<noteq> item_id a \<and>
     (item_id b = ref \<or> ref \<notin> item_id ` S \<and> domain_id (body b) = ref
        \<and> domain_id (body b) \<noteq> domain_id (body a))"

definition declares :: "context_item set \<Rightarrow> context_item \<Rightarrow> context_item \<Rightarrow> bool" where
  "declares S a b \<longleftrightarrow> (\<exists>ref \<in> set (supersedes_refs (body a)). names S ref a b)
     \<or> (\<exists>ref \<in> set (superseded_by_refs (body b)). names S ref b a)"

definition supersession_edges :: "context_item set \<Rightarrow> (string \<times> string) set" where
  "supersession_edges S = {(item_id a, item_id b) |a b. a \<in> S \<and> b \<in> S \<and> declares S a b
     \<and> authority_rank a \<le> authority_rank b}"

definition stands :: "context_item set \<Rightarrow> context_item \<Rightarrow> bool" where
  "stands S it \<longleftrightarrow> (item_id it, item_id it) \<notin> (supersession_edges S)\<^sup>+
     \<and> \<not> status_superseded (body it)
     \<and> (\<forall>s. (s, item_id it) \<in> supersession_edges S \<longrightarrow> (s, s) \<in> (supersession_edges S)\<^sup>+)"

lemma proposes_declares:
  assumes d: "distinct (map item_id ms)"
  shows "(\<exists>it \<in> set ms. proposes (make_index ms) it e) \<longleftrightarrow>
    (\<exists>a \<in> set ms. \<exists>b \<in> set ms. e = (item_id a, item_id b) \<and> declares (set ms) a b)"
proof -
  note ex = expand_ref_mem [OF d]
  have f: "(\<exists>ref \<in> set (supersedes_refs (body a)).
        i = item_id a \<and> j \<in> set (fst (expand_supersession_ref (make_index ms) ref a)))
      \<longleftrightarrow> (\<exists>b \<in> set ms. i = item_id a \<and> j = item_id b \<and>
            (\<exists>ref \<in> set (supersedes_refs (body a)). names (set ms) ref a b))"
    if "a \<in> set ms" for a i j
    using that by (auto simp: ex names_def)
  have g: "(\<exists>ref \<in> set (superseded_by_refs (body b)).
        j = item_id b \<and> i \<in> set (fst (expand_supersession_ref (make_index ms) ref b)))
      \<longleftrightarrow> (\<exists>a \<in> set ms. i = item_id a \<and> j = item_id b \<and>
            (\<exists>ref \<in> set (superseded_by_refs (body b)). names (set ms) ref b a))"
    if "b \<in> set ms" for b i j
    using that by (auto simp: ex names_def)
  obtain i j where e: "e = (i, j)" by (cases e)
  have "(\<exists>it \<in> set ms. proposes (make_index ms) it e) \<longleftrightarrow>
     (\<exists>a \<in> set ms. \<exists>b \<in> set ms. i = item_id a \<and> j = item_id b \<and>
            (\<exists>ref \<in> set (supersedes_refs (body a)). names (set ms) ref a b)) \<or>
     (\<exists>b \<in> set ms. \<exists>a \<in> set ms. i = item_id a \<and> j = item_id b \<and>
            (\<exists>ref \<in> set (superseded_by_refs (body b)). names (set ms) ref b a))"
    unfolding proposes_def e fst_conv snd_conv
    by (simp only: bex_disj_distrib f g cong: bex_cong)
  then show ?thesis unfolding declares_def e by blast
qed

lemma gated_edges:
  assumes d: "distinct (map item_id ms)"
  shows "set (filter (gate (make_index ms)) (fst (propose_all (make_index ms) ms)))
    = supersession_edges (set ms)"
proof -
  have "e \<in> set (filter (gate (make_index ms)) (fst (propose_all (make_index ms) ms)))
      \<longleftrightarrow> e \<in> supersession_edges (set ms)" for e
    using item_at_self [OF d] unfolding set_filter mem_Collect_eq propose_all_edges
      proposes_declares [OF d] supersession_edges_def gate_def
    by (metis fst_conv snd_conv)
  then show ?thesis by blast
qed

lemma on_cycle_nodes:
  "set (concat (cycle_components (adjacency_of es))) = {n. (n, n) \<in> (set es)\<^sup>+}"
  using mem_cycle_components(1) [OF distinct_adjacency_of, of _ es] by auto

text \<open>The refinement: the code keeps exactly the claims that stand, in their order.\<close>

lemma resolve_supersession_survivors:
  assumes d: "distinct (map item_id ms)"
  shows "fst (resolve_supersession H ms kind) = filter (stands (set ms)) ms"
proof -
  let ?acc = "filter (gate (make_index ms)) (fst (propose_all (make_index ms) ms))"
  let ?E = "supersession_edges (set ms)"
  have E: "set ?acc = ?E" by (rule gated_edges [OF d])
  have "i \<in> set (map snd (filter (\<lambda>e. fst e \<notin> {n. (n, n) \<in> ?E\<^sup>+}) ?acc)) \<longleftrightarrow>
      (\<exists>s. (s, i) \<in> ?E \<and> (s, s) \<notin> ?E\<^sup>+)" for i
    using E by force
  then show ?thesis
    unfolding resolve_supersession_def Let_def fst_conv on_cycle_nodes E stands_def
    by (intro filter_cong) auto
qed

section \<open>Safety of supersession\<close>

lemma resolve_supersession_subset: "set (fst (resolve_supersession H ms kind)) \<subseteq> set ms"
  by (auto simp: resolve_supersession_def Let_def)

lemma removed_by_stronger:
  assumes "distinct (map item_id ms)" "it \<in> set ms" "\<not> status_superseded (body it)"
    "it \<notin> set (fst (resolve_supersession H ms kind))"
  shows "\<exists>s \<in> set ms. item_id s \<noteq> item_id it \<and> declares (set ms) s it
    \<and> authority_rank s \<le> authority_rank it"
proof -
  from assms have "\<not> stands (set ms) it"
    by (simp add: resolve_supersession_survivors)
  with assms(3) obtain s where s: "(s, item_id it) \<in> supersession_edges (set ms)"
    unfolding stands_def by (meson tranclD2)
  then obtain a b where ab: "a \<in> set ms" "b \<in> set ms" "item_id b = item_id it"
    "declares (set ms) a b" "authority_rank a \<le> authority_rank b"
    unfolding supersession_edges_def by auto
  have "b = it" using assms(1,2) ab(2,3) by (auto simp: distinct_map inj_on_def)
  moreover have "item_id a \<noteq> item_id b" using ab(4) by (auto simp: declares_def names_def)
  ultimately show ?thesis using ab by blast
qed

text \<open>Under distinct identities the order of the claims decides nothing.\<close>

lemma stands_all_order:
  assumes "distinct (map item_id ms)" "mset ms = mset ms'"
  shows "mset (fst (resolve_supersession H ms kind)) = mset (fst (resolve_supersession H ms' kind))"
proof -
  have "mset (map item_id ms) = mset (map item_id ms')" using assms(2) by simp
  then have "distinct (map item_id ms')" using assms(1) mset_eq_imp_distinct_iff by blast
  moreover have "set ms = set ms'" using assms(2) by (rule mset_eq_setD)
  ultimately show ?thesis
    using assms by (simp add: resolve_supersession_survivors mset_filter)
qed


lemma apply_step_fold:
  "fold (apply_step H) kms st =
     (fst st @ concat (map (\<lambda>(k, ms). case SUPERSESSION_KINDS k of None \<Rightarrow> ms
        | Some _ \<Rightarrow> fst (resolve_supersession H ms k)) kms),
      snd st @ concat (map (\<lambda>(k, ms). case SUPERSESSION_KINDS k of None \<Rightarrow> []
        | Some _ \<Rightarrow> snd (resolve_supersession H ms k)) kms))"
  by (induction kms arbitrary: st)
     (auto simp: apply_step_def split: option.splits prod.splits)

text \<open>Membership in the outcome for all kinds, kind by kind.\<close>

lemma apply_supersession_mem:
  "it \<in> set (fst (apply_supersession H items)) \<longleftrightarrow>
     (let ms = filter (\<lambda>x. item_kind x = item_kind it) items in
      it \<in> set ms \<and> (SUPERSESSION_KINDS (item_kind it) \<noteq> None \<longrightarrow>
        it \<in> set (fst (resolve_supersession H ms (item_kind it)))))"
proof -
  let ?out = "\<lambda>k ms. case SUPERSESSION_KINDS k of None \<Rightarrow> ms
        | Some _ \<Rightarrow> fst (resolve_supersession H ms k)"
  have sub: "set (?out k ms) \<subseteq> set ms" for k ms
    using resolve_supersession_subset by (auto split: option.splits)
  have "it \<in> set (fst (apply_supersession H items)) \<longleftrightarrow>
      (\<exists>k ms. (k, ms) \<in> set (group_by item_kind items) \<and> it \<in> set (?out k ms))"
    unfolding apply_supersession_def apply_step_fold by force
  also have "\<dots> \<longleftrightarrow> it \<in> set (?out (item_kind it) (filter (\<lambda>x. item_kind x = item_kind it) items))"
    unfolding group_by_mem_iff
  proof safe
    fix k
    assume a: "it \<in> set (?out k (filter (\<lambda>x. item_kind x = k) items))"
    then have "k = item_kind it" using sub by fastforce
    from a [unfolded this]
    show "it \<in> set (?out (item_kind it) (filter (\<lambda>x. item_kind x = item_kind it) items))" .
  next
    assume a: "it \<in> set (?out (item_kind it) (filter (\<lambda>x. item_kind x = item_kind it) items))"
    then have "filter (\<lambda>x. item_kind x = item_kind it) items \<noteq> []" using sub by fastforce
    with a show "\<exists>k ms. (ms = filter (\<lambda>x. item_kind x = k) items \<and> ms \<noteq> []) \<and> it \<in> set (?out k ms)"
      by blast
  qed
  finally show ?thesis
    using resolve_supersession_subset [of H "filter (\<lambda>x. item_kind x = item_kind it) items" "item_kind it"]
    by (cases "SUPERSESSION_KINDS (item_kind it)") (auto simp: Let_def)
qed

lemma apply_supersession_subset: "set (fst (apply_supersession H items)) \<subseteq> set items"
  by (auto simp: apply_supersession_mem Let_def)

section \<open>Properties\<close>

text \<open>C4: The code refines the specification of supersession: over claims with distinct
  identities it keeps exactly the claims that stand, in their order.\<close>

theorem supersession_refines:
  assumes "distinct (map item_id ms)"
  shows "fst (resolve_supersession H ms kind) = filter (stands (set ms)) ms"
  using assms by (rule resolve_supersession_survivors)

definition sample_twin :: "string \<Rightarrow> string \<Rightarrow> authority_level \<Rightarrow> string list \<Rightarrow> context_item" where
  "sample_twin i lid lvl sups = (sample_law lid lvl [] sups)\<lparr>item_id := i\<rparr>"

theorem supersession_refines_witness:
  "filter (stands {sample_twin ''i1'' ''L1'' GOVERNED_VERIFIED [''L2''],
      sample_twin ''i2'' ''L2'' INFORMATIVE []})
     [sample_twin ''i1'' ''L1'' GOVERNED_VERIFIED [''L2''], sample_twin ''i2'' ''L2'' INFORMATIVE []]
   = [sample_twin ''i1'' ''L1'' GOVERNED_VERIFIED [''L2'']]"
proof -
  let ?ms = "[sample_twin ''i1'' ''L1'' GOVERNED_VERIFIED [''L2''], sample_twin ''i2'' ''L2'' INFORMATIVE []]"
  have "fst (resolve_supersession (\<lambda>_. ''0'') ?ms APPLICABLE_LAW)
      = [sample_twin ''i1'' ''L1'' GOVERNED_VERIFIED [''L2'']]"
    by code_simp
  moreover have "distinct (map item_id ?ms)" by (simp add: sample_twin_def)
  ultimately show ?thesis
    using supersession_refines [of ?ms "\<lambda>_. ''0''" APPLICABLE_LAW] by simp
qed



text \<open>Input order is never precedence: over claims with distinct identities, any
  permutation of the claims leaves the same claims standing.\<close>

theorem supersession_order_independent:
  assumes "distinct (map item_id ms)" "mset ms = mset ms'"
  shows "mset (fst (resolve_supersession H ms kind)) = mset (fst (resolve_supersession H ms' kind))"
  using assms by (rule stands_all_order)

theorem supersession_order_independent_witness:
  "mset (fst (resolve_supersession (\<lambda>_. ''0'')
     [sample_twin ''i1'' ''L1'' INFORMATIVE [''L2''], sample_twin ''i2'' ''L2'' INFORMATIVE []] APPLICABLE_LAW))
   = mset (fst (resolve_supersession (\<lambda>_. ''0'')
     [sample_twin ''i2'' ''L2'' INFORMATIVE [], sample_twin ''i1'' ''L1'' INFORMATIVE [''L2'']] APPLICABLE_LAW))"
  by (rule supersession_order_independent) (simp_all add: sample_twin_def)

definition twin_digest :: "string \<Rightarrow> string" where
  "twin_digest s = nat_text (length s)"

definition twin_a :: context_item where
  "twin_a = sample_twin ''ctxitem.sha256:349'' ''L1'' GOVERNED_AUTHORITATIVE [''L2'']"

definition twin_b :: context_item where
  "twin_b = sample_twin ''ctxitem.sha256:349'' ''L1'' UNVERIFIED [''L2'']"

definition twin_c :: context_item where
  "twin_c = sample_twin ''ctxitem.sha256:345'' ''L2'' GOVERNED_VERIFIED []"

text \<open>Identity leaves out the authority level, so two valid claims that differ only in
  authority share an \<open>item_id\<close>; on such twins the outcome does depend on input order (the index
  keeps the last one), and a governed law is retired in one order and stands in the other.\<close>

theorem authority_twins_depend_on_order:
  "map (make_item twin_digest) [twin_a, twin_b, twin_c] = map Inr [twin_a, twin_b, twin_c]
   \<and> map authority_level [twin_a, twin_b, twin_c]
       = [GOVERNED_AUTHORITATIVE, UNVERIFIED, GOVERNED_VERIFIED]
   \<and> fst (resolve_supersession twin_digest [twin_b, twin_a, twin_c] APPLICABLE_LAW) = [twin_b, twin_a]
   \<and> fst (resolve_supersession twin_digest [twin_a, twin_b, twin_c] APPLICABLE_LAW)
       = [twin_a, twin_b, twin_c]"
proof (intro conjI)
  show "map (make_item twin_digest) [twin_a, twin_b, twin_c] = map Inr [twin_a, twin_b, twin_c]"
    by code_simp
  show "map authority_level [twin_a, twin_b, twin_c]
       = [GOVERNED_AUTHORITATIVE, UNVERIFIED, GOVERNED_VERIFIED]"
    by code_simp
  show "fst (resolve_supersession twin_digest [twin_b, twin_a, twin_c] APPLICABLE_LAW) = [twin_b, twin_a]"
    by code_simp
  show "fst (resolve_supersession twin_digest [twin_a, twin_b, twin_c] APPLICABLE_LAW)
       = [twin_a, twin_b, twin_c]"
    by code_simp
qed

end
