(* ===== verification/Resolution.thy ===== *)
theory Resolution
  imports Supersession
begin

text \<open>
  Same-key resolution and the discovery projection of \<open>compiler/task_context.py\<close>: the
  input preflight, the canonical carrier of a claim, the domain rule of each kind, the
  resolution of one eligible candidate set, and \<open>ContextDiscoveryCompiler\<close>.
\<close>

section \<open>Preflight\<close>

definition preflight_snapshot :: "context_snapshot \<Rightarrow> unit res" where
  "preflight_snapshot s =
     (if item_count s > SNAPSHOT_MAX_ITEMS then
        Inl (InvalidValueError ''context snapshot exceeds the maximum item count'' ''context_snapshot'')
      else if canonical_byte_size s > SNAPSHOT_MAX_BYTES then
        Inl (InvalidValueError ''context snapshot exceeds the maximum canonical byte size''
               ''context_snapshot'')
      else Inr ())"

section \<open>Competing claims\<close>

definition claim_digest_payload :: "context_item \<Rightarrow> json" where
  "claim_digest_payload it =
     JObj [(''claim'', claim_payload it), (''applicability'', applicability_payload it)]"

definition representative_key ::
  "context_item \<Rightarrow> nat \<times> nat \<times> string \<times> string \<times> string" where
  "representative_key it =
     (authority_rank it,
      (if truthy (immutable_coordinate (source_ref it)) then 0 else 1),
      or_empty (immutable_coordinate (source_ref it)),
      or_empty (content_digest (source_ref it)),
      item_id it)"

definition representative :: "context_item list \<Rightarrow> context_item" where
  "representative its = the (min_by representative_key its)"

definition strongest :: "context_item list \<Rightarrow> context_item list" where
  "strongest its = (let best = Min (set (map authority_rank its))
                    in filter (\<lambda>it. authority_rank it = best) its)"

record group_resolution =
  res_items :: "context_item list"
  conflict :: bool
  res_details :: "(string \<times> json) list"
  res_sources :: "context_item list"

definition settled :: "context_item list \<Rightarrow> group_resolution" where
  "settled its = \<lparr>res_items = its, conflict = False, res_details = [], res_sources = []\<rparr>"

definition contested :: "(string \<times> json) list \<Rightarrow> context_item list \<Rightarrow> group_resolution" where
  "contested det srcs = \<lparr>res_items = [], conflict = True, res_details = det, res_sources = srcs\<rparr>"

definition resolve_by_authority :: "context_item list \<Rightarrow> group_resolution" where
  "resolve_by_authority reps =
     (let top = strongest reps in
      if length top = 1 then settled top
      else contested [(''authority_level'', JStr (authority_level_value (authority_level (hd top)))),
                      (''claims'', jnat (length top))] reps)"

fun law_precedence :: "item_body \<Rightarrow> int option" where
  "law_precedence (ApplicableLaw _ _ _ prec _) = prec"
| "law_precedence _ = None"

text \<open>Declared numeric precedence outranks generic authority rank.\<close>

definition resolve_law :: "context_item list \<Rightarrow> group_resolution" where
  "resolve_law reps =
     (if length reps = 1 then settled reps
      else if reps \<noteq> [] \<and> list_all (\<lambda>it. law_precedence (body it) \<noteq> None) reps then
        (let best = Min (set (map (\<lambda>it. the (law_precedence (body it))) reps));
             top = filter (\<lambda>it. law_precedence (body it) = Some best) reps
         in if length top = 1 then settled top else resolve_by_authority top)
      else resolve_by_authority reps)"

fun fact_revision :: "item_body \<Rightarrow> string option" where
  "fact_revision (RepositoryState _ r _ _ _) = Some r"
| "fact_revision _ = None"

fun dependency_version :: "item_body \<Rightarrow> string option" where
  "dependency_version (DependencyContext _ _ _ _ v) = v"
| "dependency_version _ = None"

text \<open>\<open>str(v)\<close> of an optional version.\<close>

definition str_opt :: "string option \<Rightarrow> string" where
  "str_opt v = (case v of None \<Rightarrow> ''None'' | Some t \<Rightarrow> t)"

definition resolve_group :: "context_kind \<Rightarrow> context_item list \<Rightarrow> group_resolution" where
  "resolve_group kind reps =
     (if length reps = 1 then settled reps
      else case kind of
        EVIDENCE_REF \<Rightarrow> settled (sort_key item_sort_key reps)
      | MEMORY_CONTEXT \<Rightarrow> settled (sort_key item_sort_key reps)
      | APPLICABLE_LAW \<Rightarrow> resolve_law (filter (\<lambda>it. item_kind it = APPLICABLE_LAW) reps)
      | REPOSITORY_STATE \<Rightarrow>
          (let revisions = sorted_unique (concat (map (\<lambda>it. case fact_revision (body it) of
                 None \<Rightarrow> [] | Some r \<Rightarrow> [r]) reps))
           in if length revisions > 1 then contested [(''revisions'', jstrs revisions)] reps
              else resolve_by_authority reps)
      | DEPENDENCY_CONTEXT \<Rightarrow>
          (let versions = dedup_first (map (\<lambda>it. dependency_version (body it))
                 (filter (\<lambda>it. item_kind it = DEPENDENCY_CONTEXT) reps))
           in if length versions > 1
              then contested [(''versions'', jstrs (sort (map str_opt versions)))] reps
              else resolve_by_authority reps)
      | _ \<Rightarrow> resolve_by_authority reps)"

section \<open>Resolution of a candidate set\<close>

type_synonym group_key = "string \<times> string"

record resolved_candidates =
  res_groups :: "(group_key \<times> group_resolution) list"
  supersession_unknowns :: "context_unknown list"

text \<open>\<open>ContextKind(value)\<close> of a value that came from a kind.\<close>

definition kind_of_value :: "string \<Rightarrow> context_kind" where
  "kind_of_value v = the (find (\<lambda>k. kind_value k = v) BUCKET_KINDS)"

definition group_key_of :: "context_item \<Rightarrow> group_key" where
  "group_key_of it = (kind_value (item_kind it), semantic_key it)"

definition group_reps :: "(string \<Rightarrow> string) \<Rightarrow> context_item list \<Rightarrow> context_item list" where
  "group_reps H members =
     sort_key item_sort_key
       (map (representative \<circ> snd)
         (group_by (\<lambda>it. sha256_digest H (claim_digest_payload it)) members))"

definition resolve_candidates ::
  "(string \<Rightarrow> string) \<Rightarrow> context_item list \<Rightarrow> resolved_candidates" where
  "resolve_candidates H items =
     (case apply_supersession H items of (survivors, unknowns) \<Rightarrow>
        \<lparr>res_groups = map (\<lambda>(key, members).
            (key, resolve_group (kind_of_value (fst key)) (group_reps H members)))
            (group_by group_key_of survivors),
         supersession_unknowns = unknowns\<rparr>)"

text \<open>\<open>SnapshotResolution\<close>: the candidates, and resolution over the eligible ones.\<close>

type_synonym snapshot_resolution = "context_item list"

definition resolve_snapshot :: "context_snapshot \<Rightarrow> snapshot_resolution" where
  "resolve_snapshot s = sort_key item_sort_key (all_items s)"

definition resolve_eligible ::
  "(string \<Rightarrow> string) \<Rightarrow> snapshot_resolution \<Rightarrow> (context_item \<Rightarrow> bool) \<Rightarrow> resolved_candidates" where
  "resolve_eligible H candidates eligible = resolve_candidates H (filter eligible candidates)"

text \<open>\<open>sorted(groups.items())\<close>: by key, the keys being distinct.\<close>

definition sorted_groups :: "resolved_candidates \<Rightarrow> (group_key \<times> group_resolution) list" where
  "sorted_groups view = sort_key fst (res_groups view)"

definition resolve_all ::
  "(string \<Rightarrow> string) \<Rightarrow> snapshot_resolution \<Rightarrow> resolved_candidates" where
  "resolve_all H candidates = resolve_candidates H candidates"

section \<open>Unknowns by identity\<close>

definition dedupe_unknowns :: "context_unknown list \<Rightarrow> context_unknown list" where
  "dedupe_unknowns us =
     (let indexed = fold (\<lambda>u m. m(unknown_id u \<mapsto> u)) us Map.empty
      in map (\<lambda>k. the (indexed k)) (sorted_unique (map unknown_id us)))"

section \<open>Discovery\<close>

definition DISCOVERY_KINDS :: "context_kind list" where
  "DISCOVERY_KINDS =
     [RELEVANT_ENTITY, REPOSITORY_STATE, ARCHITECTURE_CONSTRAINT, APPLICABLE_LAW, DEPENDENCY_CONTEXT]"

definition discovery_scope_match :: "context_item \<Rightarrow> string list \<Rightarrow> bool" where
  "discovery_scope_match it refs =
     (if scope_mode it = GLOBAL then True else list_ex (\<lambda>r. r \<in> set refs) (scope_refs it))"

definition discovery_eligible :: "context_item \<Rightarrow> string list \<Rightarrow> bool" where
  "discovery_eligible it refs =
     (if item_kind it \<notin> set DISCOVERY_KINDS then False
      else if \<not> is_governed (authority_level it) then False
      else discovery_scope_match it refs)"

fun constraint_signal :: "item_body \<Rightarrow> string list" where
  "constraint_signal (GovernedConstraint cid _ _ _) = [cid]"
| "constraint_signal _ = []"

record discovery_state =
  ds_routing :: "string list"
  ds_signals :: "string list"
  ds_digests :: "(string \<times> string) list"
  ds_unknowns :: "context_unknown list"

text \<open>\<open>d[k] = v\<close> on an insertion-ordered dictionary.\<close>

fun dict_put :: "'k \<Rightarrow> 'v \<Rightarrow> ('k \<times> 'v) list \<Rightarrow> ('k \<times> 'v) list" where
  "dict_put k v [] = [(k, v)]"
| "dict_put k v ((k', w) # d) = (if k' = k then (k', v) # d else (k', w) # dict_put k v d)"

definition discover_item ::
  "(string \<Rightarrow> string) \<Rightarrow> context_item \<Rightarrow> discovery_state \<Rightarrow> discovery_state" where
  "discover_item H it st =
     st\<lparr>ds_routing := ds_routing st @ [item_id it],
        ds_digests := dict_put (item_id it) (candidate_digest H it) (ds_digests st),
        ds_signals := ds_signals st @ constraint_signal (body it)\<rparr>"

definition discover_group ::
  "(string \<Rightarrow> string) \<Rightarrow> group_key \<times> group_resolution \<Rightarrow> discovery_state \<Rightarrow> discovery_state" where
  "discover_group H kg st =
     (let g = snd kg in
      if conflict g then
        st\<lparr>ds_unknowns := ds_unknowns st @
            [new_unknown H None (Some (snd (fst kg))) CONFLICTING_GOVERNED_CLAIMS
               (JObj ((''context_kind'', JStr (fst (fst kg))) # res_details g))
               NON_BLOCKING (map source_ref (res_sources g))]\<rparr>
      else fold (discover_item H) (res_items g) st)"

text \<open>The outer loop: every discovery kind, over the groups of that kind.\<close>

definition discovery_groups :: "resolved_candidates \<Rightarrow> (group_key \<times> group_resolution) list" where
  "discovery_groups view =
     concat (map (\<lambda>k. filter (\<lambda>kg. fst (fst kg) = kind_value k) (sorted_groups view))
       DISCOVERY_KINDS)"

definition compile_discovery ::
  "(string \<Rightarrow> string) \<Rightarrow> task_scope \<Rightarrow> snapshot_resolution \<Rightarrow> discovery_context" where
  "compile_discovery H scope resolution =
     (let refs = eligible_refs scope;
          view = resolve_eligible H resolution (\<lambda>it. discovery_eligible it refs);
          st = fold (discover_group H) (discovery_groups view)
                 \<lparr>ds_routing = [], ds_signals = [], ds_digests = [],
                  ds_unknowns = supersession_unknowns view\<rparr>
      in make_discovery \<lparr>disc_scope_digest = scope_sha256 H scope,
           routing_fact_refs = ds_routing st, architecture_signal_refs = ds_signals st,
           disc_unknowns = dedupe_unknowns (ds_unknowns st),
           disc_item_digests = sort_key fst (ds_digests st)\<rparr>)"

section \<open>What resolution selects\<close>

lemma representative_mem: "its \<noteq> [] \<Longrightarrow> representative its \<in> set its"
  by (cases "min_by representative_key its") (auto simp: representative_def dest: min_by_mem)

lemma strongest_props:
  assumes "its \<noteq> []"
  shows "strongest its \<noteq> []" and "set (strongest its) \<subseteq> set its"
    and "a \<in> set (strongest its) \<Longrightarrow> b \<in> set its \<Longrightarrow> authority_rank a \<le> authority_rank b"
proof -
  let ?m = "Min (set (map authority_rank its))"
  have "?m \<in> set (map authority_rank its)" using assms by (intro Min_in) auto
  then show "strongest its \<noteq> []" by (auto simp: strongest_def filter_empty_conv)
  show "set (strongest its) \<subseteq> set its" by (auto simp: strongest_def Let_def)
  show "a \<in> set (strongest its) \<Longrightarrow> b \<in> set its \<Longrightarrow> authority_rank a \<le> authority_rank b"
    by (auto simp: strongest_def Let_def)
qed

lemma settled_contested_simps [simp]:
  "res_items (settled its) = its" "\<not> conflict (settled its)" "res_sources (settled its) = []"
  "res_items (contested d s) = []" "conflict (contested d s)" "res_sources (contested d s) = s"
  by (simp_all add: settled_def contested_def)

text \<open>A resolution over representatives: it selects some of them, or names a contradiction.\<close>

definition sound_resolution :: "context_item list \<Rightarrow> group_resolution \<Rightarrow> bool" where
  "sound_resolution reps g \<longleftrightarrow> set (res_items g) \<subseteq> set reps \<and> set (res_sources g) \<subseteq> set reps
     \<and> (conflict g \<longleftrightarrow> res_items g = [])"

lemma sound_settled: "its \<noteq> [] \<Longrightarrow> set its \<subseteq> set reps \<Longrightarrow> sound_resolution reps (settled its)"
  by (simp add: sound_resolution_def)

lemma sound_contested: "set srcs \<subseteq> set reps \<Longrightarrow> sound_resolution reps (contested d srcs)"
  by (simp add: sound_resolution_def)

lemma sound_mono: "sound_resolution xs g \<Longrightarrow> set xs \<subseteq> set ys \<Longrightarrow> sound_resolution ys g"
  by (auto simp: sound_resolution_def)

lemma sound_by_authority: "reps \<noteq> [] \<Longrightarrow> sound_resolution reps (resolve_by_authority reps)"
  by (simp add: resolve_by_authority_def Let_def sound_settled sound_contested strongest_props)

text \<open>The laws of the best declared precedence.\<close>

definition best_laws :: "context_item list \<Rightarrow> context_item list" where
  "best_laws reps = filter (\<lambda>it. law_precedence (body it)
     = Some (Min (set (map (\<lambda>it. the (law_precedence (body it))) reps)))) reps"

lemma resolve_law_eq:
  "resolve_law reps =
     (if length reps = 1 then settled reps
      else if reps \<noteq> [] \<and> list_all (\<lambda>it. law_precedence (body it) \<noteq> None) reps then
        (if length (best_laws reps) = 1 then settled (best_laws reps)
         else resolve_by_authority (best_laws reps))
      else resolve_by_authority reps)"
  unfolding resolve_law_def best_laws_def Let_def ..

lemma best_laws_props:
  assumes "reps \<noteq> []" "list_all (\<lambda>it. law_precedence (body it) \<noteq> None) reps"
  shows "best_laws reps \<noteq> []" and "set (best_laws reps) \<subseteq> set reps"
proof -
  let ?ps = "set (map (\<lambda>it. the (law_precedence (body it))) reps)"
  have "Min ?ps \<in> ?ps" using assms(1) by (intro Min_in) auto
  then obtain it where "it \<in> set reps" "the (law_precedence (body it)) = Min ?ps" by auto
  moreover from this assms(2) obtain p where "law_precedence (body it) = Some p"
    by (auto simp: list_all_iff)
  ultimately have "it \<in> set (best_laws reps)" by (simp add: best_laws_def)
  then show "best_laws reps \<noteq> []" by auto
  show "set (best_laws reps) \<subseteq> set reps" by (auto simp: best_laws_def)
qed

lemma sound_law: "reps \<noteq> [] \<Longrightarrow> sound_resolution reps (resolve_law reps)"
  using best_laws_props [of reps] sound_by_authority [of "best_laws reps"]
    sound_by_authority [of reps]
  by (auto simp: resolve_law_eq intro: sound_settled sound_mono)

lemma sound_group:
  assumes "reps \<noteq> []" "kind = APPLICABLE_LAW \<Longrightarrow> \<forall>it \<in> set reps. item_kind it = APPLICABLE_LAW"
  shows "sound_resolution reps (resolve_group kind reps)"
proof (cases "length reps = 1")
  case True
  then show ?thesis using assms by (auto simp: resolve_group_def intro: sound_settled)
next
  case False
  have s: "sound_resolution reps (settled (sort_key item_sort_key reps))"
    using assms(1) set_sort [of item_sort_key reps] by (intro sound_settled) (metis set_empty, simp)
  have l: "kind = APPLICABLE_LAW \<Longrightarrow>
      sound_resolution reps (resolve_law (filter (\<lambda>it. item_kind it = APPLICABLE_LAW) reps))"
    using assms sound_law [OF assms(1)] by (simp add: filter_True)
  note a = sound_by_authority [OF assms(1)]
  show ?thesis using False s l a
    by (cases kind) (simp_all add: resolve_group_def Let_def sound_contested)
qed

lemma group_reps_subset: "set (group_reps H members) \<subseteq> set members"
proof
  fix r assume "r \<in> set (group_reps H members)"
  then obtain k b where kb: "(k, b) \<in> set (group_by (\<lambda>it. sha256_digest H (claim_digest_payload it)) members)"
    "r = representative b"
    by (auto simp: group_reps_def)
  then have "b \<noteq> []" "set b \<subseteq> set members" by (auto simp: group_by_mem_iff)
  with representative_mem [of b] kb(2) show "r \<in> set members" by auto
qed

lemma group_reps_Nil [simp]: "group_reps H members = [] \<longleftrightarrow> members = []"
proof -
  have "set (map fst (group_by f members)) = {} \<longleftrightarrow> members = []" for f :: "context_item \<Rightarrow> string"
    unfolding keys_group_by by simp
  then have "group_by f members = [] \<longleftrightarrow> members = []" for f :: "context_item \<Rightarrow> string" by simp
  then show ?thesis by (simp add: group_reps_def flip: length_0_conv)
qed

text \<open>Every claim of the group is carried by a representative with the same claim digest.\<close>

lemma group_reps_carry:
  assumes "it \<in> set members"
  shows "\<exists>r \<in> set (group_reps H members). representative_key r \<le> representative_key it
    \<and> sha256_digest H (claim_digest_payload r) = sha256_digest H (claim_digest_payload it)"
proof -
  let ?f = "\<lambda>it. sha256_digest H (claim_digest_payload it)"
  let ?b = "filter (\<lambda>x. ?f x = ?f it) members"
  have b: "(?f it, ?b) \<in> set (group_by ?f members)" "?b \<noteq> []"
    using assms by (auto simp: group_by_mem_iff filter_empty_conv)
  obtain r where r: "min_by representative_key ?b = Some r"
    using b(2) by (cases "min_by representative_key ?b") (auto simp del: filter_empty_conv)
  have "r = representative ?b" using r by (simp add: representative_def)
  then have "r \<in> set (group_reps H members)"
    using b(1) by (force simp: group_reps_def)
  moreover have "representative_key r \<le> representative_key it"
    using min_by_least [OF r] assms by simp
  moreover have "?f r = ?f it" using min_by_mem [OF r] by simp
  ultimately show ?thesis by blast
qed

lemma kind_of_value [simp]: "kind_of_value (kind_value k) = k"
  by (cases k) (simp_all add: kind_of_value_def BUCKET_KINDS_def)

lemma resolve_candidates_group:
  assumes "(key, g) \<in> set (res_groups (resolve_candidates H items))"
  shows "\<exists>members. members \<noteq> [] \<and>
      members = filter (\<lambda>it. group_key_of it = key) (fst (apply_supersession H items)) \<and>
      g = resolve_group (kind_of_value (fst key)) (group_reps H members) \<and>
      sound_resolution (group_reps H members) g"
proof -
  from assms obtain members where m: "(key, members) \<in> set (group_by group_key_of (fst (apply_supersession H items)))"
    "g = resolve_group (kind_of_value (fst key)) (group_reps H members)"
    by (auto simp: resolve_candidates_def case_prod_beta)
  then have mm: "members = filter (\<lambda>it. group_key_of it = key) (fst (apply_supersession H items))"
    "members \<noteq> []" by (auto simp: group_by_mem_iff)
  have "\<forall>it \<in> set (group_reps H members). kind_value (item_kind it) = fst key"
    using group_reps_subset [of H members] mm(1) by (auto simp: group_key_of_def)
  then have "\<forall>it \<in> set (group_reps H members). item_kind it = kind_of_value (fst key)"
    by (metis kind_of_value)
  then have "sound_resolution (group_reps H members) g"
    unfolding m(2) using mm(2) by (intro sound_group) auto
  with m(2) mm show ?thesis by blast
qed

lemma distinct_res_groups [simp]: "distinct (map fst (res_groups (resolve_candidates H items)))"
  by (simp add: resolve_candidates_def case_prod_beta comp_def)

section \<open>The resolver's contract\<close>

text \<open>
  What discovery and selection rely on: one resolution per key, only eligible claims of that
  key in it, and a conflict exactly when nothing is selected.
\<close>

definition settled_items :: "(group_key \<times> group_resolution) list \<Rightarrow> context_item list" where
  "settled_items gs = concat (map (\<lambda>kg. if conflict (snd kg) then [] else res_items (snd kg)) gs)"

locale resolved_view =
  fixes view :: resolved_candidates and eligible :: "context_item \<Rightarrow> bool"
  assumes groups_distinct: "distinct (map fst (res_groups view))"
    and group_member: "(key, g) \<in> set (res_groups view) \<Longrightarrow>
      it \<in> set (res_items g) \<or> it \<in> set (res_sources g) \<Longrightarrow> eligible it \<and> group_key_of it = key"
    and group_conflict: "(key, g) \<in> set (res_groups view) \<Longrightarrow> conflict g \<longleftrightarrow> res_items g = []"
begin

lemma set_sorted_groups: "set (sorted_groups view) = set (res_groups view)"
  by (simp add: sorted_groups_def)

lemma settled_mem:
  assumes "set gs \<subseteq> set (res_groups view)" "it \<in> set (settled_items gs)"
  shows "\<exists>g. (group_key_of it, g) \<in> set gs \<and> it \<in> set (res_items g) \<and> \<not> conflict g \<and> eligible it"
proof -
  from assms(2) obtain key g where "(key, g) \<in> set gs" "it \<in> set (res_items g)" "\<not> conflict g"
    by (auto simp: settled_items_def split: if_splits)
  with assms(1) group_member [of key g it] show ?thesis by auto
qed

lemma settled_eligible: "it \<in> set (settled_items (sorted_groups view)) \<Longrightarrow> eligible it"
  using settled_mem [of "sorted_groups view" it] by (auto simp: set_sorted_groups)

lemma settled_not_contested:
  assumes "it \<in> set (settled_items (sorted_groups view))" "(key, g) \<in> set (sorted_groups view)"
    "conflict g"
  shows "group_key_of it \<noteq> key"
proof
  assume k: "group_key_of it = key"
  obtain g' where g': "(key, g') \<in> set (res_groups view)" "\<not> conflict g'"
    using settled_mem [of "sorted_groups view" it] assms(1) k by (auto simp: set_sorted_groups)
  have "g = g'"
    using groups_distinct assms(2) g'(1) by (auto simp: set_sorted_groups dest: eq_key_imp_eq_value)
  with g' assms(3) show False by simp
qed

end

lemma resolve_candidates_member:
  assumes "(key, g) \<in> set (res_groups (resolve_candidates H items))"
    "it \<in> set (res_items g) \<or> it \<in> set (res_sources g)"
  shows "it \<in> set items \<and> group_key_of it = key"
proof -
  obtain members where m: "members = filter (\<lambda>it. group_key_of it = key) (fst (apply_supersession H items))"
    "sound_resolution (group_reps H members) g"
    using resolve_candidates_group [OF assms(1)] by blast
  then have "it \<in> set members"
    using assms(2) group_reps_subset [of H members] by (auto simp: sound_resolution_def)
  then show ?thesis using m(1) apply_supersession_subset by auto
qed

lemma resolve_candidates_conflict:
  "(key, g) \<in> set (res_groups (resolve_candidates H items)) \<Longrightarrow> conflict g \<longleftrightarrow> res_items g = []"
  using resolve_candidates_group [of key g H items] by (auto simp: sound_resolution_def)

interpretation eligible_view: resolved_view "resolve_eligible H candidates p"
  "\<lambda>it. p it \<and> it \<in> set candidates" for H candidates p
  by unfold_locales
    (auto simp: resolve_eligible_def dest: resolve_candidates_member resolve_candidates_conflict)

section \<open>The discovery projection\<close>

lemma discover_items_state:
  "ds_routing (fold (discover_item H) its st) = ds_routing st @ map item_id its"
  "ds_signals (fold (discover_item H) its st)
     = ds_signals st @ concat (map (\<lambda>it. constraint_signal (body it)) its)"
  "ds_unknowns (fold (discover_item H) its st) = ds_unknowns st"
  by (induction its arbitrary: st) (simp_all add: discover_item_def)

lemma discover_groups_state:
  "ds_routing (fold (discover_group H) gs st) = ds_routing st @ map item_id (settled_items gs)"
  "ds_signals (fold (discover_group H) gs st)
     = ds_signals st @ concat (map (\<lambda>it. constraint_signal (body it)) (settled_items gs))"
  by (induction gs arbitrary: st)
     (simp_all add: discover_group_def Let_def discover_items_state settled_items_def)

lemma set_discovery_groups: "set (discovery_groups view) \<subseteq> set (res_groups view)"
  by (auto simp: discovery_groups_def sorted_groups_def)

lemma fst_dict_put: "fst ` set (dict_put k v d) = insert k (fst ` set d)"
  by (induction k v d rule: dict_put.induct) auto

lemma distinct_dict_put: "distinct (map fst d) \<Longrightarrow> distinct (map fst (dict_put k v d))"
  by (induction k v d rule: dict_put.induct) (auto simp: fst_dict_put)

lemma compile_discovery_refs:
  "set (routing_fact_refs (compile_discovery H scope res)) =
     item_id ` set (settled_items (discovery_groups
       (resolve_eligible H res (\<lambda>it. discovery_eligible it (eligible_refs scope)))))"
  "set (architecture_signal_refs (compile_discovery H scope res)) =
     (\<Union>it \<in> set (settled_items (discovery_groups
       (resolve_eligible H res (\<lambda>it. discovery_eligible it (eligible_refs scope))))).
         set (constraint_signal (body it)))"
  by (simp_all add: compile_discovery_def Let_def make_discovery_def discover_groups_state)

lemma resolve_snapshot_filter:
  assumes "mset (filter p (all_items s)) = mset (filter p (all_items s'))"
    and "distinct (map item_id (filter p (all_items s)))"
  shows "filter p (resolve_snapshot s) = filter p (resolve_snapshot s')"
proof -
  have "inj_on item_sort_key (set (filter p (all_items s)))"
    using assms(2) by (auto simp: item_sort_key_def distinct_map inj_on_def)
  then have "sort_key item_sort_key (filter p (all_items s)) = sort_key item_sort_key (filter p (all_items s'))"
    using assms(1) by (intro sort_key_inj_key_eq) auto
  then show ?thesis by (simp add: resolve_snapshot_def filter_sort)
qed

lemma discovery_eligible_props:
  assumes "discovery_eligible it refs"
  shows "is_governed (authority_level it)" "item_kind it \<noteq> MEMORY_CONTEXT"
    "scope_mode it = GLOBAL \<or> set (scope_refs it) \<inter> set refs \<noteq> {}"
  using assms by (auto simp: discovery_eligible_def discovery_scope_match_def DISCOVERY_KINDS_def
      list_ex_iff split: if_splits)

lemma constraint_signal_mem:
  "c \<in> set (constraint_signal b) \<longleftrightarrow> body_kind b = ARCHITECTURE_CONSTRAINT \<and> c = expected_semantic_key b"
  by (cases b) auto

end
