(* ===== verification/Intake.thy ===== *)
theory Intake
  imports Resolution
begin

text \<open>
  From the request to the typed intent and the task scope: \<open>types.py\<close> (the request),
  \<open>compiler/objective.py\<close> (\<open>ObjectiveDeriver\<close>) and \<open>compiler/task_scope.py\<close>
  (\<open>TaskScopeCompiler\<close>), and the properties of discovery, the first consumer of the scope.
\<close>

section \<open>The request\<close>

record compile_request =
  rq_mission :: string
  rq_task_type :: string
  rq_constraints :: "string list"
  rq_desired_outputs :: "string list"
  rq_source_context :: "(string \<times> json) list"
  rq_unknowns :: "string list"

section \<open>The objective\<close>

definition MUTATION_VERBS :: "string list" where
  "MUTATION_VERBS =
     [''add'', ''adjust'', ''build'', ''change'', ''convert'', ''create'', ''delete'', ''extend'',
      ''fix'', ''harden'', ''implement'', ''install'', ''migrate'', ''modify'', ''optimize'',
      ''refactor'', ''remove'', ''repair'', ''replace'', ''rewrite'', ''update'', ''upgrade'',
      ''write'']"

definition ANALYSIS_VERBS :: "string list" where
  "ANALYSIS_VERBS =
     [''analyse'', ''analyze'', ''assess'', ''audit'', ''check'', ''evaluate'', ''examine'',
      ''explore'', ''inspect'', ''investigate'', ''review'', ''understand'']"

definition ARTIFACT_VERBS :: "string list" where
  "ARTIFACT_VERBS = [''document'', ''draft'', ''generate'', ''produce'', ''spec'']"

definition DECISION_VERBS :: "string list" where
  "DECISION_VERBS = [''choose'', ''decide'', ''prioritize'', ''recommend'', ''select'']"

definition has_word :: "string \<Rightarrow> string list \<Rightarrow> bool" where
  "has_word text words = list_ex (has_token text) words"

definition derive_realization_mode :: "string \<Rightarrow> realization_mode" where
  "derive_realization_mode m =
     (let lowered = lower m in
      if has_word lowered MUTATION_VERBS then MUTATION
      else if has_word lowered ANALYSIS_VERBS then ANALYSIS
      else if has_word lowered ARTIFACT_VERBS then ARTIFACT
      else if has_word lowered DECISION_VERBS then DECISION
      else UNKNOWN_MODE)"

definition derive_intent :: "compile_request \<Rightarrow> intent_contract res" where
  "derive_intent rq =
     (let realization = derive_realization_mode (rq_mission rq);
          unknowns = rq_unknowns rq
            @ (if realization = UNKNOWN_MODE then [''realization_mode_UNKNOWN''] else []);
          delivery = (realization = MUTATION \<or> realization = ARTIFACT);
          mode = (if realization = MUTATION then IN_PLACE_WORKSPACE
                  else if realization = ARTIFACT then RETURNED_FILES else NO_DELIVERY);
          validation = realization \<in> {MUTATION, ARTIFACT, UNKNOWN_MODE};
          accountability = validation \<or> delivery
      in make_intent
        \<lparr>intent_id = ''intent.runtime_convergence.v1'',
         mission = rq_mission rq, task_type = rq_task_type rq,
         int_constraints = rq_constraints rq, desired_outputs = rq_desired_outputs rq,
         source_context = rq_source_context rq, int_unknowns = unknowns,
         objective = \<lparr>requested = True, realization_mode = realization,
           acceptance_conditions = [], validation_required = validation,
           delivery_required = delivery, delivery_mode = mode\<rparr>,
         accountability_required = accountability, int_obligations = []\<rparr>)"

section \<open>The task scope\<close>

definition string_list :: "json option \<Rightarrow> string list" where
  "string_list v = (case v of
     Some (JList vs) \<Rightarrow> concat (map (\<lambda>x. case x of JStr s \<Rightarrow> if non_blank s then [s] else [] | _ \<Rightarrow> []) vs)
   | _ \<Rightarrow> [])"

definition SCOPE_HINT_KEYS :: "string list" where
  "SCOPE_HINT_KEYS = [''target_refs'', ''in_scope_refs'', ''excluded_refs'']"

definition compile_task_scope :: "(string \<Rightarrow> string) \<Rightarrow> intent_contract \<Rightarrow> task_scope res" where
  "compile_task_scope H i =
     (let hints = source_context i;
          targets = string_list (map_of hints ''target_refs'');
          in_scope = string_list (map_of hints ''in_scope_refs'');
          excluded = string_list (map_of hints ''excluded_refs'');
          conflicting = filter (\<lambda>r. r \<in> set excluded) (sorted_unique (targets @ in_scope));
          ambiguous = (if conflicting \<noteq> [] then
            [new_unknown H None None AMBIGUOUS_SCOPE
               (JObj [(''conflicting_refs'', jstrs conflicting),
                      (''reason'', JStr ''reference is both included and excluded'')]) BLOCKING []]
            else []);
          unnamed = (if delivery_required (objective i) \<and> targets = [] \<and> in_scope = [] then
            [new_unknown H None None AMBIGUOUS_SCOPE
               (JObj [(''delivery_mode'', JStr (delivery_mode_value (delivery_mode (objective i)))),
                      (''realization_mode'',
                         JStr (realization_mode_value (realization_mode (objective i)))),
                      (''missing'', JStr ''target_refs_and_in_scope_refs'')]) NON_BLOCKING []]
            else [])
      in make_scope H
        \<lparr>scope_id = [], mission = intent_contract.mission i, task_type = intent_contract.task_type i,
         target_refs = targets, in_scope_refs = in_scope, excluded_refs = excluded,
         requested_outputs = desired_outputs i, sc_constraints = int_constraints i,
         sc_unknowns = ambiguous @ unnamed\<rparr>)"

section \<open>Facts about intake\<close>

lemma string_list_non_blank: "s \<in> set (string_list v) \<Longrightarrow> non_blank s"
  by (auto simp: string_list_def split: option.splits json.splits if_splits)

lemma compile_task_scope_total: "\<exists>s. compile_task_scope H i = Inr s"
  by (simp add: compile_task_scope_def make_scope_def canon_scope_def Let_def)

lemma set_canonical_refs [simp]: "set (canonical_refs xs) = {x \<in> set xs. non_blank x}"
  by (auto simp: canonical_refs_def)

lemma compile_task_scope_refs:
  assumes "compile_task_scope H i = Inr s"
  shows "set (target_refs s) = set (string_list (map_of (source_context i) ''target_refs''))"
    and "set (in_scope_refs s) = set (string_list (map_of (source_context i) ''in_scope_refs''))"
    and "set (excluded_refs s) = set (string_list (map_of (source_context i) ''excluded_refs''))"
  using assms string_list_non_blank
  by (auto simp: compile_task_scope_def make_scope_def canon_scope_def Let_def)

lemma compile_task_scope_unknowns:
  assumes "compile_task_scope H i = Inr s"
  shows "(\<exists>u \<in> set (sc_unknowns s). reason_code u = AMBIGUOUS_SCOPE \<and> materiality u = BLOCKING)
    \<longleftrightarrow> scope_conflicts s \<noteq> []"
proof -
  let ?t = "string_list (map_of (source_context i) ''target_refs'')"
  let ?n = "string_list (map_of (source_context i) ''in_scope_refs'')"
  let ?e = "string_list (map_of (source_context i) ''excluded_refs'')"
  have c: "scope_conflicts s \<noteq> [] \<longleftrightarrow> (\<exists>r. r \<in> set ?e \<and> r \<in> set ?t \<union> set ?n)"
    using compile_task_scope_refs [OF assms] by (auto simp: scope_conflicts_def filter_empty_conv)
  have "(\<exists>u \<in> set (sc_unknowns s). reason_code u = AMBIGUOUS_SCOPE \<and> materiality u = BLOCKING)
      \<longleftrightarrow> filter (\<lambda>r. r \<in> set ?e) (sorted_unique (?t @ ?n)) \<noteq> []"
    using assms by (auto simp: compile_task_scope_def make_scope_def canon_scope_def Let_def)
  also have "\<dots> \<longleftrightarrow> (\<exists>r. r \<in> set ?e \<and> r \<in> set ?t \<union> set ?n)"
    by (auto simp: filter_empty_conv)
  finally show ?thesis using c by simp
qed

section \<open>Properties\<close>

text \<open>Deriving the objective never fails on a non-empty mission; a mission that names any
  mutation verb is a mutation whatever else it names; delivery is required exactly for mutations
  and artifacts and then has a delivery mode; an underivable objective stays visible as an
  unknown and is validated.\<close>

theorem objective_derivation:
  assumes "rq_mission rq \<noteq> []"
  shows "\<exists>i. derive_intent rq = Inr i
    \<and> (realization_mode (objective i) = MUTATION \<longleftrightarrow> has_word (lower (rq_mission rq)) MUTATION_VERBS)
    \<and> (delivery_required (objective i) \<longleftrightarrow> realization_mode (objective i) \<in> {MUTATION, ARTIFACT})
    \<and> (delivery_mode (objective i) = NO_DELIVERY \<longleftrightarrow> \<not> delivery_required (objective i))
    \<and> \<not> (realization_mode (objective i) = UNKNOWN_MODE \<and>
         (''realization_mode_UNKNOWN'' \<notin> set (int_unknowns i) \<or> \<not> validation_required (objective i)))
    \<and> accountability_required i = (validation_required (objective i) \<or> delivery_required (objective i))
    \<and> set (rq_unknowns rq) \<subseteq> set (int_unknowns i)"
  using assms by (auto simp: derive_intent_def make_intent_def Let_def derive_realization_mode_def)

definition sample_request :: "string \<Rightarrow> (string \<times> json) list \<Rightarrow> compile_request" where
  "sample_request m ctx = \<lparr>rq_mission = m, rq_task_type = ''t'', rq_constraints = [],
     rq_desired_outputs = [], rq_source_context = ctx, rq_unknowns = []\<rparr>"

theorem objective_derivation_witness:
  "\<exists>i. derive_intent (sample_request ''Audit and fix it'' []) = Inr i
     \<and> realization_mode (objective i) = MUTATION \<and> delivery_required (objective i)"
proof -
  have "rq_mission (sample_request ''Audit and fix it'' []) \<noteq> []" by (simp add: sample_request_def)
  moreover have "has_word (lower (rq_mission (sample_request ''Audit and fix it'' []))) MUTATION_VERBS"
    by code_simp
  ultimately show ?thesis using objective_derivation [of "sample_request ''Audit and fix it'' []"] by auto
qed

text \<open>The task scope is total, an excluded reference is never eligible even when it is also
  a target, and the scope carries a blocking ambiguity exactly when some reference is both
  included and excluded.\<close>

theorem task_scope_exclusions:
  "\<exists>s. compile_task_scope H i = Inr s
     \<and> set (eligible_refs s) = (set (target_refs s) \<union> set (in_scope_refs s)) - set (excluded_refs s)
     \<and> set (excluded_refs s) = set (string_list (map_of (source_context i) ''excluded_refs''))
     \<and> ((\<exists>u \<in> set (sc_unknowns s). reason_code u = AMBIGUOUS_SCOPE \<and> materiality u = BLOCKING)
          \<longleftrightarrow> (set (target_refs s) \<union> set (in_scope_refs s)) \<inter> set (excluded_refs s) \<noteq> {})"
proof -
  obtain s where s: "compile_task_scope H i = Inr s" using compile_task_scope_total by blast
  have e: "set (eligible_refs s) = (set (target_refs s) \<union> set (in_scope_refs s)) - set (excluded_refs s)"
    by (auto simp: eligible_refs_def)
  have "scope_conflicts s \<noteq> []
      \<longleftrightarrow> (set (target_refs s) \<union> set (in_scope_refs s)) \<inter> set (excluded_refs s) \<noteq> {}"
    by (auto simp: scope_conflicts_def filter_empty_conv)
  with compile_task_scope_unknowns [OF s] compile_task_scope_refs(3) [OF s] e s show ?thesis by blast
qed

text \<open>Discovery routes only from governed truth: every routing fact is a governed candidate
  in scope and never memory, and every architecture signal is the semantic key of such a
  governed constraint.\<close>

theorem discovery_is_governed:
  assumes "list_all (valid_item H) res"
  shows "set (routing_fact_refs (compile_discovery H scope res)) \<subseteq>
      {item_id it |it. it \<in> set res \<and> is_governed (authority_level it) \<and> item_kind it \<noteq> MEMORY_CONTEXT
        \<and> (scope_mode it = GLOBAL \<or> set (scope_refs it) \<inter> set (eligible_refs scope) \<noteq> {})}
    \<and> set (architecture_signal_refs (compile_discovery H scope res)) \<subseteq>
      {semantic_key it |it. it \<in> set res \<and> is_governed (authority_level it)
        \<and> item_kind it = ARCHITECTURE_CONSTRAINT
        \<and> (scope_mode it = GLOBAL \<or> set (scope_refs it) \<inter> set (eligible_refs scope) \<noteq> {})}"
proof -
  let ?p = "\<lambda>it. discovery_eligible it (eligible_refs scope)"
  have "?p it \<and> it \<in> set res" if "it \<in> set (settled_items (discovery_groups (resolve_eligible H res ?p)))" for it
    using eligible_view.settled_mem [OF set_discovery_groups that] by blast
  note e = this
  show ?thesis
    unfolding compile_discovery_refs
    using e discovery_eligible_props [of _ "eligible_refs scope"] assms valid_itemD(3) [of H]
    by (auto simp: constraint_signal_mem list_all_iff item_kind_def) (metis+)
qed

definition sample_scope :: "string list \<Rightarrow> task_scope" where
  "sample_scope refs = \<lparr>scope_id = ''s'', mission = ''m'', task_type = ''t'', target_refs = refs,
     in_scope_refs = [], excluded_refs = [], requested_outputs = [], sc_constraints = [],
     sc_unknowns = []\<rparr>"

definition sample_constraint :: context_item where
  "sample_constraint = \<lparr>item_id = ''ctxitem.sha256:0'', semantic_key = ''layering'',
     authority_level = GOVERNED_VERIFIED, source_ref = sample_source, scope_mode = SCOPED,
     scope_refs = [''a''], selected_because = [],
     body = GovernedConstraint ''layering'' ''text'' [] []\<rparr>"

theorem discovery_is_governed_witness:
  "architecture_signal_refs (compile_discovery (\<lambda>_. ''0'') (sample_scope [''a'']) [sample_constraint])
     = [''layering'']
   \<and> {''layering''} \<subseteq> {semantic_key it |it. it \<in> {sample_constraint} \<and> is_governed (authority_level it)
        \<and> item_kind it = ARCHITECTURE_CONSTRAINT
        \<and> (scope_mode it = GLOBAL \<or> set (scope_refs it) \<inter> set (eligible_refs (sample_scope [''a''])) \<noteq> {})}"
proof -
  have r: "architecture_signal_refs (compile_discovery (\<lambda>_. ''0'') (sample_scope [''a'']) [sample_constraint])
     = [''layering'']"
    by code_simp
  have "list_all (valid_item (\<lambda>_. ''0'')) [sample_constraint]"
    by code_simp
  from discovery_is_governed [OF this, of "sample_scope [''a'']"] r show ?thesis by simp
qed


definition snapshot_of_laws :: "context_item list \<Rightarrow> context_snapshot" where
  "snapshot_of_laws laws = empty_snapshot\<lparr>snap_applicable_law := laws\<rparr>"


end
