(* ===== verification/Activation.thy ===== *)
theory Activation
  imports Kernels Intake "HOL-Library.Sublist"
begin

text \<open>
  \<open>compiler/architecture_materiality.py\<close> and \<open>compiler/activation.py\<close>: the assessment of
  architecture materiality and the activation planner. The parsed routing rules and pipeline
  documents are records whose fields are what the code reads, with the defaults of its
  \<open>get\<close> calls; a dictionary is an association list in document order.
\<close>

section \<open>The policy documents\<close>

record route_rule =
  rr_phases :: "string list"
  rr_optional_phases :: "string list"
  rr_task_kernels :: "string list"
  rr_match_any :: "string list"

record routing_rules =
  task_routes :: "(string \<times> route_rule) list"
  allowed_when_any :: "string list"
  mission_signal_tokens :: "(string \<times> string list) list"
  context_signal_map :: "(string \<times> string) list"
  adds_phase :: "string option"
  lenses :: "(string \<times> string list) list"

record pipeline_phase =
  phase_id :: string
  primary_kernels :: "string list"
  ph_required_outputs :: "string list"

type_synonym pipeline_doc = "pipeline_phase list"

section \<open>Architecture materiality\<close>

record materiality_result =
  mt_required :: bool
  mt_triggers :: "string list"
  mt_active_lenses :: "string list"
  mt_evidence :: "string list"

definition NOT_REQUIRED :: materiality_result where
  "NOT_REQUIRED = \<lparr>mt_required = False, mt_triggers = [], mt_active_lenses = [], mt_evidence = []\<rparr>"

definition materiality_json :: "materiality_result \<Rightarrow> json" where
  "materiality_json m = JObj
     [(''required'', JBool (mt_required m)),
      (''triggers'', jstrs (mt_triggers m)),
      (''active_lenses'', jstrs (mt_active_lenses m)),
      (''evidence'', jstrs (mt_evidence m))]"

definition word_evidence :: "string \<Rightarrow> string list \<Rightarrow> string list" where
  "word_evidence text tokens = filter (has_token (lower text)) tokens"

text \<open>One governed signal; \<open>if trigger\<close> also skips an empty trigger name.\<close>

definition signal_step ::
  "routing_rules \<Rightarrow> string \<Rightarrow> string list \<times> string list \<Rightarrow> string list \<times> string list" where
  "signal_step rules signal st = (case map_of (context_signal_map rules) signal of
     Some t \<Rightarrow> (if t = [] then st else (fst st @ [t], snd st @ [''governed_signal:'' @ signal]))
   | None \<Rightarrow> st)"

definition token_step ::
  "string \<Rightarrow> string \<times> string list \<Rightarrow> string list \<times> string list \<Rightarrow> string list \<times> string list" where
  "token_step m tt st = (let hits = word_evidence m (snd tt) in
     if hits = [] then st
     else (fst st @ [fst tt],
           snd st @ [''mission_token:'' @ fst tt @ '':'' @ join_with '','' (sort hits)]))"

definition assess_materiality ::
  "intent_contract \<Rightarrow> routing_rules \<Rightarrow> discovery_context \<Rightarrow> materiality_result" where
  "assess_materiality i rules disc =
     (let st1 = fold (signal_step rules) (architecture_signal_refs disc) ([], []);
          st2 = fold (token_step (intent_contract.mission i)) (mission_signal_tokens rules) st1;
          triggers = fst st2
      in if triggers = [] then NOT_REQUIRED
         else \<lparr>mt_required = True, mt_triggers = sorted_unique triggers,
               mt_active_lenses = map fst (filter (\<lambda>(l, ts). list_ex (\<lambda>t. t \<in> set triggers) ts) (lenses rules)),
               mt_evidence = snd st2\<rparr>)"

section \<open>The activation plan\<close>

record activation_plan =
  task_summary :: string
  matched_route :: string
  confidence :: string
  phase_sequence :: "string list"
  active_kernels :: "string list"
  skipped_kernels :: "string list"
  terminal_allowed :: bool
  ap_required_outputs :: "string list"
  blockers :: "string list"
  ap_unknowns :: "string list"
  next_phase :: string
  architecture_materiality :: materiality_result

definition activation_json :: "activation_plan \<Rightarrow> json" where
  "activation_json p = JObj
     [(''task_summary'', JStr (task_summary p)),
      (''matched_route'', JStr (matched_route p)),
      (''confidence'', JStr (confidence p)),
      (''phase_sequence'', jstrs (phase_sequence p)),
      (''active_kernels'', jstrs (active_kernels p)),
      (''skipped_kernels'', jstrs (skipped_kernels p)),
      (''terminal_allowed'', JBool (terminal_allowed p)),
      (''required_outputs'', jstrs (ap_required_outputs p)),
      (''blockers'', jstrs (blockers p)),
      (''unknowns'', jstrs (ap_unknowns p)),
      (''next_phase'', JStr (next_phase p)),
      (''architecture_materiality'', materiality_json (architecture_materiality p))]"

definition P7 :: string where "P7 = ''P7_FLAWLESS_VICTORY''"

definition REFINEMENT_PHASES :: "string list" where
  "REFINEMENT_PHASES =
     [''P4_ALIGNMENT_AND_STUB_GATE'', ''P5_RECURSIVE_IMPROVEMENT'', ''P6_LEVERAGE_COMPRESSION'']"

definition REFINEMENT_TOKENS :: "string list" where
  "REFINEMENT_TOKENS =
     [''clean'', ''dedupe'', ''streamline'', ''improve'', ''harden'', ''stubs'', ''gaps'', ''leverage'']"

definition L9_TOKENS :: "string list" where
  "L9_TOKENS = [''l9'', ''kernel'', ''runtime'', ''transportpacket'', ''gate'']"

text \<open>\<open>any(token in text for token in tokens)\<close>.\<close>

definition mentions :: "string \<Rightarrow> string list \<Rightarrow> bool" where
  "mentions text tokens = list_ex (contains text) tokens"

text \<open>\<open>_match_route\<close>: the first route of the highest score, \<open>pack_review\<close> by default.\<close>

definition route_score :: "string \<Rightarrow> route_rule \<Rightarrow> int" where
  "route_score lowered r = int (length (filter (\<lambda>t. has_token lowered (lower t)) (rr_match_any r)))"

definition match_step ::
  "string \<Rightarrow> string \<times> route_rule \<Rightarrow> string \<times> route_rule \<times> int \<Rightarrow> string \<times> route_rule \<times> int" where
  "match_step lowered nr best =
     (if route_score lowered (snd nr) > snd (snd best)
      then (fst nr, snd nr, route_score lowered (snd nr)) else best)"

definition confidence_of :: "int \<Rightarrow> string" where
  "confidence_of n = (if n \<ge> 2 then ''high'' else if n = 1 then ''medium'' else ''low'')"

definition match_route :: "string \<Rightarrow> routing_rules \<Rightarrow> (string \<times> route_rule \<times> string) res" where
  "match_route task rules = (case map_of (task_routes rules) ''pack_review'' of
     None \<Rightarrow> Inl (PyKeyError ''pack_review'')
   | Some r0 \<Rightarrow>
       (case fold (match_step (lower task)) (task_routes rules) (''pack_review'', r0, -1) of
          (name, r, score) \<Rightarrow> Inr (name, r, confidence_of score)))"

definition phrase_terminal_allowed :: "string \<Rightarrow> string list \<Rightarrow> routing_rules \<Rightarrow> bool" where
  "phrase_terminal_allowed task phases rules \<longleftrightarrow>
     P7 \<in> set phases \<and> mentions (lower task) (map lower (allowed_when_any rules))"

text \<open>\<open>phases_by_id\<close>: a later phase of the same id replaces an earlier one.\<close>

definition phase_lookup :: "pipeline_doc \<Rightarrow> string \<Rightarrow> pipeline_phase option" where
  "phase_lookup doc p = fold (\<lambda>ph m. m(phase_id ph \<mapsto> ph)) doc Map.empty p"

text \<open>\<open>if x not in xs: xs.append(x)\<close>.\<close>

definition append_new :: "'a \<Rightarrow> 'a list \<Rightarrow> 'a list" where
  "append_new x xs = (if x \<in> set xs then xs else xs @ [x])"

definition all_kernel_paths :: "pipeline_doc \<Rightarrow> string list" where
  "all_kernel_paths doc = fold append_new (concat (map primary_kernels doc)) []"

text \<open>The phases before ordering: route, terminal or optional, and the architecture phase.\<close>

definition candidate_phases ::
  "string \<Rightarrow> route_rule \<Rightarrow> routing_rules \<Rightarrow> bool \<Rightarrow> bool \<Rightarrow> string list res" where
  "candidate_phases m r rules include_terminal material =
     (let base = (if include_terminal then rr_phases r @ [P7]
          else rr_phases r @ filter (\<lambda>p. p \<in> set REFINEMENT_PHASES \<and> mentions (lower m) REFINEMENT_TOKENS)
                 (rr_optional_phases r))
      in if material then (case adds_phase rules of
           None \<Rightarrow> Inl (PyKeyError ''adds_phase'')
         | Some p \<Rightarrow> Inr (if p \<in> set base then base else base @ [p]))
         else Inr base)"

definition order_phases :: "pipeline_doc \<Rightarrow> string list \<Rightarrow> string list" where
  "order_phases doc phases = filter (\<lambda>p. p \<in> set phases) (map phase_id doc)"

definition phase_kernels :: "pipeline_doc \<Rightarrow> string \<Rightarrow> string list" where
  "phase_kernels doc p = (case phase_lookup doc p of
     None \<Rightarrow> [] | Some ph \<Rightarrow> if p = ''P2_TASK_ROUTING'' then [] else primary_kernels ph)"

definition base_active :: "pipeline_doc \<Rightarrow> string list \<Rightarrow> string list" where
  "base_active doc phases = fold append_new (concat (map (phase_kernels doc) phases)) []"

text \<open>The index after the last constitutional kernel, or the end.\<close>

definition insert_index :: "string list \<Rightarrow> nat" where
  "insert_index active =
     (let idx = filter (\<lambda>n. contains (active ! n) ''/constitutional/'') [0..<length active]
      in if idx = [] then length active else Suc (last idx))"

definition insert_task_kernels :: "string list \<Rightarrow> string list \<Rightarrow> string list" where
  "insert_task_kernels active kernels =
     (let new = filter (\<lambda>k. k \<notin> set active) kernels in
      if new = [] then active
      else take (insert_index active) active @ new @ drop (insert_index active) active)"

definition plan_outputs :: "pipeline_doc \<Rightarrow> string list \<Rightarrow> string list" where
  "plan_outputs doc phases = fold append_new
     (concat (map (\<lambda>p. case phase_lookup doc p of None \<Rightarrow> [] | Some ph \<Rightarrow> ph_required_outputs ph) phases)) []"

definition plan_activation ::
  "intent_contract \<Rightarrow> routing_rules \<Rightarrow> pipeline_doc \<Rightarrow> discovery_context \<Rightarrow> bool \<Rightarrow>
     activation_plan res" where
  "plan_activation i rules doc disc include_terminal =
     (let m = intent_contract.mission i in
      bindR (match_route m rules) (\<lambda>(route_name, r, conf).
      let mat = assess_materiality i rules disc in
      bindR (candidate_phases m r rules include_terminal (mt_required mat)) (\<lambda>cands.
      let phases0 = order_phases doc cands;
          active0 = insert_task_kernels (base_active doc phases0) (rr_task_kernels r);
          term = (phrase_terminal_allowed m phases0 rules \<or> include_terminal);
          drop_term = (P7 \<in> set phases0 \<and> \<not> term);
          phases = (if drop_term then remove1 P7 phases0 else phases0);
          active = (if drop_term
            then filter (\<lambda>k. \<not> ends_with k ''flawless_victory.contract.yaml'') active0 else active0)
      in Inr
        \<lparr>task_summary = m, matched_route = route_name, confidence = conf,
         phase_sequence = phases, active_kernels = active,
         skipped_kernels = filter (\<lambda>k. k \<notin> set active) (all_kernel_paths doc),
         terminal_allowed = (term \<and> P7 \<in> set phases),
         ap_required_outputs = plan_outputs doc phases,
         blockers = (if ''P1_CONSTITUTIONAL_PREFLIGHT'' \<notin> set phases \<and> mentions (lower m) L9_TOKENS
           then [''L9-related task without constitutional preflight.''] else []),
         ap_unknowns = (if conf = ''low'' then
           [''Task route matched only default route; inspect task context before execution.''] else []),
         next_phase = (if phases = [] then ''BLOCKED'' else hd phases),
         architecture_materiality = mat\<rparr>)))"

section \<open>Facts about planning\<close>

lemma set_fold_append_new [simp]: "set (fold append_new xs ys) = set xs \<union> set ys"
  by (induction xs arbitrary: ys) (auto simp: append_new_def)

lemma distinct_fold_append_new: "distinct ys \<Longrightarrow> distinct (fold append_new xs ys)"
  by (induction xs arbitrary: ys) (auto simp: append_new_def)

lemma signal_fold:
  "fst (fold (signal_step rules) sigs st) = fst st @ filter (\<lambda>t. t \<noteq> [])
     (concat (map (\<lambda>x. case map_of (context_signal_map rules) x of None \<Rightarrow> [] | Some t \<Rightarrow> [t]) sigs))"
  by (induction sigs arbitrary: st) (auto simp: signal_step_def split: option.splits)

lemma token_fold:
  "fst (fold (token_step m) tts st) = fst st @ map fst (filter (\<lambda>tt. word_evidence m (snd tt) \<noteq> []) tts)"
  by (induction tts arbitrary: st) (auto simp: token_step_def Let_def)

text \<open>What fires the Global Architect: a mapped governed signal, or mission evidence.\<close>

definition signal_fires :: "routing_rules \<Rightarrow> string \<Rightarrow> bool" where
  "signal_fires rules x \<longleftrightarrow> (case map_of (context_signal_map rules) x of None \<Rightarrow> False | Some t \<Rightarrow> t \<noteq> [])"

lemma signal_fires_iff: "signal_fires rules x \<longleftrightarrow> (\<exists>t. map_of (context_signal_map rules) x = Some t \<and> t \<noteq> [])"
  by (auto simp: signal_fires_def split: option.splits)

definition mission_fires :: "routing_rules \<Rightarrow> string \<Rightarrow> bool" where
  "mission_fires rules m \<longleftrightarrow> list_ex (\<lambda>(t, toks). list_ex (has_token (lower m)) toks) (mission_signal_tokens rules)"

lemma mt_required_iff:
  "mt_required (assess_materiality i rules disc) \<longleftrightarrow>
     list_ex (signal_fires rules) (architecture_signal_refs disc)
     \<or> mission_fires rules (intent_contract.mission i)"
proof -
  let ?sig = "filter (\<lambda>t. t \<noteq> []) (concat (map (\<lambda>x. case map_of (context_signal_map rules) x of
      None \<Rightarrow> [] | Some t \<Rightarrow> [t]) (architecture_signal_refs disc)))"
  let ?tok = "filter (\<lambda>tt. word_evidence (intent_contract.mission i) (snd tt) \<noteq> []) (mission_signal_tokens rules)"
  have s: "?sig \<noteq> [] \<longleftrightarrow> list_ex (signal_fires rules) (architecture_signal_refs disc)"
    by (force simp: filter_empty_conv list_ex_iff signal_fires_iff split: option.splits)
  have t: "?tok \<noteq> [] \<longleftrightarrow> mission_fires rules (intent_contract.mission i)"
    by (simp add: filter_empty_conv list_ex_iff mission_fires_def word_evidence_def case_prod_beta)
  show ?thesis
    unfolding s [symmetric] t [symmetric]
    by (simp add: assess_materiality_def Let_def signal_fold token_fold NOT_REQUIRED_def)
qed

lemma match_step_eq:
  "match_step l (k, x) (n, r, b) = (if route_score l x > b then (k, x, route_score l x) else (n, r, b))"
  by (simp add: match_step_def)

lemma match_fold:
  fixes routes :: "(string \<times> route_rule) list"
  assumes "fold (match_step l) routes (n0, r0, b0) = (n, r, b)"
  shows "b0 \<le> b" "\<forall>(k, x) \<in> set routes. route_score l x \<le> b"
    "(n, r, b) = (n0, r0, b0) \<or> (n, r) \<in> set routes \<and> b = route_score l r"
proof -
  have "b0 \<le> b \<and> (\<forall>(k, x) \<in> set routes. route_score l x \<le> b) \<and>
      ((n, r, b) = (n0, r0, b0) \<or> (n, r) \<in> set routes \<and> b = route_score l r)"
    using assms
  proof (induction routes arbitrary: n0 r0 b0)
    case (Cons kx routes)
    obtain k x where kx: "kx = (k, x)" by (cases kx)
    show ?case
    proof (cases "route_score l x > b0")
      case True
      then have "fold (match_step l) routes (k, x, route_score l x) = (n, r, b)"
        using Cons.prems by (simp add: kx match_step_eq)
      from Cons.IH [OF this] True show ?thesis by (auto simp: kx)
    next
      case False
      then have "fold (match_step l) routes (n0, r0, b0) = (n, r, b)"
        using Cons.prems by (simp add: kx match_step_eq)
      from Cons.IH [OF this] False show ?thesis by (auto simp: kx)
    qed
  qed simp
  then show "b0 \<le> b" "\<forall>(k, x) \<in> set routes. route_score l x \<le> b"
    "(n, r, b) = (n0, r0, b0) \<or> (n, r) \<in> set routes \<and> b = route_score l r" by auto
qed

lemma match_route_best:
  assumes "match_route task rules = Inr (n, r, c)"
  shows "(n, r) \<in> set (task_routes rules)"
    and "\<forall>(k, x) \<in> set (task_routes rules). route_score (lower task) x \<le> route_score (lower task) r"
    and "c = confidence_of (route_score (lower task) r)"
proof -
  from assms obtain r0 b where r0: "map_of (task_routes rules) ''pack_review'' = Some r0"
    and f: "fold (match_step (lower task)) (task_routes rules) (''pack_review'', r0, -1) = (n, r, b)"
    and c: "c = confidence_of b"
    by (auto simp: match_route_def split: option.splits prod.splits)
  note m = match_fold [OF f]
  have mem: "(''pack_review'', r0) \<in> set (task_routes rules)" using r0 by (rule map_of_SomeD)
  have "0 \<le> route_score (lower task) r0" by (simp add: route_score_def)
  with m(2) mem have "0 \<le> b" by fastforce
  with m(3) have "(n, r) \<in> set (task_routes rules) \<and> b = route_score (lower task) r" by auto
  with m(2) c show "(n, r) \<in> set (task_routes rules)"
    "\<forall>(k, x) \<in> set (task_routes rules). route_score (lower task) x \<le> route_score (lower task) r"
    "c = confidence_of (route_score (lower task) r)" by auto
qed

lemma set_insert_task_kernels [simp]: "set (insert_task_kernels active ks) = set active \<union> set ks"
proof -
  have "set (take n active) \<union> set (drop n active) = set active" for n
    by (metis append_take_drop_id set_append)
  then show ?thesis by (auto simp: insert_task_kernels_def Let_def filter_empty_conv)
qed

lemma distinct_insert_task_kernels:
  assumes "distinct active" "distinct ks" shows "distinct (insert_task_kernels active ks)"
proof -
  let ?n = "insert_index active"
  have "distinct (take ?n active @ drop ?n active)" using assms(1) by simp
  then have d: "distinct (take ?n active)" "distinct (drop ?n active)"
    "set (take ?n active) \<inter> set (drop ?n active) = {}" by (simp_all only: distinct_append)
  have "set (take ?n active) \<subseteq> set active" "set (drop ?n active) \<subseteq> set active"
    by (simp_all add: set_take_subset set_drop_subset)
  then show ?thesis using assms d
    by (auto simp: insert_task_kernels_def Let_def)
qed

lemma plan_activation_Inr:
  assumes "plan_activation i rules doc disc incl = Inr p"
  obtains n r c cands where
    "match_route (intent_contract.mission i) rules = Inr (n, r, c)"
    "candidate_phases (intent_contract.mission i) r rules incl (mt_required (assess_materiality i rules disc)) = Inr cands"
    "matched_route p = n" "confidence p = c"
    "phase_sequence p = (if P7 \<in> set (order_phases doc cands)
        \<and> \<not> (phrase_terminal_allowed (intent_contract.mission i) (order_phases doc cands) rules \<or> incl)
      then remove1 P7 (order_phases doc cands) else order_phases doc cands)"
    "terminal_allowed p \<longleftrightarrow> (phrase_terminal_allowed (intent_contract.mission i) (order_phases doc cands) rules \<or> incl)
      \<and> P7 \<in> set (phase_sequence p)"
    "set (active_kernels p) \<subseteq> set (insert_task_kernels (base_active doc (order_phases doc cands)) (rr_task_kernels r))"
    "distinct (rr_task_kernels r) \<Longrightarrow> distinct (active_kernels p)"
    "skipped_kernels p = filter (\<lambda>k. k \<notin> set (active_kernels p)) (all_kernel_paths doc)"
    "architecture_materiality p = assess_materiality i rules disc"
    "next_phase p = (if phase_sequence p = [] then ''BLOCKED'' else hd (phase_sequence p))"
    "ap_required_outputs p = plan_outputs doc (phase_sequence p)"
    "task_summary p = intent_contract.mission i"
proof -
  from assms obtain n r c cands where
    1: "match_route (intent_contract.mission i) rules = Inr (n, r, c)"
    and 2: "candidate_phases (intent_contract.mission i) r rules incl
        (mt_required (assess_materiality i rules disc)) = Inr cands"
    by (auto simp: plan_activation_def Let_def bindR_eq_Inr)
  note p = assms [unfolded plan_activation_def Let_def 1 bindR_simps prod.case 2]
  have d: "distinct (rr_task_kernels r) \<Longrightarrow>
      distinct (insert_task_kernels (base_active doc (order_phases doc cands)) (rr_task_kernels r))"
    by (rule distinct_insert_task_kernels) (simp_all add: base_active_def distinct_fold_append_new)
  note q = p [unfolded sum.inject, symmetric]
  show ?thesis
    by (rule that [OF 1 2]; (insert d)?; simp add: q subset_iff del: set_insert_task_kernels)
qed

lemma order_phases_mem: "P7 \<in> set (remove1 P7 (order_phases doc cands)) \<longleftrightarrow> False"
  if "distinct (map phase_id doc)"
proof -
  have "distinct (order_phases doc cands)" using that by (simp add: order_phases_def)
  then show ?thesis by simp
qed

lemma subseq_remove1: "subseq (remove1 x xs) xs"
  by (induction xs) auto

lemma base_active_mem:
  "k \<in> set (base_active doc phases) \<Longrightarrow>
     \<exists>p \<in> set phases. \<exists>ph \<in> set doc. phase_id ph = p \<and> k \<in> set (primary_kernels ph) \<and> p \<noteq> ''P2_TASK_ROUTING''"
proof -
  have l: "phase_lookup d p = Some ph \<Longrightarrow> ph \<in> set d \<and> phase_id ph = p" for d p ph
    unfolding phase_lookup_def by (induction d rule: rev_induct) (auto split: if_splits)
  assume "k \<in> set (base_active doc phases)"
  then obtain p where p: "p \<in> set phases" "k \<in> set (phase_kernels doc p)"
    by (auto simp: base_active_def)
  then obtain ph where "phase_lookup doc p = Some ph" "k \<in> set (primary_kernels ph)"
    "p \<noteq> ''P2_TASK_ROUTING''"
    by (cases "phase_lookup doc p") (auto simp: phase_kernels_def split: if_splits)
  with l [OF this(1)] p(1) show ?thesis by blast
qed

section \<open>Properties\<close>

definition sample_rules :: routing_rules where
  "sample_rules = \<lparr>task_routes =
       [(''pack_review'', \<lparr>rr_phases = [''P3'', ''P1_CONSTITUTIONAL_PREFLIGHT'', P7], rr_optional_phases = [],
          rr_task_kernels = [''k/task.yaml''], rr_match_any = [''review'']\<rparr>)],
     allowed_when_any = [''flawless''], mission_signal_tokens = [(''boundary_change'', [''boundary''])],
     context_signal_map = [(''layering'', ''boundary_change'')], adds_phase = Some ''P3A'', lenses = []\<rparr>"

definition sample_pipeline :: pipeline_doc where
  "sample_pipeline =
     [\<lparr>phase_id = ''P1_CONSTITUTIONAL_PREFLIGHT'', primary_kernels = [''k/constitutional/c.yaml''],
       ph_required_outputs = [''preflight'']\<rparr>,
      \<lparr>phase_id = ''P3'', primary_kernels = [''k/three.yaml''], ph_required_outputs = []\<rparr>,
      \<lparr>phase_id = ''P3A'', primary_kernels = [''k/gar.yaml''], ph_required_outputs = []\<rparr>,
      \<lparr>phase_id = P7, primary_kernels = [''k/flawless_victory.contract.yaml''],
       ph_required_outputs = []\<rparr>]"

definition sample_intent :: "string \<Rightarrow> intent_contract" where
  "sample_intent m = \<lparr>intent_id = ''intent.runtime_convergence.v1'', mission = m, task_type = ''t'',
     int_constraints = [], desired_outputs = [], source_context = [], int_unknowns = [],
     objective = \<lparr>requested = True, realization_mode = ANALYSIS, acceptance_conditions = [],
       validation_required = False, delivery_required = False, delivery_mode = NO_DELIVERY\<rparr>,
     accountability_required = False, int_obligations = []\<rparr>"

definition sample_discovery :: "string list \<Rightarrow> discovery_context" where
  "sample_discovery sigs = \<lparr>disc_scope_digest = ''0'', routing_fact_refs = [],
     architecture_signal_refs = sigs, disc_unknowns = [], disc_item_digests = []\<rparr>"

text \<open>C7: A plan follows the pipeline and gates the terminal phase: its phases are a
  subsequence of the canonical order; the terminal phase is in it exactly when the plan allows
  it, and then it was requested or an allowed phrase is in the mission.\<close>

theorem plan_phases_ordered_and_gated:
  assumes "plan_activation i rules doc disc incl = Inr p" "distinct (map phase_id doc)"
  shows "subseq (phase_sequence p) (map phase_id doc)
    \<and> (P7 \<in> set (phase_sequence p) \<longleftrightarrow> terminal_allowed p)
    \<and> \<not> (terminal_allowed p \<and> \<not> incl
         \<and> \<not> mentions (lower (intent_contract.mission i)) (map lower (allowed_when_any rules)))
    \<and> next_phase p = (if phase_sequence p = [] then ''BLOCKED'' else hd (phase_sequence p))"
  using assms(1)
proof (rule plan_activation_Inr)
  fix n r c cands
  let ?ph = "order_phases doc cands"
  let ?t = "phrase_terminal_allowed (intent_contract.mission i) ?ph rules \<or> incl"
  assume ph: "phase_sequence p = (if P7 \<in> set ?ph \<and> \<not> ?t then remove1 P7 ?ph else ?ph)"
    and t: "terminal_allowed p \<longleftrightarrow> ?t \<and> P7 \<in> set (phase_sequence p)"
    and nx: "next_phase p = (if phase_sequence p = [] then ''BLOCKED'' else hd (phase_sequence p))"
  have s: "subseq ?ph (map phase_id doc)" by (simp add: order_phases_def)
  moreover have "subseq (remove1 P7 ?ph) (map phase_id doc)"
    using subseq_remove1 s by (rule subseq_order.order_trans)
  ultimately have "subseq (phase_sequence p) (map phase_id doc)"
    by (simp add: ph)
  moreover have "P7 \<in> set (phase_sequence p) \<longleftrightarrow> terminal_allowed p"
    using t order_phases_mem [OF assms(2), of cands] unfolding ph by (auto split: if_splits)
  moreover have "\<not> (terminal_allowed p \<and> \<not> incl
      \<and> \<not> mentions (lower (intent_contract.mission i)) (map lower (allowed_when_any rules)))"
    using t by (auto simp: phrase_terminal_allowed_def)
  ultimately show ?thesis using nx by blast
qed

theorem plan_phases_ordered_and_gated_witness:
  "\<exists>p. plan_activation (sample_intent ''Review it'') sample_rules sample_pipeline (sample_discovery []) False
     = Inr p \<and> phase_sequence p = [''P1_CONSTITUTIONAL_PREFLIGHT'', ''P3''] \<and> \<not> terminal_allowed p"
proof -
  have e: "map_sum id phase_sequence (plan_activation (sample_intent ''Review it'') sample_rules
      sample_pipeline (sample_discovery []) False) = Inr [''P1_CONSTITUTIONAL_PREFLIGHT'', ''P3'']"
    by code_simp
  then obtain p where p: "plan_activation (sample_intent ''Review it'') sample_rules sample_pipeline
      (sample_discovery []) False = Inr p" "phase_sequence p = [''P1_CONSTITUTIONAL_PREFLIGHT'', ''P3'']"
    by (cases "plan_activation (sample_intent ''Review it'') sample_rules sample_pipeline
      (sample_discovery []) False") auto
  have "distinct (map phase_id sample_pipeline)" by code_simp
  from plan_phases_ordered_and_gated [OF p(1) this] p show ?thesis by (auto simp: P7_def)
qed

text \<open>The plan takes a best-scoring route, splits the pipeline's kernels into active and
  skipped, and activates no kernel but those of its phases (never all task kernels of the
  routing phase) and the task kernels of the route.\<close>

theorem plan_route_and_kernels:
  assumes "plan_activation i rules doc disc incl = Inr p"
  shows "\<exists>r. (matched_route p, r) \<in> set (task_routes rules)
      \<and> list_all (\<lambda>(k, x). route_score (lower (intent_contract.mission i)) x
            \<le> route_score (lower (intent_contract.mission i)) r) (task_routes rules)
      \<and> set (active_kernels p) \<inter> set (skipped_kernels p) = {}
      \<and> set (concat (map primary_kernels doc)) \<subseteq> set (active_kernels p) \<union> set (skipped_kernels p)
      \<and> set (active_kernels p) \<subseteq> set (rr_task_kernels r)
          \<union> {k. \<exists>ph \<in> set doc. phase_id ph \<noteq> ''P2_TASK_ROUTING'' \<and> k \<in> set (primary_kernels ph)}
      \<and> (distinct (active_kernels p) \<or> \<not> distinct (rr_task_kernels r))"
  using assms
proof (rule plan_activation_Inr)
  fix n r c cands
  assume m: "match_route (intent_contract.mission i) rules = Inr (n, r, c)" and n: "matched_route p = n"
    and a: "set (active_kernels p) \<subseteq> set (insert_task_kernels (base_active doc (order_phases doc cands)) (rr_task_kernels r))"
    and d: "distinct (rr_task_kernels r) \<Longrightarrow> distinct (active_kernels p)"
    and s: "skipped_kernels p = filter (\<lambda>k. k \<notin> set (active_kernels p)) (all_kernel_paths doc)"
  have "set (active_kernels p) \<subseteq> set (rr_task_kernels r)
      \<union> {k. \<exists>ph \<in> set doc. phase_id ph \<noteq> ''P2_TASK_ROUTING'' \<and> k \<in> set (primary_kernels ph)}"
    using a base_active_mem [of _ doc "order_phases doc cands"] by fastforce
  moreover have "set (concat (map primary_kernels doc)) \<subseteq> set (active_kernels p) \<union> set (skipped_kernels p)"
    unfolding s by (auto simp: all_kernel_paths_def)
  ultimately show ?thesis
    using match_route_best [OF m] d n s by (intro exI [of _ r]) (auto simp: list_all_iff)
qed

theorem plan_route_and_kernels_witness:
  "\<exists>p. plan_activation (sample_intent ''Review it'') sample_rules sample_pipeline (sample_discovery [])
      False = Inr p
    \<and> active_kernels p = [''k/constitutional/c.yaml'', ''k/task.yaml'', ''k/three.yaml'']
    \<and> set (active_kernels p) \<inter> set (skipped_kernels p) = {}"
proof -
  have "map_sum id active_kernels (plan_activation (sample_intent ''Review it'') sample_rules
      sample_pipeline (sample_discovery []) False)
    = Inr [''k/constitutional/c.yaml'', ''k/task.yaml'', ''k/three.yaml'']"
    by code_simp
  then obtain p where p: "plan_activation (sample_intent ''Review it'') sample_rules sample_pipeline
      (sample_discovery []) False = Inr p"
    "active_kernels p = [''k/constitutional/c.yaml'', ''k/task.yaml'', ''k/three.yaml'']"
    by (cases "plan_activation (sample_intent ''Review it'') sample_rules sample_pipeline
      (sample_discovery []) False") auto
  from plan_route_and_kernels [OF p(1)] p show ?thesis by blast
qed

text \<open>Architecture materiality is governed: the Global Architect is required exactly when a
  signal that discovery proved is mapped to a trigger or a mission token matches as a word, and
  then its phase is in the plan (when the pipeline has it) or the plan is refused.\<close>

theorem materiality_is_governed:
  assumes "plan_activation i rules doc disc incl = Inr p" "adds_phase rules = Some g"
    "g \<in> set (map phase_id doc)" "g \<noteq> P7"
  shows "(mt_required (architecture_materiality p) \<longleftrightarrow>
      list_ex (signal_fires rules) (architecture_signal_refs disc)
      \<or> mission_fires rules (intent_contract.mission i))
    \<and> (g \<in> set (phase_sequence p) \<or> \<not> mt_required (architecture_materiality p))"
  using assms(1)
proof (rule plan_activation_Inr)
  fix n r c cands
  assume c: "candidate_phases (intent_contract.mission i) r rules incl
      (mt_required (assess_materiality i rules disc)) = Inr cands"
    and ph: "phase_sequence p = (if P7 \<in> set (order_phases doc cands)
        \<and> \<not> (phrase_terminal_allowed (intent_contract.mission i) (order_phases doc cands) rules \<or> incl)
      then remove1 P7 (order_phases doc cands) else order_phases doc cands)"
    and m: "architecture_materiality p = assess_materiality i rules disc"
  { assume "mt_required (assess_materiality i rules disc)"
    then have "g \<in> set cands" using c assms(2) by (auto simp: candidate_phases_def Let_def split: if_splits)
    then have "g \<in> set (order_phases doc cands)" using assms(3) by (auto simp: order_phases_def)
    then have "g \<in> set (phase_sequence p)" using assms(4) by (simp add: ph) }
  then show ?thesis unfolding m mt_required_iff [symmetric] by blast
qed

theorem materiality_is_governed_witness:
  "\<exists>p. plan_activation (sample_intent ''Review it'') sample_rules sample_pipeline
      (sample_discovery [''layering'']) False = Inr p \<and> ''P3A'' \<in> set (phase_sequence p)"
proof -
  have "map_sum id (\<lambda>_. ()) (plan_activation (sample_intent ''Review it'') sample_rules sample_pipeline
      (sample_discovery [''layering'']) False) = Inr ()"
    by code_simp
  then obtain p where p: "plan_activation (sample_intent ''Review it'') sample_rules sample_pipeline
      (sample_discovery [''layering'']) False = Inr p"
    by (cases "plan_activation (sample_intent ''Review it'') sample_rules sample_pipeline
      (sample_discovery [''layering'']) False") auto
  have "list_ex (signal_fires sample_rules) (architecture_signal_refs (sample_discovery [''layering'']))"
    "adds_phase sample_rules = Some ''P3A''" "''P3A'' \<in> set (map phase_id sample_pipeline)"
    by code_simp+
  with materiality_is_governed [OF p this(2,3)] p show ?thesis by (auto simp: P7_def)
qed

end
