(* ===== verification/Selection.thy ===== *)
theory Selection
  imports Activation
begin

text \<open>
  Requirement-driven selection, the core of \<open>ContextCompiler\<close> in \<open>compiler/task_context.py\<close>:
  the explicit matching of a candidate, the shared selection state and its budgets, the loop
  over one requirement's eligible candidates with its four stop conditions, and the disposition
  of an unsatisfied requirement.
\<close>

section \<open>Matching\<close>

definition GLOBALLY_APPLICABLE_KINDS :: "context_kind list" where
  "GLOBALLY_APPLICABLE_KINDS =
     [ARCHITECTURE_CONSTRAINT, APPLICABLE_LAW, PRIOR_DECISION, AUTHORITY_FACT, CAPABILITY_FACT]"

definition scope_matches :: "context_requirement \<Rightarrow> context_item \<Rightarrow> bool" where
  "scope_matches r it =
     (if req_scope_mode r = GLOBAL then scope_mode it = GLOBAL
      else if scope_mode it = SCOPED then list_ex (\<lambda>x. x \<in> set (req_scope_refs r)) (scope_refs it)
      else req_kind r \<in> set GLOBALLY_APPLICABLE_KINDS)"

text \<open>\<open>getattr(item, "revision", None)\<close> is the revision of a repository fact.\<close>

definition matches_requirement :: "context_requirement \<Rightarrow> context_item \<Rightarrow> bool" where
  "matches_requirement r it =
     (if item_kind it \<noteq> req_kind r then False
      else if authority_rank it > AUTHORITY_RANK (minimum_authority r) then False
      else if item_kind it \<in> set GOVERNED_ONLY_KINDS \<and> \<not> is_governed (authority_level it) then False
      else if \<not> scope_matches r it then False
      else if freshness_requirement r = EXACT_REVISION then
        coordinate_constraint r = immutable_coordinate (source_ref it)
        \<or> coordinate_constraint r = fact_revision (body it)
      else True)"

definition candidate_sort_key :: "context_item \<Rightarrow> nat \<times> nat \<times> string \<times> string" where
  "candidate_sort_key it =
     ((if scope_mode it = SCOPED then 0 else 1), authority_rank it, semantic_key it, item_id it)"

section \<open>The selection state\<close>

text \<open>\<open>by_item\<close> and \<open>reasons\<close> are dictionaries in insertion order.\<close>

record selection =
  sel_items :: "(string \<times> context_item) list"
  sel_reasons :: "(string \<times> string list) list"
  sel_bytes :: nat

definition empty_selection :: selection where
  "empty_selection = \<lparr>sel_items = [], sel_reasons = [], sel_bytes = 0\<rparr>"

definition would_exceed_global :: "context_budget \<Rightarrow> selection \<Rightarrow> context_item \<Rightarrow> nat \<Rightarrow> bool" where
  "would_exceed_global b s it cost =
     (if item_id it \<in> set (map fst (sel_items s)) then False
      else if int (length (sel_items s)) + 1 > max_total_items b then True
      else int (sel_bytes s + cost) > max_total_bytes b)"

definition admit :: "context_item \<Rightarrow> nat \<Rightarrow> string \<Rightarrow> selection \<Rightarrow> selection" where
  "admit it cost rid s =
     (let s' = (if item_id it \<notin> set (map fst (sel_items s))
                then s\<lparr>sel_items := sel_items s @ [(item_id it, it)], sel_bytes := sel_bytes s + cost\<rparr>
                else s)
      in s'\<lparr>sel_reasons := setdefault_append (item_id it) rid (sel_reasons s')\<rparr>)"

section \<open>One requirement\<close>

definition materiality_for :: "context_requirement \<Rightarrow> unknown_materiality" where
  "materiality_for r = (if required r then BLOCKING else NON_BLOCKING)"

record budget_stop =
  stop_bound :: string
  stop_item :: context_item
  stop_count :: nat
  stop_bytes :: nat
  stop_limit :: int

definition budget_stop_fields :: "budget_stop \<Rightarrow> (string \<times> json) list" where
  "budget_stop_fields b =
     [(''bound'', JStr (stop_bound b)),
      (''blocked_item_id'', JStr (item_id (stop_item b))),
      (''observed_count'', jnat (stop_count b)),
      (''observed_bytes'', jnat (stop_bytes b)),
      (''candidate_cost'', jnat (canonical_cost (stop_item b))),
      (''limit'', JInt (stop_limit b))]"

record loop_state =
  ls_sel :: selection
  ls_keys :: "string list"
  ls_count :: nat
  ls_bytes :: nat
  ls_stop :: "budget_stop option"

definition requirement_stop :: "context_requirement \<Rightarrow> context_item \<Rightarrow> loop_state \<Rightarrow> budget_stop option" where
  "requirement_stop r it st =
     (case max_items r of
        Some n \<Rightarrow> if int (ls_count st) + 1 > n then
          Some \<lparr>stop_bound = ''requirement_max_items'', stop_item = it, stop_count = ls_count st,
                stop_bytes = ls_bytes st, stop_limit = n\<rparr>
          else None
      | None \<Rightarrow> None)"

definition requirement_bytes_stop ::
  "context_requirement \<Rightarrow> context_item \<Rightarrow> loop_state \<Rightarrow> budget_stop option" where
  "requirement_bytes_stop r it st =
     (case max_bytes r of
        Some n \<Rightarrow> if int (ls_bytes st + canonical_cost it) > n then
          Some \<lparr>stop_bound = ''requirement_max_bytes'', stop_item = it, stop_count = ls_count st,
                stop_bytes = ls_bytes st, stop_limit = n\<rparr>
          else None
      | None \<Rightarrow> None)"

definition global_stop :: "context_budget \<Rightarrow> context_item \<Rightarrow> loop_state \<Rightarrow> budget_stop option" where
  "global_stop b it st =
     (if would_exceed_global b (ls_sel st) it (canonical_cost it) then
        (if int (length (sel_items (ls_sel st))) + 1 > max_total_items b then
           Some \<lparr>stop_bound = ''global_max_items'', stop_item = it,
             stop_count = length (sel_items (ls_sel st)), stop_bytes = sel_bytes (ls_sel st),
             stop_limit = max_total_items b\<rparr>
         else Some \<lparr>stop_bound = ''global_max_bytes'', stop_item = it,
             stop_count = length (sel_items (ls_sel st)), stop_bytes = sel_bytes (ls_sel st),
             stop_limit = max_total_bytes b\<rparr>)
      else None)"

text \<open>The first bound the next candidate would exceed, in the order the code tests them.\<close>

definition budget_stop_for ::
  "context_budget \<Rightarrow> context_requirement \<Rightarrow> context_item \<Rightarrow> loop_state \<Rightarrow> budget_stop option" where
  "budget_stop_for b r it st =
     (case requirement_stop r it st of Some s \<Rightarrow> Some s | None \<Rightarrow>
       (case requirement_bytes_stop r it st of Some s \<Rightarrow> Some s | None \<Rightarrow> global_stop b it st))"

definition admit_step :: "context_requirement \<Rightarrow> context_item \<Rightarrow> loop_state \<Rightarrow> loop_state" where
  "admit_step r it st =
     st\<lparr>ls_sel := admit it (canonical_cost it) (requirement_id r) (ls_sel st),
        ls_keys := ls_keys st @ [semantic_key it],
        ls_count := ls_count st + 1,
        ls_bytes := ls_bytes st + canonical_cost it\<rparr>"

fun select_loop ::
  "context_budget \<Rightarrow> context_requirement \<Rightarrow> context_item list \<Rightarrow> loop_state \<Rightarrow> loop_state" where
  "select_loop b r [] st = st"
| "select_loop b r (it # rest) st =
     (if coverage_mode r = MINIMUM \<and> int (ls_count st) \<ge> min_items r then st
      else if coverage_mode r = SEMANTIC_KEYS \<and> semantic_key it \<notin> set (required_semantic_keys r)
        then select_loop b r rest st
      else (case budget_stop_for b r it st of
              Some s \<Rightarrow> st\<lparr>ls_stop := Some s\<rparr>
            | None \<Rightarrow> select_loop b r rest (admit_step r it st)))"

definition missing_keys :: "context_requirement \<Rightarrow> string list \<Rightarrow> string list \<Rightarrow> string list" where
  "missing_keys r selected disposed =
     filter (\<lambda>k. k \<notin> set selected \<and> k \<notin> set disposed) (required_semantic_keys r)"

definition satisfied ::
  "context_requirement \<Rightarrow> nat \<Rightarrow> string list \<Rightarrow> string list \<Rightarrow> bool \<Rightarrow> bool" where
  "satisfied r n selected disposed blocked =
     (if int n < min_items r then False
      else case coverage_mode r of
        SEMANTIC_KEYS \<Rightarrow> missing_keys r selected disposed = []
      | ALL_ELIGIBLE \<Rightarrow> \<not> blocked
      | MINIMUM \<Rightarrow> True)"

definition disposition_details ::
  "context_requirement \<Rightarrow> budget_stop option \<Rightarrow> string list \<Rightarrow> string list \<Rightarrow> (string \<times> json) list" where
  "disposition_details r stop selected disposed =
     [(''context_kind'', JStr (kind_value (req_kind r))),
      (''coverage_mode'', JStr (coverage_mode_value (coverage_mode r))),
      (''min_items'', JInt (min_items r)),
      (''selected'', jnat (length (dedup_first selected)))]
     @ (case stop of None \<Rightarrow> [] | Some s \<Rightarrow> budget_stop_fields s)
     @ (if coverage_mode r = SEMANTIC_KEYS then
          [(''missing_semantic_keys'', jstrs (sorted_unique (missing_keys r selected disposed)))]
        else [])"

definition dispose_unsatisfied ::
  "(string \<Rightarrow> string) \<Rightarrow> context_requirement \<Rightarrow> budget_stop option \<Rightarrow> string list \<Rightarrow> string list \<Rightarrow>
     context_unknown list res" where
  "dispose_unsatisfied H r stop selected disposed =
     (let reason = (if stop \<noteq> None then BUDGET_INSUFFICIENT else MISSING_REQUIRED_CONTEXT) in
      if missing_policy r = BLOCK then
        Inl (InvalidValueError ''required context could not be satisfied under a BLOCK missing policy''
               (requirement_id r))
      else if missing_policy r = OPTIONAL \<and> reason \<noteq> BUDGET_INSUFFICIENT then Inr []
      else Inr [new_unknown H (Some (requirement_id r)) None reason
                  (JObj (disposition_details r stop selected disposed)) (materiality_for r) []])"

definition conflict_unknown ::
  "(string \<Rightarrow> string) \<Rightarrow> context_requirement \<Rightarrow> group_key \<times> group_resolution \<Rightarrow> context_unknown" where
  "conflict_unknown H r kg =
     new_unknown H (Some (requirement_id r)) (Some (snd (fst kg))) CONFLICTING_GOVERNED_CLAIMS
       (JObj ((''context_kind'', JStr (kind_value (req_kind r))) # res_details (snd kg)))
       (materiality_for r) (map source_ref (res_sources (snd kg)))"

definition eligible_candidates :: "resolved_candidates \<Rightarrow> context_item list" where
  "eligible_candidates view = sort_key candidate_sort_key (settled_items (sorted_groups view))"

definition conflicted_groups :: "resolved_candidates \<Rightarrow> (group_key \<times> group_resolution) list" where
  "conflicted_groups view = filter (\<lambda>kg. conflict (snd kg)) (sorted_groups view)"

definition select_for ::
  "(string \<Rightarrow> string) \<Rightarrow> context_budget \<Rightarrow> snapshot_resolution \<Rightarrow> context_requirement \<Rightarrow> selection \<Rightarrow>
     (context_unknown list \<times> selection) res" where
  "select_for H b resolution r sel =
     (let view = resolve_eligible H resolution (matches_requirement r);
          conflicted = conflicted_groups view;
          disposed = map (\<lambda>kg. snd (fst kg)) conflicted;
          unknowns = supersession_unknowns view @ map (conflict_unknown H r) conflicted;
          st = select_loop b r (eligible_candidates view)
                 \<lparr>ls_sel = sel, ls_keys = [], ls_count = 0, ls_bytes = 0, ls_stop = None\<rparr>
      in if satisfied r (ls_count st) (ls_keys st) disposed (ls_stop st \<noteq> None)
         then Inr (unknowns, ls_sel st)
         else bindR (dispose_unsatisfied H r (ls_stop st) (ls_keys st) disposed)
           (\<lambda>us. Inr (unknowns @ us, ls_sel st)))"

fun select_all ::
  "(string \<Rightarrow> string) \<Rightarrow> context_budget \<Rightarrow> snapshot_resolution \<Rightarrow> context_requirement list \<Rightarrow>
     selection \<Rightarrow> (context_unknown list \<times> selection) res" where
  "select_all H b resolution [] sel = Inr ([], sel)"
| "select_all H b resolution (r # rs) sel =
     bindR (select_for H b resolution r sel) (\<lambda>(us, sel').
     bindR (select_all H b resolution rs sel') (\<lambda>(us', sel''). Inr (us @ us', sel'')))"

text \<open>The admitted items, with the requirements that admitted them as lineage.\<close>

definition with_lineage :: "selection \<Rightarrow> context_item list" where
  "with_lineage s = sort_key item_sort_key
     (map (\<lambda>(i, it). it\<lparr>selected_because := sorted_unique (al_get (sel_reasons s) i [])\<rparr>)
       (sort_key fst (sel_items s)))"

section \<open>The selection loop\<close>

text \<open>An invariant of the loop state is preserved by admitting one unblocked candidate.\<close>

lemma select_loop_inv:
  assumes "P st"
    and "\<And>it st. it \<in> set es \<Longrightarrow> P st \<Longrightarrow> budget_stop_for b r it st = None \<Longrightarrow> P (admit_step r it st)"
    and "\<And>st s. P st \<Longrightarrow> P (st\<lparr>ls_stop := s\<rparr>)"
  shows "P (select_loop b r es st)"
  using assms(1,2)
proof (induction b r es st rule: select_loop.induct)
  case (2 b r it rest st)
  show ?case
  proof (cases "budget_stop_for b r it st")
    case None
    then have "P (admit_step r it st)" using 2(3,4) by simp
    then show ?thesis using 2 None by simp
  next
    case (Some s)
    then show ?thesis using 2 assms(3) by simp
  qed
qed simp

definition selection_ok :: "context_budget \<Rightarrow> selection \<Rightarrow> bool" where
  "selection_ok b s \<longleftrightarrow> distinct (map fst (sel_items s))
     \<and> (\<forall>(i, it) \<in> set (sel_items s). i = item_id it)
     \<and> sel_bytes s = sum_list (map (canonical_cost \<circ> snd) (sel_items s))
     \<and> int (length (sel_items s)) \<le> max_total_items b
     \<and> int (sel_bytes s) \<le> max_total_bytes b"

lemma admit_known:
  "item_id it \<in> set (map fst (sel_items s)) \<Longrightarrow> sel_items (admit it c rid s) = sel_items s"
  "item_id it \<notin> set (map fst (sel_items s)) \<Longrightarrow> sel_items (admit it c rid s) = sel_items s @ [(item_id it, it)]"
  "item_id it \<in> set (map fst (sel_items s)) \<Longrightarrow> sel_bytes (admit it c rid s) = sel_bytes s"
  "item_id it \<notin> set (map fst (sel_items s)) \<Longrightarrow> sel_bytes (admit it c rid s) = sel_bytes s + c"
  "sel_reasons (admit it c rid s) = setdefault_append (item_id it) rid (sel_reasons s)"
  by (simp_all add: admit_def Let_def)

lemma admit_selection_ok:
  assumes "selection_ok b s" "\<not> would_exceed_global b s it (canonical_cost it)"
  shows "selection_ok b (admit it (canonical_cost it) rid s)"
proof (cases "item_id it \<in> set (map fst (sel_items s))")
  case True
  then show ?thesis using assms(1) by (simp add: selection_ok_def admit_known(1,3) del: set_map)
next
  case False
  then show ?thesis using assms
    by (auto simp: selection_ok_def admit_known(2,4) would_exceed_global_def split: if_splits)
qed

lemma no_stop_not_exceeding:
  "budget_stop_for b r it st = None \<Longrightarrow> \<not> would_exceed_global b (ls_sel st) it (canonical_cost it)"
  by (auto simp: budget_stop_for_def global_stop_def split: option.splits if_splits)

lemma select_loop_selection_ok:
  "selection_ok b (ls_sel st) \<Longrightarrow> selection_ok b (ls_sel (select_loop b r es st))"
  by (rule select_loop_inv [where P = "\<lambda>st. selection_ok b (ls_sel st)"])
     (auto simp: admit_step_def intro: admit_selection_ok dest: no_stop_not_exceeding)

text \<open>
  Lineage: every admitted item came from the candidates and matched every requirement recorded
  as a reason for it; items and reasons have the same keys.
\<close>

definition lineage_ok :: "context_requirement list \<Rightarrow> context_item list \<Rightarrow> selection \<Rightarrow> bool" where
  "lineage_ok rs cands s \<longleftrightarrow> fst ` set (sel_reasons s) = fst ` set (sel_items s)
     \<and> distinct (map fst (sel_reasons s))
     \<and> (\<forall>(i, it) \<in> set (sel_items s). it \<in> set cands \<and> item_id it = i)
     \<and> (\<forall>(i, refs) \<in> set (sel_reasons s). refs \<noteq> [] \<and> (\<forall>rid \<in> set refs.
          \<exists>r \<in> set rs. \<exists>it \<in> set cands. requirement_id r = rid \<and> item_id it = i \<and> matches_requirement r it))"

lemma lineage_okD:
  assumes "lineage_ok rs cands s"
  shows "fst ` set (sel_reasons s) = fst ` set (sel_items s)" "distinct (map fst (sel_reasons s))"
    and "(i, it) \<in> set (sel_items s) \<Longrightarrow> it \<in> set cands \<and> item_id it = i"
    and "(i, refs) \<in> set (sel_reasons s) \<Longrightarrow> refs \<noteq> [] \<and> (\<forall>rid \<in> set refs. \<exists>r \<in> set rs.
      \<exists>it \<in> set cands. requirement_id r = rid \<and> item_id it = i \<and> matches_requirement r it)"
  using assms unfolding lineage_ok_def by blast+

lemma setdefault_append_mem:
  assumes "distinct (map fst d)"
  shows "(i, refs) \<in> set (setdefault_append k v d) \<longleftrightarrow>
    (if i = k then refs = al_get d k [] @ [v] else (i, refs) \<in> set d)"
proof -
  have "(i, refs) \<in> set (setdefault_append k v d) \<longleftrightarrow> map_of (setdefault_append k v d) i = Some refs"
    by (rule map_of_eq_Some_iff [symmetric]) (rule distinct_setdefault_append [OF assms])
  also have "\<dots> \<longleftrightarrow> (if i = k then refs = al_get d k [] @ [v] else map_of d i = Some refs)"
    by (auto simp: map_of_setdefault_append al_get_def split: option.splits)
  finally show ?thesis using assms by simp
qed

lemma al_get_mem: "al_get d k [] \<noteq> [] \<Longrightarrow> (k, al_get d k []) \<in> set d"
  by (auto simp: al_get_def split: option.splits dest: map_of_SomeD)

lemma admit_lineage_ok:
  assumes ok: "lineage_ok rs cands s" and it: "it \<in> set cands" "r \<in> set rs" "matches_requirement r it"
  shows "lineage_ok rs cands (admit it c (requirement_id r) s)"
proof -
  let ?s = "admit it c (requirement_id r) s"
  have d: "distinct (map fst (sel_reasons s))" using ok by (simp add: lineage_ok_def)
  have items: "set (sel_items ?s) = set (sel_items s) \<or> set (sel_items ?s) = insert (item_id it, it) (set (sel_items s))"
    by (cases "item_id it \<in> set (map fst (sel_items s))") (simp_all add: admit_known del: set_map)
  have keys: "fst ` set (sel_items ?s) = insert (item_id it) (fst ` set (sel_items s))"
    by (cases "item_id it \<in> set (map fst (sel_items s))") (auto simp: admit_known)
  have old: "\<forall>rid \<in> set (al_get (sel_reasons s) (item_id it) []).
      \<exists>r \<in> set rs. \<exists>x \<in> set cands. requirement_id r = rid \<and> item_id x = item_id it \<and> matches_requirement r x"
    using al_get_mem [of "sel_reasons s" "item_id it"] ok
    by (cases "al_get (sel_reasons s) (item_id it) [] = []") (auto simp: lineage_ok_def)
  have new: "refs \<noteq> [] \<and> (\<forall>rid \<in> set refs. \<exists>r \<in> set rs. \<exists>x \<in> set cands.
      requirement_id r = rid \<and> item_id x = i \<and> matches_requirement r x)"
    if "(i, refs) \<in> set (sel_reasons ?s)" for i refs
  proof (cases "i = item_id it")
    case True
    then have "refs = al_get (sel_reasons s) (item_id it) [] @ [requirement_id r]"
      using that setdefault_append_mem [OF d] by (simp add: admit_known)
    then show ?thesis using old it True by auto
  next
    case False
    then have "(i, refs) \<in> set (sel_reasons s)"
      using that setdefault_append_mem [OF d] by (simp add: admit_known)
    then show ?thesis using ok by (auto simp: lineage_ok_def)
  qed
  have "distinct (map fst (sel_reasons ?s))"
    using d by (simp add: admit_known distinct_setdefault_append del: distinct_map)
  moreover have "\<forall>(i, x) \<in> set (sel_items ?s). x \<in> set cands \<and> item_id x = i"
    using items ok it(1) by (auto simp: lineage_ok_def)
  moreover have "fst ` set (sel_reasons ?s) = fst ` set (sel_items ?s)"
    using ok keys by (simp add: admit_known keys_setdefault_append lineage_ok_def)
  ultimately show ?thesis using new unfolding lineage_ok_def by blast
qed

lemma eligible_candidates_match:
  assumes "it \<in> set (eligible_candidates (resolve_eligible H cands (matches_requirement r)))"
  shows "matches_requirement r it \<and> it \<in> set cands"
  using assms eligible_view.settled_eligible by (auto simp: eligible_candidates_def)

lemma select_loop_lineage_ok:
  assumes "lineage_ok rs cands (ls_sel st)" "r \<in> set rs"
    "\<And>it. it \<in> set es \<Longrightarrow> it \<in> set cands \<and> matches_requirement r it"
  shows "lineage_ok rs cands (ls_sel (select_loop b r es st))"
  by (rule select_loop_inv [where P = "\<lambda>st. lineage_ok rs cands (ls_sel st)"])
     (use assms in \<open>auto simp: admit_step_def intro: admit_lineage_ok\<close>)

lemma select_for_Inr:
  assumes "select_for H b cands r sel = Inr (us, sel')"
  shows "sel' = ls_sel (select_loop b r (eligible_candidates (resolve_eligible H cands (matches_requirement r)))
      \<lparr>ls_sel = sel, ls_keys = [], ls_count = 0, ls_bytes = 0, ls_stop = None\<rparr>)"
  using assms by (auto simp: select_for_def Let_def bindR_eq_Inr split: if_splits)

lemma select_for_preserves:
  assumes "select_for H b cands r sel = Inr (us, sel')" "r \<in> set rs"
  shows "selection_ok b sel \<Longrightarrow> selection_ok b sel'"
    and "lineage_ok rs cands sel \<Longrightarrow> lineage_ok rs cands sel'"
proof -
  show "selection_ok b sel \<Longrightarrow> selection_ok b sel'"
    unfolding select_for_Inr [OF assms(1)] by (rule select_loop_selection_ok) simp
  assume "lineage_ok rs cands sel"
  then show "lineage_ok rs cands sel'"
    unfolding select_for_Inr [OF assms(1)]
    by (intro select_loop_lineage_ok) (use assms(2) eligible_candidates_match in auto)
qed

lemma select_all_preserves:
  assumes "select_all H b cands rs' sel = Inr (us, sel')" "set rs' \<subseteq> set rs"
  shows "selection_ok b sel \<Longrightarrow> selection_ok b sel'"
    and "lineage_ok rs cands sel \<Longrightarrow> lineage_ok rs cands sel'"
  using assms
proof (induction rs' arbitrary: sel us)
  case (Cons r rs')
  { case 1
    then show ?case using Cons.IH(1) select_for_preserves(1) [of H b cands r sel _ _ rs]
      by (auto simp: bindR_eq_Inr) }
  { case 2
    then show ?case using Cons.IH(2) select_for_preserves(2) [of H b cands r sel _ _ rs]
      by (auto simp: bindR_eq_Inr) }
qed auto

section \<open>Coverage of one requirement\<close>

text \<open>The item is selected, and this requirement is one of the reasons.\<close>

definition admitted :: "string \<Rightarrow> context_item \<Rightarrow> selection \<Rightarrow> bool" where
  "admitted rid it s \<longleftrightarrow> item_id it \<in> set (map fst (sel_items s))
     \<and> rid \<in> set (al_get (sel_reasons s) (item_id it) [])"

definition wanted :: "context_requirement \<Rightarrow> context_item \<Rightarrow> bool" where
  "wanted r it \<longleftrightarrow> coverage_mode r \<noteq> SEMANTIC_KEYS \<or> semantic_key it \<in> set (required_semantic_keys r)"

lemma admitted_admit [simp]: "admitted rid it (admit it c rid s)"
  by (cases "item_id it \<in> set (map fst (sel_items s))")
     (simp_all add: admitted_def admit_known al_get_def map_of_setdefault_append split: option.splits)

lemma admitted_mono: "admitted rid it s \<Longrightarrow> admitted rid it (admit x c rid' s)"
  by (cases "item_id x \<in> set (map fst (sel_items s))")
     (auto simp: admitted_def admit_known al_get_def map_of_setdefault_append split: option.splits)

lemma select_loop_mono:
  "admitted rid it (ls_sel st) \<Longrightarrow> admitted rid it (ls_sel (select_loop b r es st))"
  "x \<in> set (ls_keys st) \<Longrightarrow> x \<in> set (ls_keys (select_loop b r es st))"
  by (rule select_loop_inv [where P = "\<lambda>st. admitted rid it (ls_sel st)"];
      simp add: admit_step_def admitted_mono)
     (rule select_loop_inv [where P = "\<lambda>st. x \<in> set (ls_keys st)"]; simp add: admit_step_def)

lemma select_loop_counts:
  assumes "ls_count st = length (ls_keys st)"
  shows "ls_count (select_loop b r es st) = length (ls_keys (select_loop b r es st))"
  by (rule select_loop_inv [where P = "\<lambda>st. ls_count st = length (ls_keys st)"])
     (use assms in \<open>simp_all add: admit_step_def\<close>)

lemma select_loop_cover:
  assumes "ls_stop (select_loop b r es st) = None"
  shows "coverage_mode r = MINIMUM \<and> min_items r \<le> int (ls_count (select_loop b r es st))
    \<or> (\<forall>it \<in> set es. wanted r it \<longrightarrow> admitted (requirement_id r) it (ls_sel (select_loop b r es st))
         \<and> semantic_key it \<in> set (ls_keys (select_loop b r es st)))"
  using assms
proof (induction b r es st rule: select_loop.induct)
  case (2 b r it rest st)
  consider (stop) "coverage_mode r = MINIMUM" "int (ls_count st) \<ge> min_items r"
    | (skip) "\<not> (coverage_mode r = MINIMUM \<and> int (ls_count st) \<ge> min_items r)" "\<not> wanted r it"
    | (step) "\<not> (coverage_mode r = MINIMUM \<and> int (ls_count st) \<ge> min_items r)" "wanted r it"
    by blast
  then show ?case
  proof cases
    case skip
    then show ?thesis using 2 by (auto simp: wanted_def)
  next
    case step
    let ?st = "admit_step r it st"
    from step 2(3) have n: "budget_stop_for b r it st = None"
      by (auto simp: wanted_def split: option.splits)
    then have e: "select_loop b r (it # rest) st = select_loop b r rest ?st"
      using step by (auto simp: wanted_def)
    have "admitted (requirement_id r) it (ls_sel ?st)" "semantic_key it \<in> set (ls_keys ?st)"
      by (simp_all add: admit_step_def)
    note k = select_loop_mono(1) [OF this(1), of b r rest] select_loop_mono(2) [OF this(2), of b r rest]
    have "coverage_mode r = MINIMUM \<and> min_items r \<le> int (ls_count (select_loop b r rest ?st))
      \<or> (\<forall>it \<in> set rest. wanted r it \<longrightarrow> admitted (requirement_id r) it (ls_sel (select_loop b r rest ?st))
         \<and> semantic_key it \<in> set (ls_keys (select_loop b r rest ?st)))"
      by (rule "2.IH"(2)) (use step n 2(3) e in \<open>auto simp: wanted_def\<close>)
    with k show ?thesis unfolding e by auto
  qed auto
qed simp

text \<open>A recorded budget stop names a wanted candidate that the bound really blocks.\<close>

lemma select_loop_stop:
  assumes "ls_stop st = None" "ls_stop (select_loop b r es st) = Some s"
  shows "stop_item s \<in> set es \<and> wanted r (stop_item s)
    \<and> budget_stop_for b r (stop_item s) (select_loop b r es st) = Some s"
  using assms
proof (induction b r es st rule: select_loop.induct)
  case (2 b r it rest st)
  have [simp]: "budget_stop_for b r it (st\<lparr>ls_stop := x\<rparr>) = budget_stop_for b r it st" for x
  proof -
    have "requirement_stop r it (st\<lparr>ls_stop := x\<rparr>) = requirement_stop r it st"
      by (cases "max_items r") (simp_all add: requirement_stop_def)
    moreover have "requirement_bytes_stop r it (st\<lparr>ls_stop := x\<rparr>) = requirement_bytes_stop r it st"
      by (cases "max_bytes r") (simp_all add: requirement_bytes_stop_def)
    moreover have "global_stop b it (st\<lparr>ls_stop := x\<rparr>) = global_stop b it st"
      by (simp add: global_stop_def)
    ultimately show ?thesis unfolding budget_stop_for_def by (simp only:)
  qed
  have item: "budget_stop_for b r it st = Some s \<Longrightarrow> stop_item s = it"
    by (auto simp: budget_stop_for_def requirement_stop_def requirement_bytes_stop_def global_stop_def
        split: option.splits if_splits)
  show ?case
  proof (cases "budget_stop_for b r it st")
    case None
    then show ?thesis using 2 by (auto simp: admit_step_def wanted_def split: if_splits)
  next
    case (Some t)
    then show ?thesis using 2 item by (auto simp: wanted_def split: if_splits)
  qed
qed simp

lemma eligible_in_view:
  "set (eligible_candidates view) = set (settled_items (sorted_groups view))"
  by (simp add: eligible_candidates_def)

lemma select_for_outcome:
  assumes "select_for H b cands r sel = Inr (us, sel')"
  shows "(let view = resolve_eligible H cands (matches_requirement r);
      disposed = map (\<lambda>kg. snd (fst kg)) (conflicted_groups view);
      st = select_loop b r (eligible_candidates view)
             \<lparr>ls_sel = sel, ls_keys = [], ls_count = 0, ls_bytes = 0, ls_stop = None\<rparr>
    in sel' = ls_sel st \<and> set (supersession_unknowns view) \<subseteq> set us
      \<and> set (map (conflict_unknown H r) (conflicted_groups view)) \<subseteq> set us
      \<and> (satisfied r (ls_count st) (ls_keys st) disposed (ls_stop st \<noteq> None)
         \<or> missing_policy r = OPTIONAL \<and> ls_stop st = None
         \<or> missing_policy r \<noteq> BLOCK \<and> (\<exists>u \<in> set us. unk_requirement_ref u = Some (requirement_id r)
              \<and> reason_code u = (if ls_stop st \<noteq> None then BUDGET_INSUFFICIENT else MISSING_REQUIRED_CONTEXT)
              \<and> details u = JObj (disposition_details r (ls_stop st) (ls_keys st) disposed)
              \<and> materiality u = materiality_for r)))"
  using assms
  by (auto simp: select_for_def dispose_unsatisfied_def Let_def bindR_eq_Inr split: if_splits)

section \<open>Properties\<close>

lemma matches_requirementD:
  assumes "matches_requirement r it"
  shows "item_kind it = req_kind r" "authority_rank it \<le> AUTHORITY_RANK (minimum_authority r)"
    "item_kind it \<in> set GOVERNED_ONLY_KINDS \<Longrightarrow> is_governed (authority_level it)"
    "scope_matches r it"
    "freshness_requirement r = EXACT_REVISION \<Longrightarrow>
       coordinate_constraint r \<in> {immutable_coordinate (source_ref it), fact_revision (body it)}"
  using assms by (auto simp: matches_requirement_def split: if_splits)

lemma empty_selection_ok:
  "0 \<le> max_total_items b \<Longrightarrow> 0 \<le> max_total_bytes b \<Longrightarrow> selection_ok b empty_selection"
  "lineage_ok rs cands empty_selection"
  by (simp_all add: selection_ok_def lineage_ok_def empty_selection_def)

lemma with_lineage_mem:
  assumes "x \<in> set (with_lineage s)"
  obtains i it where "(i, it) \<in> set (sel_items s)"
    "x = it\<lparr>selected_because := sorted_unique (al_get (sel_reasons s) i [])\<rparr>"
  using assms by (auto simp: with_lineage_def)

lemma select_loop_keys:
  assumes "\<forall>k \<in> set (ls_keys st). \<exists>x \<in> set es0. semantic_key x = k \<and> admitted (requirement_id r) x (ls_sel st)"
    and "set es \<subseteq> set es0"
  shows "\<forall>k \<in> set (ls_keys (select_loop b r es st)). \<exists>x \<in> set es0. semantic_key x = k
    \<and> admitted (requirement_id r) x (ls_sel (select_loop b r es st))"
  by (rule select_loop_inv [where P = "\<lambda>st. \<forall>k \<in> set (ls_keys st). \<exists>x \<in> set es0.
        semantic_key x = k \<and> admitted (requirement_id r) x (ls_sel st)"])
     (use assms in \<open>auto simp: admit_step_def\<close>, (meson admitted_mono)+)

lemma select_loop_count_admitted:
  "ls_count (select_loop b r es st) \<le> ls_count st
     + length (filter (\<lambda>it. admitted (requirement_id r) it (ls_sel (select_loop b r es st))) es)"
proof (induction b r es st rule: select_loop.induct)
  case (2 b r it rest st)
  have a: "admitted (requirement_id r) it (ls_sel (select_loop b r rest (admit_step r it st)))"
    by (rule select_loop_mono) (simp add: admit_step_def)
  show ?case
  proof (cases "budget_stop_for b r it st")
    case None
    then show ?thesis using 2 a by (auto simp: admit_step_def)
  next
    case (Some s)
    then show ?thesis using 2 by auto
  qed
qed simp

lemma eligible_key_not_disposed:
  assumes "it \<in> set (eligible_candidates (resolve_eligible H cands (matches_requirement r)))"
  shows "semantic_key it \<notin> set (map (\<lambda>kg. snd (fst kg))
    (conflicted_groups (resolve_eligible H cands (matches_requirement r))))"
proof
  let ?v = "resolve_eligible H cands (matches_requirement r)"
  assume "semantic_key it \<in> set (map (\<lambda>kg. snd (fst kg)) (conflicted_groups ?v))"
  then obtain kv g where g: "((kv, semantic_key it), g) \<in> set (sorted_groups ?v)" "conflict g"
    by (auto simp: conflicted_groups_def)
  have mem: "((kv, semantic_key it), g) \<in> set (res_groups (resolve_candidates H (filter (matches_requirement r) cands)))"
    using g(1) by (simp add: sorted_groups_def resolve_eligible_def)
  obtain members where ms: "members \<noteq> []"
    "members = filter (\<lambda>x. group_key_of x = (kv, semantic_key it))
       (fst (apply_supersession H (filter (matches_requirement r) cands)))"
    using resolve_candidates_group [OF mem] by blast
  from ms(1) obtain x where x: "x \<in> set members" by (meson list.set_sel(1))
  then have "matches_requirement r x" "kv = kind_value (item_kind x)"
    using ms(2) apply_supersession_subset by (fastforce simp: group_key_of_def)+
  then have "kv = kind_value (req_kind r)" by (simp add: matches_requirementD)
  moreover have "item_kind it = req_kind r"
    using eligible_candidates_match [OF assms] by (simp add: matches_requirementD)
  ultimately have "group_key_of it = (kv, semantic_key it)" by (simp add: group_key_of_def)
  with eligible_view.settled_not_contested [OF _ g] assms show False
    by (simp add: eligible_in_view)
qed

text \<open>The selected items with their lineage: as many, as large and as distinct as the selection, each with its reasons.\<close>

lemma with_lineage_bounds:
  assumes ok: "selection_ok b s"
  shows "distinct (map item_id (with_lineage s))" "length (with_lineage s) = length (sel_items s)"
    "sum_list (map canonical_cost (with_lineage s)) = sel_bytes s"
proof -
  have c: "canonical_cost (it\<lparr>selected_because := refs\<rparr>) = canonical_cost it" for it refs
    by (simp add: canonical_cost_def candidate_dict_def)
  have m: "mset (with_lineage s) = image_mset (\<lambda>(i, it).
      it\<lparr>selected_because := sorted_unique (al_get (sel_reasons s) i [])\<rparr>) (mset (sel_items s))"
    by (simp add: with_lineage_def)
  have "mset (map item_id (with_lineage s)) = image_mset item_id (mset (with_lineage s))" by simp
  also have "\<dots> = image_mset fst (mset (sel_items s))"
    unfolding m multiset.map_comp
    by (rule image_mset_cong) (use ok in \<open>auto simp: selection_ok_def\<close>)
  finally have "mset (map item_id (with_lineage s)) = mset (map fst (sel_items s))" by simp
  hence "distinct (map item_id (with_lineage s)) \<longleftrightarrow> distinct (map fst (sel_items s))" by (rule mset_eq_imp_distinct_iff)
  thus "distinct (map item_id (with_lineage s))" using ok by (simp add: selection_ok_def)
  show "length (with_lineage s) = length (sel_items s)" by (simp add: with_lineage_def)
  have "sum_list (map canonical_cost (with_lineage s)) = sum_mset (image_mset canonical_cost (mset (with_lineage s)))"
    by (simp flip: sum_mset_sum_list)
  also have "\<dots> = sum_mset (image_mset (canonical_cost \<circ> snd) (mset (sel_items s)))"
    unfolding m by (simp add: multiset.map_comp comp_def case_prod_beta c)
  also have "\<dots> = sel_bytes s" using ok by (simp add: selection_ok_def flip: sum_mset_sum_list)
  finally show "sum_list (map canonical_cost (with_lineage s)) = sel_bytes s" .
qed

lemma with_lineage_reasons:
  assumes ok: "lineage_ok rs cands s" and x: "x \<in> set (with_lineage s)"
  shows "selected_because x \<noteq> []
    \<and> list_all (\<lambda>rid. list_ex (\<lambda>r. requirement_id r = rid \<and> list_ex (\<lambda>it. it \<in> set cands
          \<and> item_id it = item_id x \<and> matches_requirement r it) cands) rs) (selected_because x)
    \<and> (\<exists>it \<in> set cands. x = it\<lparr>selected_because := selected_because x\<rparr>)"
  using x
proof (rule with_lineage_mem)
  fix j it
  assume j: "(j, it) \<in> set (sel_items s)"
    and e: "x = it\<lparr>selected_because := sorted_unique (al_get (sel_reasons s) j [])\<rparr>"
  note it = lineage_okD(3) [OF ok j]
  have "j \<in> fst ` set (sel_reasons s)"
    unfolding lineage_okD(1) [OF ok] using j by force
  then obtain refs where r: "(j, refs) \<in> set (sel_reasons s)" by force
  have g: "al_get (sel_reasons s) j [] = refs"
    using lineage_okD(2) [OF ok] r by (simp add: al_get_def)
  have q: "refs \<noteq> []" "\<And>rid. rid \<in> set refs \<Longrightarrow> \<exists>r \<in> set rs. \<exists>it \<in> set cands.
      requirement_id r = rid \<and> item_id it = j \<and> matches_requirement r it"
    using lineage_okD(4) [OF ok r] by auto
  have sb: "selected_because x = sorted_unique refs" and ix: "item_id x = j"
    using it by (simp_all add: e g)
  show ?thesis
    unfolding list_all_iff list_ex_iff sb ix
  proof (intro conjI ballI)
    show "sorted_unique refs \<noteq> []" using q(1) by simp
    show "\<exists>r \<in> set rs. requirement_id r = rid \<and> (\<exists>it \<in> set cands. it \<in> set cands
        \<and> item_id it = j \<and> matches_requirement r it)" if "rid \<in> set (sorted_unique refs)" for rid
      using q(2) [of rid] that by auto
    show "\<exists>it \<in> set cands. x = it\<lparr>selected_because := sorted_unique refs\<rparr>"
      using it by (intro bexI [of _ it]) (simp_all add: e g)
  qed
qed


definition sample_budget :: context_budget where
  "sample_budget = \<lparr>max_total_items = 1, max_total_bytes = 100000\<rparr>"

definition sample_laws :: "context_item list" where
  "sample_laws = [sample_twin ''i1'' ''L1'' GOVERNED_VERIFIED [], sample_twin ''i2'' ''L2'' INFORMATIVE []]"

definition sample_law_requirement :: context_requirement where
  "sample_law_requirement = (sample_requirement APPLICABLE_LAW PRESERVE_UNKNOWN)\<lparr>requirement_id := ''r1''\<rparr>"


lemma satisfied_covers:
  assumes "satisfied r n keys disposed stopped" and "semantic_key it \<notin> set disposed" and "wanted r it" and "stopped"
  shows "coverage_mode r = MINIMUM \<and> min_items r \<le> int n
    \<or> coverage_mode r = SEMANTIC_KEYS \<and> semantic_key it \<in> set keys"
  using assms by (cases "coverage_mode r")
    (auto simp: satisfied_def missing_keys_def wanted_def filter_empty_conv split: if_splits)

text \<open>C2: Budgets never silently truncate: after one requirement is selected for, every
  candidate it was eligible for and wanted is selected with this requirement as a reason, or a
  budget unknown bound to the requirement is recorded, or its coverage mode is already met (enough
  items, or its key already carried); every contradiction it saw is an unknown bound to it; and
  too few items is recorded unless the requirement is optional.\<close>

theorem coverage_never_silent:
  assumes "select_for H b cands r sel = Inr (us, sel')"
  shows "(let view = resolve_eligible H cands (matches_requirement r); es = eligible_candidates view;
      got = filter (\<lambda>it. admitted (requirement_id r) it sel') es;
      noted = (\<lambda>code. list_ex (\<lambda>u. unk_requirement_ref u = Some (requirement_id r) \<and> reason_code u = code) us)
    in list_all (\<lambda>it. \<not> wanted r it \<or> it \<in> set got \<or> noted BUDGET_INSUFFICIENT
          \<or> coverage_mode r = MINIMUM \<and> min_items r \<le> int (length got)
          \<or> coverage_mode r = SEMANTIC_KEYS \<and> semantic_key it \<in> set (map semantic_key got)) es
      \<and> list_all (\<lambda>kg. list_ex (\<lambda>u. unk_requirement_ref u = Some (requirement_id r)
          \<and> unk_key u = Some (snd (fst kg)) \<and> reason_code u = CONFLICTING_GOVERNED_CLAIMS) us)
          (conflicted_groups view)
      \<and> (min_items r \<le> int (length got) \<or> missing_policy r = OPTIONAL
          \<or> noted BUDGET_INSUFFICIENT \<or> noted MISSING_REQUIRED_CONTEXT))"
proof -
  define view where "view = resolve_eligible H cands (matches_requirement r)"
  define es where "es = eligible_candidates view"
  define st where "st = select_loop b r es \<lparr>ls_sel = sel, ls_keys = [], ls_count = 0, ls_bytes = 0, ls_stop = None\<rparr>"
  define disposed where "disposed = map (\<lambda>kg. snd (fst kg)) (conflicted_groups view)"
  define got where "got = filter (\<lambda>it. admitted (requirement_id r) it sel') es"
  define noted where "noted = (\<lambda>code. list_ex (\<lambda>u. unk_requirement_ref u = Some (requirement_id r) \<and> reason_code u = code) us)"
  note o = select_for_outcome [OF assms, unfolded Let_def, folded view_def, folded es_def,
      folded st_def, folded disposed_def]
  have s: "sel' = ls_sel st" using o by blast
  have keys: "k \<in> set (map semantic_key got)" if "k \<in> set (ls_keys st)" for k
    using select_loop_keys [of "\<lparr>ls_sel = sel, ls_keys = [], ls_count = 0, ls_bytes = 0, ls_stop = None\<rparr>" es r es b]
      that unfolding st_def [symmetric] got_def s by auto
  have cnt: "ls_count st \<le> length got"
    using select_loop_count_admitted [of b r es "\<lparr>ls_sel = sel, ls_keys = [], ls_count = 0, ls_bytes = 0, ls_stop = None\<rparr>"]
    unfolding st_def [symmetric] got_def s by simp
  have out: "satisfied r (ls_count st) (ls_keys st) disposed (ls_stop st \<noteq> None)
      \<or> missing_policy r = OPTIONAL \<and> ls_stop st = None
      \<or> noted (if ls_stop st \<noteq> None then BUDGET_INSUFFICIENT else MISSING_REQUIRED_CONTEXT)"
    using o unfolding noted_def list_ex_iff by blast
  have cover: "coverage_mode r = MINIMUM \<and> min_items r \<le> int (length got)
      \<or> (\<forall>it \<in> set es. wanted r it \<longrightarrow> it \<in> set got)" if "ls_stop st = None"
    using select_loop_cover [of b r es "\<lparr>ls_sel = sel, ls_keys = [], ls_count = 0, ls_bytes = 0, ls_stop = None\<rparr>"]
      that cnt unfolding st_def [symmetric] got_def s by auto
  have A: "\<not> wanted r it \<or> it \<in> set got \<or> noted BUDGET_INSUFFICIENT
      \<or> coverage_mode r = MINIMUM \<and> min_items r \<le> int (length got)
      \<or> coverage_mode r = SEMANTIC_KEYS \<and> semantic_key it \<in> set (map semantic_key got)"
    if it: "it \<in> set es" for it
  proof (cases "ls_stop st")
    case None
    with cover it show ?thesis by blast
  next
    case (Some stop)
    with out consider "satisfied r (ls_count st) (ls_keys st) disposed True" | "noted BUDGET_INSUFFICIENT"
      by auto
    then show ?thesis
    proof cases
      case 1
      have "semantic_key it \<notin> set disposed"
        using it unfolding es_def view_def disposed_def by (rule eligible_key_not_disposed)
      from satisfied_covers [OF 1 this] keys cnt show ?thesis by fastforce
    qed simp
  qed
  have B: "\<exists>u \<in> set us. unk_requirement_ref u = Some (requirement_id r) \<and> unk_key u = Some (snd (fst kg))
      \<and> reason_code u = CONFLICTING_GOVERNED_CLAIMS" if "kg \<in> set (conflicted_groups view)" for kg
    using o that by (intro bexI [of _ "conflict_unknown H r kg"]) (auto simp: conflict_unknown_def)
  have C: "min_items r \<le> int (length got) \<or> missing_policy r = OPTIONAL
      \<or> noted BUDGET_INSUFFICIENT \<or> noted MISSING_REQUIRED_CONTEXT"
    using out cnt by (auto simp: satisfied_def split: if_splits)
  show ?thesis
    unfolding Let_def view_def [symmetric] es_def [symmetric] got_def [symmetric] noted_def [symmetric]
    using A B C unfolding list_all_iff list_ex_iff by blast
qed

theorem coverage_never_silent_witness:
  "\<exists>us sel'. select_for (\<lambda>_. ''0'') sample_budget sample_laws sample_law_requirement empty_selection = Inr (us, sel')
     \<and> map fst (sel_items sel') = [''i1'']
     \<and> list_ex (\<lambda>u. unk_requirement_ref u = Some ''r1'' \<and> reason_code u = BUDGET_INSUFFICIENT) us"
proof -
  let ?r = "sample_law_requirement"
  let ?v = "resolve_eligible (\<lambda>_. ''0'') sample_laws (matches_requirement ?r)"
  have "map_sum id (\<lambda>(us, s). map fst (sel_items s))
      (select_for (\<lambda>_. ''0'') sample_budget sample_laws ?r empty_selection) = Inr [''i1'']"
    by code_simp
  then obtain us sel' where us: "select_for (\<lambda>_. ''0'') sample_budget sample_laws ?r empty_selection = Inr (us, sel')"
    "map fst (sel_items sel') = [''i1'']"
    by (cases "select_for (\<lambda>_. ''0'') sample_budget sample_laws ?r empty_selection") auto
  have k: "map item_id (eligible_candidates ?v) = [''i1'', ''i2'']" by code_simp
  have "''i2'' \<in> set (map item_id (eligible_candidates ?v))" unfolding k by simp
  then obtain it where it: "it \<in> set (eligible_candidates ?v)" "item_id it = ''i2''" by auto
  have "\<not> admitted (requirement_id ?r) it sel'" using it(2) us(2) by (simp add: admitted_def del: set_map)
  then have "list_ex (\<lambda>u. unk_requirement_ref u = Some (requirement_id ?r) \<and> reason_code u = BUDGET_INSUFFICIENT) us"
    using coverage_never_silent [OF us(1)] it(1)
    by (auto simp: Let_def list_all_iff wanted_def sample_law_requirement_def sample_requirement_def)
  then show ?thesis using us by (auto simp: sample_law_requirement_def)
qed

end
