(* ===== verification/ContextCompile.thy ===== *)
theory ContextCompile
  imports Selection
begin

text \<open>
  The rest of \<open>ContextCompiler.compile\<close> in \<open>compiler/task_context.py\<close>: the compiler-derived
  capability and authority requirements with their disposition ladders, the effective authority
  order, and the assembly of the canonical \<open>CompiledTaskContext\<close>.
\<close>

section \<open>Capabilities\<close>

definition requirement_sources ::
  "intent_contract \<Rightarrow> activation_plan \<Rightarrow> kernel_binding list \<Rightarrow> string list" where
  "requirement_sources i p kernels =
     [''intent:'' @ intent_id i, ''route:'' @ matched_route p]
     @ map (\<lambda>b. ''kernel:'' @ kb_source_ref b) kernels"

text \<open>Construction with a fixed non-blank reason: it cannot fail.\<close>

definition new_capreq ::
  "(string \<Rightarrow> string) \<Rightarrow> string list \<Rightarrow> string \<Rightarrow> string \<Rightarrow> capability_requirement" where
  "new_capreq H sources cid why =
     (let c = \<lparr>cr_id = [], cr_capability_id = cid, cr_reason = why,
               cr_source_refs = sorted_unique sources\<rparr>
      in c\<lparr>cr_id := expected_capreq_id H c\<rparr>)"

definition capability_needs :: "intent_contract \<Rightarrow> activation_plan \<Rightarrow> (string \<times> string) list" where
  "capability_needs i p =
     (let mode = realization_mode (objective i) in
      (if mode = MUTATION then
         [(''workspace_mutation'', ''realization mode MUTATION mutates the workspace'')]
       else if mode = ARTIFACT then
         [(''artifact_emission'', ''realization mode ARTIFACT returns files'')] else [])
      @ (if validation_required (objective i) then
           [(''validation_execution'', ''objective requires validation evidence'')] else [])
      @ (if terminal_allowed p then
           [(''terminal_convergence'', ''activation plan reaches the terminal convergence gate'')] else [])
      @ (if mt_required (architecture_materiality p) then
           [(''architecture_review'', ''architecture materiality activates the Global Architect'')] else []))"

datatype capability_disposition_state = Unavailable | Available | CapUnknown | CapAbsent

fun cap_state_text :: "capability_disposition_state \<Rightarrow> string" where
  "cap_state_text Unavailable = ''unavailable''"
| "cap_state_text Available = ''available''"
| "cap_state_text CapUnknown = ''unknown''"
| "cap_state_text CapAbsent = ''absent''"

definition capability_disposition ::
  "string \<Rightarrow> string list \<Rightarrow> string list \<Rightarrow> string list \<Rightarrow> capability_disposition_state" where
  "capability_disposition cid available unavailable unknown_ids =
     (if cid \<in> set unavailable then Unavailable
      else if cid \<in> set available then Available
      else if cid \<in> set unknown_ids then CapUnknown
      else CapAbsent)"

fun cap_fact_state :: "item_body \<Rightarrow> capability_state option" where
  "cap_fact_state (CapabilityFact _ st _) = Some st"
| "cap_fact_state _ = None"

fun cap_fact_id :: "item_body \<Rightarrow> string" where
  "cap_fact_id (CapabilityFact cid _ _) = cid"
| "cap_fact_id _ = []"

definition cap_facts :: "capability_state \<Rightarrow> context_item list \<Rightarrow> context_item list" where
  "cap_facts st selected = filter (\<lambda>it. cap_fact_state (body it) = Some st) selected"

definition cap_ids :: "context_item list \<Rightarrow> string list" where
  "cap_ids facts = map (\<lambda>it. cap_fact_id (body it)) facts"

definition capability_state_of :: "context_item list \<Rightarrow> string \<Rightarrow> capability_disposition_state" where
  "capability_state_of selected cid =
     capability_disposition cid (cap_ids (cap_facts AVAILABLE selected))
       (cap_ids (cap_facts UNAVAILABLE selected)) (cap_ids (cap_facts CAP_UNKNOWN selected))"

definition capability_unknown ::
  "(string \<Rightarrow> string) \<Rightarrow> context_item list \<Rightarrow> capability_requirement \<Rightarrow> context_unknown list" where
  "capability_unknown H selected req =
     (let state = capability_state_of selected (cr_capability_id req) in
      if state = Available then []
      else [new_unknown H None (Some (cr_capability_id req)) UNSUPPORTED_CAPABILITY
              (JObj [(''capability_id'', JStr (cr_capability_id req)),
                     (''state'', JStr (cap_state_text state))])
              (if state = Unavailable then BLOCKING else NON_BLOCKING) []])"

definition compile_capabilities ::
  "(string \<Rightarrow> string) \<Rightarrow> intent_contract \<Rightarrow> activation_plan \<Rightarrow> kernel_binding list \<Rightarrow>
     context_item list \<Rightarrow> capability_context \<times> context_unknown list" where
  "compile_capabilities H i p kernels selected =
     (let sources = requirement_sources i p kernels;
          needed = sort_key (\<lambda>c. (cr_capability_id c, cr_id c))
            (map (\<lambda>(cid, why). new_capreq H sources cid why) (capability_needs i p))
      in (\<lparr>cap_required = needed, cap_available = cap_facts AVAILABLE selected,
           cap_unavailable = cap_facts UNAVAILABLE selected,
           cap_unknown = cap_facts CAP_UNKNOWN selected\<rparr>,
          concat (map (capability_unknown H selected) needed)))"

section \<open>Authority\<close>

definition new_authreq ::
  "(string \<Rightarrow> string) \<Rightarrow> string list \<Rightarrow> string \<Rightarrow> string \<Rightarrow> string list \<Rightarrow> string option \<Rightarrow>
     authority_requirement" where
  "new_authreq H sources aid why acts subj =
     (let a = \<lparr>ar_id = [], ar_authority_id = aid, ar_subject_ref = subj,
               ar_action_scope = sorted_unique acts, ar_reason = why,
               ar_source_refs = sorted_unique sources\<rparr>
      in a\<lparr>ar_id := expected_authreq_id H a\<rparr>)"

text \<open>The targets a governed repository fact names, as its subject or in its scope.\<close>

fun named_targets :: "string list \<Rightarrow> context_item \<Rightarrow> (string \<times> string list) option" where
  "named_targets tgts it = (case body it of
     RepositoryState rid _ subj _ _ \<Rightarrow>
       (if is_governed (authority_level it)
        then Some (rid, filter (\<lambda>t. t = subj \<or> t \<in> set (scope_refs it)) tgts) else None)
   | _ \<Rightarrow> None)"

text \<open>\<open>by_repository.setdefault(id, set()).update(named)\<close>, a set as its insertions.\<close>

definition note_repository ::
  "string list \<Rightarrow> context_item \<Rightarrow> (string \<times> string list) list \<Rightarrow> (string \<times> string list) list" where
  "note_repository tgts it d = (case named_targets tgts it of
     Some (rid, named) \<Rightarrow> (if named = [] then d else dict_put rid (al_get d rid [] @ named) d)
   | None \<Rightarrow> d)"

definition repository_subjects ::
  "task_scope \<Rightarrow> context_item list \<Rightarrow> (string option \<times> string list) list" where
  "repository_subjects scope selected =
     (let tgts = target_refs scope;
          by_repository = fold (note_repository tgts) selected [];
          subjects = map (\<lambda>(rid, named). (Some rid, sorted_unique named)) (sort_key fst by_repository);
          unnamed = filter (\<lambda>t. t \<notin> set (concat (map snd by_repository))) tgts
      in if unnamed \<noteq> [] \<or> subjects = [] then subjects @ [(None, sorted_unique unnamed)] else subjects)"

datatype authority_disposition_state =
  AuthGranted | LimitedWithoutGrant | InsufficientScope | AuthUnknown | AuthAbsent

fun auth_state_text :: "authority_disposition_state \<Rightarrow> string" where
  "auth_state_text AuthGranted = ''granted''"
| "auth_state_text LimitedWithoutGrant = ''limited_without_grant''"
| "auth_state_text InsufficientScope = ''insufficient_scope''"
| "auth_state_text AuthUnknown = ''unknown''"
| "auth_state_text AuthAbsent = ''absent''"

fun proven_negative :: "authority_disposition_state \<Rightarrow> bool" where
  "proven_negative LimitedWithoutGrant = True"
| "proven_negative InsufficientScope = True"
| "proven_negative _ = False"

fun auth_fact_state :: "item_body \<Rightarrow> authority_state option" where
  "auth_fact_state (AuthorityFact _ st _ _ _) = Some st"
| "auth_fact_state _ = None"

fun auth_fact_id :: "item_body \<Rightarrow> string" where
  "auth_fact_id (AuthorityFact aid _ _ _ _) = aid"
| "auth_fact_id _ = []"

fun auth_precedence :: "item_body \<Rightarrow> int option" where
  "auth_precedence (AuthorityFact _ _ _ _ prec) = prec"
| "auth_precedence _ = None"

definition auth_facts :: "authority_state \<Rightarrow> context_item list \<Rightarrow> context_item list" where
  "auth_facts st selected = filter (\<lambda>it. auth_fact_state (body it) = Some st) selected"

definition authority_disposition ::
  "authority_requirement \<Rightarrow> context_item list \<Rightarrow> context_item list \<Rightarrow> context_item list \<Rightarrow>
     authority_disposition_state" where
  "authority_disposition req granted limits unknown_facts =
     (if list_ex (\<lambda>f. grant_covers_requirement (body f) req) granted then AuthGranted
      else if list_ex (\<lambda>f. limit_bears_on_requirement (body f) req) limits then LimitedWithoutGrant
      else if list_ex (\<lambda>f. auth_fact_id (body f) = ar_authority_id req) granted then InsufficientScope
      else if list_ex (\<lambda>f. auth_fact_id (body f) = ar_authority_id req) unknown_facts then AuthUnknown
      else AuthAbsent)"

definition authority_state_of ::
  "context_item list \<Rightarrow> authority_requirement \<Rightarrow> authority_disposition_state" where
  "authority_state_of selected req =
     authority_disposition req (auth_facts GRANTED selected) (auth_facts LIMIT selected)
       (auth_facts AUTH_UNKNOWN selected)"

definition authority_unknown ::
  "(string \<Rightarrow> string) \<Rightarrow> context_item list \<Rightarrow> authority_requirement \<Rightarrow> context_unknown list" where
  "authority_unknown H selected req =
     (let state = authority_state_of selected req in
      if state = AuthGranted then []
      else [new_unknown H None (Some (ar_semantic_key req)) MISSING_AUTHORITY
              (JObj [(''authority_id'', JStr (ar_authority_id req)),
                     (''subject_ref'', jopt (ar_subject_ref req)),
                     (''action_scope'', jstrs (ar_action_scope req)),
                     (''state'', JStr (auth_state_text state))])
              (if proven_negative state then BLOCKING else NON_BLOCKING) []])"

definition authority_needs ::
  "(string \<Rightarrow> string) \<Rightarrow> string list \<Rightarrow> intent_contract \<Rightarrow> task_scope \<Rightarrow> activation_plan \<Rightarrow>
     context_item list \<Rightarrow> authority_requirement list" where
  "authority_needs H sources i scope p selected =
     (if realization_mode (objective i) = MUTATION then
        map (\<lambda>(subj, tgts). new_authreq H sources ''repository_write''
              ''realization mode MUTATION writes to the workspace'' tgts subj)
          (repository_subjects scope selected)
      else [])
     @ (if delivery_required (objective i) then
          [new_authreq H sources ''delivery''
             (''objective requires delivery in mode '' @ delivery_mode_value (delivery_mode (objective i)))
             [] None]
        else [])
     @ (if mt_required (architecture_materiality p) then
          [new_authreq H sources ''architecture_decision''
             ''architecture materiality requires a governed decision'' [] None]
        else [])"

text \<open>Governed precedence wins when proven; otherwise the labelled default.\<close>

definition effective_authority_order ::
  "context_item list \<Rightarrow> context_item list \<Rightarrow> context_item list \<Rightarrow> string list \<Rightarrow>
     string list \<times> authority_order_source" where
  "effective_authority_order selected granted limits default_order =
     (let facts = filter (\<lambda>f. auth_precedence (body f) \<noteq> None \<and> is_governed (authority_level f))
                    (granted @ limits);
          laws = filter (\<lambda>it. law_precedence (body it) \<noteq> None \<and> is_governed (authority_level it)) selected
      in if facts \<noteq> [] then
           (dedup_first (map (\<lambda>f. auth_fact_id (body f))
              (sort_key (\<lambda>f. (the (auth_precedence (body f)), auth_fact_id (body f))) facts)),
            GOVERNED_CONTEXT)
         else if laws \<noteq> [] then
           (dedup_first (map (\<lambda>it. domain_id (body it))
              (sort_key (\<lambda>it. (the (law_precedence (body it)), domain_id (body it))) laws)),
            GOVERNED_CONTEXT)
         else (default_order, COMPILER_DEFAULT))"

definition compile_authority ::
  "(string \<Rightarrow> string) \<Rightarrow> intent_contract \<Rightarrow> task_scope \<Rightarrow> activation_plan \<Rightarrow> kernel_binding list \<Rightarrow>
     context_item list \<Rightarrow> string list \<Rightarrow> authority_context \<times> context_unknown list" where
  "compile_authority H i scope p kernels selected default_order =
     (let sources = requirement_sources i p kernels;
          needed = sort_key (\<lambda>a. (ar_authority_id a, ar_id a)) (authority_needs H sources i scope p selected);
          granted = auth_facts GRANTED selected;
          limits = auth_facts LIMIT selected;
          order = effective_authority_order selected granted limits default_order
      in (\<lparr>auth_required = needed, auth_granted = granted, auth_limits = limits,
           auth_unknown = auth_facts AUTH_UNKNOWN selected,
           effective_order = fst order, effective_order_source = snd order\<rparr>,
          concat (map (authority_unknown H selected) needed)))"

section \<open>The compiled context\<close>

definition CONTEXT_COMPILER_SEMANTICS_VERSION :: string where
  "CONTEXT_COMPILER_SEMANTICS_VERSION = ''1.3.0''"

definition unknown_status_decisions ::
  "(string \<Rightarrow> string) \<Rightarrow> context_item list \<Rightarrow> context_unknown list" where
  "unknown_status_decisions H selected =
     concat (map (\<lambda>it. case body it of
        PriorDecision did st _ _ _ \<Rightarrow>
          (if st = STATUS_UNKNOWN then
             [new_unknown H None (Some (semantic_key it)) UNKNOWN_SUPERSESSION
                (JObj [(''decision_id'', JStr did), (''reason'', JStr ''decision status unknown'')])
                (truth_tier_materiality [it]) [source_ref it]]
           else [])
      | _ \<Rightarrow> []) selected)"

definition of_type :: "context_kind \<Rightarrow> context_item list \<Rightarrow> context_item list" where
  "of_type k items = filter (\<lambda>it. item_kind it = k) items"

definition compile_context ::
  "(string \<Rightarrow> string) \<Rightarrow> intent_contract \<Rightarrow> task_scope \<Rightarrow> snapshot_resolution \<Rightarrow> discovery_context \<Rightarrow>
     context_requirement_plan \<Rightarrow> activation_plan \<Rightarrow> kernel_binding list \<Rightarrow> string \<Rightarrow> string list \<Rightarrow>
     compiled_task_context res" where
  "compile_context H i scope resolution disc rplan p kernels package default_order =
     bindR (select_all H (global_budget rplan) resolution (plan_requirements rplan) empty_selection)
       (\<lambda>(us, sel).
     (let selected = with_lineage sel;
          caps = compile_capabilities H i p kernels selected;
          auths = compile_authority H i scope p kernels selected default_order;
          unknowns = sc_unknowns scope @ disc_unknowns disc @ us
            @ unknown_status_decisions H selected @ snd caps @ snd auths
      in bindR (make_compiler_identity package CONTEXT_COMPILER_SEMANTICS_VERSION) (\<lambda>ident.
      Inr \<lparr>ctx_scope = scope,
        ctx_entities = of_type RELEVANT_ENTITY selected,
        ctx_repository_state = of_type REPOSITORY_STATE selected,
        ctx_constraints = of_type ARCHITECTURE_CONSTRAINT selected,
        ctx_law = of_type APPLICABLE_LAW selected,
        ctx_decisions = of_type PRIOR_DECISION selected,
        ctx_dependencies = of_type DEPENDENCY_CONTEXT selected,
        ctx_evidence = of_type EVIDENCE_REF selected,
        ctx_memory = of_type MEMORY_CONTEXT selected,
        ctx_kernels = map binding_json kernels,
        ctx_capabilities = fst caps,
        ctx_authority = fst auths,
        ctx_unknowns = dedupe_unknowns unknowns,
        ctx_provenance = \<lparr>prov_scope_digest = scope_sha256 H scope,
          discovery_digest = sha256_digest H (discovery_json disc),
          context_requirements_digest = sha256_digest H (plan_json rplan),
          prov_discovery_digests = disc_item_digests disc,
          prov_item_digests = fold (\<lambda>it. dict_put (item_id it) (candidate_digest H it)) selected [],
          prov_kernel_digests = fold (\<lambda>b. dict_put (kb_source_ref b) (kb_source_digest b)) kernels [],
          prov_compiler = ident\<rparr>\<rparr>)))"

section \<open>Repository targets, gaps and the assembled sections\<close>


lemma al_get_dict_put [simp]: "al_get (dict_put k v d) k' z = (if k' = k then v else al_get d k' z)"
  by (induction k v d rule: dict_put.induct) (auto simp: al_get_def)

text \<open>A governed repository fact \<open>rid\<close> names the target.\<close>

definition names_target :: "context_item list \<Rightarrow> string \<Rightarrow> string \<Rightarrow> bool" where
  "names_target selected rid t \<longleftrightarrow> list_ex (\<lambda>it. is_governed (authority_level it)
     \<and> (case body it of RepositoryState i _ subj _ _ \<Rightarrow> i = rid \<and> (t = subj \<or> t \<in> set (scope_refs it))
        | _ \<Rightarrow> False)) selected"

lemma note_repository_set:
  "set (al_get (note_repository tgts it d) rid []) =
     set (al_get d rid []) \<union> {t \<in> set tgts. names_target [it] rid t}"
  by (auto simp: note_repository_def names_target_def filter_empty_conv split: item_body.splits)

lemma note_repositories_set:
  "set (al_get (fold (note_repository tgts) its d) rid []) =
     set (al_get d rid []) \<union> {t \<in> set tgts. names_target its rid t}"
proof (induction its arbitrary: d)
  case (Cons it its)
  have "names_target (it # its) rid t \<longleftrightarrow> names_target [it] rid t \<or> names_target its rid t" for t
    by (simp add: names_target_def)
  then show ?case using Cons by (auto simp: note_repository_set)
qed (simp add: names_target_def)

lemma note_repositories_ok:
  assumes "distinct (map fst d)" "\<forall>(k, v) \<in> set d. v \<noteq> []"
  shows "distinct (map fst (fold (note_repository tgts) its d))
    \<and> (\<forall>(k, v) \<in> set (fold (note_repository tgts) its d). v \<noteq> [])"
  using assms
proof (induction its arbitrary: d)
  case (Cons it its)
  have p: "(k, v) \<in> set (dict_put a b d) \<Longrightarrow> (k, v) \<in> set d \<or> (k, v) = (a, b)" for a b k v
    by (induction a b d rule: dict_put.induct) (auto split: if_splits)
  have "distinct (map fst (note_repository tgts it d))
      \<and> (\<forall>(k, v) \<in> set (note_repository tgts it d). v \<noteq> [])"
    using Cons.prems
    by (cases "named_targets tgts it") (auto simp: note_repository_def distinct_dict_put dest!: p)
  then show ?case using Cons.IH [of "note_repository tgts it d"] by simp
qed simp

lemma repositories_mem:
  assumes "(rid, named) \<in> set (fold (note_repository tgts) its [])"
  shows "set named = {t \<in> set tgts. names_target its rid t}"
proof -
  have "distinct (map fst (fold (note_repository tgts) its []))"
    using note_repositories_ok [of "[]"] by simp
  then have "al_get (fold (note_repository tgts) its []) rid [] = named"
    using assms by (simp add: al_get_def)
  then show ?thesis using note_repositories_set [of tgts its "[]" rid] by (simp add: al_get_def)
qed

lemma named_in_repositories:
  assumes "t \<in> set tgts" "names_target its rid t"
  shows "\<exists>named. (rid, named) \<in> set (fold (note_repository tgts) its []) \<and> t \<in> set named"
proof -
  have t: "t \<in> set (al_get (fold (note_repository tgts) its []) rid [])"
    using assms by (simp add: note_repositories_set)
  then show ?thesis using al_get_mem [of "fold (note_repository tgts) its []" rid] by fastforce
qed

lemma repository_subjects_sound:
  assumes "(subj, named) \<in> set (repository_subjects scope its)"
  shows "set named \<subseteq> set (target_refs scope)"
    and "t \<in> set named \<Longrightarrow> (case subj of Some rid \<Rightarrow> names_target its rid t
           | None \<Rightarrow> \<forall>rid. \<not> names_target its rid t)"
proof -
  let ?b = "fold (note_repository (target_refs scope)) its []"
  consider rid v where "subj = Some rid" "named = sorted_unique v" "(rid, v) \<in> set ?b"
    | "subj = None" "set named = {t \<in> set (target_refs scope). t \<notin> set (concat (map snd ?b))}"
    using assms by (auto simp: repository_subjects_def Let_def split: if_splits)
  then have "set named \<subseteq> set (target_refs scope) \<and> (t \<in> set named \<longrightarrow> (case subj of Some rid \<Rightarrow> names_target its rid t
           | None \<Rightarrow> \<forall>rid. \<not> names_target its rid t))"
  proof cases
    case 1
    then show ?thesis using repositories_mem [OF 1(3)] by simp
  next
    case 2
    then show ?thesis using named_in_repositories [of t "target_refs scope" its] by fastforce
  qed
  then show "set named \<subseteq> set (target_refs scope)" "t \<in> set named \<Longrightarrow> (case subj of Some rid \<Rightarrow> names_target its rid t
           | None \<Rightarrow> \<forall>rid. \<not> names_target its rid t)" by blast+
qed

lemma repository_subjects_cover:
  assumes "t \<in> set (target_refs scope)"
  shows "\<exists>(subj, named) \<in> set (repository_subjects scope its). t \<in> set named"
proof (cases "t \<in> set (concat (map snd (fold (note_repository (target_refs scope)) its [])))")
  case True
  then obtain rid v where v: "(rid, v) \<in> set (fold (note_repository (target_refs scope)) its [])" "t \<in> set v" by auto
  have "(Some rid, sorted_unique v) \<in> set (repository_subjects scope its)"
    using v(1) by (force simp: repository_subjects_def Let_def)
  then show ?thesis using v(2) by (intro bexI) auto
next
  case False
  let ?u = "filter (\<lambda>t. t \<notin> set (concat (map snd (fold (note_repository (target_refs scope)) its []))))
      (target_refs scope)"
  have "t \<in> set ?u" using False assms by simp
  moreover from this have "?u \<noteq> []" by (metis empty_iff empty_set)
  then have "(None, sorted_unique ?u) \<in> set (repository_subjects scope its)"
    unfolding repository_subjects_def Let_def by simp
  ultimately show ?thesis by (intro bexI [of _ "(None, sorted_unique ?u)"]) auto
qed


lemma new_authreq_fields [simp]:
  "ar_authority_id (new_authreq H sources aid why acts subj) = aid"
  "ar_subject_ref (new_authreq H sources aid why acts subj) = subj"
  "set (ar_action_scope (new_authreq H sources aid why acts subj)) = set acts"
  by (simp_all add: new_authreq_def Let_def)

lemma cap_required_mem:
  "(cid, why) \<in> set (capability_needs i p) \<Longrightarrow>
     new_capreq H (requirement_sources i p kernels) cid why
       \<in> set (cap_required (fst (compile_capabilities H i p kernels selected)))"
  by (auto simp: compile_capabilities_def Let_def intro: rev_image_eqI)

lemma auth_required_mem:
  "a \<in> set (auth_required (fst (compile_authority H i scope p kernels its order)))
     \<longleftrightarrow> a \<in> set (authority_needs H (requirement_sources i p kernels) i scope p its)"
  by (simp add: compile_authority_def Let_def)

lemma capability_disposition_simps [simp]:
  "capability_disposition c av un uk = Available \<longleftrightarrow> c \<in> set av \<and> c \<notin> set un"
  "capability_disposition c av un uk = Unavailable \<longleftrightarrow> c \<in> set un"
  by (simp_all add: capability_disposition_def)

lemma authority_disposition_simps [simp]:
  "authority_disposition a gs ls us = AuthGranted \<longleftrightarrow> (\<exists>f \<in> set gs. grant_covers_requirement (body f) a)"
  "proven_negative (authority_disposition a gs ls us) \<longleftrightarrow>
     \<not> (\<exists>f \<in> set gs. grant_covers_requirement (body f) a)
     \<and> ((\<exists>f \<in> set ls. limit_bears_on_requirement (body f) a)
        \<or> (\<exists>f \<in> set gs. auth_fact_id (body f) = ar_authority_id a))"
  by (auto simp: authority_disposition_def list_ex_iff)

lemma select_all_cong:
  assumes "\<And>r. r \<in> set rs \<Longrightarrow> filter (matches_requirement r) cands = filter (matches_requirement r) cands'"
  shows "select_all H b cands rs sel = select_all H b cands' rs sel"
  using assms
proof (induction rs arbitrary: sel)
  case (Cons r rs)
  have "resolve_eligible H cands (matches_requirement r) = resolve_eligible H cands' (matches_requirement r)"
    using Cons.prems by (simp add: resolve_eligible_def)
  then have "select_for H b cands r sel = select_for H b cands' r sel"
    by (simp add: select_for_def)
  with Cons show ?case by simp
qed simp

lemma sections_partition:
  "mset (concat (map (\<lambda>k. of_type k its) [RELEVANT_ENTITY, REPOSITORY_STATE, ARCHITECTURE_CONSTRAINT,
      APPLICABLE_LAW, PRIOR_DECISION, DEPENDENCY_CONTEXT, EVIDENCE_REF, MEMORY_CONTEXT])
      @ cap_facts AVAILABLE its @ cap_facts UNAVAILABLE its @ cap_facts CAP_UNKNOWN its
      @ auth_facts GRANTED its @ auth_facts LIMIT its @ auth_facts AUTH_UNKNOWN its) = mset its"
proof (induction its)
  case (Cons it its)
  then show ?case
  proof (cases "body it")
    case (CapabilityFact a st b)
    then show ?thesis using Cons
      by (cases st) (simp_all add: of_type_def cap_facts_def auth_facts_def item_kind_def)
  next
    case (AuthorityFact a st b c d)
    then show ?thesis using Cons
      by (cases st) (simp_all add: of_type_def cap_facts_def auth_facts_def item_kind_def)
  qed (simp_all add: of_type_def cap_facts_def auth_facts_def item_kind_def)
qed (simp add: of_type_def cap_facts_def auth_facts_def)

lemma compile_selected_items:
  assumes "compile_context H i scope cands disc rplan p kernels pkg order = Inr ctx"
  obtains us s where "select_all H (global_budget rplan) cands (plan_requirements rplan) empty_selection = Inr (us, s)"
    and "mset (selected_items ctx) = mset (with_lineage s)"
    and "ctx_law ctx = of_type APPLICABLE_LAW (with_lineage s)"
    and "ctx_memory ctx = of_type MEMORY_CONTEXT (with_lineage s)"
    and "auth_granted (ctx_authority ctx) = auth_facts GRANTED (with_lineage s)"
proof -
  obtain us s where s: "select_all H (global_budget rplan) cands (plan_requirements rplan) empty_selection = Inr (us, s)"
    using assms by (auto simp: compile_context_def bindR_eq_Inr)
  note e = assms [unfolded compile_context_def s bindR_simps case_prod_conv Let_def]
  have "mset (selected_items ctx) = mset (with_lineage s)"
    using e sections_partition [of "with_lineage s"]
    by (auto simp: bindR_eq_Inr selected_items_def compile_capabilities_def compile_authority_def Let_def)
  moreover have "ctx_law ctx = of_type APPLICABLE_LAW (with_lineage s)"
    "ctx_memory ctx = of_type MEMORY_CONTEXT (with_lineage s)"
    "auth_granted (ctx_authority ctx) = auth_facts GRANTED (with_lineage s)"
    using e by (auto simp: bindR_eq_Inr compile_authority_def Let_def)
  ultimately show ?thesis using s that by blast
qed

lemma select_all_Inl:
  assumes "select_all H b cands rs sel = Inl e"
  shows "\<exists>r \<in> set rs. missing_policy r = BLOCK \<and> e = InvalidValueError
    ''required context could not be satisfied under a BLOCK missing policy'' (requirement_id r)"
  using assms
proof (induction rs arbitrary: sel)
  case (Cons r rs)
  have "select_for H b cands r sel' = Inl e \<Longrightarrow> missing_policy r = BLOCK \<and> e = InvalidValueError
    ''required context could not be satisfied under a BLOCK missing policy'' (requirement_id r)" for sel'
    by (auto simp: select_for_def Let_def bindR_eq_Inl dispose_unsatisfied_def split: if_splits)
  then show ?case using Cons by (auto simp: bindR_eq_Inl)
qed simp

section \<open>Properties\<close>

definition sample_plan :: "context_requirement list \<Rightarrow> context_requirement_plan" where
  "sample_plan rs = \<lparr>plan_id = ''p'', plan_scope_digest = ''0'', plan_route = ''review'',
     global_budget = \<lparr>max_total_items = 4, max_total_bytes = 100000\<rparr>, plan_requirements = rs\<rparr>"

definition sample_activation :: activation_plan where
  "sample_activation = \<lparr>task_summary = ''m'', matched_route = ''review'', confidence = ''high'',
     phase_sequence = [''P3''], active_kernels = [], skipped_kernels = [], terminal_allowed = False,
     ap_required_outputs = [], blockers = [], ap_unknowns = [], next_phase = ''P3'',
     architecture_materiality = NOT_REQUIRED\<rparr>"

definition sample_compile :: "context_item list \<Rightarrow> compiled_task_context res" where
  "sample_compile cands = compile_context (\<lambda>_. ''0'') (sample_intent ''review it'') (sample_scope [''a'']) cands
     (sample_discovery []) (sample_plan [sample_law_requirement]) sample_activation [] ''1.0.0'' [''pack'']"


definition sample_repository :: context_item where
  "sample_repository = \<lparr>item_id = ''ctxitem.sha256:1'', semantic_key = ''repo'',
     authority_level = GOVERNED_VERIFIED, source_ref = sample_source, scope_mode = SCOPED,
     scope_refs = [''a''], selected_because = [''r''],
     body = RepositoryState ''repo'' ''rev1'' ''root'' ''state'' JNull\<rparr>"


text \<open>C11: No gap is silent and precedence is never permission: every derived capability is
  available and not unavailable, or a recorded unknown names it, blocking exactly when it is proven
  unavailable; every derived authority is covered by a selected grant, or a recorded unknown names
  it, blocking exactly when a limit bears on it or a grant of it falls short.\<close>

theorem gaps_are_explicit:
  "(let caps = compile_capabilities H i p kernels selected;
        auths = compile_authority H i scope p kernels selected order in
    (\<forall>c \<in> set (cap_required (fst caps)).
       let cid = cr_capability_id c; av = cap_ids (cap_available (fst caps));
           un = cap_ids (cap_unavailable (fst caps)) in
       cid \<in> set av \<and> cid \<notin> set un
       \<or> (\<exists>u \<in> set (snd caps). reason_code u = UNSUPPORTED_CAPABILITY \<and> unk_key u = Some cid
            \<and> (materiality u = BLOCKING \<longleftrightarrow> cid \<in> set un)))
    \<and> (\<forall>a \<in> set (auth_required (fst auths)).
       let granted = auth_granted (fst auths); limits = auth_limits (fst auths) in
       (\<exists>f \<in> set granted. grant_covers_requirement (body f) a)
       \<or> (\<exists>u \<in> set (snd auths). reason_code u = MISSING_AUTHORITY \<and> unk_key u = Some (ar_semantic_key a)
            \<and> (materiality u = BLOCKING \<longleftrightarrow>
                (\<exists>f \<in> set limits. limit_bears_on_requirement (body f) a)
                \<or> (\<exists>f \<in> set granted. auth_fact_id (body f) = ar_authority_id a)))))"
proof -
  have c: "capability_state_of selected (cr_capability_id c) \<noteq> Available \<Longrightarrow>
      \<exists>u \<in> set (capability_unknown H selected c). reason_code u = UNSUPPORTED_CAPABILITY
        \<and> unk_key u = Some (cr_capability_id c)
        \<and> (materiality u = BLOCKING \<longleftrightarrow> capability_state_of selected (cr_capability_id c) = Unavailable)" for c
    by (simp add: capability_unknown_def Let_def)
  have a: "authority_state_of selected a \<noteq> AuthGranted \<Longrightarrow>
      \<exists>u \<in> set (authority_unknown H selected a). reason_code u = MISSING_AUTHORITY
        \<and> unk_key u = Some (ar_semantic_key a)
        \<and> (materiality u = BLOCKING \<longleftrightarrow> proven_negative (authority_state_of selected a))" for a
    by (simp add: authority_unknown_def Let_def)
  let ?caps = "compile_capabilities H i p kernels selected"
  let ?auths = "compile_authority H i scope p kernels selected order"
  have cu: "u \<in> set (snd ?caps)" if "c \<in> set (cap_required (fst ?caps))" "u \<in> set (capability_unknown H selected c)" for c u
  proof -
    have "snd ?caps = concat (map (capability_unknown H selected) (cap_required (fst ?caps)))"
      by (simp add: compile_capabilities_def Let_def)
    then show ?thesis using that by auto
  qed
  have au: "u \<in> set (snd ?auths)" if "x \<in> set (auth_required (fst ?auths))" "u \<in> set (authority_unknown H selected x)" for x u
    using that by (auto simp: compile_authority_def Let_def)
  have cs: "capability_state_of selected = (\<lambda>c. capability_disposition c (cap_ids (cap_available (fst ?caps)))
      (cap_ids (cap_unavailable (fst ?caps))) (cap_ids (cap_unknown (fst ?caps))))"
    by (simp add: compile_capabilities_def Let_def capability_state_of_def fun_eq_iff)
  have as: "authority_state_of selected = (\<lambda>a. authority_disposition a (auth_granted (fst ?auths))
      (auth_limits (fst ?auths)) (auth_unknown (fst ?auths)))"
    by (simp add: compile_authority_def Let_def authority_state_of_def fun_eq_iff)
  show ?thesis
    unfolding Let_def
  proof (intro conjI ballI)
    fix x assume x: "x \<in> set (cap_required (fst ?caps))"
    from c [of x] cu [OF x]
    show "cr_capability_id x \<in> set (cap_ids (cap_available (fst ?caps)))
        \<and> cr_capability_id x \<notin> set (cap_ids (cap_unavailable (fst ?caps)))
      \<or> (\<exists>u \<in> set (snd ?caps). reason_code u = UNSUPPORTED_CAPABILITY \<and> unk_key u = Some (cr_capability_id x)
        \<and> (materiality u = BLOCKING \<longleftrightarrow> cr_capability_id x \<in> set (cap_ids (cap_unavailable (fst ?caps)))))"
      unfolding cs capability_disposition_simps by blast
  next
    fix x assume x: "x \<in> set (auth_required (fst ?auths))"
    from a [of x] au [OF x]
    show "(\<exists>f \<in> set (auth_granted (fst ?auths)). grant_covers_requirement (body f) x)
      \<or> (\<exists>u \<in> set (snd ?auths). reason_code u = MISSING_AUTHORITY \<and> unk_key u = Some (ar_semantic_key x)
        \<and> (materiality u = BLOCKING \<longleftrightarrow>
            (\<exists>f \<in> set (auth_limits (fst ?auths)). limit_bears_on_requirement (body f) x)
            \<or> (\<exists>f \<in> set (auth_granted (fst ?auths)). auth_fact_id (body f) = ar_authority_id x)))"
      unfolding as authority_disposition_simps by blast
  qed
qed

theorem gaps_are_explicit_witness:
  "\<exists>i :: intent_contract. \<exists>u \<in> set (snd (compile_capabilities (\<lambda>_. ''0'') i sample_activation [] [])).
     realization_mode (objective i) = MUTATION \<and> reason_code u = UNSUPPORTED_CAPABILITY
     \<and> unk_key u = Some ''workspace_mutation'' \<and> materiality u \<noteq> BLOCKING"
proof -
  define i where "i = (sample_intent ''fix it'')\<lparr>objective := (objective (sample_intent ''fix it''))\<lparr>realization_mode := MUTATION\<rparr>\<rparr>"
  let ?c = "new_capreq (\<lambda>_. ''0'') (requirement_sources i sample_activation []) ''workspace_mutation''
      ''realization mode MUTATION mutates the workspace''"
  have m: "realization_mode (objective i) = MUTATION" by (simp add: i_def)
  have c: "?c \<in> set (cap_required (fst (compile_capabilities (\<lambda>_. ''0'') i sample_activation [] [])))"
  proof -
    have "(''workspace_mutation'', ''realization mode MUTATION mutates the workspace'')
        \<in> set (capability_needs i sample_activation)"
      using m by (simp add: capability_needs_def)
    then show ?thesis by (rule cap_required_mem)
  qed
  have e: "cap_ids (cap_available (fst (compile_capabilities (\<lambda>_. ''0'') i sample_activation [] []))) = []"
    "cap_ids (cap_unavailable (fst (compile_capabilities (\<lambda>_. ''0'') i sample_activation [] []))) = []"
    by (simp_all add: compile_capabilities_def Let_def cap_ids_def cap_facts_def)
  have d: "cr_capability_id ?c = ''workspace_mutation''" by (simp add: new_capreq_def Let_def)
  from bspec [OF conjunct1 [OF gaps_are_explicit [where H = "\<lambda>_. ''0''" and i = i and p = sample_activation
      and kernels = "[]" and selected = "[]", unfolded Let_def]] c, unfolded e d]
  have "\<exists>u \<in> set (snd (compile_capabilities (\<lambda>_. ''0'') i sample_activation [] [])).
     reason_code u = UNSUPPORTED_CAPABILITY \<and> unk_key u = Some ''workspace_mutation'' \<and> materiality u \<noteq> BLOCKING"
    by simp
  with m show ?thesis by blast
qed

text \<open>C13: A compiled context depends on the snapshot only through the candidates that match a
  planned requirement: reordering the snapshot, or adding candidates nothing asked for, compiles
  the same context or the same failure.\<close>

theorem compile_depends_on_matching:
  assumes "\<And>r. r \<in> set (plan_requirements rplan) \<Longrightarrow>
      mset (filter (matches_requirement r) (all_items s)) = mset (filter (matches_requirement r) (all_items s'))
      \<and> distinct (map item_id (filter (matches_requirement r) (all_items s)))"
  shows "compile_context H i scope (resolve_snapshot s) disc rplan p kernels package order
    = compile_context H i scope (resolve_snapshot s') disc rplan p kernels package order"
  using select_all_cong [OF resolve_snapshot_filter, of "plan_requirements rplan" s s' H] assms
  by (simp add: compile_context_def)

theorem compile_depends_on_matching_witness:
  "compile_context (\<lambda>_. ''0'') (sample_intent ''m'') (sample_scope []) (resolve_snapshot (snapshot_of_laws
       [sample_twin ''i1'' ''L1'' GOVERNED_VERIFIED [], sample_twin ''i2'' ''L2'' INFORMATIVE []]))
     (sample_discovery []) (sample_plan [sample_law_requirement]) sample_activation [] ''1'' [''pack'']
   = compile_context (\<lambda>_. ''0'') (sample_intent ''m'') (sample_scope []) (resolve_snapshot (snapshot_of_laws
       [sample_twin ''i2'' ''L2'' INFORMATIVE [], sample_twin ''i1'' ''L1'' GOVERNED_VERIFIED []]))
     (sample_discovery []) (sample_plan [sample_law_requirement]) sample_activation [] ''1'' [''pack'']"
proof (rule compile_depends_on_matching)
  fix r assume "r \<in> set (plan_requirements (sample_plan [sample_law_requirement]))"
  show "mset (filter (matches_requirement r) (all_items (snapshot_of_laws
       [sample_twin ''i1'' ''L1'' GOVERNED_VERIFIED [], sample_twin ''i2'' ''L2'' INFORMATIVE []])))
     = mset (filter (matches_requirement r) (all_items (snapshot_of_laws
       [sample_twin ''i2'' ''L2'' INFORMATIVE [], sample_twin ''i1'' ''L1'' GOVERNED_VERIFIED []])))
     \<and> distinct (map item_id (filter (matches_requirement r) (all_items (snapshot_of_laws
       [sample_twin ''i1'' ''L1'' GOVERNED_VERIFIED [], sample_twin ''i2'' ''L2'' INFORMATIVE []]))))"
    by (simp add: snapshot_of_laws_def all_items_def snap_buckets_def empty_snapshot_def sample_twin_def)
qed

text \<open>The finished context holds exactly the admitted items: its fourteen sections, read in
  order, are the items the selection admitted, each exactly once, with their lineage.\<close>

theorem compiled_sections_partition_selection:
  assumes "compile_context H i scope cands disc rplan p kernels pkg order = Inr ctx"
  shows "\<exists>us s. select_all H (global_budget rplan) cands (plan_requirements rplan) empty_selection = Inr (us, s)
    \<and> mset (selected_items ctx) = mset (with_lineage s)
    \<and> list_all (\<lambda>it. item_kind it = APPLICABLE_LAW) (ctx_law ctx)
    \<and> list_all (\<lambda>it. item_kind it = MEMORY_CONTEXT) (ctx_memory ctx)
    \<and> list_all (\<lambda>it. auth_fact_state (body it) = Some GRANTED) (auth_granted (ctx_authority ctx))"
  using assms
proof (rule compile_selected_items)
  fix us s
  assume "select_all H (global_budget rplan) cands (plan_requirements rplan) empty_selection = Inr (us, s)"
    "mset (selected_items ctx) = mset (with_lineage s)"
    "ctx_law ctx = of_type APPLICABLE_LAW (with_lineage s)"
    "ctx_memory ctx = of_type MEMORY_CONTEXT (with_lineage s)"
    "auth_granted (ctx_authority ctx) = auth_facts GRANTED (with_lineage s)"
  then show ?thesis by (auto simp: of_type_def auth_facts_def list_all_iff)
qed

definition sample_valid_law :: context_item where
  "sample_valid_law = (sample_law ''L1'' GOVERNED_VERIFIED [] [])\<lparr>item_id := ''ctxitem.sha256:0''\<rparr>"

lemma sample_compile_runs:
  "\<exists>ctx. sample_compile [sample_valid_law] = Inr ctx \<and> map item_id (selected_items ctx) = [''ctxitem.sha256:0'']"
proof -
  let ?plan = "sample_plan [sample_law_requirement]"
  have "map_sum id (\<lambda>(us, s). map item_id (with_lineage s))
      (select_all (\<lambda>_. ''0'') (global_budget ?plan) [sample_valid_law] (plan_requirements ?plan) empty_selection)
    = Inr [''ctxitem.sha256:0'']"
    by code_simp
  then obtain us s where s: "select_all (\<lambda>_. ''0'') (global_budget ?plan) [sample_valid_law]
      (plan_requirements ?plan) empty_selection = Inr (us, s)" "map item_id (with_lineage s) = [''ctxitem.sha256:0'']"
    by (cases "select_all (\<lambda>_. ''0'') (global_budget ?plan) [sample_valid_law]
      (plan_requirements ?plan) empty_selection") auto
  have "isl (make_compiler_identity ''1.0.0'' CONTEXT_COMPILER_SEMANTICS_VERSION) = False" by code_simp
  then obtain ctx where ctx: "sample_compile [sample_valid_law] = Inr ctx"
    unfolding sample_compile_def compile_context_def s(1)
    by (cases "make_compiler_identity ''1.0.0'' CONTEXT_COMPILER_SEMANTICS_VERSION") (auto simp: Let_def)
  have "mset (selected_items ctx) = mset (with_lineage s)"
    by (rule compile_selected_items [OF ctx [unfolded sample_compile_def]]) (simp add: s(1))
  then have "mset (map item_id (selected_items ctx)) = {#''ctxitem.sha256:0''#}"
    using arg_cong [OF s(2), of mset] by (simp only: mset_map mset.simps add_mset_add_single [symmetric])
  then have "map item_id (selected_items ctx) = [''ctxitem.sha256:0'']"
    by (rule iffD1 [OF mset_single_iff])
  with ctx show ?thesis by (intro exI conjI)
qed

theorem compiled_sections_partition_selection_witness:
  "\<exists>ctx s. sample_compile [sample_valid_law] = Inr ctx
     \<and> map item_id (selected_items ctx) = [''ctxitem.sha256:0'']
     \<and> mset (selected_items ctx) = mset (with_lineage s)"
proof -
  obtain ctx where ctx: "sample_compile [sample_valid_law] = Inr ctx"
    "map item_id (selected_items ctx) = [''ctxitem.sha256:0'']"
    using sample_compile_runs by (elim exE conjE)
  note q = compiled_sections_partition_selection [OF ctx(1) [unfolded sample_compile_def]]
  obtain us s where "mset (selected_items ctx) = mset (with_lineage s)"
    using q by blast
  with ctx show ?thesis by (intro exI conjI)
qed

text \<open>Compilation fails closed and for nothing else: an error is the one of a planned
  requirement with a \<open>BLOCK\<close> policy that could not be satisfied, or a blank compiler version.\<close>

theorem compile_fails_only_on_block:
  assumes "compile_context H i scope cands disc rplan p kernels pkg order = Inl e"
  shows "(\<exists>r \<in> set (plan_requirements rplan). missing_policy r = BLOCK \<and> e = InvalidValueError
      ''required context could not be satisfied under a BLOCK missing policy'' (requirement_id r))
    \<or> \<not> non_blank pkg \<and> e = InvalidValueError ''must be non-empty'' ''package_version''"
proof -
  have v: "non_blank CONTEXT_COMPILER_SEMANTICS_VERSION" by code_simp
  consider "select_all H (global_budget rplan) cands (plan_requirements rplan) empty_selection = Inl e"
    | "make_compiler_identity pkg CONTEXT_COMPILER_SEMANTICS_VERSION = Inl e"
    using assms by (auto simp: compile_context_def bindR_eq_Inl Let_def)
  then show ?thesis
  proof cases
    case 1
    then show ?thesis using select_all_Inl by blast
  next
    case 2
    then show ?thesis using v by (auto simp: make_compiler_identity_def split: if_splits)
  qed
qed

theorem compile_fails_only_on_block_witness:
  "\<exists>e. compile_context (\<lambda>_. ''0'') (sample_intent ''m'') (sample_scope []) [] (sample_discovery [])
      (sample_plan [sample_law_requirement\<lparr>min_items := 1, missing_policy := BLOCK\<rparr>]) sample_activation [] ''1'' [] = Inl e
    \<and> e = InvalidValueError ''required context could not be satisfied under a BLOCK missing policy'' ''r1''"
proof -
  let ?c = "compile_context (\<lambda>_. ''0'') (sample_intent ''m'') (sample_scope []) [] (sample_discovery [])
      (sample_plan [sample_law_requirement\<lparr>min_items := 1, missing_policy := BLOCK\<rparr>]) sample_activation [] ''1'' []"
  have "isl ?c" by code_simp
  then obtain e where e: "?c = Inl e" by (auto simp: isl_def)
  have "non_blank ''1''" by code_simp
  with compile_fails_only_on_block [OF e]
  have "e = InvalidValueError ''required context could not be satisfied under a BLOCK missing policy'' ''r1''"
    by (auto simp: sample_plan_def sample_law_requirement_def)
  with e show ?thesis by blast
qed

end
