(* ===== verification/ContextClosure.thy ===== *)
theory ContextClosure
  imports ContextCompile
begin

text \<open>
  \<open>compiler/context_closure.py\<close>: the fail-closed validation of a compiled context. Each of the
  eleven checks is a definition over the finished artifact; \<open>validate_closure\<close> runs them in
  order and raises on the first breach. A \<open>set\<close> or \<open>dict\<close> that is only read for membership or
  sorted is a list; requirement identities in a plan are distinct, so the dictionary of views is
  the function \<open>view_of\<close>.
\<close>

section \<open>Views and dispositions\<close>

definition CONTEXT_CHECKS :: "string list" where
  "CONTEXT_CHECKS =
     [''every_required_requirement_has_legal_disposition'',
      ''every_governed_selected_item_has_valid_provenance'',
      ''every_selected_item_identity_matches_kind_recipe'',
      ''every_selected_item_has_relevance_binding'',
      ''every_selected_kernel_equals_downstream_kernel_binding'',
      ''no_equal_authority_conflict_is_silently_selected'',
      ''no_memory_item_is_used_as_authoritative_resolution'',
      ''capability_and_authority_gaps_are_explicit'',
      ''per_requirement_and_global_budgets_are_respected'',
      ''every_coverage_mode_is_independently_proven'',
      ''unresolved_unknowns_are_stable_and_bound'']"

fun is_disposing :: "unknown_reason_code \<Rightarrow> bool" where
  "is_disposing MISSING_REQUIRED_CONTEXT = True"
| "is_disposing BUDGET_INSUFFICIENT = True"
| "is_disposing CONFLICTING_GOVERNED_CLAIMS = True"
| "is_disposing _ = False"

definition is_shortfall :: "unknown_reason_code \<Rightarrow> bool" where
  "is_shortfall c \<longleftrightarrow> is_disposing c \<and> c \<noteq> CONFLICTING_GOVERNED_CLAIMS"

record closure_report =
  closure_checks :: "string list"
  closure_passed :: bool

definition closure_fail :: "string \<Rightarrow> cog_error" where
  "closure_fail name = InvalidValueError (''context closure check failed: '' @ name) ''context_closure''"

definition view_of ::
  "(string \<Rightarrow> string) \<Rightarrow> snapshot_resolution \<Rightarrow> context_requirement \<Rightarrow> resolved_candidates" where
  "view_of H cands r = resolve_eligible H cands (matches_requirement r)"

text \<open>The selected items a requirement is a reason for.\<close>

definition taken_items :: "compiled_task_context \<Rightarrow> context_requirement \<Rightarrow> context_item list" where
  "taken_items ctx r = filter (\<lambda>it. requirement_id r \<in> set (selected_because it)) (selected_items ctx)"

definition bound_requirements :: "compiled_task_context \<Rightarrow> string list" where
  "bound_requirements ctx = concat (map selected_because (selected_items ctx))"

definition unknown_requirements :: "compiled_task_context \<Rightarrow> string list" where
  "unknown_requirements ctx = concat (map (\<lambda>u. case unk_requirement_ref u of
       Some rid \<Rightarrow> if is_disposing (reason_code u) then [rid] else [] | None \<Rightarrow> []) (ctx_unknowns ctx))"

text \<open>\<open>_eligible_items\<close>: identity to key of what a requirement could select.\<close>

definition eligible_items :: "resolved_candidates \<Rightarrow> (string \<times> string) list" where
  "eligible_items view =
     fold (\<lambda>it. dict_put (item_id it) (semantic_key it)) (settled_items (res_groups view)) []"

text \<open>The keys a requirement disposed as a conflict its own view really holds.\<close>

definition conflict_keys_of ::
  "(string \<Rightarrow> string) \<Rightarrow> compiled_task_context \<Rightarrow> snapshot_resolution \<Rightarrow> context_requirement list \<Rightarrow>
     string \<Rightarrow> string list" where
  "conflict_keys_of H ctx cands rs rid =
     concat (map (\<lambda>u. case (unk_requirement_ref u, unk_key u) of
         (Some ref, Some k) \<Rightarrow>
           (if reason_code u = CONFLICTING_GOVERNED_CLAIMS \<and> ref \<noteq> [] \<and> k \<noteq> [] \<and> ref = rid
              \<and> list_ex (\<lambda>r. requirement_id r = ref
                   \<and> list_ex (\<lambda>kg. snd (fst kg) = k \<and> conflict (snd kg)) (res_groups (view_of H cands r))) rs
            then [k] else [])
       | _ \<Rightarrow> []) (ctx_unknowns ctx))"

text \<open>\<open>str(v)\<close> of a value in the details; a container is not expected there.\<close>

fun py_str :: "json \<Rightarrow> string" where
  "py_str JNull = ''None''"
| "py_str (JBool b) = (if b then ''True'' else ''False'')"
| "py_str (JInt i) = int_text i"
| "py_str (JFloat s) = s"
| "py_str (JStr s) = s"
| "py_str v = encode v"

definition detail_of :: "context_unknown \<Rightarrow> string \<Rightarrow> json" where
  "detail_of u k = (case jget (details u) k of None \<Rightarrow> JNull | Some v \<Rightarrow> v)"

definition shortfall_unknowns :: "compiled_task_context \<Rightarrow> string \<Rightarrow> context_unknown list" where
  "shortfall_unknowns ctx rid = filter (\<lambda>u. is_shortfall (reason_code u) \<and> truthy (unk_requirement_ref u)
     \<and> unk_requirement_ref u = Some rid) (ctx_unknowns ctx)"

definition recorded_missing :: "compiled_task_context \<Rightarrow> string \<Rightarrow> string list" where
  "recorded_missing ctx rid = concat (map (\<lambda>u. case detail_of u ''missing_semantic_keys'' of
       JList vs \<Rightarrow> map py_str vs | _ \<Rightarrow> []) (shortfall_unknowns ctx rid))"

section \<open>The proof of a budget stop\<close>

fun frontier_loop ::
  "context_requirement \<Rightarrow> context_item list \<Rightarrow> context_item list \<Rightarrow> context_item list" where
  "frontier_loop r acc [] = acc"
| "frontier_loop r acc (it # rest) =
     (if coverage_mode r = MINIMUM \<and> int (length acc) \<ge> min_items r then acc
      else if coverage_mode r = SEMANTIC_KEYS \<and> semantic_key it \<notin> set (required_semantic_keys r)
        then frontier_loop r acc rest
      else frontier_loop r (acc @ [it]) rest)"

definition eligible_frontier :: "context_requirement \<Rightarrow> resolved_candidates \<Rightarrow> context_item list" where
  "eligible_frontier r view =
     frontier_loop r [] (sort_key candidate_sort_key (settled_items (res_groups view)))"

definition BUDGET_WITNESS_KEYS :: "string list" where
  "BUDGET_WITNESS_KEYS =
     [''bound'', ''blocked_item_id'', ''observed_count'', ''observed_bytes'', ''candidate_cost'',
      ''limit'']"

definition has_budget_witness :: "context_unknown \<Rightarrow> bool" where
  "has_budget_witness u \<longleftrightarrow> list_all (\<lambda>k. jget (details u) k \<noteq> None) BUDGET_WITNESS_KEYS"

definition total_cost :: "context_item list \<Rightarrow> nat" where
  "total_cost its = sum_list (map canonical_cost its)"

text \<open>Everything admitted up to the stop: by an earlier requirement, or by this one.\<close>

definition selection_at_stop ::
  "compiled_task_context \<Rightarrow> context_requirement_plan \<Rightarrow> context_requirement \<Rightarrow> context_item list \<Rightarrow>
     (string \<times> context_item) list" where
  "selection_at_stop ctx rplan r admitted_items =
     (let earlier = takeWhile (\<lambda>rid. rid \<noteq> requirement_id r) (map requirement_id (plan_requirements rplan))
      in fold (\<lambda>it. dict_put (item_id it) it)
           (filter (\<lambda>it. list_ex (\<lambda>rid. rid \<in> set (selected_because it)) earlier) (selected_items ctx)
            @ admitted_items) [])"

definition stop_proven_by ::
  "compiled_task_context \<Rightarrow> context_requirement_plan \<Rightarrow> context_requirement \<Rightarrow> resolved_candidates \<Rightarrow>
     context_unknown \<Rightarrow> bool" where
  "stop_proven_by ctx rplan r view u =
     (let taken = map item_id (taken_items ctx r);
          frontier = eligible_frontier r view;
          adm = filter (\<lambda>it. item_id it \<in> set taken) frontier;
          bound = detail_of u ''bound'';
          lim = detail_of u ''limit'';
          cnt = detail_of u ''observed_count'';
          obs = detail_of u ''observed_bytes''
      in has_budget_witness u \<and>
        (case find (\<lambda>it. item_id it \<notin> set taken) frontier of
           None \<Rightarrow> False
         | Some blocked \<Rightarrow>
             JStr (item_id blocked) = detail_of u ''blocked_item_id''
             \<and> jnat (canonical_cost blocked) = detail_of u ''candidate_cost''
             \<and> (if bound = JStr ''requirement_max_items'' then
                  (case max_items r of None \<Rightarrow> False
                   | Some n \<Rightarrow> lim = JInt n \<and> cnt = jnat (length adm) \<and> int (length adm) + 1 > n)
                else if bound = JStr ''requirement_max_bytes'' then
                  (case max_bytes r of None \<Rightarrow> False
                   | Some n \<Rightarrow> lim = JInt n \<and> obs = jnat (total_cost adm)
                       \<and> int (total_cost adm + canonical_cost blocked) > n)
                else
                  (let uniq = selection_at_stop ctx rplan r adm; b = global_budget rplan in
                   item_id blocked \<notin> set (map fst uniq) \<and>
                   (if bound = JStr ''global_max_items'' then
                      lim = JInt (max_total_items b) \<and> cnt = jnat (length uniq)
                      \<and> int (length uniq) + 1 > max_total_items b
                    else if bound = JStr ''global_max_bytes'' then
                      lim = JInt (max_total_bytes b) \<and> obs = jnat (total_cost (map snd uniq))
                      \<and> int (total_cost (map snd uniq) + canonical_cost blocked) > max_total_bytes b
                    else False)))))"

definition budget_stop_proven ::
  "compiled_task_context \<Rightarrow> context_requirement_plan \<Rightarrow> context_requirement \<Rightarrow> resolved_candidates \<Rightarrow> bool" where
  "budget_stop_proven ctx rplan r view =
     (case find (\<lambda>u. reason_code u = BUDGET_INSUFFICIENT
          \<and> unk_requirement_ref u = Some (requirement_id r)) (ctx_unknowns ctx) of
        None \<Rightarrow> False
      | Some u \<Rightarrow> stop_proven_by ctx rplan r view u)"

section \<open>Coverage and budget breaches\<close>

text \<open>\<open>_coverage_breach\<close>: whether it returns a breach.\<close>

definition coverage_breach ::
  "context_requirement \<Rightarrow> (string \<times> string) list \<Rightarrow> string list \<Rightarrow> string list \<Rightarrow> string list \<Rightarrow> bool \<Rightarrow> bool" where
  "coverage_breach r eligible taken taken_keys disposed truncated =
     (let elig_ids = map fst eligible; n = length (dedup_first taken) in
      if list_ex (\<lambda>i. i \<notin> set elig_ids) taken then True
      else case coverage_mode r of
        ALL_ELIGIBLE \<Rightarrow> list_ex (\<lambda>i. i \<notin> set taken) elig_ids \<and> \<not> truncated
      | MINIMUM \<Rightarrow>
          (let expected = min (min_items r) (int (length eligible)) in
           if int n > expected then True else int n < expected \<and> \<not> truncated)
      | SEMANTIC_KEYS \<Rightarrow>
          (if list_ex (\<lambda>k. k \<notin> set (required_semantic_keys r)) taken_keys then True
           else list_ex (\<lambda>k. k \<in> set (required_semantic_keys r) \<and> k \<notin> set taken_keys \<and> k \<notin> set disposed)
                  (map snd eligible) \<and> \<not> truncated))"

definition requirement_coverage_breach ::
  "(string \<Rightarrow> string) \<Rightarrow> compiled_task_context \<Rightarrow> context_requirement_plan \<Rightarrow> snapshot_resolution \<Rightarrow>
     context_requirement \<Rightarrow> bool" where
  "requirement_coverage_breach H ctx rplan cands r =
     coverage_breach r (eligible_items (view_of H cands r)) (map item_id (taken_items ctx r))
       (map semantic_key (taken_items ctx r))
       (conflict_keys_of H ctx cands (plan_requirements rplan) (requirement_id r))
       (budget_stop_proven ctx rplan r (view_of H cands r))"

definition requirement_breach ::
  "context_requirement \<Rightarrow> nat \<Rightarrow> nat \<Rightarrow> string list \<Rightarrow> string list \<Rightarrow> bool \<Rightarrow> string list \<Rightarrow> bool" where
  "requirement_breach r cnt cost keys disposed shortfall recorded =
     (if (case max_items r of None \<Rightarrow> False | Some n \<Rightarrow> int cnt > n) then True
      else if (case max_bytes r of None \<Rightarrow> False | Some n \<Rightarrow> int cost > n) then True
      else if \<not> required r then False
      else if int (cnt + length (dedup_first (filter (\<lambda>k. k \<notin> set keys) disposed))) < min_items r
        \<and> \<not> shortfall then True
      else coverage_mode r = SEMANTIC_KEYS
        \<and> list_ex (\<lambda>k. k \<notin> set keys \<and> k \<notin> set disposed \<and> k \<notin> set recorded) (required_semantic_keys r))"

definition requirement_budget_breach ::
  "(string \<Rightarrow> string) \<Rightarrow> compiled_task_context \<Rightarrow> context_requirement_plan \<Rightarrow> snapshot_resolution \<Rightarrow>
     context_requirement \<Rightarrow> bool" where
  "requirement_budget_breach H ctx rplan cands r =
     requirement_breach r (length (taken_items ctx r)) (total_cost (taken_items ctx r))
       (map semantic_key (taken_items ctx r))
       (conflict_keys_of H ctx cands (plan_requirements rplan) (requirement_id r))
       (shortfall_unknowns ctx (requirement_id r) \<noteq> []) (recorded_missing ctx (requirement_id r))"

section \<open>The eleven checks\<close>

text \<open>1. A required requirement is bound to a selected item or disposed by an unknown.\<close>

definition requirements_disposed ::
  "compiled_task_context \<Rightarrow> context_requirement_plan \<Rightarrow> bool" where
  "requirements_disposed ctx rplan \<longleftrightarrow>
     list_all (\<lambda>r. required r \<longrightarrow> requirement_id r \<in> set (bound_requirements ctx)
         \<or> requirement_id r \<in> set (unknown_requirements ctx)) (plan_requirements rplan)"

text \<open>2. Governed claims carry immutable provenance; repository state is never unverified.\<close>

definition provenance_valid :: "compiled_task_context \<Rightarrow> bool" where
  "provenance_valid ctx \<longleftrightarrow>
     list_all (\<lambda>it. (is_governed (authority_level it) \<longrightarrow> has_immutable_provenance (source_ref it))
       \<and> \<not> (item_kind it = REPOSITORY_STATE \<and> authority_level it = UNVERIFIED)) (selected_items ctx)"

text \<open>3. Keys and identities follow the recipe of the item's kind.\<close>

definition identities_match :: "(string \<Rightarrow> string) \<Rightarrow> compiled_task_context \<Rightarrow> bool" where
  "identities_match H ctx \<longleftrightarrow>
     list_all (\<lambda>it. semantic_key it = expected_semantic_key (body it)
       \<and> item_id it = expected_item_id H it) (selected_items ctx)"

text \<open>4. Every selected item has a reason, and every reason is a planned requirement.\<close>

definition relevance_bound ::
  "compiled_task_context \<Rightarrow> context_requirement_plan \<Rightarrow> bool" where
  "relevance_bound ctx rplan \<longleftrightarrow>
     list_all (\<lambda>it. selected_because it \<noteq> []
       \<and> list_all (\<lambda>rid. rid \<in> set (map requirement_id (plan_requirements rplan))) (selected_because it))
       (selected_items ctx)"

text \<open>5. Equality of parsed values: dictionaries compare up to the order of their keys.\<close>

definition kernels_match :: "compiled_task_context \<Rightarrow> kernel_binding list \<Rightarrow> bool" where
  "kernels_match ctx kernels \<longleftrightarrow>
     map normalize_json (ctx_kernels ctx) = map (\<lambda>b. normalize_json (binding_json b)) kernels"

text \<open>6. Every contradiction in a requirement's own view is an unknown bound to it.\<close>

definition conflicts_visible ::
  "(string \<Rightarrow> string) \<Rightarrow> compiled_task_context \<Rightarrow> context_requirement_plan \<Rightarrow> snapshot_resolution \<Rightarrow> bool" where
  "conflicts_visible H ctx rplan cands \<longleftrightarrow>
     list_all (\<lambda>r. list_all (\<lambda>kg. conflict (snd kg) \<longrightarrow>
         list_ex (\<lambda>u. reason_code u = CONFLICTING_GOVERNED_CLAIMS
             \<and> unk_requirement_ref u = Some (requirement_id r) \<and> unk_key u = Some (snd (fst kg)))
           (ctx_unknowns ctx)) (res_groups (view_of H cands r)))
       (plan_requirements rplan)"

text \<open>7. Memory serves only memory requirements and is never governed.\<close>

definition memory_ids :: "context_requirement_plan \<Rightarrow> string list" where
  "memory_ids rplan = map requirement_id
     (filter (\<lambda>r. req_kind r = MEMORY_CONTEXT) (plan_requirements rplan))"

definition memory_only_enriches ::
  "compiled_task_context \<Rightarrow> context_requirement_plan \<Rightarrow> bool" where
  "memory_only_enriches ctx rplan \<longleftrightarrow>
     list_all (\<lambda>it. item_kind it = MEMORY_CONTEXT \<longrightarrow>
         list_all (\<lambda>rid. rid \<in> set (memory_ids rplan)) (selected_because it)
         \<and> \<not> is_governed (authority_level it)) (selected_items ctx)"

text \<open>8. Every derived capability and authority is available or granted, or its gap is recorded.\<close>

definition undisposed_capabilities :: "compiled_task_context \<Rightarrow> string list" where
  "undisposed_capabilities ctx =
     (let caps = ctx_capabilities ctx;
          recorded = map (\<lambda>u. py_str (detail_of u ''capability_id''))
            (filter (\<lambda>u. reason_code u = UNSUPPORTED_CAPABILITY) (ctx_unknowns ctx))
      in sort (map cr_capability_id (filter (\<lambda>c.
           capability_disposition (cr_capability_id c) (cap_ids (cap_available caps))
             (cap_ids (cap_unavailable caps)) (cap_ids (cap_unknown caps)) \<noteq> Available
           \<and> cr_capability_id c \<notin> set recorded) (cap_required caps))))"

definition undisposed_authorities :: "compiled_task_context \<Rightarrow> string list" where
  "undisposed_authorities ctx =
     (let auth = ctx_authority ctx;
          recorded = map (\<lambda>u. str_opt (unk_key u))
            (filter (\<lambda>u. reason_code u = MISSING_AUTHORITY) (ctx_unknowns ctx))
      in sort (map ar_semantic_key (filter (\<lambda>a.
           authority_disposition a (auth_granted auth) (auth_limits auth) (auth_unknown auth) \<noteq> AuthGranted
           \<and> ar_semantic_key a \<notin> set recorded) (auth_required auth))))"

definition contradictory_capabilities :: "compiled_task_context \<Rightarrow> string list" where
  "contradictory_capabilities ctx =
     sorted_unique (filter (\<lambda>c. c \<in> set (cap_ids (cap_unavailable (ctx_capabilities ctx))))
       (cap_ids (cap_available (ctx_capabilities ctx))))"

definition gaps_explicit :: "compiled_task_context \<Rightarrow> bool" where
  "gaps_explicit ctx \<longleftrightarrow> undisposed_capabilities ctx = [] \<and> undisposed_authorities ctx = []
     \<and> contradictory_capabilities ctx = [] \<and> effective_order (ctx_authority ctx) \<noteq> []"

text \<open>9. Per-requirement and global budgets hold on the finished artifact.\<close>

definition budgets_respected ::
  "(string \<Rightarrow> string) \<Rightarrow> compiled_task_context \<Rightarrow> context_requirement_plan \<Rightarrow> snapshot_resolution \<Rightarrow> bool" where
  "budgets_respected H ctx rplan cands \<longleftrightarrow>
     \<not> list_ex (requirement_budget_breach H ctx rplan cands) (plan_requirements rplan)
     \<and> int (length (selected_items ctx)) \<le> max_total_items (global_budget rplan)
     \<and> int (total_cost (selected_items ctx)) \<le> max_total_bytes (global_budget rplan)"

text \<open>10. Every coverage mode is proven against the eligible set recomputed here.\<close>

definition coverage_proven ::
  "(string \<Rightarrow> string) \<Rightarrow> compiled_task_context \<Rightarrow> context_requirement_plan \<Rightarrow> snapshot_resolution \<Rightarrow> bool" where
  "coverage_proven H ctx rplan cands \<longleftrightarrow>
     \<not> list_ex (requirement_coverage_breach H ctx rplan cands) (plan_requirements rplan)"

text \<open>11. A bound unknown names a planned requirement, its identity is the recipe's, and no
  required requirement is optional. \<open>by_id\<close> keeps the last requirement of an identity.\<close>

definition plan_lookup :: "context_requirement_plan \<Rightarrow> string \<Rightarrow> context_requirement option" where
  "plan_lookup rplan rid =
     find (\<lambda>r. requirement_id r = rid) (rev (plan_requirements rplan))"

definition unknowns_stable ::
  "(string \<Rightarrow> string) \<Rightarrow> compiled_task_context \<Rightarrow> context_requirement_plan \<Rightarrow> bool" where
  "unknowns_stable H ctx rplan \<longleftrightarrow>
     list_all (\<lambda>u. (truthy (unk_requirement_ref u) \<longrightarrow>
            or_empty (unk_requirement_ref u) \<in> set (map requirement_id (plan_requirements rplan)))
         \<and> unknown_id u = expected_unknown_id H u
         \<and> (case unk_requirement_ref u of None \<Rightarrow> True
            | Some rid \<Rightarrow> (case plan_lookup rplan rid of None \<Rightarrow> True
                | Some r \<Rightarrow> \<not> (missing_policy r = OPTIONAL \<and> required r))))
       (ctx_unknowns ctx)"

section \<open>The validator\<close>

definition closure_ladder ::
  "(string \<Rightarrow> string) \<Rightarrow> compiled_task_context \<Rightarrow> context_requirement_plan \<Rightarrow> snapshot_resolution \<Rightarrow>
     kernel_binding list \<Rightarrow> (string \<times> bool) list" where
  "closure_ladder H ctx rplan cands kernels =
     [(''every_required_requirement_has_legal_disposition'', requirements_disposed ctx rplan),
      (''every_governed_selected_item_has_valid_provenance'', provenance_valid ctx),
      (''every_selected_item_identity_matches_kind_recipe'', identities_match H ctx),
      (''every_selected_item_has_relevance_binding'', relevance_bound ctx rplan),
      (''every_selected_kernel_equals_downstream_kernel_binding'', kernels_match ctx kernels),
      (''no_equal_authority_conflict_is_silently_selected'', conflicts_visible H ctx rplan cands),
      (''no_memory_item_is_used_as_authoritative_resolution'', memory_only_enriches ctx rplan),
      (''capability_and_authority_gaps_are_explicit'', gaps_explicit ctx),
      (''per_requirement_and_global_budgets_are_respected'', budgets_respected H ctx rplan cands),
      (''every_coverage_mode_is_independently_proven'', coverage_proven H ctx rplan cands),
      (''unresolved_unknowns_are_stable_and_bound'', unknowns_stable H ctx rplan)]"

text \<open>\<open>check\<close>, called once per rung: the names executed so far, or the first failure.\<close>

fun run_checks :: "string list \<Rightarrow> (string \<times> bool) list \<Rightarrow> string list res" where
  "run_checks executed [] = Inr executed"
| "run_checks executed ((name, ok) # rest) =
     (if ok then run_checks (executed @ [name]) rest else Inl (closure_fail name))"

definition validate_closure ::
  "(string \<Rightarrow> string) \<Rightarrow> compiled_task_context \<Rightarrow> context_requirement_plan \<Rightarrow> snapshot_resolution \<Rightarrow>
     kernel_binding list \<Rightarrow> closure_report res" where
  "validate_closure H ctx rplan cands kernels =
     bindR (run_checks [] (closure_ladder H ctx rplan cands kernels)) (\<lambda>executed.
       if executed \<noteq> CONTEXT_CHECKS
       then Inl (closure_fail ''context_closure_ladder_is_complete'')
       else Inr \<lparr>closure_checks = executed, closure_passed = True\<rparr>)"

definition closure_report_json :: "closure_report \<Rightarrow> json" where
  "closure_report_json r =
     JObj [(''checks'', jstrs (closure_checks r)), (''passed'', JBool (closure_passed r))]"

section \<open>What a closure report certifies\<close>

lemma run_checks_Inr:
  "run_checks executed cs = Inr ns \<longleftrightarrow> list_all snd cs \<and> ns = executed @ map fst cs"
  by (induction executed cs rule: run_checks.induct) auto

lemma run_checks_Inl:
  "run_checks executed cs = Inl e \<longleftrightarrow>
     (\<exists>name. find (\<lambda>c. \<not> snd c) cs = Some (name, False) \<and> e = closure_fail name)"
  by (induction executed cs rule: run_checks.induct) auto

lemma validate_closure_Inr:
  "validate_closure H ctx rplan cands kernels = Inr rep \<longleftrightarrow>
     rep = \<lparr>closure_checks = CONTEXT_CHECKS, closure_passed = True\<rparr>
     \<and> list_all snd (closure_ladder H ctx rplan cands kernels)"
proof -
  have "map fst (closure_ladder H ctx rplan cands kernels) = CONTEXT_CHECKS"
    by (simp add: closure_ladder_def CONTEXT_CHECKS_def)
  then show ?thesis
    by (auto simp: validate_closure_def bindR_eq_Inr run_checks_Inr)
qed

lemma closure_passes:
  assumes "validate_closure H ctx rplan cands kernels = Inr rep"
  shows "requirements_disposed ctx rplan" "identities_match H ctx" "relevance_bound ctx rplan"
    "conflicts_visible H ctx rplan cands" "gaps_explicit ctx"
    "budgets_respected H ctx rplan cands" "coverage_proven H ctx rplan cands"
  using assms by (simp_all add: validate_closure_Inr closure_ladder_def)

lemma fst_fold_put: "fst ` set (fold (\<lambda>x. dict_put (f x) (g x)) xs d) = fst ` set d \<union> f ` set xs"
  by (induction xs arbitrary: d) (auto simp: fst_dict_put)

lemma distinct_fold_put: "distinct (map fst d) \<Longrightarrow> distinct (map fst (fold (\<lambda>x. dict_put (f x) (g x)) xs d))"
  by (induction xs arbitrary: d) (simp_all add: distinct_dict_put)

lemma set_eligible_items: "fst ` set (eligible_items view) = item_id ` set (settled_items (res_groups view))"
  by (simp add: eligible_items_def fst_fold_put)

lemma length_eligible_items:
  "length (eligible_items view) = card (item_id ` set (settled_items (res_groups view)))"
proof -
  have "distinct (map fst (eligible_items view))"
    by (simp add: eligible_items_def distinct_fold_put)
  then show ?thesis
    using set_eligible_items [of view] by (metis distinct_card length_map set_map)
qed

lemma frontier_loop_subset: "set (frontier_loop r acc its) \<subseteq> set acc \<union> set its"
  by (induction r acc its rule: frontier_loop.induct) auto

lemma eligible_frontier_subset: "set (eligible_frontier r view) \<subseteq> set (settled_items (res_groups view))"
  using frontier_loop_subset [of r "[]"] by (fastforce simp: eligible_frontier_def)

text \<open>
  What a proven stop means: an offered candidate that is not selected could not be added to what
  the requirement selected from its frontier, or to the selection at that moment, within a bound.
\<close>

definition budget_forbids ::
  "compiled_task_context \<Rightarrow> context_requirement_plan \<Rightarrow> context_requirement \<Rightarrow> resolved_candidates \<Rightarrow> bool" where
  "budget_forbids ctx rplan r view \<longleftrightarrow>
     (let taken = map item_id (taken_items ctx r);
          adm = filter (\<lambda>it. item_id it \<in> set taken) (eligible_frontier r view);
          uniq = map snd (selection_at_stop ctx rplan r adm) in
      list_ex (\<lambda>it. item_id it \<notin> set taken \<and>
        ((case max_items r of None \<Rightarrow> False | Some n \<Rightarrow> int (length (adm @ [it])) > n)
         \<or> (case max_bytes r of None \<Rightarrow> False | Some n \<Rightarrow> int (total_cost (adm @ [it])) > n)
         \<or> int (length (uniq @ [it])) > max_total_items (global_budget rplan)
         \<or> int (total_cost (uniq @ [it])) > max_total_bytes (global_budget rplan)))
        (settled_items (res_groups view)))"

lemma total_cost_append [simp]: "total_cost (xs @ ys) = total_cost xs + total_cost ys"
  by (simp add: total_cost_def)

lemma total_cost_single [simp]: "total_cost [it] = canonical_cost it"
  by (simp add: total_cost_def)

lemma budget_stop_forbids:
  assumes "budget_stop_proven ctx rplan r view"
  shows "budget_forbids ctx rplan r view"
proof -
  let ?taken = "map item_id (taken_items ctx r)"
  obtain u where w: "stop_proven_by ctx rplan r view u"
    using assms by (auto simp: budget_stop_proven_def split: option.splits)
  show ?thesis
  proof (cases "find (\<lambda>it. item_id it \<notin> set ?taken) (eligible_frontier r view)")
    case None
    then show ?thesis using w by (simp add: stop_proven_by_def Let_def)
  next
    case (Some it)
    have f: "it \<in> set (eligible_frontier r view)" "item_id it \<notin> set ?taken"
      using Some by (auto simp: find_Some_iff simp del: set_map)
    have m: "it \<in> set (settled_items (res_groups view))" "item_id it \<notin> set ?taken"
      using f eligible_frontier_subset [of r view] by blast+
    note w' = w [unfolded stop_proven_by_def Let_def Some option.case]
    show ?thesis
      unfolding budget_forbids_def Let_def list_ex_iff
      by (rule bexI [of _ it])
        (use m w' in \<open>auto simp del: set_map split: if_splits option.splits\<close>)
  qed
qed

lemma relevance_planned:
  assumes "relevance_bound ctx rplan" "x \<in> set (selected_items ctx)"
  obtains r where "r \<in> set (plan_requirements rplan)" "x \<in> set (taken_items ctx r)"
proof -
  obtain rid where "rid \<in> set (selected_because x)" "rid \<in> set (map requirement_id (plan_requirements rplan))"
    using assms by (cases "selected_because x") (auto simp: relevance_bound_def list_all_iff)
  then show ?thesis using that assms(2) by (auto simp: taken_items_def)
qed

lemma no_coverage_breach:
  assumes "\<not> coverage_breach r eligible taken keys disposed truncated"
  shows "set taken \<subseteq> fst ` set eligible"
    and "coverage_mode r = ALL_ELIGIBLE \<Longrightarrow> fst ` set eligible \<subseteq> set taken \<or> truncated"
    and "coverage_mode r = MINIMUM \<Longrightarrow> int (card (set taken)) \<le> min (min_items r) (int (length eligible))"
    and "coverage_mode r = MINIMUM \<Longrightarrow>
      int (card (set taken)) = min (min_items r) (int (length eligible)) \<or> truncated"
    and "coverage_mode r = SEMANTIC_KEYS \<Longrightarrow> set keys \<subseteq> set (required_semantic_keys r)"
    and "coverage_mode r = SEMANTIC_KEYS \<Longrightarrow>
      snd ` set eligible \<inter> set (required_semantic_keys r) \<subseteq> set keys \<union> set disposed \<or> truncated"
proof -
  have c: "length (dedup_first taken) = card (set taken)"
    by (metis distinct_card distinct_dedup_first set_dedup_first)
  note u = assms [unfolded coverage_breach_def Let_def list_ex_iff c]
  show "set taken \<subseteq> fst ` set eligible"
    using u by (auto split: if_splits)
  show "coverage_mode r = ALL_ELIGIBLE \<Longrightarrow> fst ` set eligible \<subseteq> set taken \<or> truncated"
    using u by (auto split: if_splits)
  show "coverage_mode r = MINIMUM \<Longrightarrow> int (card (set taken)) \<le> min (min_items r) (int (length eligible))"
    using u by (simp add: not_less split: if_splits)
  show "coverage_mode r = MINIMUM \<Longrightarrow>
      int (card (set taken)) = min (min_items r) (int (length eligible)) \<or> truncated"
    using u by (auto split: if_splits)
  show "coverage_mode r = SEMANTIC_KEYS \<Longrightarrow> set keys \<subseteq> set (required_semantic_keys r)"
    using u by (auto split: if_splits)
  show "coverage_mode r = SEMANTIC_KEYS \<Longrightarrow>
      snd ` set eligible \<inter> set (required_semantic_keys r) \<subseteq> set keys \<union> set disposed \<or> truncated"
    using u by (force split: if_splits)
qed

text \<open>The identities a requirement could select, as its recomputed view offers them.\<close>

definition offered :: "resolved_candidates \<Rightarrow> string set" where
  "offered view = item_id ` set (settled_items (res_groups view))"

lemma offered_matches:
  "i \<in> offered (view_of H cands r) \<Longrightarrow> \<exists>it \<in> set cands. item_id it = i \<and> matches_requirement r it"
  using eligible_view.settled_mem [of "res_groups (view_of H cands r)"]
  by (fastforce simp: offered_def view_of_def)

lemma no_requirement_coverage_breach:
  assumes "coverage_proven H ctx rplan cands" "r \<in> set (plan_requirements rplan)"
  shows "\<not> coverage_breach r (eligible_items (view_of H cands r)) (map item_id (taken_items ctx r))
       (map semantic_key (taken_items ctx r))
       (conflict_keys_of H ctx cands (plan_requirements rplan) (requirement_id r))
       (budget_stop_proven ctx rplan r (view_of H cands r))"
  using assms by (auto simp: coverage_proven_def list_ex_iff requirement_coverage_breach_def)

section \<open>Properties\<close>

definition sample_context :: "context_item list \<Rightarrow> compiled_task_context" where
  "sample_context laws = \<lparr>ctx_scope = sample_scope [''a''], ctx_entities = [], ctx_repository_state = [],
     ctx_constraints = [], ctx_law = laws, ctx_decisions = [], ctx_dependencies = [], ctx_evidence = [],
     ctx_memory = [], ctx_kernels = [],
     ctx_capabilities = \<lparr>cap_required = [], cap_available = [], cap_unavailable = [], cap_unknown = []\<rparr>,
     ctx_authority = \<lparr>auth_required = [], auth_granted = [], auth_limits = [], auth_unknown = [],
       effective_order = [''pack''], effective_order_source = COMPILER_DEFAULT\<rparr>,
     ctx_unknowns = [],
     ctx_provenance = \<lparr>prov_scope_digest = ''0'', discovery_digest = ''0'',
       context_requirements_digest = ''0'', prov_discovery_digests = [], prov_item_digests = [],
       prov_kernel_digests = [],
       prov_compiler = \<lparr>package_version = ''1.0.0'', semantics_version = ''1.3.0''\<rparr>\<rparr>\<rparr>"

definition sample_selected_law :: context_item where
  "sample_selected_law = sample_valid_law\<lparr>selected_because := [''r1'']\<rparr>"

lemma sample_closure:
  "\<exists>rep. validate_closure (\<lambda>_. ''0'') (sample_context [sample_selected_law])
     (sample_plan [sample_law_requirement]) [sample_valid_law] [] = Inr rep"
proof -
  have "list_all snd (closure_ladder (\<lambda>_. ''0'') (sample_context [sample_selected_law])
     (sample_plan [sample_law_requirement]) [sample_valid_law] [])"
    by code_simp
  then show ?thesis by (simp add: validate_closure_Inr)
qed



text \<open>C10: Nothing unbacked enters a certified context: every selected item carries the identity
  of a snapshot candidate that matches one of the planned requirements it names, and, up to a hash
  collision, makes the same claim with the same applicability from the same source.\<close>

theorem closure_backs_selection:
  assumes "validate_closure H ctx rplan cands kernels = Inr rep" "x \<in> set (selected_items ctx)"
  shows "\<exists>r \<in> set (plan_requirements rplan). \<exists>it \<in> set cands.
    requirement_id r \<in> set (selected_because x) \<and> matches_requirement r it \<and> item_id it = item_id x
    \<and> (item_ok x \<and> item_ok it \<and> item_id it = expected_item_id H it \<longrightarrow>
         normalize_json (item_identity_payload it) = normalize_json (item_identity_payload x)
         \<or> hash_collision H (item_identity_payload it) (item_identity_payload x))"
proof -
  note p = closure_passes [OF assms(1)]
  obtain r where r: "r \<in> set (plan_requirements rplan)" "x \<in> set (taken_items ctx r)"
    using relevance_planned [OF p(3) assms(2)] by blast
  have "item_id x \<in> offered (view_of H cands r)"
    using no_coverage_breach(1) [OF no_requirement_coverage_breach [OF p(7) r(1)]] r(2)
    unfolding set_eligible_items offered_def by auto
  then obtain it where it: "it \<in> set cands" "item_id it = item_id x" "matches_requirement r it"
    using offered_matches by blast
  have e: "item_id x = expected_item_id H x"
    using p(2) assms(2) by (simp add: identities_match_def list_all_iff)
  have "item_ok x \<Longrightarrow> item_ok it \<Longrightarrow> item_id it = expected_item_id H it \<Longrightarrow>
      normalize_json (item_identity_payload it) = normalize_json (item_identity_payload x)
         \<or> hash_collision H (item_identity_payload it) (item_identity_payload x)"
    using item_ident.ident_inj [of it x H] it(2) e by simp
  then show ?thesis
    using it r by (intro bexI [of _ r] bexI [of _ it]) (auto simp: taken_items_def)
qed

theorem closure_backs_selection_witness:
  "\<exists>r it. matches_requirement r it \<and> item_id it = item_id sample_selected_law"
proof -
  obtain rep where rep: "validate_closure (\<lambda>_. ''0'') (sample_context [sample_selected_law])
      (sample_plan [sample_law_requirement]) [sample_valid_law] [] = Inr rep"
    using sample_closure by blast
  have "sample_selected_law \<in> set (selected_items (sample_context [sample_selected_law]))"
    by (simp add: selected_items_def sample_context_def)
  from closure_backs_selection [OF rep this] show ?thesis by (elim bexE conjE) blast
qed

text \<open>Closure fails closed: it either returns a report and then every check holds, or it
  raises, and the error names the first check, in the order of the ladder, that does not hold.\<close>

theorem closure_fails_closed:
  "case validate_closure H ctx rplan cands kernels of
     Inr rep \<Rightarrow> closure_passed rep \<and> closure_checks rep = map fst (closure_ladder H ctx rplan cands kernels)
       \<and> list_all snd (closure_ladder H ctx rplan cands kernels)
   | Inl e \<Rightarrow> \<exists>passed name rest. closure_ladder H ctx rplan cands kernels = passed @ (name, False) # rest
       \<and> list_all snd passed \<and> e = closure_fail name"
proof (cases "validate_closure H ctx rplan cands kernels")
  case (Inr rep)
  then have "rep = \<lparr>closure_checks = CONTEXT_CHECKS, closure_passed = True\<rparr>"
    "list_all snd (closure_ladder H ctx rplan cands kernels)"
    by (simp_all only: validate_closure_Inr)
  with Inr show ?thesis by (simp add: closure_ladder_def CONTEXT_CHECKS_def)
next
  case (Inl e)
  have f: "run_checks ns cs = Inl e \<Longrightarrow>
      \<exists>passed name rest. cs = passed @ (name, False) # rest \<and> list_all snd passed \<and> e = closure_fail name" for ns cs
  proof (induction ns cs rule: run_checks.induct)
    case (2 ns name ok rest)
    show ?case
    proof (cases ok)
      case True
      with 2 obtain passed name' rest' where "rest = passed @ (name', False) # rest'" "list_all snd passed"
        "e = closure_fail name'" by auto
      with True show ?thesis by (intro exI [of _ "(name, ok) # passed"]) auto
    next
      case False
      with 2 show ?thesis
        by (intro exI [of _ "[]"] exI [of _ name] exI [of _ rest]) simp
    qed
  qed simp
  have "run_checks [] (closure_ladder H ctx rplan cands kernels) = Inl e"
  proof (cases "run_checks [] (closure_ladder H ctx rplan cands kernels)")
    case (Inr ns)
    then have "validate_closure H ctx rplan cands kernels = Inr \<lparr>closure_checks = CONTEXT_CHECKS, closure_passed = True\<rparr>"
      unfolding validate_closure_Inr by (simp add: run_checks_Inr)
    then show ?thesis using Inl by simp
  qed (use Inl in \<open>simp add: validate_closure_def\<close>)
  from f [OF this] show ?thesis using Inl by simp
qed

end
