(* ===== verification/RequirementPlanner.thy ===== *)
theory RequirementPlanner
  imports ContextCompile
begin

text \<open>
  \<open>compiler/context_requirements.py\<close>: the planner that turns the task scope, the discovery
  projection, the activation plan and the context needs of the selected kernels into the typed
  requirement plan driving detailed selection.
\<close>

section \<open>Canonical bounds and priorities\<close>

definition GLOBAL_MAX_ITEMS :: int where "GLOBAL_MAX_ITEMS = 64"
definition GLOBAL_MAX_BYTES :: int where "GLOBAL_MAX_BYTES = 262144"

fun PRIORITY :: "context_kind \<Rightarrow> int" where
  "PRIORITY ARCHITECTURE_CONSTRAINT = 10"
| "PRIORITY APPLICABLE_LAW = 20"
| "PRIORITY REPOSITORY_STATE = 30"
| "PRIORITY RELEVANT_ENTITY = 40"
| "PRIORITY DEPENDENCY_CONTEXT = 50"
| "PRIORITY PRIOR_DECISION = 60"
| "PRIORITY EVIDENCE_REF = 70"
| "PRIORITY AUTHORITY_FACT = 80"
| "PRIORITY CAPABILITY_FACT = 90"
| "PRIORITY MEMORY_CONTEXT = 100"

definition KERNEL_NEED_PRIORITY_OFFSET :: int where "KERNEL_NEED_PRIORITY_OFFSET = 1"

definition GOVERNING_KINDS :: "context_kind list" where
  "GOVERNING_KINDS = [ARCHITECTURE_CONSTRAINT, APPLICABLE_LAW, PRIOR_DECISION, AUTHORITY_FACT]"

definition PER_REQUIREMENT_MAX_ITEMS :: int where "PER_REQUIREMENT_MAX_ITEMS = 16"
definition MEMORY_MIN_ITEMS :: int where "MEMORY_MIN_ITEMS = 3"
definition PER_REQUIREMENT_MAX_BYTES :: int where "PER_REQUIREMENT_MAX_BYTES = 65536"

section \<open>Needs\<close>

definition authority_floor :: "context_kind \<Rightarrow> authority_level \<Rightarrow> authority_level" where
  "authority_floor kind minimum =
     (if kind \<in> set GOVERNED_ONLY_KINDS \<and> AUTHORITY_RANK minimum > AUTHORITY_RANK GOVERNED_VERIFIED
      then GOVERNED_VERIFIED else minimum)"

type_synonym need_signature_key = "string \<times> bool \<times> string \<times> string \<times> string \<times> string list"

definition need_signature :: "kernel_context_need \<Rightarrow> need_signature_key" where
  "need_signature n = (kind_value (need_kind n), need_required n, need_reason n,
     coverage_mode_value (need_coverage n),
     authority_level_value (authority_floor (need_kind n) (need_authority n)), need_keys n)"

section \<open>The planner\<close>

text \<open>\<open>_requirement\<close> with the defaults of its keyword arguments, before construction.\<close>

definition requirement_draft ::
  "context_kind \<Rightarrow> string \<Rightarrow> bool \<Rightarrow> coverage_mode \<Rightarrow> int \<Rightarrow> missing_policy \<Rightarrow> context_requirement" where
  "requirement_draft kind why req coverage least policy =
     \<lparr>requirement_id = [], req_kind = kind, req_reason = why, required = req,
      req_scope_mode = GLOBAL, req_scope_refs = [], freshness_requirement = SNAPSHOT_BOUND,
      coordinate_constraint = None, minimum_authority = INFORMATIVE, priority = PRIORITY kind,
      coverage_mode = coverage, min_items = least, required_semantic_keys = [],
      max_items = Some PER_REQUIREMENT_MAX_ITEMS, max_bytes = Some PER_REQUIREMENT_MAX_BYTES,
      missing_policy = policy, kernel_need_refs = []\<rparr>"

definition governing_scope :: "string list \<Rightarrow> context_kind \<Rightarrow> context_scope_mode \<times> string list" where
  "governing_scope scoped_refs kind =
     (if scoped_refs = [] then (GLOBAL, [])
      else if kind \<in> set GOVERNING_KINDS \<or> kind \<in> {REPOSITORY_STATE, RELEVANT_ENTITY, DEPENDENCY_CONTEXT}
        then (SCOPED, scoped_refs)
      else (GLOBAL, []))"

definition in_scope_of :: "string list \<Rightarrow> context_requirement \<Rightarrow> context_requirement" where
  "in_scope_of scoped_refs r =
     r\<lparr>req_scope_mode := fst (governing_scope scoped_refs (req_kind r)),
       req_scope_refs := snd (governing_scope scoped_refs (req_kind r))\<rparr>"

text \<open>A requirement that nothing makes blocking.\<close>

definition optional_draft :: "context_kind \<Rightarrow> string \<Rightarrow> context_requirement" where
  "optional_draft kind why = requirement_draft kind why False ALL_ELIGIBLE 0 OPTIONAL"

definition baseline_drafts :: "string list \<Rightarrow> bool \<Rightarrow> context_requirement list" where
  "baseline_drafts scoped_refs architecture_required =
     (let has_targets = scoped_refs \<noteq> [] in
      [in_scope_of scoped_refs (requirement_draft ARCHITECTURE_CONSTRAINT
         (if architecture_required then ''architecture materiality proven by governed discovery signals''
          else ''architecture constraints applicable to the task scope, if any'')
         architecture_required ALL_ELIGIBLE (if architecture_required then 1 else 0)
         (if architecture_required then PRESERVE_UNKNOWN else OPTIONAL)),
       in_scope_of scoped_refs (optional_draft APPLICABLE_LAW
         ''law and governance rules applicable to the compiled task scope''),
       (in_scope_of scoped_refs (requirement_draft REPOSITORY_STATE
         (if has_targets then ''repository facts about the explicitly targeted references''
          else ''repository facts relevant to the task scope, if any'')
         has_targets ALL_ELIGIBLE (if has_targets then 1 else 0)
         (if has_targets then PRESERVE_UNKNOWN else OPTIONAL)))\<lparr>minimum_authority := GOVERNED_VERIFIED\<rparr>,
       in_scope_of scoped_refs (optional_draft RELEVANT_ENTITY
         ''entities materially related to the task scope''),
       in_scope_of scoped_refs (optional_draft DEPENDENCY_CONTEXT
         ''dependency seams materially relevant to the task scope''),
       in_scope_of scoped_refs (optional_draft PRIOR_DECISION
         ''prior decisions governing the task scope, with supersession preserved''),
       (optional_draft EVIDENCE_REF
         ''evidence supporting governed claims selected for this task'')\<lparr>minimum_authority := UNVERIFIED\<rparr>,
       (in_scope_of scoped_refs (optional_draft AUTHORITY_FACT
         ''proven authority grants and limits bearing on the compiled task''))
           \<lparr>minimum_authority := GOVERNED_VERIFIED\<rparr>,
       (optional_draft CAPABILITY_FACT
         ''proven capability availability bearing on the compiled task'')
           \<lparr>minimum_authority := GOVERNED_VERIFIED\<rparr>,
       (requirement_draft MEMORY_CONTEXT
         ''non-authoritative recall that may enrich, never resolve, the task''
         False MINIMUM MEMORY_MIN_ITEMS OPTIONAL)\<lparr>max_items := Some MEMORY_MIN_ITEMS\<rparr>])"

text \<open>Every declared need with the reference of the kernel that declares it.\<close>

definition declared_needs :: "kernel_binding list \<Rightarrow> (kernel_context_need \<times> string) list" where
  "declared_needs kernels = concat (map (\<lambda>b.
     map (\<lambda>n. (n, kb_source_ref b @ ''#'' @ need_id n)) (kb_context_needs b)) kernels)"

definition need_draft :: "string list \<Rightarrow> kernel_context_need \<Rightarrow> string list \<Rightarrow> context_requirement" where
  "need_draft scoped_refs n refs =
     (let mode = (if scoped_refs \<noteq> [] \<and> need_kind n \<noteq> MEMORY_CONTEXT then SCOPED else GLOBAL);
          least = (if need_coverage n = SEMANTIC_KEYS then int (length (need_keys n))
                   else if need_required n then 1 else 0)
      in (requirement_draft (need_kind n) (need_reason n) (need_required n) (need_coverage n) least
            (if need_required n then PRESERVE_UNKNOWN else OPTIONAL))
         \<lparr>req_scope_mode := mode, req_scope_refs := (if mode = SCOPED then scoped_refs else []),
          minimum_authority := authority_floor (need_kind n) (need_authority n),
          priority := PRIORITY (need_kind n) + KERNEL_NEED_PRIORITY_OFFSET,
          required_semantic_keys := need_keys n,
          max_items := Some (max PER_REQUIREMENT_MAX_ITEMS least),
          kernel_need_refs := sort refs\<rparr>)"

definition kernel_drafts :: "string list \<Rightarrow> kernel_binding list \<Rightarrow> context_requirement list" where
  "kernel_drafts scoped_refs kernels =
     map (\<lambda>(signature, entries). need_draft scoped_refs (fst (hd entries)) (map snd entries))
       (sort_key fst (group_by (\<lambda>e. need_signature (fst e)) (declared_needs kernels)))"

definition requirement_drafts ::
  "task_scope \<Rightarrow> discovery_context \<Rightarrow> activation_plan \<Rightarrow> kernel_binding list \<Rightarrow> context_requirement list" where
  "requirement_drafts scope disc p kernels =
     (let scoped_refs = sorted_unique (eligible_refs scope) in
      baseline_drafts scoped_refs
        (mt_required (architecture_materiality p) \<and> architecture_signal_refs disc \<noteq> [])
      @ kernel_drafts scoped_refs kernels)"

definition plan_context ::
  "(string \<Rightarrow> string) \<Rightarrow> task_scope \<Rightarrow> discovery_context \<Rightarrow> activation_plan \<Rightarrow> kernel_binding list \<Rightarrow>
     context_requirement_plan res" where
  "plan_context H scope disc p kernels =
     bindR (mapR (make_requirement H) (requirement_drafts scope disc p kernels)) (\<lambda>rs.
     make_plan H \<lparr>plan_id = [], plan_scope_digest = scope_sha256 H scope, plan_route = matched_route p,
       global_budget = \<lparr>max_total_items = GLOBAL_MAX_ITEMS, max_total_bytes = GLOBAL_MAX_BYTES\<rparr>,
       plan_requirements = rs\<rparr>)"

section \<open>What the drafts look like\<close>


lemma authority_level_value_inject [simp]: "authority_level_value a = authority_level_value b \<longleftrightarrow> a = b"
  by (cases a; cases b) auto
lemma coverage_mode_value_inject [simp]: "coverage_mode_value a = coverage_mode_value b \<longleftrightarrow> a = b"
  by (cases a; cases b) auto
lemma missing_policy_value_inject [simp]: "missing_policy_value a = missing_policy_value b \<longleftrightarrow> a = b"
  by (cases a; cases b) auto
lemma freshness_value_inject [simp]: "freshness_value a = freshness_value b \<longleftrightarrow> a = b"
  by (cases a; cases b) auto
lemma jint_opt_inject [simp]: "jint_opt a = jint_opt b \<longleftrightarrow> a = b"
  by (cases a; cases b) (auto simp: jint_opt_def)
lemma normalize_jint_opt [simp]: "normalize_json (jint_opt a) = jint_opt a"
  by (cases a) (auto simp: jint_opt_def)

lemma requirement_payload_inj:
  assumes "normalize_json (requirement_payload r) = normalize_json (requirement_payload r')"
  shows "r\<lparr>requirement_id := i\<rparr> = r'\<lparr>requirement_id := i\<rparr>"
proof -
  have "req_kind r = req_kind r' \<and> req_reason r = req_reason r' \<and> required r = required r'
    \<and> req_scope_mode r = req_scope_mode r' \<and> req_scope_refs r = req_scope_refs r'
    \<and> freshness_requirement r = freshness_requirement r' \<and> coordinate_constraint r = coordinate_constraint r'
    \<and> minimum_authority r = minimum_authority r' \<and> priority r = priority r'
    \<and> coverage_mode r = coverage_mode r' \<and> min_items r = min_items r'
    \<and> required_semantic_keys r = required_semantic_keys r' \<and> max_items r = max_items r'
    \<and> max_bytes r = max_bytes r' \<and> missing_policy r = missing_policy r'
    \<and> kernel_need_refs r = kernel_need_refs r'"
    using assms by (simp add: requirement_payload_def requirement_fields_def)
  then show ?thesis by (simp add: context_requirement.equality)
qed


definition draft_ok :: "context_requirement \<Rightarrow> bool" where
  "draft_ok r \<longleftrightarrow> requirement_id r = [] \<and> non_blank (req_reason r)
     \<and> first_violation (requirement_violations (canon_requirement r)) = Inr ()"

lemma baseline_drafts_ok:
  "list_all draft_ok (baseline_drafts refs arch)"
    by (cases arch; cases "refs = []")
      (simp_all add: baseline_drafts_def draft_ok_def requirement_draft_def optional_draft_def in_scope_of_def
        governing_scope_def GOVERNING_KINDS_def canon_requirement_def requirement_violations_def
        PER_REQUIREMENT_MAX_ITEMS_def PER_REQUIREMENT_MAX_BYTES_def MEMORY_MIN_ITEMS_def non_blank_def
        is_space_def char_nat_def)

lemma need_draft_ok: "need_ok n \<Longrightarrow> draft_ok (need_draft refs n srcs)"
  by (cases "need_kind n"; cases "need_coverage n")
    (auto simp: need_draft_def draft_ok_def requirement_draft_def need_ok_def canon_requirement_def
      requirement_violations_def PER_REQUIREMENT_MAX_ITEMS_def PER_REQUIREMENT_MAX_BYTES_def Let_def
      sorted_unique_id KERNEL_NEED_PRIORITY_OFFSET_def)


lemma need_group:
  assumes "(sig, es) \<in> set (group_by (\<lambda>e. need_signature (fst e)) ds)"
  shows "es = filter (\<lambda>e. need_signature (fst e) = sig) ds" "hd es \<in> set ds"
    "need_signature (fst (hd es)) = sig"
proof -
  have es: "es = filter (\<lambda>e. need_signature (fst e) = sig) ds" "es \<noteq> []"
    using assms unfolding group_by_mem_iff by blast+
  have "hd es \<in> set es" using es(2) by simp
  then have "hd es \<in> set (filter (\<lambda>e. need_signature (fst e) = sig) ds)" unfolding es(1) [symmetric] .
  then show "es = filter (\<lambda>e. need_signature (fst e) = sig) ds" "hd es \<in> set ds"
    "need_signature (fst (hd es)) = sig" using es(1) by simp_all
qed

lemma kernel_drafts_mem:
  "r \<in> set (kernel_drafts refs kernels) \<longleftrightarrow>
     (\<exists>(sig, es) \<in> set (group_by (\<lambda>e. need_signature (fst e)) (declared_needs kernels)).
        r = need_draft refs (fst (hd es)) (map snd es))"
  by (auto simp: kernel_drafts_def)

lemma need_signature_eq:
  "need_signature n = need_signature m \<longleftrightarrow> need_kind n = need_kind m \<and> need_required n = need_required m
     \<and> need_reason n = need_reason m \<and> need_coverage n = need_coverage m
     \<and> authority_floor (need_kind n) (need_authority n) = authority_floor (need_kind m) (need_authority m)
     \<and> need_keys n = need_keys m"
  by (auto simp: need_signature_def)

lemma need_draft_signature:
  assumes "need_ok n" "need_ok m" "canon_requirement (need_draft refs n srcs) = canon_requirement (need_draft refs m srcs')"
  shows "need_signature n = need_signature m"
proof -
  have "need_kind n = need_kind m" "need_required n = need_required m" "need_reason n = need_reason m"
    "need_coverage n = need_coverage m"
    "authority_floor (need_kind n) (need_authority n) = authority_floor (need_kind m) (need_authority m)"
    "sorted_unique (need_keys n) = sorted_unique (need_keys m)"
    using arg_cong [OF assms(3), of req_kind] arg_cong [OF assms(3), of required]
      arg_cong [OF assms(3), of req_reason] arg_cong [OF assms(3), of coverage_mode]
      arg_cong [OF assms(3), of minimum_authority] arg_cong [OF assms(3), of required_semantic_keys]
    by (simp_all add: canon_requirement_def need_draft_def requirement_draft_def Let_def)
  then show ?thesis using assms(1,2) by (simp add: need_signature_eq need_ok_def sorted_unique_id)
qed

lemma declared_needs_ok:
  "list_all binding_ok kernels \<Longrightarrow> x \<in> set (declared_needs kernels) \<Longrightarrow> need_ok (fst x)"
  by (auto simp: declared_needs_def binding_ok_def list_all_iff)

lemma distinct_kernel_drafts:
  assumes "list_all binding_ok kernels"
  shows "distinct (map canon_requirement (kernel_drafts refs kernels))"
proof -
  let ?g = "group_by (\<lambda>e. need_signature (fst e)) (declared_needs kernels)"
  have "distinct ?g" using distinct_group_by [of "\<lambda>e. need_signature (fst e)" "declared_needs kernels"] by (simp only: distinct_map)
  moreover have "inj_on (\<lambda>e. canon_requirement (need_draft refs (fst (hd (snd e))) (map snd (snd e)))) (set ?g)"
  proof (rule inj_onI)
    fix e e'
    assume a: "e \<in> set ?g" "e' \<in> set ?g"
      "canon_requirement (need_draft refs (fst (hd (snd e))) (map snd (snd e))) =
       canon_requirement (need_draft refs (fst (hd (snd e'))) (map snd (snd e')))"
    note g = need_group [of "fst e" "snd e", simplified, OF a(1)] need_group [of "fst e'" "snd e'", simplified, OF a(2)]
    have "need_signature (fst (hd (snd e))) = need_signature (fst (hd (snd e')))"
      using a(3) declared_needs_ok [OF assms g(2)] declared_needs_ok [OF assms g(5)]
      by (intro need_draft_signature)
    then have "fst e = fst e'" using g(3,6) by simp
    then show "e = e'" using g(1,4) by (simp add: prod_eq_iff)
  qed
  ultimately show ?thesis
    by (simp add: kernel_drafts_def distinct_map comp_def case_prod_beta)
qed

lemma requirement_drafts_ok:
  assumes "list_all binding_ok kernels"
  shows "list_all draft_ok (requirement_drafts scope disc p kernels)"
proof -
  have "draft_ok r" if "r \<in> set (kernel_drafts refs kernels)" for r refs
  proof -
    obtain sig es where e: "(sig, es) \<in> set (group_by (\<lambda>e. need_signature (fst e)) (declared_needs kernels))"
      "r = need_draft refs (fst (hd es)) (map snd es)"
      using \<open>r \<in> set (kernel_drafts refs kernels)\<close> unfolding kernel_drafts_mem by blast
    show ?thesis unfolding e(2)
      by (rule need_draft_ok [OF declared_needs_ok [OF assms need_group(2) [OF e(1)]]])
  qed
  then show ?thesis
    using baseline_drafts_ok by (auto simp: requirement_drafts_def Let_def list_all_iff)
qed

lemma baseline_priorities:
  "map priority (baseline_drafts refs arch) = [10, 20, 30, 40, 50, 60, 70, 80, 90, 100]"
  by (simp add: baseline_drafts_def Let_def in_scope_of_def requirement_draft_def optional_draft_def)

lemma distinct_requirement_drafts:
  assumes "list_all binding_ok kernels"
  shows "distinct (map canon_requirement (requirement_drafts scope disc p kernels))"
proof -
  have b: "distinct (map canon_requirement (baseline_drafts refs arch))" for refs arch
  proof -
    have "map priority (map canon_requirement (baseline_drafts refs arch)) = map priority (baseline_drafts refs arch)"
      by (simp add: canon_requirement_def)
    then have "distinct (map priority (map canon_requirement (baseline_drafts refs arch)))"
      by (simp only: baseline_priorities) simp
    then show ?thesis by (simp only: distinct_map)
  qed
  have k: "priority r mod 10 = 1" if "r \<in> set (kernel_drafts refs kernels)" for r refs
  proof -
    obtain n srcs where "r = need_draft refs n srcs"
      using \<open>r \<in> set (kernel_drafts refs kernels)\<close> unfolding kernel_drafts_mem by blast
    then show ?thesis
      by (cases "need_kind n") (simp_all add: need_draft_def Let_def KERNEL_NEED_PRIORITY_OFFSET_def)
  qed
  have m: "priority r mod 10 = 0" if "r \<in> set (baseline_drafts refs arch)" for r refs arch
  proof -
    have "priority r \<in> set (map priority (baseline_drafts refs arch))" using that by simp
    then show ?thesis unfolding baseline_priorities by auto
  qed
  have "canon_requirement r \<noteq> canon_requirement r'" if "r \<in> set (baseline_drafts refs arch)"
    "r' \<in> set (kernel_drafts refs kernels)" for r r' refs arch
  proof
    assume "canon_requirement r = canon_requirement r'"
    from arg_cong [OF this, of priority] have "priority r = priority r'" by (simp add: canon_requirement_def)
    with m [OF that(1)] k [OF that(2)] show False by simp
  qed
  then show ?thesis
    using b distinct_kernel_drafts [OF assms] by (auto simp: requirement_drafts_def Let_def)
qed


definition built :: "(string \<Rightarrow> string) \<Rightarrow> context_requirement \<Rightarrow> context_requirement" where
  "built H r = (canon_requirement r)\<lparr>requirement_id := expected_requirement_id H (canon_requirement r)\<rparr>"

lemma plan_context_built:
  assumes "list_all binding_ok kernels"
  shows "plan_context H scope disc p kernels = make_plan H
    \<lparr>plan_id = [], plan_scope_digest = scope_sha256 H scope, plan_route = matched_route p,
       global_budget = \<lparr>max_total_items = GLOBAL_MAX_ITEMS, max_total_bytes = GLOBAL_MAX_BYTES\<rparr>,
       plan_requirements = map (built H) (requirement_drafts scope disc p kernels)\<rparr>"
proof -
  have "make_requirement H r = Inr (built H r)" if "r \<in> set (requirement_drafts scope disc p kernels)" for r
    using requirement_drafts_ok [OF assms] that
    by (auto simp: list_all_iff draft_ok_def built_def simp del: first_violation_Inr intro!: make_requirement_fresh)
  then have "mapR (make_requirement H) (requirement_drafts scope disc p kernels)
      = Inr (map (built H) (requirement_drafts scope disc p kernels))"
    by (rule mapR_total)
  then show ?thesis by (simp add: plan_context_def)
qed

lemma plan_context_mem:
  assumes "list_all binding_ok kernels" "plan_context H scope disc p kernels = Inr q"
  shows "set (plan_requirements q) = built H ` set (requirement_drafts scope disc p kernels)"
  using assms(2) make_plan_Inr(3) unfolding plan_context_built [OF assms(1)] by fastforce

lemma plan_context_or_collision:
  assumes "list_all binding_ok kernels"
  shows "(\<exists>q. plan_context H scope disc p kernels = Inr q)
    \<or> (\<exists>r r'. {r, r'} \<subseteq> set (requirement_drafts scope disc p kernels)
      \<and> hash_collision H (requirement_payload (canon_requirement r)) (requirement_payload (canon_requirement r')))"
proof -
  let ?ds = "requirement_drafts scope disc p kernels"
  show ?thesis
  proof (cases "distinct (map requirement_id (map (built H) ?ds))")
    case True
    then have "distinct (map requirement_id (order_requirements (map (built H) ?ds)))"
      unfolding order_requirements_def
      by (metis mset_eq_imp_distinct_iff mset_map mset_sort)
    then show ?thesis
      unfolding plan_context_built [OF assms] by (simp add: make_plan_def Let_def)
  next
    case False
    have "distinct (map canon_requirement ?ds)" by (rule distinct_requirement_drafts [OF assms])
    moreover from this have "distinct ?ds" by (simp only: distinct_map)
    ultimately obtain r r' where r: "r \<in> set ?ds" "r' \<in> set ?ds" "canon_requirement r \<noteq> canon_requirement r'"
      "requirement_id (built H r) = requirement_id (built H r')"
      using False by (auto simp: distinct_map inj_on_def)
    have e: "requirement_id (canon_requirement x) = []" if "x \<in> set ?ds" for x
      using requirement_drafts_ok [OF assms] that by (simp add: draft_ok_def list_all_iff)
    have "normalize_json (requirement_payload (canon_requirement r)) \<noteq> normalize_json (requirement_payload (canon_requirement r'))"
      using requirement_payload_inj [where r = "canon_requirement r" and r' = "canon_requirement r'" and i = "[]"] r(1-3) e
      by (metis (no_types, lifting) context_requirement.surjective context_requirement.update_convs(1))
    then have "hash_collision H (requirement_payload (canon_requirement r)) (requirement_payload (canon_requirement r'))"
      using requirement_ident.ident_inj [where x = "canon_requirement r" and y = "canon_requirement r'" and H = H] r(4)
      by (simp add: built_def)
    then show ?thesis using r(1,2) by blast
  qed
qed

lemma plan_context_valid:
  assumes "list_all binding_ok kernels" "plan_context H scope disc p kernels = Inr q"
  shows "list_all (valid_requirement H) (plan_requirements q) \<and> distinct (map requirement_id (plan_requirements q))
      \<and> global_budget q = \<lparr>max_total_items = 64, max_total_bytes = 262144\<rparr>"
proof -
  note m = make_plan_Inr [OF assms(2) [unfolded plan_context_built [OF assms(1)]]]
  have "valid_requirement H r" if r: "r \<in> set (plan_requirements q)" for r
  proof -
    obtain d where d: "d \<in> set (requirement_drafts scope disc p kernels)" "r = built H d" using r m(3) by auto
    have "make_requirement H d = Inr (built H d)"
      using requirement_drafts_ok [OF assms(1)] d(1)
      by (auto simp: list_all_iff draft_ok_def built_def simp del: first_violation_Inr intro!: make_requirement_fresh)
    then show ?thesis using make_requirement_idem d(2) by simp
  qed
  then show ?thesis using m(2,4) by (auto simp: list_all_iff GLOBAL_MAX_ITEMS_def GLOBAL_MAX_BYTES_def)
qed

lemma built_simps [simp]:
  "req_kind (built H r) = req_kind r" "required (built H r) = required r"
  "coverage_mode (built H r) = coverage_mode r" "minimum_authority (built H r) = minimum_authority r"
  "req_scope_mode (built H r) = req_scope_mode r"
  "set (req_scope_refs (built H r)) = set (req_scope_refs r)"
  "set (kernel_need_refs (built H r)) = set (kernel_need_refs r)"
  "required_semantic_keys (built H r) = sorted_unique (required_semantic_keys r)"
  by (simp_all add: built_def canon_requirement_def)

lemma need_draft_simps [simp]:
  "req_kind (need_draft refs n srcs) = need_kind n" "required (need_draft refs n srcs) = need_required n"
  "coverage_mode (need_draft refs n srcs) = need_coverage n"
  "minimum_authority (need_draft refs n srcs) = authority_floor (need_kind n) (need_authority n)"
  "required_semantic_keys (need_draft refs n srcs) = need_keys n"
  "set (kernel_need_refs (need_draft refs n srcs)) = set srcs"
  "req_scope_mode (need_draft refs n srcs) = SCOPED \<Longrightarrow> refs \<noteq> [] \<and> req_scope_refs (need_draft refs n srcs) = refs"
  by (simp_all add: need_draft_def requirement_draft_def Let_def split: if_splits)

lemma baseline_demand_all:
  "list_all (\<lambda>r. (required r \<longrightarrow> req_kind r = REPOSITORY_STATE \<and> refs \<noteq> []
        \<or> req_kind r = ARCHITECTURE_CONSTRAINT \<and> arch)
      \<and> (req_scope_mode r = SCOPED \<longrightarrow> refs \<noteq> [] \<and> req_scope_refs r = refs)) (baseline_drafts refs arch)"
  by (cases arch; cases "refs = []")
    (simp_all add: baseline_drafts_def in_scope_of_def requirement_draft_def optional_draft_def governing_scope_def)

lemma baseline_demand:
  assumes "r \<in> set (baseline_drafts refs arch)"
  shows "required r \<Longrightarrow> req_kind r = REPOSITORY_STATE \<and> refs \<noteq> [] \<or> req_kind r = ARCHITECTURE_CONSTRAINT \<and> arch"
    and "req_scope_mode r = SCOPED \<Longrightarrow> refs \<noteq> [] \<and> req_scope_refs r = refs"
  using bspec [OF baseline_demand_all [unfolded list_all_iff] assms] by blast+

lemma declared_in_group:
  assumes "x \<in> set (declared_needs kernels)"
  shows "need_draft refs (fst (hd (filter (\<lambda>e. need_signature (fst e) = need_signature (fst x)) (declared_needs kernels))))
      (map snd (filter (\<lambda>e. need_signature (fst e) = need_signature (fst x)) (declared_needs kernels)))
    \<in> set (kernel_drafts refs kernels)"
proof -
  let ?es = "filter (\<lambda>e. need_signature (fst e) = need_signature (fst x)) (declared_needs kernels)"
  have "x \<in> set ?es" using assms by simp
  then have "?es \<noteq> []" by (metis empty_iff empty_set)
  then have "(need_signature (fst x), ?es) \<in> set (group_by (\<lambda>e. need_signature (fst e)) (declared_needs kernels))"
    unfolding group_by_mem_iff by blast
  then show ?thesis unfolding kernel_drafts_mem by blast
qed

lemma declared_needs_mem:
  "x \<in> set (declared_needs kernels) \<longleftrightarrow>
     (\<exists>b \<in> set kernels. \<exists>n \<in> set (kb_context_needs b). x = (n, kb_source_ref b @ ''#'' @ need_id n))"
  by (auto simp: declared_needs_def)

section \<open>Properties\<close>

definition sample_binding :: kernel_binding where
  "sample_binding = \<lparr>kernel_id = ''k'', kb_source_ref = ''k.yaml'', kb_source_digest = ''0'', kb_outputs = [],
     kb_context_needs = [\<lparr>need_id = ''law'', need_kind = APPLICABLE_LAW, need_required = True,
       need_reason = ''needs law'', need_coverage = MINIMUM, need_authority = UNVERIFIED, need_keys = []\<rparr>]\<rparr>"

lemma sample_binding_ok: "list_all binding_ok [sample_binding]"
  by code_simp

text \<open>C15: Planning is total: on the bindings kernel resolution produces, a plan comes out, of
  valid requirements with distinct identities under the canonical global budget; the only way to
  fail is a hash collision between two different requirements.\<close>

theorem context_plan_total:
  assumes "list_all binding_ok kernels"
  shows "(\<exists>q. plan_context H scope disc p kernels = Inr q
      \<and> list_all (valid_requirement H) (plan_requirements q)
      \<and> distinct (map requirement_id (plan_requirements q))
      \<and> global_budget q = \<lparr>max_total_items = 64, max_total_bytes = 262144\<rparr>)
    \<or> (\<exists>r r'. {r, r'} \<subseteq> set (requirement_drafts scope disc p kernels)
      \<and> hash_collision H (requirement_payload (canon_requirement r)) (requirement_payload (canon_requirement r')))"
  using plan_context_or_collision [OF assms] plan_context_valid [OF assms] by blast

theorem context_plan_total_witness:
  "\<exists>q. plan_context (\<lambda>bytes. bytes) (sample_scope [''a'']) (sample_discovery []) sample_activation [sample_binding] = Inr q
     \<and> distinct (map requirement_id (plan_requirements q))"
  using context_plan_total [OF sample_binding_ok, of "\<lambda>bytes. bytes" "sample_scope [''a'']" "sample_discovery []" sample_activation]
  by (auto simp: hash_collision_def)

text \<open>What is planned, how a declared need gets there, and what makes a requirement required or scoped.\<close>

lemma planned_members:
  assumes ok: "list_all binding_ok kernels" and q: "plan_context H scope disc p kernels = Inr q"
  shows "set (plan_requirements q) = built H ` (set (baseline_drafts (sorted_unique (eligible_refs scope))
      (mt_required (architecture_materiality p) \<and> architecture_signal_refs disc \<noteq> [])) \<union>
    set (kernel_drafts (sorted_unique (eligible_refs scope)) kernels))"
  unfolding plan_context_mem [OF ok q] by (simp add: requirement_drafts_def Let_def)

lemma need_carried:
  assumes ok: "list_all binding_ok kernels" and q: "plan_context H scope disc p kernels = Inr q"
    and n: "b \<in> set kernels" "n \<in> set (kb_context_needs b)"
  shows "\<exists>r \<in> set (plan_requirements q). kb_source_ref b @ ''#'' @ need_id n \<in> set (kernel_need_refs r)
    \<and> req_kind r = need_kind n \<and> required r = need_required n \<and> coverage_mode r = need_coverage n
    \<and> required_semantic_keys r = need_keys n
    \<and> minimum_authority r = authority_floor (need_kind n) (need_authority n)"
proof -
  let ?refs = "sorted_unique (eligible_refs scope)"
  let ?x = "(n, kb_source_ref b @ ''#'' @ need_id n)"
  define es where "es = filter (\<lambda>e. need_signature (fst e) = need_signature n) (declared_needs kernels)"
  have x: "?x \<in> set (declared_needs kernels)" using n by (auto simp: declared_needs_mem)
  have xs: "?x \<in> set es" using x by (simp add: es_def)
  then have "hd es \<in> set es" by (metis empty_iff empty_set hd_in_set)
  then have h: "need_signature (fst (hd es)) = need_signature n" by (simp add: es_def)
  note h = h [unfolded need_signature_eq]
  have "need_ok n" using declared_needs_ok [OF ok x] by simp
  then have k: "sorted_unique (need_keys n) = need_keys n" by (simp add: need_ok_def sorted_unique_id)
  let ?r = "need_draft ?refs (fst (hd es)) (map snd es)"
  have "?r \<in> set (kernel_drafts ?refs kernels)"
    using declared_in_group [OF x] unfolding es_def fst_conv .
  then have "built H ?r \<in> set (plan_requirements q)" unfolding planned_members [OF ok q] by blast
  moreover have "kb_source_ref b @ ''#'' @ need_id n \<in> set (map snd es)" using xs by force
  ultimately show ?thesis
    using h k by (elim conjE) (rule bexI [of _ "built H ?r"], simp_all del: set_map)
qed

lemma required_cause:
  assumes ok: "list_all binding_ok kernels" and q: "plan_context H scope disc p kernels = Inr q"
    and r: "r \<in> set (plan_requirements q)" "required r"
  shows "req_kind r = REPOSITORY_STATE \<and> eligible_refs scope \<noteq> []
    \<or> req_kind r = ARCHITECTURE_CONSTRAINT \<and> mt_required (architecture_materiality p) \<and> architecture_signal_refs disc \<noteq> []
    \<or> (\<exists>b \<in> set kernels. \<exists>n \<in> set (kb_context_needs b). need_required n \<and> need_kind n = req_kind r
        \<and> kb_source_ref b @ ''#'' @ need_id n \<in> set (kernel_need_refs r))"
proof -
  let ?refs = "sorted_unique (eligible_refs scope)"
  let ?arch = "mt_required (architecture_materiality p) \<and> architecture_signal_refs disc \<noteq> []"
  consider d where "d \<in> set (baseline_drafts ?refs ?arch)" "r = built H d"
    | d where "d \<in> set (kernel_drafts ?refs kernels)" "r = built H d"
    using r(1) unfolding planned_members [OF ok q] by blast
  then show ?thesis
  proof cases
    case 1
    then show ?thesis using baseline_demand(1) [OF 1(1)] r(2) by auto
  next
    case 2
    obtain sig es where e: "(sig, es) \<in> set (group_by (\<lambda>e. need_signature (fst e)) (declared_needs kernels))"
      "d = need_draft ?refs (fst (hd es)) (map snd es)" using 2(1) unfolding kernel_drafts_mem by blast
    have "es \<noteq> []" using e(1) unfolding group_by_mem_iff by blast
    then have s: "snd (hd es) \<in> set (map snd es)" by simp
    obtain b n where b: "b \<in> set kernels" "n \<in> set (kb_context_needs b)"
      "hd es = (n, kb_source_ref b @ ''#'' @ need_id n)"
      using need_group(2) [OF e(1)] unfolding declared_needs_mem by blast
    then have "need_required n \<and> need_kind n = req_kind r \<and> kb_source_ref b @ ''#'' @ need_id n \<in> set (kernel_need_refs r)"
      using s r(2) by (simp add: 2(2) e(2) del: set_map)
    then show ?thesis using b(1,2) by blast
  qed
qed

lemma scoped_refs:
  assumes ok: "list_all binding_ok kernels" and q: "plan_context H scope disc p kernels = Inr q"
    and r: "r \<in> set (plan_requirements q)" "req_scope_mode r = SCOPED"
  shows "eligible_refs scope \<noteq> [] \<and> set (req_scope_refs r) = set (eligible_refs scope)"
proof -
  let ?refs = "sorted_unique (eligible_refs scope)"
  let ?arch = "mt_required (architecture_materiality p) \<and> architecture_signal_refs disc \<noteq> []"
  consider d where "d \<in> set (baseline_drafts ?refs ?arch)" "r = built H d"
    | d where "d \<in> set (kernel_drafts ?refs kernels)" "r = built H d"
    using r(1) unfolding planned_members [OF ok q] by blast
  then show ?thesis
  proof cases
    case 1
    then show ?thesis using baseline_demand(2) [OF 1(1)] r(2) by auto
  next
    case 2
    then obtain n srcs where "r = built H (need_draft ?refs n srcs)"
      unfolding kernel_drafts_mem by blast
    then show ?thesis using need_draft_simps(7) [of ?refs n srcs] r(2) by auto
  qed
qed

text \<open>C14: Selected kernels really demand context and nothing else is made blocking: every declared
  need is carried by a planned requirement that records the kernel; a required requirement is the
  targeted repository state, proven architecture, or a required need of a kernel; and scoped
  requirements bind exactly the references the task left in scope.\<close>

theorem requirements_are_demanded:
  assumes ok: "list_all binding_ok kernels" and q: "plan_context H scope disc p kernels = Inr q"
  shows "(\<forall>b \<in> set kernels. \<forall>n \<in> set (kb_context_needs b). \<exists>r \<in> set (plan_requirements q).
        kb_source_ref b @ ''#'' @ need_id n \<in> set (kernel_need_refs r)
        \<and> req_kind r = need_kind n \<and> required r = need_required n \<and> coverage_mode r = need_coverage n
        \<and> required_semantic_keys r = need_keys n
        \<and> minimum_authority r = authority_floor (need_kind n) (need_authority n))
    \<and> (\<forall>r \<in> set (plan_requirements q). required r \<longrightarrow>
        req_kind r = REPOSITORY_STATE \<and> eligible_refs scope \<noteq> []
        \<or> req_kind r = ARCHITECTURE_CONSTRAINT \<and> mt_required (architecture_materiality p)
            \<and> architecture_signal_refs disc \<noteq> []
        \<or> (\<exists>b \<in> set kernels. \<exists>n \<in> set (kb_context_needs b). need_required n \<and> need_kind n = req_kind r
            \<and> kb_source_ref b @ ''#'' @ need_id n \<in> set (kernel_need_refs r)))
    \<and> (\<forall>r \<in> set (plan_requirements q). req_scope_mode r = SCOPED \<longrightarrow>
        eligible_refs scope \<noteq> [] \<and> set (req_scope_refs r) = set (eligible_refs scope))"
  using need_carried [OF ok q] required_cause [OF ok q] scoped_refs [OF ok q] by blast


theorem requirements_are_demanded_witness:
  "\<exists>q r. plan_context (\<lambda>bytes. bytes) (sample_scope [''a'']) (sample_discovery []) sample_activation [sample_binding] = Inr q
     \<and> r \<in> set (plan_requirements q) \<and> req_kind r = APPLICABLE_LAW \<and> required r
     \<and> ''k.yaml#law'' \<in> set (kernel_need_refs r)"
proof -
  obtain q where q: "plan_context (\<lambda>bytes. bytes) (sample_scope [''a'']) (sample_discovery []) sample_activation [sample_binding] = Inr q"
    using plan_context_or_collision [OF sample_binding_ok, of "\<lambda>bytes. bytes" "sample_scope [''a'']" "sample_discovery []" sample_activation]
    by (auto simp: hash_collision_def)
  from conjunct1 [OF requirements_are_demanded [OF sample_binding_ok q]]
  have "\<exists>r \<in> set (plan_requirements q). req_kind r = APPLICABLE_LAW \<and> required r \<and> ''k.yaml#law'' \<in> set (kernel_need_refs r)"
    by (auto simp: sample_binding_def)
  then show ?thesis using q by blast
qed

end
