(* ===== verification/Obligations.thy ===== *)
theory Obligations
  imports ContextClosure
begin

text \<open>
  \<open>compiler/obligations.py\<close>: the derivation of the canonical obligation set from the intent, the
  plan, the kernels and the compiled context, and the conservation checks between two IRs. A set
  of owners is a list read for membership.
\<close>

section \<open>Derivation\<close>

definition RESERVED_OWNERS :: "string list" where
  "RESERVED_OWNERS =
     [''objective_deriver'', ''validation_runtime'', ''adapter_renderer'', ''context_compiler'']"

fun is_terminal_disposition :: "obligation_disposition \<Rightarrow> bool" where
  "is_terminal_disposition SATISFIED = True"
| "is_terminal_disposition VALID_BLOCK = True"
| "is_terminal_disposition SUPERSEDED_BY_HIGHER_AUTHORITY = True"
| "is_terminal_disposition NOT_APPLICABLE_WITH_DETERMINISTIC_PROOF = True"
| "is_terminal_disposition PENDING = False"

text \<open>\<open>next((b.source_ref for b in kernels if ...), default)\<close>\<close>

definition first_ref :: "(string \<Rightarrow> bool) \<Rightarrow> kernel_binding list \<Rightarrow> string \<Rightarrow> string" where
  "first_ref p kernels dflt =
     (case find (\<lambda>b. p (kb_source_ref b)) kernels of None \<Rightarrow> dflt | Some b \<Rightarrow> kb_source_ref b)"

definition terminal_kernel :: "kernel_binding list \<Rightarrow> string" where
  "terminal_kernel kernels =
     first_ref (\<lambda>r. ends_with r ''flawless_victory.contract.yaml'') kernels ''terminal:flawless_victory''"

definition new_obligation ::
  "intent_contract \<Rightarrow> string \<Rightarrow> obligation_kind \<Rightarrow> bool \<Rightarrow> string \<Rightarrow> string list \<Rightarrow> string list \<Rightarrow> obligation" where
  "new_obligation i oid kind req own consumers evidence =
     \<lparr>obligation_id = oid, ob_kind = kind, ob_source_ref = ''intent:'' @ intent_id i,
      ob_required = req, owner = own, consumer_refs = consumers,
      evidence_requirements = evidence, disposition = PENDING\<rparr>"

definition intent_obligations ::
  "intent_contract \<Rightarrow> activation_plan \<Rightarrow> kernel_binding list \<Rightarrow> obligation list" where
  "intent_obligations i p kernels =
     (let task_kernel = first_ref (\<lambda>r. starts_with r ''runtime/kernels/task/'') kernels ''phase:P2_TASK_ROUTING'';
          obj = objective i in
      [new_obligation i ''OBL.AUTHORITY'' AUTHORITY True
         ''runtime/kernels/constitutional/K01-platform-architecture-engine.yaml''
         [''execution_contract''] [''authority order respected with evidence''],
       new_obligation i ''OBL.RUNTIME_INTEGRITY'' VALIDATION True ''validation_runtime''
         [''validation_contract''] [''command run or blocker reason''],
       new_obligation i ''OBL.REALIZATION'' REALIZATION True task_kernel
         [''execution_graph''] [''realization evidence for mode '' @ realization_mode_value (realization_mode obj)]]
      @ (if validation_required obj then
           [new_obligation i ''OBL.VALIDATION'' VALIDATION True ''validation_runtime''
              [''validation_contract''] [''command run or blocker reason'']] else [])
      @ (if delivery_required obj then
           [new_obligation i ''OBL.DELIVERY'' DELIVERY True (terminal_kernel kernels)
              [''handoff_contract'', ''validation_contract'']
              [''delivery evidence for mode '' @ delivery_mode_value (delivery_mode obj)]] else [])
      @ (if accountability_required i \<or> terminal_allowed p then
           [new_obligation i ''OBL.CONVERGENCE'' CONVERGENCE True (terminal_kernel kernels)
              [''validation_contract''] [''terminal disposition receipt'']] else [])
      @ (if mt_required (architecture_materiality p) then
           [new_obligation i ''OBL.ARCHITECTURE'' ARCHITECTURE True
              (first_ref (\<lambda>r. ends_with r ''global_architect_kernel.yaml'') kernels
                 ''runtime/kernels/architecture/global_architect_kernel.yaml'')
              [''validation_contract'', ''execution_graph'']
              [''architectural integrity evidence'', ''plan readiness evidence'']] else [])
      @ (if realization_mode obj = UNKNOWN_MODE then
           [new_obligation i ''OBL.EPISTEMIC.REALIZATION_RESOLUTION'' EPISTEMIC True ''objective_deriver''
              [''handoff_contract''] [''deterministic realization resolution'']] else []))"

text \<open>Every blocking unknown of the compiled context is a required epistemic obligation.\<close>

definition context_obligation_id :: "context_unknown \<Rightarrow> string" where
  "context_obligation_id u = ''OBL.EPISTEMIC.CONTEXT.'' @ unknown_id u"

definition context_obligations :: "intent_contract \<Rightarrow> compiled_task_context \<Rightarrow> obligation list" where
  "context_obligations i ctx =
     map (\<lambda>u. new_obligation i (context_obligation_id u) EPISTEMIC True ''context_compiler''
            [''handoff_contract'']
            [''resolution or governed disposition of '' @ reason_code_value (reason_code u)])
       (filter (\<lambda>u. materiality u = BLOCKING) (ctx_unknowns ctx))"

fun unknown_notes :: "intent_contract \<Rightarrow> nat \<Rightarrow> string list \<Rightarrow> obligation list" where
  "unknown_notes i n [] = []"
| "unknown_notes i n (u # us) =
     (if u = ''realization_mode_UNKNOWN'' then unknown_notes i (Suc n) us
      else new_obligation i (''OBL.EPISTEMIC.UNKNOWN.'' @ nat_text n) EPISTEMIC False
             ''objective_deriver'' [''handoff_contract''] [''resolution or disposition of: '' @ u]
           # unknown_notes i (Suc n) us)"

definition derive_obligations ::
  "intent_contract \<Rightarrow> activation_plan \<Rightarrow> kernel_binding list \<Rightarrow> compiled_task_context \<Rightarrow> obligation list" where
  "derive_obligations i p kernels ctx =
     intent_obligations i p kernels @ context_obligations i ctx @ unknown_notes i 0 (int_unknowns i)"

section \<open>Conservation\<close>

text \<open>The index of one IR, in insertion order: a repeated identity raises.\<close>

fun index_loop :: "(string \<times> obligation) list \<Rightarrow> obligation list \<Rightarrow> (string \<times> obligation) list res" where
  "index_loop d [] = Inr d"
| "index_loop d (x # xs) =
     (if obligation_id x \<in> set (map fst d)
      then Inl (InvalidValueError ''duplicate obligation_id in one IR'' ''obligations'')
      else index_loop (d @ [(obligation_id x, x)]) xs)"

definition index_obligations :: "obligation list \<Rightarrow> (string \<times> obligation) list res" where
  "index_obligations xs = index_loop [] xs"

definition is_terminal :: "obligation \<Rightarrow> bool" where
  "is_terminal x \<longleftrightarrow> is_terminal_disposition (disposition x)"

fun conserve_loop ::
  "string \<Rightarrow> (string \<times> obligation) list \<Rightarrow> (string \<times> obligation) list \<Rightarrow> unit res" where
  "conserve_loop stage child [] = Inr ()"
| "conserve_loop stage child ((oid, x) # rest) =
     (if \<not> ob_required x \<or> is_terminal x then conserve_loop stage child rest
      else case map_of child oid of
        None \<Rightarrow> Inl (InvalidValueError ''required obligation disappeared between IRs'' stage)
      | Some y \<Rightarrow>
          if ob_kind y \<noteq> ob_kind x
          then Inl (InvalidValueError ''obligation kind changed without a recorded disposition'' stage)
          else conserve_loop stage child rest)"

definition conserve :: "obligation list \<Rightarrow> obligation list \<Rightarrow> string \<Rightarrow> unit res" where
  "conserve parent child stage =
     bindR (index_obligations parent) (\<lambda>p.
     bindR (index_obligations child) (\<lambda>c. conserve_loop stage c p))"

definition conserve_ids :: "obligation list \<Rightarrow> string list \<Rightarrow> string \<Rightarrow> unit res" where
  "conserve_ids parent child_ids stage =
     (if length child_ids \<noteq> length (dedup_first child_ids)
      then Inl (InvalidValueError ''duplicate obligation_id in child IR'' stage)
      else bindR (index_obligations parent) (\<lambda>p.
        if list_ex (\<lambda>(oid, x). ob_required x \<and> \<not> is_terminal x \<and> oid \<notin> set child_ids) p
        then Inl (InvalidValueError ''required obligation disappeared between IRs'' stage)
        else if list_ex (\<lambda>oid. oid \<notin> set (map fst p)) child_ids
        then Inl (InvalidValueError ''child IR references an obligation absent from the parent IR'' stage)
        else Inr ()))"

fun check_owners :: "string list \<Rightarrow> string \<Rightarrow> obligation list \<Rightarrow> unit res" where
  "check_owners registry stage [] = Inr ()"
| "check_owners registry stage (x # xs) =
     (if owner x \<notin> set registry
      then Inl (InvalidValueError ''obligation owner does not resolve'' stage)
      else if ob_required x \<and> consumer_refs x = []
      then Inl (InvalidValueError ''required obligation has no consumer'' stage)
      else check_owners registry stage xs)"

definition validate_obligations :: "obligation list \<Rightarrow> string list \<Rightarrow> string \<Rightarrow> unit res" where
  "validate_obligations xs registry stage =
     bindR (index_obligations xs) (\<lambda>_. check_owners registry stage xs)"

definition owner_registry :: "activation_plan \<Rightarrow> kernel_binding list \<Rightarrow> string list" where
  "owner_registry p kernels = RESERVED_OWNERS @ map (\<lambda>ph. ''phase:'' @ ph) (phase_sequence p)
     @ map kb_source_ref kernels @ [''terminal:flawless_victory'']"

definition required_pending_ids :: "obligation list \<Rightarrow> string list" where
  "required_pending_ids xs = map obligation_id (filter (\<lambda>x. ob_required x \<and> \<not> is_terminal x) xs)"

section \<open>Conservation as a specification\<close>

text \<open>The required obligations of an IR that have not reached a terminal disposition.\<close>

definition live :: "obligation list \<Rightarrow> obligation set" where
  "live xs = {x \<in> set xs. ob_required x \<and> \<not> is_terminal x}"

lemma index_loop_Inr:
  "index_loop d xs = Inr d' \<longleftrightarrow> d' = d @ map (\<lambda>x. (obligation_id x, x)) xs
     \<and> distinct (map obligation_id xs) \<and> set (map obligation_id xs) \<inter> fst ` set d = {}"
  by (induction d xs rule: index_loop.induct) auto

lemma index_obligations_Inr:
  "index_obligations xs = Inr d \<longleftrightarrow>
     d = map (\<lambda>x. (obligation_id x, x)) xs \<and> distinct (map obligation_id xs)"
  by (auto simp: index_obligations_def index_loop_Inr)

lemma map_of_index:
  "distinct (map obligation_id xs) \<Longrightarrow>
     map_of (map (\<lambda>x. (obligation_id x, x)) xs) oid = Some y \<longleftrightarrow> y \<in> set xs \<and> obligation_id y = oid"
  by (subst map_of_eq_Some_iff) (auto simp: comp_def)

lemma conserve_loop_Inr:
  "conserve_loop stage child p = Inr u \<longleftrightarrow>
     (\<forall>(oid, x) \<in> set p. ob_required x \<and> \<not> is_terminal x \<longrightarrow>
        (\<exists>y. map_of child oid = Some y \<and> ob_kind y = ob_kind x))"
  by (induction stage child p rule: conserve_loop.induct) (auto split: option.splits)

lemma conserve_Inr:
  "conserve parent child stage = Inr u \<longleftrightarrow>
     distinct (map obligation_id parent) \<and> distinct (map obligation_id child)
     \<and> (\<forall>x \<in> live parent. \<exists>y \<in> set child. obligation_id y = obligation_id x \<and> ob_kind y = ob_kind x)"
proof -
  have "conserve parent child stage = Inr u \<longleftrightarrow>
     distinct (map obligation_id parent) \<and> distinct (map obligation_id child)
     \<and> conserve_loop stage (map (\<lambda>x. (obligation_id x, x)) child) (map (\<lambda>x. (obligation_id x, x)) parent) = Inr u"
    by (auto simp: conserve_def bindR_eq_Inr index_obligations_Inr)
  then show ?thesis
    by (auto simp: conserve_loop_Inr map_of_index live_def Bex_def)
qed

lemma conserve_ids_Inr:
  "conserve_ids parent ids stage = Inr u \<longleftrightarrow>
     distinct ids \<and> distinct (map obligation_id parent)
     \<and> obligation_id ` live parent \<subseteq> set ids \<and> set ids \<subseteq> obligation_id ` set parent"
proof -
  have "length ids = length (dedup_first ids) \<longleftrightarrow> distinct ids"
    by (metis card_distinct distinct_card distinct_dedup_first set_dedup_first)
  then show ?thesis
    by (auto simp: conserve_ids_def bindR_eq_Inr index_obligations_Inr list_ex_iff live_def)
qed

section \<open>The derived set\<close>

lemma new_obligation_simps [simp]:
  "obligation_id (new_obligation i oid k r own cs ev) = oid" "ob_kind (new_obligation i oid k r own cs ev) = k"
  "ob_required (new_obligation i oid k r own cs ev) = r" "owner (new_obligation i oid k r own cs ev) = own"
  "consumer_refs (new_obligation i oid k r own cs ev) = cs" "disposition (new_obligation i oid k r own cs ev) = PENDING"
  by (simp_all add: new_obligation_def)

lemma unknown_notes_mem:
  "x \<in> set (unknown_notes i n us) \<Longrightarrow> \<exists>k \<ge> n. obligation_id x = ''OBL.EPISTEMIC.UNKNOWN.'' @ nat_text k"
proof (induction i n us rule: unknown_notes.induct)
  case (2 i n u us)
  then consider "x \<in> set (unknown_notes i (Suc n) us)"
    | "obligation_id x = ''OBL.EPISTEMIC.UNKNOWN.'' @ nat_text n"
    by (auto split: if_splits)
  then show ?case
  proof cases
    case 1
    then show ?thesis using 2 Suc_leD by (metis (full_types))
  qed blast
qed simp

lemma unknown_notes_distinct: "distinct (map obligation_id (unknown_notes i n us))"
proof (induction i n us rule: unknown_notes.induct)
  case (2 i n u us)
  have "''OBL.EPISTEMIC.UNKNOWN.'' @ nat_text n \<notin> obligation_id ` set (unknown_notes i (Suc n) us)"
    using unknown_notes_mem [of _ i "Suc n" us] by (fastforce simp: nat_text_inject)
  then show ?case using 2 by (auto split: if_splits)
qed simp

lemma unknown_notes_props:
  "x \<in> set (unknown_notes i n us) \<Longrightarrow> owner x = ''objective_deriver'' \<and> consumer_refs x \<noteq> []
     \<and> disposition x = PENDING \<and> \<not> ob_required x"
  by (induction i n us rule: unknown_notes.induct) (auto split: if_splits)

lemma intent_obligations_ids:
  "obligation_id ` set (intent_obligations i p kernels) \<subseteq> {''OBL.AUTHORITY'', ''OBL.RUNTIME_INTEGRITY'',
     ''OBL.REALIZATION'', ''OBL.VALIDATION'', ''OBL.DELIVERY'', ''OBL.CONVERGENCE'', ''OBL.ARCHITECTURE'',
     ''OBL.EPISTEMIC.REALIZATION_RESOLUTION''}"
  by (auto simp: intent_obligations_def Let_def split: if_splits)

lemma intent_obligations_distinct: "distinct (map obligation_id (intent_obligations i p kernels))"
  by (cases "validation_required (objective i)"; cases "delivery_required (objective i)";
      cases "accountability_required i \<or> terminal_allowed p"; cases "mt_required (architecture_materiality p)";
      cases "realization_mode (objective i) = UNKNOWN_MODE")
    (simp_all only: intent_obligations_def Let_def if_True if_False append.simps append_Nil2 list.map
      new_obligation_simps, simp_all)

lemma context_obligations_distinct:
  "distinct (map unknown_id (ctx_unknowns ctx)) \<Longrightarrow> distinct (map obligation_id (context_obligations i ctx))"
  by (simp add: context_obligations_def context_obligation_id_def comp_def distinct_map distinct_filter inj_on_def)

lemma derive_obligations_distinct:
  assumes "distinct (map unknown_id (ctx_unknowns ctx))"
  shows "distinct (map obligation_id (derive_obligations i p kernels ctx))"
proof -
  have a: "obligation_id ` set (intent_obligations i p kernels) \<inter> obligation_id ` set (context_obligations i ctx) = {}"
    using intent_obligations_ids [of i p kernels]
    by (fastforce simp: context_obligations_def context_obligation_id_def)
  have b: "obligation_id ` set (intent_obligations i p kernels) \<inter> obligation_id ` set (unknown_notes i 0 us) = {}" for us
    using intent_obligations_ids [of i p kernels] unknown_notes_mem [of _ i 0 us] by fastforce
  have c: "obligation_id ` set (context_obligations i ctx) \<inter> obligation_id ` set (unknown_notes i 0 us) = {}" for us
    using unknown_notes_mem [of _ i 0 us]
    by (fastforce simp: context_obligations_def context_obligation_id_def)
  show ?thesis
    using intent_obligations_distinct context_obligations_distinct [OF assms] unknown_notes_distinct a
      b [of "int_unknowns i"] c [of "int_unknowns i"]
    unfolding derive_obligations_def map_append distinct_append set_append set_map Int_Un_distrib by blast
qed


text \<open>The owners that are not reserved and must be kernels or phases of the plan.\<close>

definition owners_bound :: "activation_plan \<Rightarrow> kernel_binding list \<Rightarrow> bool" where
  "owners_bound p kernels \<longleftrightarrow>
     ''runtime/kernels/constitutional/K01-platform-architecture-engine.yaml'' \<in> set (owner_registry p kernels)
     \<and> first_ref (\<lambda>r. starts_with r ''runtime/kernels/task/'') kernels ''phase:P2_TASK_ROUTING''
         \<in> set (owner_registry p kernels)
     \<and> (mt_required (architecture_materiality p) \<longrightarrow>
         first_ref (\<lambda>r. ends_with r ''global_architect_kernel.yaml'') kernels
           ''runtime/kernels/architecture/global_architect_kernel.yaml'' \<in> set (owner_registry p kernels))"

lemma first_ref_cases: "first_ref q kernels dflt = dflt \<or> first_ref q kernels dflt \<in> set (map kb_source_ref kernels)"
  by (auto simp: first_ref_def find_Some_iff split: option.splits)

lemma registry_members:
  "terminal_kernel kernels \<in> set (owner_registry p kernels)"
  "''objective_deriver'' \<in> set (owner_registry p kernels)"
  "''validation_runtime'' \<in> set (owner_registry p kernels)"
  "''context_compiler'' \<in> set (owner_registry p kernels)"
  using first_ref_cases [of "\<lambda>r. ends_with r ''flawless_victory.contract.yaml''" kernels "''terminal:flawless_victory''"]
  by (auto simp: owner_registry_def RESERVED_OWNERS_def terminal_kernel_def)

lemma check_owners_Inr:
  "check_owners registry stage xs = Inr u \<longleftrightarrow>
     (\<forall>x \<in> set xs. owner x \<in> set registry \<and> (ob_required x \<longrightarrow> consumer_refs x \<noteq> []))"
  by (induction registry stage xs rule: check_owners.induct) auto

lemma intent_obligations_owners:
  "(\<forall>x \<in> set (intent_obligations i p kernels). owner x \<in> set (owner_registry p kernels)) \<longleftrightarrow> owners_bound p kernels"
  by (simp add: intent_obligations_def Let_def owners_bound_def registry_members)
    (auto simp: registry_members)

lemma derived_props:
  assumes "x \<in> set (derive_obligations i p kernels ctx)"
  shows "disposition x = PENDING" "consumer_refs x \<noteq> []"
proof -
  have "disposition x = PENDING \<and> consumer_refs x \<noteq> []"
    using assms unknown_notes_props [of x i 0 "int_unknowns i"]
    by (auto simp: derive_obligations_def context_obligations_def intent_obligations_def Let_def split: if_splits)
  then show "disposition x = PENDING" "consumer_refs x \<noteq> []" by auto
qed


definition sample_blocking_unknown :: context_unknown where
  "sample_blocking_unknown = \<lparr>unknown_id = ''ctxunk.1'', unk_requirement_ref = None, unk_key = None,
     reason_code = MISSING_REQUIRED_CONTEXT, details = JObj [], materiality = BLOCKING, unk_sources = []\<rparr>"




end
