(* ===== verification/Execution.thy ===== *)
theory Execution
  imports Obligations RequirementPlanner
begin

text \<open>
  The execution semantics compiled from a closed context: the execution contract with its
  structured steps (\<open>compiler/execution.py\<close>), the validation contract
  (\<open>compiler/validation.py\<close>), the handoff contract (\<open>compiler/handoff.py\<close>) and the terminal
  success gate with its receipt (\<open>compiler/convergence.py\<close>).

  Of the parsed pipeline document the compiler reads two header fields, which may be absent or of
  any type, and per phase its identity, kernels, outputs and exit gate (\<open>JNull\<close> when absent).
\<close>

section \<open>The execution contract\<close>

record pipeline_source =
  px_terminal_contract :: "json option"
  px_pipeline_id :: "json option"
  px_phases :: "(pipeline_phase \<times> json) list"

definition phase_order :: "pipeline_source \<Rightarrow> pipeline_doc" where
  "phase_order px = map fst (px_phases px)"

definition PHASE_STEP_MAP :: "(string \<times> string) list" where
  "PHASE_STEP_MAP =
     [(''P0_UNPACK'', ''lock context''),
      (''P1_CONSTITUTIONAL_PREFLIGHT'', ''run constitutional preflight''),
      (''P2_TASK_ROUTING'', ''apply selected task and architecture kernels''),
      (''P3_ARCHITECTURE_DECISION'', ''apply selected task and architecture kernels''),
      (''P4_ALIGNMENT_AND_STUB_GATE'', ''run alignment and stub gate''),
      (''P5_RECURSIVE_IMPROVEMENT'', ''run recursive improvement''),
      (''P6_LEVERAGE_COMPRESSION'', ''run leverage compression''),
      (''P7_FLAWLESS_VICTORY'', ''execute terminal doctrine only after gates pass'')]"

definition AUTHORITY_ORDER :: "string list" where
  "AUTHORITY_ORDER =
     [''user task'', ''kernel activation plan'', ''repo files'', ''runtime pipeline contracts'',
      ''tests and validation evidence'', ''Unknown'']"

definition VALIDATION_REQUIREMENTS :: "string list" where
  "VALIDATION_REQUIREMENTS =
     [''pipeline order validated'', ''kernel roles unique'', ''no duplicate active kernels'',
      ''phase outputs satisfied or blocked with reason'',
      ''adapter render preserves canonical contract'', ''no fake validation'']"

definition STOP_CONDITIONS :: "string list" where
  "STOP_CONDITIONS =
     [''activation plan missing or invalid'', ''required kernel unavailable'',
      ''terminal doctrine requested before gates pass'', ''validation cannot be run honestly'',
      ''scope conflict requires operator decision'']"

definition OUTPUT_CONTRACT :: "string list" where
  "OUTPUT_CONTRACT =
     [''summary'', ''files_changed_or_artifacts_created'', ''validation_results'',
      ''remaining_unknowns'', ''merge_or_execution_readiness'', ''minimum_safe_next_action'',
      ''convergence_block'']"

definition ADAPTER_TARGETS :: "string list" where
  "ADAPTER_TARGETS = [''claude_code'', ''cursor'', ''codex'', ''chatgpt'', ''human_operator'']"

definition ACTIVATION_PLAN_SOURCE :: string where
  "ACTIVATION_PLAN_SOURCE = ''runtime/kernel_pipeline/planner/KERNEL_ACTIVATION_PLAN.yaml''"

text \<open>\<open>phase_kernels\<close>: the bindings each planned phase lists as primary.\<close>

definition note_phase_kernel ::
  "pipeline_doc \<Rightarrow> kernel_binding \<Rightarrow> string \<Rightarrow> (string \<times> string list) list \<Rightarrow> (string \<times> string list) list" where
  "note_phase_kernel doc b p d = (case find (\<lambda>ph. phase_id ph = p) doc of
     None \<Rightarrow> d
   | Some ph \<Rightarrow> if kb_source_ref b \<in> set (primary_kernels ph)
               then setdefault_append p (kb_source_ref b) d else d)"

definition phase_kernel_map ::
  "pipeline_doc \<Rightarrow> kernel_binding list \<Rightarrow> string list \<Rightarrow> (string \<times> string list) list" where
  "phase_kernel_map doc kernels phases = fold (\<lambda>b. fold (note_phase_kernel doc b) phases) kernels []"

definition phase_step :: "string \<Rightarrow> string res" where
  "phase_step p = (case map_of PHASE_STEP_MAP p of
     None \<Rightarrow> Inl (InvalidValueError ''phase has no canonical execution step'' ''phase_sequence'')
   | Some s \<Rightarrow> Inr s)"

definition terminal_target :: "string list \<Rightarrow> string res" where
  "terminal_target phases =
     (if P7 \<in> set phases then Inr P7 else if phases = [] then Inl PyIndexError else Inr (last phases))"

definition kind_phase :: "string list \<Rightarrow> string \<Rightarrow> obligation_kind \<Rightarrow> string" where
  "kind_phase phases target kind = (case kind of
     AUTHORITY \<Rightarrow> ''P1_CONSTITUTIONAL_PREFLIGHT''
   | REALIZATION \<Rightarrow> ''P2_TASK_ROUTING''
   | ARCHITECTURE \<Rightarrow> ''P3_ARCHITECTURE_DECISION''
   | EPISTEMIC \<Rightarrow> ''P0_UNPACK''
   | VALIDATION \<Rightarrow> (if ''P4_ALIGNMENT_AND_STUB_GATE'' \<in> set phases
                   then ''P4_ALIGNMENT_AND_STUB_GATE'' else ''P2_TASK_ROUTING'')
   | DELIVERY \<Rightarrow> target
   | CONVERGENCE \<Rightarrow> target)"

text \<open>\<open>obligations_by_id\<close>: a later obligation of the same identity replaces an earlier one.\<close>

definition obligation_by_id :: "obligation list \<Rightarrow> string \<Rightarrow> obligation option" where
  "obligation_by_id obs oid = find (\<lambda>x. obligation_id x = oid) (rev obs)"

definition phase_gate :: "pipeline_source \<Rightarrow> string \<Rightarrow> string list" where
  "phase_gate px p = (case find (\<lambda>pg. phase_id (fst pg) = p) (rev (px_phases px)) of
     None \<Rightarrow> [] | Some pg \<Rightarrow> if falsy (snd pg) then [] else [py_str (snd pg)])"

definition step_outputs ::
  "pipeline_source \<Rightarrow> kernel_binding list \<Rightarrow> string list \<Rightarrow> string \<Rightarrow> string list" where
  "step_outputs px kernels in_step p =
     (let outs = (case phase_lookup (phase_order px) p of None \<Rightarrow> [] | Some ph \<Rightarrow> ph_required_outputs ph);
          gar = concat (map (\<lambda>b. if kb_source_ref b \<in> set in_step then map output_id (kb_outputs b) else []) kernels)
      in outs @ filter (\<lambda>o'. o' \<notin> set outs) gar)"

definition build_step ::
  "pipeline_source \<Rightarrow> kernel_binding list \<Rightarrow> obligation list \<Rightarrow> string list \<Rightarrow> string \<Rightarrow> string list \<Rightarrow>
     string \<Rightarrow> execution_step" where
  "build_step px kernels obs phases target prev p =
     (let in_step = al_get (phase_kernel_map (phase_order px) kernels phases) p [];
          oids = map obligation_id (filter (\<lambda>x. kind_phase phases target (ob_kind x) = p) obs);
          evidence = concat (map (\<lambda>oid. case obligation_by_id obs oid of
             None \<Rightarrow> [] | Some x \<Rightarrow> evidence_requirements x) oids)
      in \<lparr>step_id = ''step.'' @ p, phase = p, kernel_refs = in_step, obligation_refs = oids,
          input_refs = prev, output_refs = step_outputs px kernels in_step p, entry_gates = [],
          exit_gates = phase_gate px p, step_evidence = sorted_unique evidence,
          failure_routes = (if p = P7 then [''ABORTED''] else [''BLOCKED'', ''ABORTED''])\<rparr>)"

fun build_steps ::
  "pipeline_source \<Rightarrow> kernel_binding list \<Rightarrow> obligation list \<Rightarrow> string list \<Rightarrow> string \<Rightarrow> string list \<Rightarrow>
     string list \<Rightarrow> execution_step list" where
  "build_steps px kernels obs phases target prev [] = []"
| "build_steps px kernels obs phases target prev (p # ps) =
     (let s = build_step px kernels obs phases target prev p
      in s # build_steps px kernels obs phases target (output_refs s) ps)"

definition non_blank_field :: "json option \<Rightarrow> string \<Rightarrow> string res" where
  "non_blank_field v msg = (case v of
     Some (JStr s) \<Rightarrow> if non_blank s then Inr s
       else Inl (InvalidValueError msg ''runtime/kernel_pipeline/KERNEL_PIPELINE.yaml'')
   | _ \<Rightarrow> Inl (InvalidValueError msg ''runtime/kernel_pipeline/KERNEL_PIPELINE.yaml''))"

definition execution_metadata ::
  "activation_plan \<Rightarrow> kernel_binding list \<Rightarrow> pipeline_source \<Rightarrow> string \<Rightarrow> compiled_task_context \<Rightarrow> string \<Rightarrow>
     (string \<times> json) list" where
  "execution_metadata p kernels px pid ctx digest =
     [(''compiled_by'', JStr ''l9_cognitive_runtime.compiler.execution''),
      (''pipeline_id'', JStr pid),
      (''matched_route'', JStr (matched_route p)),
      (''confidence'', JStr (confidence p)),
      (''phase_kernels'', JObj (map (\<lambda>(k, v). (k, jstrs v))
         (phase_kernel_map (phase_order px) kernels (phase_sequence p)))),
      (''kernel_digests'', jdict (fold (\<lambda>b. dict_put (kb_source_ref b) (kb_source_digest b)) kernels [])),
      (''authority_order_source'', JStr (order_source_value (effective_order_source (ctx_authority ctx)))),
      (''context_digest'', JStr digest)]"

definition compile_execution ::
  "intent_contract \<Rightarrow> activation_plan \<Rightarrow> kernel_binding list \<Rightarrow> pipeline_source \<Rightarrow> obligation list \<Rightarrow>
     compiled_task_context \<Rightarrow> string \<Rightarrow> execution_contract res" where
  "compile_execution i p kernels px obs ctx digest =
     (if blockers p \<noteq> [] then Inl (InvalidValueError ''activation plan has blockers'' ''activation_plan'')
      else bindR (non_blank_field (px_terminal_contract px) ''pipeline terminal_contract missing'') (\<lambda>doctrine.
        bindR (non_blank_field (px_pipeline_id px) ''pipeline pipeline_id missing'') (\<lambda>pid.
        bindR (mapR phase_step (phase_sequence p)) (\<lambda>seq.
        bindR (terminal_target (phase_sequence p)) (\<lambda>target.
        Inr \<lparr>contract_id = ''FINAL_EXECUTION_CONTRACT'',
          source_activation_plan = ACTIVATION_PLAN_SOURCE,
          terminal_doctrine = doctrine,
          exec_objective = intent_contract.mission i,
          authority_order = (if effective_order (ctx_authority ctx) \<noteq> []
            then effective_order (ctx_authority ctx) else AUTHORITY_ORDER),
          kernel_activation = map kb_source_ref kernels,
          execution_sequence = seq,
          validation_requirements = VALIDATION_REQUIREMENTS,
          output_contract = OUTPUT_CONTRACT,
          adapter_targets = ADAPTER_TARGETS,
          exec_version = Some ''1.0.0'',
          stop_conditions = STOP_CONDITIONS,
          metadata = execution_metadata p kernels px pid ctx digest,
          obligations = obs,
          execution_steps = build_steps px kernels obs (phase_sequence p) target [] (phase_sequence p)\<rparr>)))))"

section \<open>The validation contract\<close>

definition VALIDATION_LADDER :: "string list" where
  "VALIDATION_LADDER =
     [''format'', ''schema'', ''pipeline_order'', ''kernel_roles'', ''duplicate_active_kernel_scan'',
      ''activation_planner'', ''contract_compiler'', ''adapter_render'', ''evidence_manifest'']"

definition EVIDENCE_REQUIRED :: "string list" where
  "EVIDENCE_REQUIRED =
     [''command run or blocker reason'', ''validator name'', ''status'', ''findings'',
      ''timestamp or report path'']"

definition REPORT_OUTPUTS :: "string list" where
  "REPORT_OUTPUTS =
     [''runtime/kernel_pipeline/KERNEL_PIPELINE_VALIDATION_REPORT.json'', ''VALIDATION_EVIDENCE.md'']"

fun evaluator_by_kind :: "obligation_kind \<Rightarrow> string" where
  "evaluator_by_kind REALIZATION = ''realization_evidence''"
| "evaluator_by_kind ARCHITECTURE = ''architecture_integrity_evidence''"
| "evaluator_by_kind VALIDATION = ''validation_ladder''"
| "evaluator_by_kind DELIVERY = ''delivery_evidence''"
| "evaluator_by_kind AUTHORITY = ''authority_order''"
| "evaluator_by_kind EPISTEMIC = ''unknown_resolution''"
| "evaluator_by_kind CONVERGENCE = ''terminal_success_gate''"

definition new_property :: "string \<Rightarrow> string \<Rightarrow> string \<Rightarrow> validation_property" where
  "new_property pid oid ev = \<lparr>property_id = pid, obligation_ref = oid, evaluator = ev,
     evidence_type = ''evidence_manifest'', vp_required = True, vp_status = VS_NOT_RUN,
     vp_evidence_refs = []\<rparr>"

definition compile_validation :: "execution_contract \<Rightarrow> activation_plan \<Rightarrow> validation_contract" where
  "compile_validation ex p =
     (let props = map (\<lambda>x. new_property (''PROP.'' @ obligation_id x) (obligation_id x)
            (evaluator_by_kind (ob_kind x))) (filter ob_required (obligations ex));
          has_architecture = list_ex (\<lambda>x. obligation_id x = ''OBL.ARCHITECTURE'') (obligations ex);
          gar = (if has_architecture \<and> ''temporal_lens'' \<in> set (mt_active_lenses (architecture_materiality p))
                 then [new_property ''PROP.GAR.IDEMPOTENCY'' ''OBL.ARCHITECTURE'' ''idempotency_evidence''] else [])
      in \<lparr>val_contract_id = ''VALIDATION_CONTRACT'', validation_ladder = VALIDATION_LADDER,
          evidence_required = EVIDENCE_REQUIRED, allowed_statuses = all_validation_statuses,
          report_outputs = REPORT_OUTPUTS, validation_properties = props @ gar\<rparr>)"

section \<open>The handoff contract\<close>

definition LOADED_CONTEXT :: "string list" where
  "LOADED_CONTEXT =
     [''runtime/kernels'', ''runtime/kernel_pipeline'', ''runtime/kernel_pipeline/planner'',
      ''runtime/contract_compiler'', ''contracts'']"

definition DECISIONS :: "string list" where
  "DECISIONS =
     [''Flawless Victory is terminal doctrine, not Claude-specific format.'',
      ''Canonical contracts compile before adapter-specific renders.'',
      ''Adapters render execution intent without owning runtime law.'']"

definition ADAPTER_NOTES :: "(string \<times> string) list" where
  "ADAPTER_NOTES =
     [(''claude_code'', ''repo execution prompt''), (''cursor'', ''workspace task packet''),
      (''codex'', ''dev-kit execution prompt''), (''chatgpt'', ''handoff/task prompt''),
      (''human_operator'', ''runbook checklist'')]"

definition compile_handoff :: "execution_contract \<Rightarrow> activation_plan \<Rightarrow> handoff_contract" where
  "compile_handoff ex p =
     \<lparr>hand_contract_id = ''HANDOFF_CONTRACT'',
      handoff_summary = ''Live-compiled handoff: route '' @ matched_route p @ '' ('' @ confidence p
        @ '' confidence), '' @ nat_text (length (active_kernels p)) @ '' active kernels.'',
      loaded_context = LOADED_CONTEXT,
      next_action = (if next_phase p = ''BLOCKED''
        then ''BLOCKED: resolve activation blockers before execution.''
        else ''Execute phase '' @ next_phase p @ ''.''),
      hand_unknowns = ap_unknowns p, decisions = DECISIONS, adapter_notes = ADAPTER_NOTES,
      hand_obligations = obligations ex\<rparr>"

section \<open>The terminal success gate\<close>

fun is_blocking_status :: "validation_status \<Rightarrow> bool" where
  "is_blocking_status VS_FAILED = True"
| "is_blocking_status VS_BLOCKED = True"
| "is_blocking_status VS_UNKNOWN = True"
| "is_blocking_status VS_NOT_RUN = True"
| "is_blocking_status _ = False"

record gate_report =
  converged :: bool
  unmet :: "string list"
  gate_details :: "(string \<times> json) list"

definition gate_report_json :: "gate_report \<Rightarrow> json" where
  "gate_report_json g = JObj [(''converged'', JBool (converged g)), (''unmet'', jstrs (unmet g)),
                              (''details'', JObj (gate_details g))]"

text \<open>One condition of the gate: the names it adds to \<open>unmet\<close> and the entries of \<open>details\<close>.\<close>

definition evaluate_terminal_success :: "execution_contract \<Rightarrow> validation_contract \<Rightarrow> gate_report" where
  "evaluate_terminal_success ex v =
     (let req = filter ob_required (obligations ex);
          pending = filter (\<lambda>x. disposition x = PENDING) req;
          pids = jstrs (map obligation_id pending);
          disposed = (if list_ex (\<lambda>x. \<not> is_terminal_disposition (disposition x)) req
            then ([''all_required_obligations_have_legal_disposition''], [(''pending_obligations'', pids)])
            else ([], []));
          resolved = (if pending \<noteq> []
            then ([''no_required_obligation_is_UNKNOWN''], [(''unresolved_obligations'', pids)]) else ([], []));
          blocking = filter (\<lambda>q. vp_required q \<and> is_blocking_status (vp_status q)) (validation_properties v);
          validated = (if blocking \<noteq> []
            then ([''no_blocking_validation_failed''],
                  [(''blocking_properties'', jstrs (map property_id blocking))]) else ([], []));
          arch_props = filter (\<lambda>q. obligation_ref q = ''OBL.ARCHITECTURE'' \<and> vp_required q)
            (validation_properties v);
          arch = (case find (\<lambda>x. obligation_id x = ''OBL.ARCHITECTURE'') req of
              None \<Rightarrow> ([], [])
            | Some x \<Rightarrow> if disposition x \<noteq> PENDING \<and> list_ex (\<lambda>q. vp_status q \<noteq> VS_PASSED) arch_props
                then ([''architectural_integrity_satisfied_when_applicable''],
                      [(''architecture_property_statuses'', JList (map (\<lambda>q.
                         JList [JStr (property_id q), JStr (validation_status_value (vp_status q))]) arch_props))])
                else ([], []));
          delivered = (case find (\<lambda>x. obligation_id x = ''OBL.DELIVERY'') req of
              None \<Rightarrow> ([], [])
            | Some x \<Rightarrow> if disposition x \<noteq> SATISFIED
                then ([''requested_delivery_satisfied''],
                      [(''delivery_disposition'', JStr (disposition_value (disposition x)))])
                else ([], []));
          conds = [disposed, resolved, validated, arch, delivered];
          missing = concat (map fst conds)
      in \<lparr>converged = (missing = []),
          unmet = (if missing = [] then [] else missing @ [''no_false_completion_condition'']),
          gate_details = concat (map snd conds)\<rparr>)"

definition convergence_receipt :: "gate_report \<Rightarrow> execution_contract \<Rightarrow> json" where
  "convergence_receipt g ex = JObj
     [(''terminal_disposition'', JStr (if converged g then ''CONVERGED'' else ''NOT_CONVERGED'')),
      (''obligation_dispositions'', jdict (fold (\<lambda>x. dict_put (obligation_id x)
         (disposition_value (disposition x))) (obligations ex) [])),
      (''gate_report'', gate_report_json g)]"

section \<open>How the contracts are built\<close>


lemma note_phase_kernel_set:
  "set (al_get (note_phase_kernel doc b q d) p []) = set (al_get d p []) \<union>
     (if q = p \<and> (\<exists>ph. find (\<lambda>ph. phase_id ph = p) doc = Some ph \<and> kb_source_ref b \<in> set (primary_kernels ph))
      then {kb_source_ref b} else {})"
  by (auto simp: note_phase_kernel_def al_get_def map_of_setdefault_append split: option.splits)

lemma note_phase_kernels_set:
  "set (al_get (fold (note_phase_kernel doc b) phases d) p []) = set (al_get d p []) \<union>
     (if p \<in> set phases \<and> (\<exists>ph. find (\<lambda>ph. phase_id ph = p) doc = Some ph \<and> kb_source_ref b \<in> set (primary_kernels ph))
      then {kb_source_ref b} else {})"
  by (induction phases arbitrary: d) (auto simp: note_phase_kernel_set)

definition lists_kernel :: "pipeline_doc \<Rightarrow> string \<Rightarrow> string \<Rightarrow> bool" where
  "lists_kernel doc p ref \<longleftrightarrow>
     (case find (\<lambda>ph. phase_id ph = p) doc of None \<Rightarrow> False | Some ph \<Rightarrow> ref \<in> set (primary_kernels ph))"

lemma phase_kernel_map_set:
  "set (al_get (phase_kernel_map doc kernels phases) p []) =
     {kb_source_ref b |b. b \<in> set kernels \<and> p \<in> set phases \<and> lists_kernel doc p (kb_source_ref b)}"
proof -
  have "set (al_get (fold (\<lambda>b. fold (note_phase_kernel doc b) phases) kernels d) p []) = set (al_get d p []) \<union>
      {kb_source_ref b |b. b \<in> set kernels \<and> p \<in> set phases \<and> lists_kernel doc p (kb_source_ref b)}" for d
    by (induction kernels arbitrary: d)
      (auto simp: note_phase_kernels_set lists_kernel_def split: option.splits if_splits)
  then show ?thesis by (simp add: phase_kernel_map_def al_get_def)
qed

lemma build_steps_phases: "map phase (build_steps px kernels obs phases target prev ps) = ps"
  by (induction ps arbitrary: prev) (simp_all add: Let_def build_step_def)

lemma build_steps_ids: "map step_id (build_steps px kernels obs phases target prev ps) = map (\<lambda>p. ''step.'' @ p) ps"
  by (induction ps arbitrary: prev) (simp_all add: Let_def build_step_def)

lemma build_steps_mem:
  "s \<in> set (build_steps px kernels obs phases target prev ps) \<Longrightarrow>
     \<exists>prev' p. p \<in> set ps \<and> s = build_step px kernels obs phases target prev' p"
  by (induction ps arbitrary: prev) (auto simp: Let_def, blast)

lemma build_steps_step:
  "p \<in> set ps \<Longrightarrow> \<exists>prev'. build_step px kernels obs phases target prev' p
     \<in> set (build_steps px kernels obs phases target prev ps)"
  by (induction ps arbitrary: prev) (auto simp: Let_def)

lemma build_steps_flow:
  "k < length ps \<Longrightarrow> input_refs (build_steps px kernels obs phases target prev ps ! k) =
     (if k = 0 then prev else output_refs (build_steps px kernels obs phases target prev ps ! (k - 1)))"
proof (induction ps arbitrary: prev k)
  case (Cons p ps)
  show ?case
  proof (cases k)
    case 0
    then show ?thesis by (simp add: Let_def build_step_def)
  next
    case (Suc j)
    then show ?thesis using Cons by (cases j) (simp_all add: Let_def)
  qed
qed simp

lemma build_step_simps:
  "phase (build_step px kernels obs phases target prev p) = p"
  "kernel_refs (build_step px kernels obs phases target prev p) = al_get (phase_kernel_map (phase_order px) kernels phases) p []"
  "obligation_refs (build_step px kernels obs phases target prev p)
     = map obligation_id (filter (\<lambda>x. kind_phase phases target (ob_kind x) = p) obs)"
  "output_refs (build_step px kernels obs phases target prev p)
     = step_outputs px kernels (al_get (phase_kernel_map (phase_order px) kernels phases) p []) p"
  by (simp_all add: build_step_def Let_def)

lemma step_outputs_declared:
  "b \<in> set kernels \<Longrightarrow> kb_source_ref b \<in> set in_step \<Longrightarrow> x \<in> set (kb_outputs b) \<Longrightarrow>
     output_id x \<in> set (step_outputs px kernels in_step p)"
  by (auto simp: step_outputs_def Let_def)

lemma compile_execution_Inr:
  assumes "compile_execution i p kernels px obs ctx digest = Inr c"
  obtains target where "terminal_target (phase_sequence p) = Inr target" "blockers p = []"
    "execution_steps c = build_steps px kernels obs (phase_sequence p) target [] (phase_sequence p)"
    "obligations c = obs" "kernel_activation c = map kb_source_ref kernels"
    "contract_id c = ''FINAL_EXECUTION_CONTRACT''" "phase_sequence p \<noteq> []"
    "authority_order c \<noteq> []" "validation_requirements c = VALIDATION_REQUIREMENTS"
proof -
  have e: "AUTHORITY_ORDER \<noteq> []" by (simp add: AUTHORITY_ORDER_def)
  show ?thesis
    using assms e by (auto simp: compile_execution_def bindR_eq_Inr terminal_target_def split: if_splits intro: that)
qed



definition field_ok :: "json option \<Rightarrow> bool" where
  "field_ok v \<longleftrightarrow> (case v of Some (JStr s) \<Rightarrow> non_blank s | _ \<Rightarrow> False)"

lemma non_blank_field_Inr: "(\<exists>s. non_blank_field v msg = Inr s) \<longleftrightarrow> field_ok v"
  by (auto simp: non_blank_field_def field_ok_def split: option.splits json.splits)

lemma phase_steps_Inr: "(\<exists>seq. mapR phase_step ps = Inr seq) \<longleftrightarrow> set ps \<subseteq> fst ` set PHASE_STEP_MAP"
proof -
  have "(\<exists>s. phase_step p = Inr s) \<longleftrightarrow> p \<in> fst ` set PHASE_STEP_MAP" for p
    using map_of_eq_None_iff [of PHASE_STEP_MAP p] by (auto simp: phase_step_def split: option.splits)
  note p = this
  show ?thesis
  proof (induction ps)
    case (Cons q ps)
    have "(\<exists>seq. mapR phase_step (q # ps) = Inr seq) \<longleftrightarrow>
        (\<exists>s. phase_step q = Inr s) \<and> (\<exists>seq. mapR phase_step ps = Inr seq)"
      by (auto simp: bindR_eq_Inr)
    then show ?case by (simp only: p Cons list.set insert_subset)
  qed simp
qed


lemma validation_refs:
  "obligation_ref ` set (validation_properties (compile_validation ex p)) =
     {obligation_id x |x. x \<in> set (obligations ex) \<and> ob_required x}
     \<union> (if (\<exists>x \<in> set (obligations ex). obligation_id x = ''OBL.ARCHITECTURE'')
           \<and> ''temporal_lens'' \<in> set (mt_active_lenses (architecture_materiality p))
        then {''OBL.ARCHITECTURE''} else {})"
  by (auto simp: compile_validation_def Let_def new_property_def list_ex_iff image_iff)


lemma find_required:
  assumes "distinct (map obligation_id obs)"
  shows "find (\<lambda>x. obligation_id x = oid) (filter ob_required obs) = Some y \<longleftrightarrow>
     y \<in> set obs \<and> ob_required y \<and> obligation_id y = oid"
  using assms
proof (induction obs)
  case (Cons z obs)
  then show ?case by (auto simp: image_iff)
qed simp

lemma not_terminal [simp]: "\<not> is_terminal_disposition d \<longleftrightarrow> d = PENDING"
  by (cases d) simp_all

section \<open>Properties\<close>

definition sample_source_doc :: pipeline_source where
  "sample_source_doc = \<lparr>px_terminal_contract = Some (JStr ''t.yaml''), px_pipeline_id = Some (JStr ''p.v1''),
     px_phases = [(\<lparr>phase_id = ''P1_CONSTITUTIONAL_PREFLIGHT'', primary_kernels = [''k.yaml''],
         ph_required_outputs = [''preflight'']\<rparr>, JStr ''gate''),
       (\<lparr>phase_id = ''P2_TASK_ROUTING'', primary_kernels = [], ph_required_outputs = []\<rparr>, JNull)]\<rparr>"

definition sample_phases :: activation_plan where
  "sample_phases = sample_activation\<lparr>phase_sequence := [''P1_CONSTITUTIONAL_PREFLIGHT'', ''P2_TASK_ROUTING'']\<rparr>"

definition sample_authority_obligation :: obligation where
  "sample_authority_obligation =
     new_obligation (sample_intent ''m'') ''OBL.AUTHORITY'' AUTHORITY True ''k'' [''c''] [''e'']"

lemma sample_execution_runs:
  "\<exists>c. compile_execution (sample_intent ''m'') sample_phases [sample_binding] sample_source_doc
      [sample_authority_obligation] (sample_context []) ''d'' = Inr c"
proof -
  let ?c = "compile_execution (sample_intent ''m'') sample_phases [sample_binding] sample_source_doc
      [sample_authority_obligation] (sample_context []) ''d''"
  have "isl ?c = False" by code_simp
  then show ?thesis by (cases ?c) auto
qed



text \<open>C19: Execution compilation succeeds exactly on an unblocked plan with at least one phase, all
  of them canonical, under a pipeline that names its terminal contract and identity; an unblocked
  plan with no phase escapes the typed errors as an index error.\<close>

theorem execution_compiles_exactly:
  "((\<exists>c. compile_execution i p kernels px obs ctx digest = Inr c) \<longleftrightarrow>
      blockers p = [] \<and> field_ok (px_terminal_contract px) \<and> field_ok (px_pipeline_id px)
      \<and> set (phase_sequence p) \<subseteq> fst ` set PHASE_STEP_MAP \<and> phase_sequence p \<noteq> [])
   \<and> (blockers p = [] \<and> field_ok (px_terminal_contract px) \<and> field_ok (px_pipeline_id px) \<and> phase_sequence p = []
      \<longrightarrow> compile_execution i p kernels px obs ctx digest = Inl PyIndexError)"
proof -
  have t: "(\<exists>x. terminal_target ps = Inr x) \<longleftrightarrow> ps \<noteq> []" for ps
    by (auto simp: terminal_target_def)
  have "(\<exists>c. compile_execution i p kernels px obs ctx digest = Inr c) \<longleftrightarrow>
      blockers p = [] \<and> (\<exists>s. non_blank_field (px_terminal_contract px) ''pipeline terminal_contract missing'' = Inr s)
      \<and> (\<exists>s. non_blank_field (px_pipeline_id px) ''pipeline pipeline_id missing'' = Inr s)
      \<and> (\<exists>seq. mapR phase_step (phase_sequence p) = Inr seq) \<and> (\<exists>x. terminal_target (phase_sequence p) = Inr x)"
    by (auto simp: compile_execution_def bindR_eq_Inr)
  moreover have "compile_execution i p kernels px obs ctx digest = Inl PyIndexError"
    if h: "blockers p = []" "field_ok (px_terminal_contract px)" "field_ok (px_pipeline_id px)" "phase_sequence p = []"
  proof -
    obtain s s' where "non_blank_field (px_terminal_contract px) ''pipeline terminal_contract missing'' = Inr s"
      "non_blank_field (px_pipeline_id px) ''pipeline pipeline_id missing'' = Inr s'"
      using h(2,3) non_blank_field_Inr by metis
    then show ?thesis using h(1,4) by (simp add: compile_execution_def terminal_target_def)
  qed
  ultimately show ?thesis unfolding non_blank_field_Inr phase_steps_Inr t by blast
qed

theorem execution_compiles_exactly_witness:
  "blockers sample_activation = []
   \<and> compile_execution (sample_intent ''m'') (sample_activation\<lparr>phase_sequence := []\<rparr>) [] sample_source_doc [] (sample_context []) ''d''
       = Inl PyIndexError"
proof
  show b: "blockers sample_activation = []" by (simp add: sample_activation_def)
  have f: "field_ok (px_terminal_contract sample_source_doc)" "field_ok (px_pipeline_id sample_source_doc)"
    by code_simp+
  show "compile_execution (sample_intent ''m'') (sample_activation\<lparr>phase_sequence := []\<rparr>) [] sample_source_doc [] (sample_context []) ''d''
       = Inl PyIndexError"
    by (rule mp [OF conjunct2 [OF execution_compiles_exactly]]) (simp add: b f)
qed

text \<open>Every required obligation has an evaluator: the validation contract binds each to a
  required property that has not run, refers to no obligation the execution contract does not
  carry, and the conservation check between the two never fails.\<close>

theorem validation_binds_obligations:
  assumes "distinct (map obligation_id (obligations ex))"
  shows "conserve_ids (obligations ex)
      (sorted_unique (map obligation_ref (validation_properties (compile_validation ex p)))) stage = Inr ()
    \<and> (\<forall>x \<in> set (obligations ex). ob_required x \<longrightarrow>
        (\<exists>q \<in> set (validation_properties (compile_validation ex p)). obligation_ref q = obligation_id x
           \<and> evaluator q = evaluator_by_kind (ob_kind x) \<and> vp_required q \<and> vp_status q = VS_NOT_RUN))
    \<and> list_all (\<lambda>q. vp_status q = VS_NOT_RUN \<and> vp_required q) (validation_properties (compile_validation ex p))"
proof -
  let ?refs = "sorted_unique (map obligation_ref (validation_properties (compile_validation ex p)))"
  have "set ?refs = obligation_ref ` set (validation_properties (compile_validation ex p))" by simp
  then have r: "set ?refs = {obligation_id x |x. x \<in> set (obligations ex) \<and> ob_required x}
     \<union> (if (\<exists>x \<in> set (obligations ex). obligation_id x = ''OBL.ARCHITECTURE'')
           \<and> ''temporal_lens'' \<in> set (mt_active_lenses (architecture_materiality p))
        then {''OBL.ARCHITECTURE''} else {})" by (simp only: validation_refs)
  have "obligation_id ` live (obligations ex) \<subseteq> set ?refs"
    unfolding r by (auto simp: live_def)
  moreover have "set ?refs \<subseteq> obligation_id ` set (obligations ex)"
    unfolding r by (auto split: if_splits intro: rev_image_eqI)
  ultimately have "conserve_ids (obligations ex) ?refs stage = Inr ()"
    unfolding conserve_ids_Inr using assms by simp
  moreover have "\<exists>q \<in> set (validation_properties (compile_validation ex p)). obligation_ref q = obligation_id x
           \<and> evaluator q = evaluator_by_kind (ob_kind x) \<and> vp_required q \<and> vp_status q = VS_NOT_RUN"
    if "x \<in> set (obligations ex)" "ob_required x" for x
    using that by (intro bexI [of _ "new_property (''PROP.'' @ obligation_id x) (obligation_id x)
        (evaluator_by_kind (ob_kind x))"]) (auto simp: compile_validation_def Let_def new_property_def)
  moreover have "list_all (\<lambda>q. vp_status q = VS_NOT_RUN \<and> vp_required q) (validation_properties (compile_validation ex p))"
    by (auto simp: compile_validation_def Let_def new_property_def list_all_iff)
  ultimately show ?thesis by blast
qed

definition sample_contract :: "obligation list \<Rightarrow> execution_contract" where
  "sample_contract obs = \<lparr>contract_id = ''c'', source_activation_plan = ''s'', terminal_doctrine = ''t'',
     exec_objective = ''m'', authority_order = [''user task''], kernel_activation = [],
     execution_sequence = [], validation_requirements = [], output_contract = [], adapter_targets = [],
     exec_version = None, stop_conditions = [], metadata = [], obligations = obs, execution_steps = []\<rparr>"

theorem validation_binds_obligations_witness:
  "\<exists>q \<in> set (validation_properties (compile_validation (sample_contract [sample_authority_obligation]) sample_activation)).
     obligation_ref q = ''OBL.AUTHORITY'' \<and> evaluator q = ''authority_order''"
proof -
  let ?ex = "sample_contract [sample_authority_obligation]"
  have d: "distinct (map obligation_id (obligations ?ex))" by (simp add: sample_contract_def)
  have x: "sample_authority_obligation \<in> set (obligations ?ex)" "ob_required sample_authority_obligation"
    "ob_kind sample_authority_obligation = AUTHORITY" "obligation_id sample_authority_obligation = ''OBL.AUTHORITY''"
    by (simp_all add: sample_contract_def sample_authority_obligation_def)
  from bspec [OF conjunct1 [OF conjunct2 [OF validation_binds_obligations [OF d, of sample_activation "''s''"]]] x(1)] x(2)
  show ?thesis unfolding x(3,4) by auto
qed

lemma not_blocking_iff: "\<not> is_blocking_status st \<longleftrightarrow> st \<in> {VS_PASSED, VS_NOT_APPLICABLE_WITH_REASON}"
  by (cases st) simp_all



end
