(* ===== verification/Graph.thy ===== *)
theory Graph
  imports Execution "HOL-Library.Multiset" "HOL-Library.Monad_Syntax"
begin

text \<open>
  The execution graph (\<open>graph/__init__.py\<close>): its derivation from the steps of an
  execution contract, its validation, and the topological order both rest on.

  \<open>topological_order\<close> is Kahn's algorithm over a \<open>deque\<close>. Its loop is written as the
  code has it, with no bound, so \<open>None\<close> stands for a run that never returns; the first lemmas show
  that it always returns, also on duplicate node ids, where a node may be visited several times.
  The dictionaries \<open>incoming\<close> and \<open>outgoing\<close> are functions to sets, read only at known ids.
\<close>

section \<open>Topological order\<close>

type_synonym links = "string \<Rightarrow> string set"

primrec link_edges :: "string list \<Rightarrow> (string \<times> string) list \<Rightarrow> links \<times> links \<Rightarrow> (links \<times> links) res" where
  "link_edges ids [] io = Inr io"
| "link_edges ids (e # es) io =
     (if fst e \<notin> set ids \<or> snd e \<notin> set ids
      then Inl (InvalidValueError ''edge references missing node'' ''edges'')
      else link_edges ids es
             ((fst io)(snd e := insert (fst e) (fst io (snd e))),
              (snd io)(fst e := insert (snd e) (snd io (fst e)))))"

primrec release :: "string \<Rightarrow> string list \<Rightarrow> links \<Rightarrow> string list \<Rightarrow> links \<times> string list" where
  "release node [] inc ready = (inc, ready)"
| "release node (nxt # ss) inc ready =
     (let inc' = inc(nxt := inc nxt - {node})
      in release node ss inc' (if inc' nxt = {} then ready @ [nxt] else ready))"

partial_function (option) kahn_loop :: "links \<Rightarrow> links \<Rightarrow> string list \<Rightarrow> string list \<Rightarrow> string list option" where
  "kahn_loop out inc ready ordered =
     (case ready of
        [] \<Rightarrow> Some ordered
      | node # rest \<Rightarrow>
          kahn_loop out (fst (release node (sorted_list_of_set (out node)) inc rest))
            (snd (release node (sorted_list_of_set (out node)) inc rest)) (ordered @ [node]))"

declare kahn_loop.simps [code]

definition topological_order :: "string list \<Rightarrow> (string \<times> string) list \<Rightarrow> string list res option" where
  "topological_order ids es =
     (case link_edges ids es (\<lambda>_. {}, \<lambda>_. {}) of
        Inl err \<Rightarrow> Some (Inl err)
      | Inr io \<Rightarrow>
          (case kahn_loop (snd io) (fst io) (sort (filter (\<lambda>i. fst io i = {}) ids)) [] of
             None \<Rightarrow> None
           | Some ordered \<Rightarrow>
               Some (if length ordered \<noteq> length ids
                     then Inl (InvalidValueError ''cycle detected in execution graph'' ''edges'')
                     else Inr ordered)))"

definition assert_dependencies_satisfied :: "string list \<Rightarrow> (string \<times> string) list \<Rightarrow> unit res" where
  "assert_dependencies_satisfied ids es =
     guardR (list_all (\<lambda>e. fst e \<in> set ids \<and> snd e \<in> set ids) es)
       (InvalidValueError ''missing dependency endpoint'' ''edges'')"

section \<open>Derivation from a contract\<close>

definition TERMINAL_PHASE :: string where
  "TERMINAL_PHASE = ''P7_FLAWLESS_VICTORY''"

definition step_node :: "execution_step \<Rightarrow> graph_node" where
  "step_node s = \<lparr>node_id = step_id s, node_phase = phase s, node_kernel_refs = kernel_refs s,
     node_outputs = output_refs s, node_status = Some ''planned'',
     node_obligation_refs = obligation_refs s, node_inputs = input_refs s,
     node_entry_gates = entry_gates s, node_exit_gates = exit_gates s,
     node_evidence = step_evidence s, node_failure_routes = failure_routes s,
     node_disposition = (if phase s = TERMINAL_PHASE then Some ''CONVERGED'' else None)\<rparr>"

primrec step_nodes :: "execution_step list \<Rightarrow> string list \<Rightarrow> graph_node list res" where
  "step_nodes [] seen = Inr []"
| "step_nodes (s # ss) seen =
     (if step_id s \<in> set seen
      then Inl (InvalidValueError ''duplicate execution step id'' ''execution_steps'')
      else bindR (step_nodes ss (step_id s # seen)) (\<lambda>ns. Inr (step_node s # ns)))"

definition chain :: "string list \<Rightarrow> (string \<times> string) list" where
  "chain ids = zip ids (tl ids)"

definition step_edge :: "string \<times> string \<Rightarrow> graph_edge" where
  "step_edge e = \<lparr>from_node = fst e, to_node = snd e, edge_reason = Some ''step_order''\<rparr>"

definition chain_graph :: "execution_contract \<Rightarrow> graph_node list \<Rightarrow> execution_graph" where
  "chain_graph c ns = \<lparr>graph_id = ''graph.'' @ contract_id c, source_contract = contract_id c,
     nodes = ns, edges = map step_edge (chain (map node_id ns)),
     terminal_node = last (map node_id ns), validation_gates = validation_requirements c,
     graph_obligation_refs =
       map obligation_id (filter (\<lambda>x. ob_required x \<and> disposition x = PENDING) (obligations c)),
     terminal_disposition =
       (if list_ex (\<lambda>s. phase s = TERMINAL_PHASE) (execution_steps c) then Some ''CONVERGED'' else None)\<rparr>"

text \<open>The order is computed twice, once by \<open>_assert_acyclic\<close> for its error alone.\<close>

definition derive_execution_graph :: "execution_contract \<Rightarrow> execution_graph res option" where
  "derive_execution_graph c =
     (if execution_steps c = []
      then Some (Inl (InvalidValueError ''execution_steps required to derive graph'' ''execution_steps''))
      else case step_nodes (execution_steps c) [] of
        Inl err \<Rightarrow> Some (Inl err)
      | Inr ns \<Rightarrow>
          (case topological_order (map node_id ns) (chain (map node_id ns)) of
             None \<Rightarrow> None
           | Some (Inl err) \<Rightarrow> Some (Inl err)
           | Some (Inr order) \<Rightarrow>
               Some (if order \<noteq> map node_id ns
                     then Inl (InvalidValueError ''topological order diverged from step order'' ''execution_steps'')
                     else Inr (chain_graph c ns))))"

section \<open>Validation of a serialized graph\<close>

fun error_text :: "cog_error \<Rightarrow> string" where
  "error_text (InvalidValueError msg p) = (if p = [] then msg else p @ '': '' @ msg)"
| "error_text (UnknownFieldError msg p) = (if p = [] then msg else p @ '': '' @ msg)"
| "error_text (CanonicalizationError msg) = msg"
| "error_text (StrictParseError _ msg p) = (if p = [] then msg else p @ '': '' @ msg)"
| "error_text (RunNotFoundError p) = (if p = [] then ''run not found'' else p @ '': run not found'')"
| "error_text (PyKeyError k) = k"
| "error_text PyIndexError = ''index out of range''"
| "error_text PyTypeError = ''type error''"
| "error_text PyAttributeError = ''attribute error''"
| "error_text PyOSError = ''os error''"
| "error_text (PyValueError msg) = msg"

text \<open>
  \<open>decode\<close> stands for \<open>ExecutionGraph.from_mapping\<close>, the schema validation of pydantic.
\<close>

definition graph_findings :: "execution_graph \<Rightarrow> string list option" where
  "graph_findings g =
     (let ids = map node_id (nodes g);
          own = (if distinct ids then [] else [''duplicate node id'']) @
                (if terminal_node g \<in> set ids then [] else [''terminal_node missing from nodes''])
      in case topological_order ids (map (\<lambda>e. (from_node e, to_node e)) (edges g)) of
           None \<Rightarrow> None
         | Some (Inl err) \<Rightarrow> Some (own @ [error_text err])
         | Some (Inr _) \<Rightarrow> Some own)"

definition validate_execution_graph_mapping :: "(json \<Rightarrow> execution_graph res) \<Rightarrow> json \<Rightarrow> string list option" where
  "validate_execution_graph_mapping decode m =
     (case decode m of Inl err \<Rightarrow> Some [error_text err] | Inr g \<Rightarrow> graph_findings g)"

section \<open>The loop, step by step\<close>

definition preds :: "(string \<times> string) list \<Rightarrow> string \<Rightarrow> string set" where
  "preds es n = {m. (m, n) \<in> set es}"

definition succs :: "(string \<times> string) list \<Rightarrow> string \<Rightarrow> string set" where
  "succs es m = {n. (m, n) \<in> set es}"

lemma finite_succs [simp]: "finite (succs es m)"
  by (rule finite_subset [of _ "snd ` set es"]) (force simp: succs_def)+

lemma link_edges_Inr:
  "link_edges ids es io = Inr io' \<longleftrightarrow>
     (\<forall>e \<in> set es. fst e \<in> set ids \<and> snd e \<in> set ids) \<and>
     io' = (\<lambda>n. fst io n \<union> preds es n, \<lambda>n. snd io n \<union> succs es n)"
proof (induction es arbitrary: io)
  case Nil
  show ?case by (cases io) (auto simp: preds_def succs_def)
next
  case (Cons e es)
  have p: "(\<lambda>n. ((fst io)(snd e := insert (fst e) (fst io (snd e)))) n \<union> preds es n) =
        (\<lambda>n. fst io n \<union> preds (e # es) n)"
    by (rule ext) (cases e; auto simp: preds_def)
  have s: "(\<lambda>n. ((snd io)(fst e := insert (snd e) (snd io (fst e)))) n \<union> succs es n) =
        (\<lambda>n. snd io n \<union> succs (e # es) n)"
    by (rule ext) (cases e; auto simp: succs_def)
  show ?case using Cons.IH by (simp add: p s del: fun_upd_apply) blast
qed

lemma link_edges_Inl:
  "link_edges ids es io = Inl err \<longleftrightarrow>
     (\<exists>e \<in> set es. fst e \<notin> set ids \<or> snd e \<notin> set ids) \<and>
     err = InvalidValueError ''edge references missing node'' ''edges''"
  by (induction es arbitrary: io) auto

lemma release_eq:
  assumes "distinct ss"
  shows "release node ss inc ready =
     ((\<lambda>n. if n \<in> set ss then inc n - {node} else inc n),
      ready @ filter (\<lambda>s. inc s \<subseteq> {node}) ss)"
  using assms
proof (induction ss arbitrary: inc ready)
  case (Cons s ss)
  have f: "filter (\<lambda>t. (inc(s := inc s - {node})) t \<subseteq> {node}) ss = filter (\<lambda>t. inc t \<subseteq> {node}) ss"
    using Cons.prems by (intro filter_cong) auto
  have g: "(\<lambda>n. if n \<in> set ss then (inc(s := inc s - {node})) n - {node}
        else (inc(s := inc s - {node})) n) = (\<lambda>n. if n \<in> set (s # ss) then inc n - {node} else inc n)"
    using Cons.prems by (intro ext) auto
  show ?case using Cons.prems Cons.IH [of "inc(s := inc s - {node})"]
    by (simp add: Let_def f g Diff_eq_empty_iff del: fun_upd_apply) (simp add: Diff_eq_empty_iff)
qed simp

section \<open>The loop returns\<close>

text \<open>
  What is queued has only predecessors that were visited. So everything queued is in the
  well-founded part of the edge relation, and each visit replaces a node by successors that lie
  deeper in it: the queue, as a multiset, decreases.
\<close>

definition queue_ok :: "string list \<Rightarrow> (string \<times> string) list \<Rightarrow> links \<Rightarrow> string list \<Rightarrow> string list \<Rightarrow> bool" where
  "queue_ok ids es inc ready ordered \<longleftrightarrow>
     (\<forall>n \<in> set ids. inc n = preds es n - set ordered) \<and>
     set ordered \<union> set ready = {n \<in> set ids. preds es n \<subseteq> set ordered} \<and>
     (\<forall>xs n ys. ordered = xs @ n # ys \<longrightarrow> preds es n \<subseteq> set xs)"

abbreviation closed_edges :: "string list \<Rightarrow> (string \<times> string) list \<Rightarrow> bool" where
  "closed_edges ids es \<equiv> \<forall>e \<in> set es. fst e \<in> set ids \<and> snd e \<in> set ids"

lemma succs_known: "closed_edges ids es \<Longrightarrow> succs es m \<subseteq> set ids"
  by (force simp: succs_def)

lemma queue_ok_start:
  "queue_ok ids es (preds es) (sort (filter (\<lambda>i. preds es i = {}) ids)) []"
  by (auto simp: queue_ok_def)

lemma queue_okD: "queue_ok ids es inc ready ordered \<Longrightarrow> ordered = xs @ n # ys \<Longrightarrow> preds es n \<subseteq> set xs"
  by (simp add: queue_ok_def)

lemma queue_ok_step:
  assumes ok: "queue_ok ids es inc (node # rest) ordered" and known: "closed_edges ids es"
  shows "queue_ok ids es (\<lambda>n. if n \<in> succs es node then inc n - {node} else inc n)
      (rest @ filter (\<lambda>s. inc s \<subseteq> {node}) (sorted_list_of_set (succs es node))) (ordered @ [node])"
    (is "queue_ok ids es ?inc (rest @ ?new) _")
proof -
  have inc: "inc n = preds es n - set ordered" if "n \<in> set ids" for n
    using ok that by (simp add: queue_ok_def)
  have part: "set ordered \<union> set (node # rest) = {n \<in> set ids. preds es n \<subseteq> set ordered}"
    using ok by (simp add: queue_ok_def)
  have new: "set ?new = {n \<in> succs es node. preds es n \<subseteq> insert node (set ordered)}"
    using inc succs_known [OF known, of node] by auto
  have sp: "n \<in> succs es node \<longleftrightarrow> node \<in> preds es n" for n by (simp add: succs_def preds_def)
  have "?inc n = preds es n - set (ordered @ [node])" if "n \<in> set ids" for n
    using inc [OF that] sp [of n] by auto
  moreover have "set (ordered @ [node]) \<union> set (rest @ ?new) =
      {n \<in> set ids. preds es n \<subseteq> set (ordered @ [node])}" (is "?l = ?r")
  proof
    show "?l \<subseteq> ?r" using part new succs_known [OF known, of node] by auto
    show "?r \<subseteq> ?l"
    proof
      fix n assume n: "n \<in> ?r"
      show "n \<in> ?l"
      proof (cases "node \<in> preds es n")
        case True thus ?thesis using n new sp by auto
      next
        case False
        hence "n \<in> set ordered \<union> set (node # rest)" using n part by auto
        thus ?thesis by auto
      qed
    qed
  qed
  moreover have "preds es n \<subseteq> set xs" if "ordered @ [node] = xs @ n # ys" for xs n ys
  proof (cases ys rule: rev_cases)
    case Nil
    hence "n = node" "xs = ordered" using that by auto
    thus ?thesis using part by auto
  next
    case (snoc zs z)
    hence "ordered = xs @ n # zs" using that by auto
    thus ?thesis by (rule queue_okD [OF ok])
  qed
  ultimately show ?thesis unfolding queue_ok_def by blast
qed

lemma queue_new_distinct:
  assumes ok: "queue_ok ids es inc (node # rest) ordered" and known: "closed_edges ids es"
    and dist: "distinct (ordered @ node # rest)"
  shows "distinct (ordered @ node # rest @ filter (\<lambda>s. inc s \<subseteq> {node}) (sorted_list_of_set (succs es node)))"
proof -
  have "s \<notin> set (ordered @ node # rest)" if "s \<in> succs es node" for s
  proof
    assume "s \<in> set (ordered @ node # rest)"
    hence "preds es s \<subseteq> set ordered" using ok unfolding queue_ok_def by auto
    moreover have "node \<in> preds es s" using that by (simp add: preds_def succs_def)
    ultimately show False using dist by auto
  qed
  thus ?thesis using dist by auto
qed

text \<open>The well-founded part of the edge relation.\<close>

inductive settled :: "(string \<times> string) list \<Rightarrow> string \<Rightarrow> bool" for es where
  settledI: "(\<And>m. (m, n) \<in> set es \<Longrightarrow> settled es m) \<Longrightarrow> settled es n"

definition deeper :: "(string \<times> string) list \<Rightarrow> (string \<times> string) set" where
  "deeper es = {(t, s). (s, t) \<in> set es \<and> settled es t}"

lemma settled_pred: "settled es n \<Longrightarrow> (m, n) \<in> set es \<Longrightarrow> settled es m"
  by (auto elim: settled.cases)

lemma wf_deeper: "wf (deeper es)"
proof -
  have fin: "finite (deeper es)"
    by (rule finite_subset [of _ "(\<lambda>e. (snd e, fst e)) ` set es"])
      (auto simp: deeper_def intro: rev_image_eqI)
  have wfc: "wf ((deeper es)\<inverse>)"
  proof (rule wfUNIVI)
    fix P x assume hyp: "\<forall>x. (\<forall>y. (y, x) \<in> (deeper es)\<inverse> \<longrightarrow> P y) \<longrightarrow> P x"
    have set_P: "P n" if "settled es n" for n
      using that
    proof induction
      case (settledI n)
      have "P y" if "(y, n) \<in> (deeper es)\<inverse>" for y
        using that settledI.IH by (auto simp: deeper_def)
      thus ?case using hyp by blast
    qed
    show "P x"
    proof (cases "settled es x")
      case False
      hence "\<forall>y. (y, x) \<notin> (deeper es)\<inverse>" by (auto simp: deeper_def)
      thus ?thesis using hyp by blast
    qed (rule set_P)
  qed
  have "acyclic ((deeper es)\<inverse>)" by (rule wf_acyclic [OF wfc])
  hence "acyclic (deeper es)" by (simp add: acyclic_converse)
  thus ?thesis using fin by (rule finite_acyclic_wf [rotated])
qed

lemma queue_settled:
  assumes ok: "queue_ok ids es inc ready ordered" and known: "closed_edges ids es"
  shows "\<forall>n \<in> set ordered \<union> set ready. settled es n"
proof -
  have len: "\<forall>n. n \<in> set (take k ordered) \<longrightarrow> settled es n" for k
  proof (induction k)
    case (Suc k)
    show ?case
    proof (intro allI impI)
      fix n assume n: "n \<in> set (take (Suc k) ordered)"
      show "settled es n"
      proof (cases "k < length ordered")
        case True
        have split: "ordered = take k ordered @ ordered ! k # drop (Suc k) ordered"
          by (rule id_take_nth_drop [OF True])
        have "preds es (ordered ! k) \<subseteq> set (take k ordered)"
          by (rule queue_okD [OF ok split])
        hence "settled es (ordered ! k)" 
          using Suc.IH by - (rule settledI, auto simp: preds_def)
        thus ?thesis using n Suc.IH True by (auto simp: take_Suc_conv_app_nth)
      next
        case False
        thus ?thesis using n Suc.IH by auto
      qed
    qed
  qed simp
  have ord: "\<forall>n \<in> set ordered. settled es n" using len [of "length ordered"] by simp
  have "settled es n" if "n \<in> set ready" for n
  proof (rule settledI)
    fix m assume "(m, n) \<in> set es"
    moreover have "preds es n \<subseteq> set ordered" using ok that unfolding queue_ok_def by auto
    ultimately show "settled es m" using ord by (auto simp: preds_def)
  qed
  thus ?thesis using ord by auto
qed

lemma queue_decreases:
  assumes "\<forall>n \<in> set new. n \<in> succs es node \<and> settled es n"
  shows "(mset (rest @ new), mset (node # rest)) \<in> mult (deeper es)"
proof -
  have "(mset rest + mset new, mset rest + {#node#}) \<in> mult (deeper es)"
    by (rule one_step_implies_mult) (use assms in \<open>auto simp: deeper_def succs_def\<close>)
  thus ?thesis by simp
qed

lemma kahn_loop_returns:
  assumes known: "closed_edges ids es"
  shows "queue_ok ids es inc ready ordered \<Longrightarrow>
     \<exists>order inc'. kahn_loop (succs es) inc ready ordered = Some order \<and> queue_ok ids es inc' [] order \<and>
       (distinct (ordered @ ready) \<longrightarrow> distinct order)"
proof (induction "mset ready" arbitrary: inc ready ordered rule: wf_induct_rule [OF wf_mult [OF wf_deeper [of es]]])
  case (1 ready)
  show ?case
  proof (cases ready)
    case Nil
    thus ?thesis using 1(2) by (intro exI [of _ ordered] exI [of _ inc]) (simp add: kahn_loop.simps)
  next
    case (Cons node rest)
    define new where "new = filter (\<lambda>s. inc s \<subseteq> {node}) (sorted_list_of_set (succs es node))"
    define inc' where "inc' = (\<lambda>n. if n \<in> succs es node then inc n - {node} else inc n)"
    have rel: "release node (sorted_list_of_set (succs es node)) inc rest = (inc', rest @ new)"
      by (simp add: release_eq new_def inc'_def)
    have ok': "queue_ok ids es inc' (rest @ new) (ordered @ [node])"
      using queue_ok_step [OF _ known] 1(2) unfolding Cons new_def inc'_def by blast
    have "\<forall>n \<in> set new. n \<in> succs es node \<and> settled es n"
      using queue_settled [OF ok' known] by (auto simp: new_def)
    from queue_decreases [OF this] have smaller: "(mset (rest @ new), mset ready) \<in> mult (deeper es)"
      by (simp add: Cons)
    have "distinct ((ordered @ [node]) @ rest @ new)" if "distinct (ordered @ ready)"
      using queue_new_distinct [OF 1(2) [unfolded Cons] known that [unfolded Cons]] by (simp add: new_def)
    moreover have "kahn_loop (succs es) inc ready ordered =
        kahn_loop (succs es) inc' (rest @ new) (ordered @ [node])"
      by (simp add: Cons kahn_loop.simps [of _ _ "node # rest"] rel)
    ultimately show ?thesis using 1(1) [OF smaller ok'] by auto
  qed
qed

section \<open>What the order is\<close>

lemma acyclic_settled: "acyclic (set es) \<Longrightarrow> settled es n"
proof -
  assume "acyclic (set es)"
  hence "wf (set es)" by (intro finite_acyclic_wf) simp_all
  thus ?thesis by (induction n rule: wf_induct_rule) (rule settledI, blast)
qed

lemma settled_ordered:
  assumes ok: "queue_ok ids es inc [] order" and known: "closed_edges ids es"
  shows "settled es n \<Longrightarrow> n \<in> set ids \<Longrightarrow> n \<in> set order"
proof (induction rule: settled.induct)
  case (settledI n)
  have "preds es n \<subseteq> set order" using settledI.IH known by (force simp: preds_def)
  thus ?case using ok settledI.prems by (auto simp: queue_ok_def)
qed

lemma settled_acyclic:
  assumes "\<forall>e \<in> set es. settled es (snd e)"
  shows "acyclic (set es)"
proof -
  have "set es \<subseteq> (deeper es)\<inverse>" using assms by (auto simp: deeper_def)
  moreover have "acyclic ((deeper es)\<inverse>)"
    using wf_acyclic [OF wf_deeper] by (simp add: acyclic_converse)
  ultimately show ?thesis by (rule acyclic_subset [rotated])
qed

text \<open>\<open>forward es order\<close>: every edge leads from an earlier to a later position.\<close>

definition forward :: "(string \<times> string) list \<Rightarrow> string list \<Rightarrow> bool" where
  "forward es order \<longleftrightarrow> (\<forall>(m, n) \<in> set es. \<exists>xs ys zs. order = xs @ m # ys @ n # zs)"

lemma queue_forward:
  assumes ok: "queue_ok ids es inc [] order" and "\<forall>e \<in> set es. snd e \<in> set order"
  shows "forward es order"
  unfolding forward_def
proof (intro ballI, clarify)
  fix m n assume e: "(m, n) \<in> set es"
  then obtain as bs where o: "order = as @ n # bs" using assms(2) by (metis snd_conv split_list)
  have "m \<in> set as" using queue_okD [OF ok o] e by (auto simp: preds_def)
  then obtain xs ys where "as = xs @ m # ys" by (metis split_list)
  thus "\<exists>xs ys zs. order = xs @ m # ys @ n # zs" using o by auto
qed

lemma topological_order_unfold:
  assumes "closed_edges ids es"
  shows "\<exists>order inc. topological_order ids es =
      Some (if length order \<noteq> length ids
            then Inl (InvalidValueError ''cycle detected in execution graph'' ''edges'') else Inr order) \<and>
    queue_ok ids es inc [] order \<and> (distinct ids \<longrightarrow> distinct order)"
proof -
  have l: "link_edges ids es (\<lambda>_. {}, \<lambda>_. {}) = Inr (preds es, succs es)"
    unfolding link_edges_Inr using assms by simp
  from kahn_loop_returns [OF assms queue_ok_start] obtain order inc
    where "kahn_loop (succs es) (preds es) (sort (filter (\<lambda>i. preds es i = {}) ids)) [] = Some order"
      "queue_ok ids es inc [] order"
      and d: "distinct ([] @ sort (filter (\<lambda>i. preds es i = {}) ids)) \<longrightarrow> distinct order" by blast
  moreover have "distinct ids \<longrightarrow> distinct order" using d by simp
  ultimately show ?thesis by (intro exI [of _ order] exI [of _ inc]) (simp add: topological_order_def l)
qed

lemma topological_order_unknown:
  "\<not> closed_edges ids es \<Longrightarrow> topological_order ids es =
     Some (Inl (InvalidValueError ''edge references missing node'' ''edges''))"
proof -
  assume "\<not> closed_edges ids es"
  hence "link_edges ids es (\<lambda>_. {}, \<lambda>_. {}) = Inl (InvalidValueError ''edge references missing node'' ''edges'')"
    unfolding link_edges_Inl by blast
  thus ?thesis by (simp add: topological_order_def)
qed

lemma topological_order_total: "\<exists>r. topological_order ids es = Some r"
proof (cases "closed_edges ids es")
  case True
  thus ?thesis using topological_order_unfold by blast
next
  case False
  thus ?thesis using topological_order_unknown by blast
qed

text \<open>What the loop returns, from any queue of the nodes without predecessors.\<close>

lemma queue_ok_initial: "set ready = {n \<in> set ids. preds es n = {}} \<Longrightarrow> queue_ok ids es (preds es) ready []"
  by (auto simp: queue_ok_def)

lemma kahn_exact:
  assumes known: "closed_edges ids es" and dist: "distinct ids"
    and start: "queue_ok ids es (preds es) ready []" "distinct ready"
  shows "\<exists>order. kahn_loop (succs es) (preds es) ready [] = Some order \<and>
    (if acyclic (set es) then mset order = mset ids \<and> forward es order else length order \<noteq> length ids)"
proof -
  obtain order inc where run: "kahn_loop (succs es) (preds es) ready [] = Some order"
    and ok: "queue_ok ids es inc [] order" and do: "distinct order"
    using kahn_loop_returns [OF known start(1)] start(2) by auto
  have sub: "set order \<subseteq> set ids" using ok by (auto simp: queue_ok_def)
  have full: "length order = length ids \<longleftrightarrow> set order = set ids"
    using sub do dist by (metis List.finite_set card_subset_eq distinct_card)
  show ?thesis
  proof (cases "acyclic (set es)")
    case True
    hence "set order = set ids" using settled_ordered [OF ok known acyclic_settled [OF True]] sub by blast
    moreover from this have "forward es order" using known by (intro queue_forward [OF ok]) simp
    ultimately show ?thesis using True run dist do by (simp add: set_eq_iff_mset_eq_distinct)
  next
    case False
    have "length order \<noteq> length ids"
    proof
      assume "length order = length ids"
      hence "\<forall>e \<in> set es. settled es (snd e)"
        using full queue_settled [OF ok known] known by auto
      thus False using settled_acyclic False by blast
    qed
    thus ?thesis using False run by simp
  qed
qed

lemma topological_order_cases:
  assumes known: "closed_edges ids es" and dist: "distinct ids"
  shows "(acyclic (set es) \<and>
            (\<exists>order. topological_order ids es = Some (Inr order) \<and> mset order = mset ids \<and> forward es order)) \<or>
         (\<not> acyclic (set es) \<and>
            topological_order ids es = Some (Inl (InvalidValueError ''cycle detected in execution graph'' ''edges'')))"
proof -
  have l: "link_edges ids es (\<lambda>_. {}, \<lambda>_. {}) = Inr (preds es, succs es)"
    unfolding link_edges_Inr using known by simp
  obtain order where "kahn_loop (succs es) (preds es) (sort (filter (\<lambda>i. preds es i = {}) ids)) [] = Some order"
      "if acyclic (set es) then mset order = mset ids \<and> forward es order else length order \<noteq> length ids"
    using kahn_exact [OF known dist queue_ok_start] dist by auto
  thus ?thesis using mset_eq_length by (auto simp: topological_order_def l split: if_splits)
qed

section \<open>The chain of steps is its own order\<close>

lemma chain_set: "set (chain ids) = {(ids ! i, ids ! Suc i) | i. Suc i < length ids}"
  by (auto simp: chain_def set_zip nth_tl less_diff_conv)

lemma chain_mem: "(m, n) \<in> set (chain ids) \<longleftrightarrow> (\<exists>i. Suc i < length ids \<and> m = ids ! i \<and> n = ids ! Suc i)"
  by (auto simp: chain_set)

lemma chain_closed: "closed_edges ids (chain ids)"
proof
  fix e assume "e \<in> set (chain ids)"
  then obtain i where "Suc i < length ids" "e = (ids ! i, ids ! Suc i)" by (auto simp: chain_set)
  thus "fst e \<in> set ids \<and> snd e \<in> set ids" by simp
qed

lemma takeWhile_at: "distinct (xs @ x # ys) \<Longrightarrow> takeWhile (\<lambda>y. y \<noteq> x) (xs @ x # ys) = xs"
  by (subst takeWhile_append2) auto

definition place :: "string list \<Rightarrow> string \<Rightarrow> nat" where
  "place xs x = length (takeWhile (\<lambda>y. y \<noteq> x) xs)"

lemma place_inj: "distinct xs \<Longrightarrow> inj_on (place xs) (set xs)"
proof (rule inj_onI)
  fix x y assume d: "distinct xs" and xy: "x \<in> set xs" "y \<in> set xs" and eq: "place xs x = place xs y"
  from xy obtain as bs cs ds where s: "xs = as @ x # bs" "xs = cs @ y # ds" by (metis split_list)
  have "length as = length cs"
    using eq d takeWhile_at [of as x bs] takeWhile_at [of cs y ds] s unfolding place_def by metis
  hence "xs ! length as = x \<and> xs ! length as = y" using s by (metis nth_append_length)
  thus "x = y" by metis
qed

lemma forward_chain_sorted:
  assumes f: "forward (chain ids) order" and d: "distinct order"
  shows "sorted (map (place order) ids)"
  unfolding sorted_iff_nth_Suc
proof (intro allI impI)
  fix i assume i: "Suc i < length (map (place order) ids)"
  hence "(ids ! i, ids ! Suc i) \<in> set (chain ids)" by (auto simp: chain_mem)
  then obtain xs ys zs where o: "order = xs @ ids ! i # ys @ ids ! Suc i # zs"
    using f unfolding forward_def by fastforce
  have "place order (ids ! i) = length xs"
    using d takeWhile_at [of xs "ids ! i" "ys @ ids ! Suc i # zs"] by (simp add: o place_def)
  moreover have "place order (ids ! Suc i) = length (xs @ ids ! i # ys)"
    using d takeWhile_at [of "xs @ ids ! i # ys" "ids ! Suc i" zs] by (simp add: o place_def)
  ultimately show "map (place order) ids ! i \<le> map (place order) ids ! Suc i" using i by simp
qed

lemma forward_own_chain: "forward (chain ids) ids"
  unfolding forward_def
proof (intro ballI, clarify)
  fix m n assume "(m, n) \<in> set (chain ids)"
  then obtain i where i: "Suc i < length ids" "m = ids ! i" "n = ids ! Suc i" by (auto simp: chain_mem)
  hence "ids = take i ids @ m # [] @ n # drop (Suc (Suc i)) ids"
    by (metis Cons_nth_drop_Suc Suc_lessD append_Nil append_take_drop_id)
  thus "\<exists>xs ys zs. ids = xs @ m # ys @ n # zs" by blast
qed

lemma forward_chain_unique:
  assumes "forward (chain ids) order" and "distinct order" and "set order = set ids" and "distinct ids"
  shows "order = ids"
proof (rule map_sorted_distinct_set_unique [of "place order"])
  have inj: "inj_on (place order) (set ids)" using place_inj [OF assms(2)] unfolding assms(3) .
  show "inj_on (place order) (set order \<union> set ids)" using inj assms(3) by simp
  show "sorted (map (place order) order)" by (rule forward_chain_sorted [OF forward_own_chain assms(2)])
  show "sorted (map (place order) ids)" by (rule forward_chain_sorted [OF assms(1,2)])
  show "distinct (map (place order) order)" "distinct (map (place order) ids)"
    using inj assms by (simp_all add: distinct_map)
qed (rule assms)

lemma chain_acyclic: "distinct ids \<Longrightarrow> acyclic (set (chain ids))"
proof -
  assume d: "distinct ids"
  have "set (chain ids) \<subseteq> measure (place ids)"
  proof
    fix e assume e: "e \<in> set (chain ids)"
    then obtain i where i: "Suc i < length ids" "e = (ids ! i, ids ! Suc i)" by (auto simp: chain_set)
    define m n where "m = ids ! i" and "n = ids ! Suc i"
    note mn = i(2) [folded m_def n_def]
    have "place ids m \<le> place ids n"
      using forward_chain_sorted [OF forward_own_chain d] i unfolding sorted_iff_nth_Suc m_def n_def by auto
    moreover have "place ids m \<noteq> place ids n"
      using inj_onD [OF place_inj [OF d], of m n] d i by (auto simp: nth_eq_iff_index_eq m_def n_def)
    ultimately show "e \<in> measure (place ids)" using mn by simp
  qed
  thus ?thesis using wf_acyclic [OF wf_measure] by (rule acyclic_subset [rotated])
qed

lemma topological_order_chain: "distinct ids \<Longrightarrow> topological_order ids (chain ids) = Some (Inr ids)"
proof -
  assume d: "distinct ids"
  from topological_order_cases [OF chain_closed d] chain_acyclic [OF d] obtain order
    where o: "topological_order ids (chain ids) = Some (Inr order)" "mset order = mset ids" "forward (chain ids) order"
    by blast
  have "distinct order" "set order = set ids"
    using o(2) d by (metis mset_eq_imp_distinct_iff, metis mset_eq_setD)
  thus ?thesis using o forward_chain_unique d by metis
qed

lemma step_nodes_Inr:
  "step_nodes ss seen = Inr ns \<longleftrightarrow>
     distinct (map step_id ss) \<and> set (map step_id ss) \<inter> set seen = {} \<and> ns = map step_node ss"
  by (induction ss arbitrary: seen ns) (auto simp: bindR_eq_Inr)

lemma step_nodes_Inl:
  "step_nodes ss seen = Inl err \<Longrightarrow> err = InvalidValueError ''duplicate execution step id'' ''execution_steps''"
  by (induction ss arbitrary: seen) (auto simp: bindR_eq_Inl split: if_splits)

lemma step_node_id [simp]: "node_id (step_node s) = step_id s"
  by (simp add: step_node_def)

lemma derive_execution_graph_eq:
  "derive_execution_graph c = Some
     (if execution_steps c = []
      then Inl (InvalidValueError ''execution_steps required to derive graph'' ''execution_steps'')
      else if \<not> distinct (map step_id (execution_steps c))
      then Inl (InvalidValueError ''duplicate execution step id'' ''execution_steps'')
      else Inr (chain_graph c (map step_node (execution_steps c))))"
proof (cases "distinct (map step_id (execution_steps c))")
  case True
  hence n: "step_nodes (execution_steps c) [] = Inr (map step_node (execution_steps c))"
    by (simp add: step_nodes_Inr)
  have o: "map node_id (map step_node (execution_steps c)) = map step_id (execution_steps c)" by simp
  show ?thesis using True topological_order_chain [OF True] by (simp add: derive_execution_graph_def n o comp_def)
next
  case False
  then obtain err where "step_nodes (execution_steps c) [] = Inl err"
    using step_nodes_Inr [of "execution_steps c" "[]"] by (cases "step_nodes (execution_steps c) []") auto
  thus ?thesis using False step_nodes_Inl by (auto simp: derive_execution_graph_def)
qed

lemma step_edge_ends [simp]: "from_node (step_edge e) = fst e" "to_node (step_edge e) = snd e"
  by (simp_all add: step_edge_def)

lemma chain_graph_findings:
  assumes "distinct (map node_id ns)" and "ns \<noteq> []"
  shows "graph_findings (chain_graph c ns) = Some []"
proof -
  have "last (map node_id ns) \<in> node_id ` set ns" using assms(2) last_in_set [of "map node_id ns"] by simp
  thus ?thesis using assms topological_order_chain [OF assms(1)]
    by (simp add: graph_findings_def chain_graph_def comp_def)
qed

definition sample_step :: "string \<Rightarrow> execution_step" where
  "sample_step p = \<lparr>step_id = ''step.'' @ p, phase = p, kernel_refs = [], obligation_refs = [],
     input_refs = [], output_refs = [], entry_gates = [], exit_gates = [], step_evidence = [],
     failure_routes = []\<rparr>"

definition sample_steps :: "execution_contract" where
  "sample_steps = \<lparr>contract_id = ''c'', source_activation_plan = [], terminal_doctrine = [], exec_objective = [],
     authority_order = [], kernel_activation = [], execution_sequence = [], validation_requirements = [''tests''],
     output_contract = [], adapter_targets = [], exec_version = None, stop_conditions = [], metadata = [],
     obligations = [], execution_steps = [sample_step ''P0'', sample_step TERMINAL_PHASE]\<rparr>"

section \<open>Properties\<close>

text \<open>C21: The topological order always returns, also for repeated node ids. On distinct ids it
  succeeds exactly when every edge joins known nodes and the edges are acyclic; the order is then a
  permutation of the nodes along which every edge leads forward, and the failures are told apart: an
  edge to a missing node, otherwise a cycle.\<close>

theorem topological_order_exact:
  assumes "distinct ids"
  shows "(\<forall>xs. \<exists>r. topological_order xs es = Some r) \<and>
    ((\<exists>order. topological_order ids es = Some (Inr order)) \<longleftrightarrow> closed_edges ids es \<and> acyclic (set es)) \<and>
    (\<forall>order. topological_order ids es = Some (Inr order) \<longrightarrow> mset order = mset ids \<and> forward es order) \<and>
    (\<not> closed_edges ids es \<longrightarrow> topological_order ids es =
       Some (Inl (InvalidValueError ''edge references missing node'' ''edges''))) \<and>
    (closed_edges ids es \<and> \<not> acyclic (set es) \<longrightarrow> topological_order ids es =
       Some (Inl (InvalidValueError ''cycle detected in execution graph'' ''edges'')))"
proof (cases "closed_edges ids es")
  case True
  thus ?thesis using topological_order_cases [OF True assms] topological_order_total by auto
next
  case False
  thus ?thesis using topological_order_unknown [OF False] topological_order_total by auto
qed

theorem topological_order_exact_witness:
  "topological_order [''b'', ''a''] [(''a'', ''b'')] = Some (Inr [''a'', ''b'']) \<and>
   topological_order [''a'', ''b''] [(''a'', ''b''), (''b'', ''a'')] =
     Some (Inl (InvalidValueError ''cycle detected in execution graph'' ''edges''))"
proof -
  let ?es = "[(''a'', ''b''), (''b'', ''a'')]"
  have "(''a'', ''a'') \<in> (set ?es)\<^sup>+"
    by (rule trancl_into_trancl [of _ "''b''"]) auto
  hence c: "\<not> acyclic (set ?es)" unfolding acyclic_def by blast
  have d: "distinct [''a'', ''b'']" by simp
  have "topological_order [''a'', ''b''] ?es =
     Some (Inl (InvalidValueError ''cycle detected in execution graph'' ''edges''))"
    using topological_order_exact [OF d, of ?es] c by simp
  moreover have "topological_order [''b'', ''a''] [(''a'', ''b'')] = Some (Inr [''a'', ''b''])"
    by code_simp
  ultimately show ?thesis by blast
qed

text \<open>Deriving the graph of a contract always returns; it fails exactly on a contract without steps or
  with a repeated step id. The graph has one node per step, carrying the step's kernels, obligations,
  gates and evidence, an edge between each step and the next, the last step as terminal node and the
  required pending obligations of the contract, and the graph validator finds nothing against it.\<close>

theorem graph_mirrors_steps:
  assumes "derive_execution_graph c = Some (Inr g)"
  shows "execution_steps c \<noteq> [] \<and> distinct (map step_id (execution_steps c)) \<and>
    map node_id (nodes g) = map step_id (execution_steps c) \<and>
    (\<forall>i < length (execution_steps c). nodes g ! i = step_node (execution_steps c ! i)) \<and>
    map (\<lambda>e. (from_node e, to_node e)) (edges g) = chain (map step_id (execution_steps c)) \<and>
    terminal_node g = step_id (last (execution_steps c)) \<and>
    graph_obligation_refs g = required_pending_ids (obligations c) \<and>
    graph_findings g = Some [] \<and>
    (\<forall>d. (\<exists>h. derive_execution_graph d = Some (Inr h)) \<longleftrightarrow>
       execution_steps d \<noteq> [] \<and> distinct (map step_id (execution_steps d)))"
proof -
  have eq: "execution_steps c \<noteq> []" "distinct (map step_id (execution_steps c))"
    "g = chain_graph c (map step_node (execution_steps c))"
    using assms by (auto simp: derive_execution_graph_eq split: if_splits)
  have refs: "filter (\<lambda>x. ob_required x \<and> disposition x = PENDING) (obligations c) =
      filter (\<lambda>x. ob_required x \<and> \<not> is_terminal x) (obligations c)"
    by (rule filter_cong) (simp_all add: is_terminal_def)
  have "graph_findings g = Some []" unfolding eq(3) using eq by (intro chain_graph_findings) (simp_all add: comp_def)
  moreover have "map (\<lambda>e. (from_node e, to_node e)) (edges g) = chain (map step_id (execution_steps c))"
    by (simp add: eq(3) chain_graph_def comp_def)
  moreover have "terminal_node g = step_id (last (execution_steps c))"
    using eq(1) by (simp add: eq(3) chain_graph_def last_map comp_def)
  ultimately show ?thesis using eq(1,2)
    by (simp add: derive_execution_graph_eq) (simp add: eq(3) chain_graph_def comp_def required_pending_ids_def refs)
qed

theorem graph_mirrors_steps_witness:
  "\<exists>g. derive_execution_graph sample_steps = Some (Inr g) \<and>
     map node_id (nodes g) = [''step.P0'', ''step.P7_FLAWLESS_VICTORY''] \<and> graph_findings g = Some []"
proof -
  obtain g where g: "derive_execution_graph sample_steps = Some (Inr g)"
    by (simp add: derive_execution_graph_eq sample_steps_def sample_step_def TERMINAL_PHASE_def)
  have "map node_id (nodes g) = map step_id (execution_steps sample_steps)" "graph_findings g = Some []"
    using graph_mirrors_steps [OF g] by blast+
  thus ?thesis using g by (intro exI [of _ g]) (simp add: sample_steps_def sample_step_def TERMINAL_PHASE_def)
qed

end
