(* ===== verification/Packet.thy ===== *)
theory Packet
  imports Graph
begin

text \<open>
  The execution packet (\<open>compiler/packet.py\<close>), its validation and its projections
  (the first half of \<open>compiler/adapters.py\<close>).

  The packet is an untyped mapping, so the model is a \<open>json\<close> value read through the three Python
  accesses the code uses, each with the exception it can raise: \<open>d[k]\<close>, \<open>d.get(k)\<close> and
  iteration. Identities inside a packet are strings; where the code would compare another value
  there, the model raises \<open>TypeError\<close>.
\<close>

section \<open>Reading an untyped mapping\<close>

fun py_index :: "json \<Rightarrow> string \<Rightarrow> json res" where
  "py_index (JObj kvs) k = (case map_of kvs k of None \<Rightarrow> Inl (PyKeyError k) | Some v \<Rightarrow> Inr v)"
| "py_index _ k = Inl PyTypeError"

fun py_get :: "json \<Rightarrow> string \<Rightarrow> json option res" where
  "py_get (JObj kvs) k = Inr (map_of kvs k)"
| "py_get _ k = Inl PyAttributeError"

fun py_items :: "json \<Rightarrow> json list res" where
  "py_items (JList xs) = Inr xs"
| "py_items (JObj kvs) = Inr (map (\<lambda>kv. JStr (fst kv)) kvs)"
| "py_items (JStr s) = Inr (map (\<lambda>c. JStr [c]) s)"
| "py_items _ = Inl PyTypeError"

fun py_text :: "json \<Rightarrow> string res" where
  "py_text (JStr s) = Inr s"
| "py_text _ = Inl PyTypeError"

text \<open>\<open>d.get(k) or dflt\<close>, and \<open>[x[k] for x in xs]\<close> with or without \<open>str\<close>.\<close>

definition py_get_or :: "json \<Rightarrow> string \<Rightarrow> json \<Rightarrow> json res" where
  "py_get_or d k dflt = bindR (py_get d k) (\<lambda>v. Inr (case v of None \<Rightarrow> dflt | Some x \<Rightarrow> if falsy x then dflt else x))"

definition texts_at :: "string \<Rightarrow> json list \<Rightarrow> string list res" where
  "texts_at k xs = mapR (\<lambda>x. bindR (py_index x k) py_text) xs"

definition strs_at :: "string \<Rightarrow> json list \<Rightarrow> string list res" where
  "strs_at k xs = mapR (\<lambda>x. bindR (py_index x k) (\<lambda>v. Inr (py_str v))) xs"

section \<open>Building the packet\<close>

definition BLOCK_SEMANTICS :: json where
  "BLOCK_SEMANTICS = JObj
     [(''valid_block_types'', jstrs [''AUTHORITY'', ''CAPABILITY'', ''IRREDUCIBLE_REPOSITORY_CONTRADICTION'']),
      (''block_evidence_required'', JBool True)]"

definition CONVERGENCE_CONTRACT :: json where
  "CONVERGENCE_CONTRACT = JObj
     [(''terminal_success_gate'', jstrs
        [''all_required_obligations_have_legal_disposition'', ''no_required_obligation_is_UNKNOWN'',
         ''no_blocking_validation_failed'', ''architectural_integrity_satisfied_when_applicable'',
         ''requested_delivery_satisfied'', ''no_false_completion_condition'']),
      (''receipt_fields'', jstrs
        [''terminal_disposition'', ''obligation_dispositions'', ''validation_summary'', ''gate_report'',
         ''generated_at''])]"

definition kernel_digests :: "kernel_binding list \<Rightarrow> json" where
  "kernel_digests kernels = jdict (fold (\<lambda>b. dict_put (kb_source_ref b) (kb_source_digest b)) kernels [])"

definition required_obligations :: "execution_contract \<Rightarrow> obligation list" where
  "required_obligations ex = filter (\<lambda>x. ob_required x \<and> disposition x = PENDING) (obligations ex)"

definition delivery_obligations :: "execution_contract \<Rightarrow> obligation list" where
  "delivery_obligations ex = filter (\<lambda>x. obligation_id x = ''OBL.DELIVERY'') (obligations ex)"

record packet_digests =
  pd_routing_rules :: string
  pd_pipeline :: string
  pd_semantic :: string
  pd_context :: string
  pd_plan_id :: string

definition build_execution_packet ::
  "(string \<Rightarrow> string) \<Rightarrow> intent_contract \<Rightarrow> kernel_binding list \<Rightarrow> activation_plan \<Rightarrow> execution_contract \<Rightarrow>
     validation_contract \<Rightarrow> handoff_contract \<Rightarrow> execution_graph \<Rightarrow> packet_digests \<Rightarrow> compiled_task_context \<Rightarrow> json" where
  "build_execution_packet H i kernels p ex va ha g ds ctx = JObj
     [(''intent'', intent_json i),
      (''compiled_task_context'', context_json ctx),
      (''compiled_task_context_digest'', JStr (pd_context ds)),
      (''context_plan_id'', JStr (pd_plan_id ds)),
      (''active_kernel_bindings'', JList (map binding_json kernels)),
      (''execution_steps'', JList (map execution_step_json (execution_steps ex))),
      (''required_obligations'', JList (map obligation_json (required_obligations ex))),
      (''validation_properties'', JList (map validation_property_json (validation_properties va))),
      (''delivery_obligations'', JList (map obligation_json (delivery_obligations ex))),
      (''unknowns'', jstrs (int_unknowns i @ ap_unknowns p @ map unknown_id (ctx_unknowns ctx))),
      (''block_semantics'', BLOCK_SEMANTICS),
      (''convergence_contract'', CONVERGENCE_CONTRACT),
      (''provenance'', JObj
        [(''semantic_digest'', JStr (pd_semantic ds)),
         (''routing_rules_digest'', JStr (pd_routing_rules ds)),
         (''pipeline_digest'', JStr (pd_pipeline ds)),
         (''kernel_digests'', kernel_digests kernels),
         (''graph_digest'', JStr (sha256_digest H (graph_json g))),
         (''handoff_digest'', JStr (sha256_digest H (handoff_json ha))),
         (''context_digest'', JStr (pd_context ds)),
         (''context_plan_id'', JStr (pd_plan_id ds))])]"

section \<open>Validation\<close>

definition GAR_SUFFIX :: string where
  "GAR_SUFFIX = ''global_architect_kernel.yaml''"

definition require_section :: "json \<Rightarrow> string \<Rightarrow> json res" where
  "require_section packet key = bindR (py_get packet key) (\<lambda>v. case v of
     None \<Rightarrow> Inl (InvalidValueError ''execution packet section missing'' key)
   | Some x \<Rightarrow> if x = JNull then Inl (InvalidValueError ''execution packet section missing'' key) else Inr x)"

definition is_gar_binding :: "json \<Rightarrow> bool res" where
  "is_gar_binding b = bindR (py_get b ''source_ref'') (\<lambda>v. case v of
     None \<Rightarrow> Inr (ends_with [] GAR_SUFFIX)
   | Some (JStr s) \<Rightarrow> Inr (ends_with s GAR_SUFFIX)
   | Some _ \<Rightarrow> Inl PyAttributeError)"

fun first_gar :: "json list \<Rightarrow> json option res" where
  "first_gar [] = Inr None"
| "first_gar (b # bs) = bindR (is_gar_binding b) (\<lambda>g. if g then Inr (Some b) else first_gar bs)"

fun check_deliveries :: "string list \<Rightarrow> json list \<Rightarrow> unit res" where
  "check_deliveries required_ids [] = Inr ()"
| "check_deliveries required_ids (d # ds) =
     bindR (py_get d ''required'') (\<lambda>r.
       if r = None \<or> falsy (the r) then check_deliveries required_ids ds
       else bindR (bindR (py_index d ''obligation_id'') py_text) (\<lambda>oid.
         if oid \<notin> set required_ids
         then Inl (InvalidValueError ''required delivery obligation dropped from the packet'' ''delivery_obligations'')
         else check_deliveries required_ids ds))"

definition check_architecture :: "string list \<Rightarrow> json \<Rightarrow> unit res" where
  "check_architecture required_ids bindings =
     (if ''OBL.ARCHITECTURE'' \<notin> set required_ids then Inr ()
      else bindR (bindR (py_items bindings) first_gar) (\<lambda>gar. case gar of
        None \<Rightarrow> Inl (InvalidValueError ''architecture obligation present but GAR binding missing'' ''active_kernel_bindings'')
      | Some b \<Rightarrow> bindR (py_get_or b ''outputs'' JNull) (\<lambda>outs.
          if outs = JNull then Inl (InvalidValueError ''GAR binding declares no outputs'' ''active_kernel_bindings'')
          else Inr ())))"

definition check_context_identity :: "(string \<Rightarrow> string) \<Rightarrow> json \<Rightarrow> json \<Rightarrow> json \<Rightarrow> json \<Rightarrow> unit res" where
  "check_context_identity H cbody declared planid prov =
     (if JStr (sha256_digest H cbody) \<noteq> declared
      then Inl (InvalidValueError ''compiled task context body does not hash to its declared digest'' ''compiled_task_context'')
      else bindR (py_get (if falsy prov then JObj [] else prov) ''context_digest'') (\<lambda>cd.
        if cd \<noteq> Some declared
        then Inl (InvalidValueError ''packet context digest disagrees with packet provenance'' ''compiled_task_context_digest'')
        else bindR (py_get (if falsy prov then JObj [] else prov) ''context_plan_id'') (\<lambda>cp.
          if cp \<noteq> Some planid
          then Inl (InvalidValueError ''packet context plan identity disagrees with packet provenance'' ''context_plan_id'')
          else Inr ())))"

definition check_validation_paths :: "string list \<Rightarrow> string list \<Rightarrow> unit res" where
  "check_validation_paths required_ids property_refs =
     (if \<not> set property_refs \<subseteq> set required_ids
      then Inl (InvalidValueError ''validation property binds an obligation absent from the packet'' ''validation_properties'')
      else if \<not> set required_ids \<subseteq> set property_refs
      then Inl (InvalidValueError ''required obligation lost its validation path'' ''required_obligations'')
      else Inr ())"

definition validate_packet :: "(string \<Rightarrow> string) \<Rightarrow> json \<Rightarrow> unit res" where
  "validate_packet H packet =
     bindR (require_section packet ''intent'') (\<lambda>_.
     bindR (require_section packet ''compiled_task_context'') (\<lambda>cbody.
     bindR (require_section packet ''compiled_task_context_digest'') (\<lambda>declared.
     bindR (require_section packet ''context_plan_id'') (\<lambda>planid.
     bindR (require_section packet ''active_kernel_bindings'') (\<lambda>bindings.
     bindR (require_section packet ''execution_steps'') (\<lambda>_.
     bindR (require_section packet ''required_obligations'') (\<lambda>required.
     bindR (require_section packet ''validation_properties'') (\<lambda>props.
     bindR (require_section packet ''delivery_obligations'') (\<lambda>deliveries.
     bindR (require_section packet ''unknowns'') (\<lambda>_.
     bindR (require_section packet ''convergence_contract'') (\<lambda>_.
     bindR (require_section packet ''provenance'') (\<lambda>prov.
     bindR (check_context_identity H cbody declared planid prov) (\<lambda>_.
     bindR (bindR (py_items required) (texts_at ''obligation_id'')) (\<lambda>required_ids.
     bindR (bindR (py_items props) (texts_at ''obligation_ref'')) (\<lambda>property_refs.
     bindR (check_validation_paths required_ids property_refs) (\<lambda>_.
     bindR (bindR (py_items deliveries) (check_deliveries required_ids)) (\<lambda>_.
     check_architecture required_ids bindings)))))))))))))))))"

section \<open>Projections\<close>

definition packet_context :: "json \<Rightarrow> json res" where
  "packet_context packet = py_get_or packet ''compiled_task_context'' (JObj [])"

definition refs_in :: "json \<Rightarrow> string \<Rightarrow> string \<Rightarrow> string list res" where
  "refs_in d section_key id_key =
     bindR (bindR (py_get_or d section_key (JList [])) py_items) (strs_at id_key)"

definition applicable_law_refs :: "json \<Rightarrow> string list res" where
  "applicable_law_refs packet = bindR (packet_context packet) (\<lambda>c. refs_in c ''applicable_law'' ''law_id'')"

definition authority_limit_refs :: "json \<Rightarrow> string list res" where
  "authority_limit_refs packet =
     bindR (bindR (packet_context packet) (\<lambda>c. py_get_or c ''authority'' (JObj [])))
       (\<lambda>a. refs_in a ''limits'' ''authority_id'')"

definition capability_gap_refs :: "json \<Rightarrow> string list res" where
  "capability_gap_refs packet =
     bindR (bindR (packet_context packet) (\<lambda>c. py_get_or c ''capabilities'' (JObj []))) (\<lambda>cs.
       bindR (refs_in cs ''available'' ''capability_id'') (\<lambda>available.
       bindR (refs_in cs ''required'' ''capability_id'') (\<lambda>required.
       Inr (sort (filter (\<lambda>r. r \<notin> set available) required)))))"

definition context_unknown_ids :: "json \<Rightarrow> string list res" where
  "context_unknown_ids packet = bindR (packet_context packet) (\<lambda>c. refs_in c ''unresolved_unknowns'' ''unknown_id'')"

definition binding_outputs :: "json \<Rightarrow> string list res" where
  "binding_outputs b = bindR (is_gar_binding b) (\<lambda>g. if \<not> g then Inr []
     else bindR (bindR (py_get_or b ''outputs'' (JList [])) py_items) (texts_at ''id''))"

definition gar_output_refs :: "json \<Rightarrow> string list res" where
  "gar_output_refs packet =
     bindR (bindR (py_get_or packet ''active_kernel_bindings'' (JList [])) py_items) (\<lambda>bs.
       bindR (mapR binding_outputs bs) (\<lambda>outs. Inr (sorted_unique (concat outs))))"

section \<open>Reading back what was built\<close>

lemma mapR_map: "(\<And>x. x \<in> set xs \<Longrightarrow> f (g x) = Inr (h x)) \<Longrightarrow> mapR f (map g xs) = Inr (map h xs)"
  by (induction xs) auto

lemma texts_at_obligations: "texts_at ''obligation_id'' (map obligation_json xs) = Inr (map obligation_id xs)"
  unfolding texts_at_def by (rule mapR_map) (simp add: obligation_json_def)

lemma texts_at_properties:
  "texts_at ''obligation_ref'' (map validation_property_json xs) = Inr (map obligation_ref xs)"
  unfolding texts_at_def by (rule mapR_map) (simp add: validation_property_json_def)

lemma is_gar_binding_json: "is_gar_binding (binding_json b) = Inr (ends_with (kb_source_ref b) GAR_SUFFIX)"
  by (simp add: is_gar_binding_def binding_json_def)

lemma first_gar_json:
  "first_gar (map binding_json kernels) =
     Inr (map_option binding_json (find (\<lambda>b. ends_with (kb_source_ref b) GAR_SUFFIX) kernels))"
  by (induction kernels) (simp_all add: is_gar_binding_json)

lemma binding_outputs_read:
  "py_get_or (binding_json b) ''outputs'' d =
     Inr (if kb_outputs b = [] then d else JList (map output_json (kb_outputs b)))"
  by (simp add: py_get_or_def binding_json_def)

lemma check_deliveries_read:
  "check_deliveries ids (map obligation_json xs) =
     (if \<forall>x \<in> set xs. ob_required x \<longrightarrow> obligation_id x \<in> set ids then Inr ()
      else Inl (InvalidValueError ''required delivery obligation dropped from the packet'' ''delivery_obligations''))"
  by (induction xs) (auto simp: obligation_json_def)

lemma context_json_body [simp]: "context_json c \<noteq> JNull" "\<not> falsy (context_json c)"
  by (simp_all add: context_json_def)

lemma packet_sections:
  fixes H i kernels p ex va ha g ds ctx
  defines "pk \<equiv> build_execution_packet H i kernels p ex va ha g ds ctx"
  shows "require_section pk ''intent'' = Inr (intent_json i)"
    "require_section pk ''compiled_task_context'' = Inr (context_json ctx)"
    "require_section pk ''compiled_task_context_digest'' = Inr (JStr (pd_context ds))"
    "require_section pk ''context_plan_id'' = Inr (JStr (pd_plan_id ds))"
    "require_section pk ''active_kernel_bindings'' = Inr (JList (map binding_json kernels))"
    "require_section pk ''execution_steps'' = Inr (JList (map execution_step_json (execution_steps ex)))"
    "require_section pk ''required_obligations'' = Inr (JList (map obligation_json (required_obligations ex)))"
    "require_section pk ''validation_properties'' =
       Inr (JList (map validation_property_json (validation_properties va)))"
    "require_section pk ''delivery_obligations'' = Inr (JList (map obligation_json (delivery_obligations ex)))"
    "require_section pk ''unknowns'' =
       Inr (jstrs (int_unknowns i @ ap_unknowns p @ map unknown_id (ctx_unknowns ctx)))"
    "require_section pk ''convergence_contract'' = Inr CONVERGENCE_CONTRACT"
  by (simp_all add: pk_def require_section_def build_execution_packet_def intent_json_def jstrs_def
        CONVERGENCE_CONTRACT_def)

lemma packet_provenance:
  "\<exists>kvs. require_section (build_execution_packet H i kernels p ex va ha g ds ctx) ''provenance'' = Inr (JObj kvs) \<and>
     map_of kvs ''context_digest'' = Some (JStr (pd_context ds)) \<and>
     map_of kvs ''context_plan_id'' = Some (JStr (pd_plan_id ds)) \<and> kvs \<noteq> []"
  by (simp add: require_section_def build_execution_packet_def)

lemma validate_built_packet:
  "validate_packet H (build_execution_packet H i kernels p ex va ha g ds ctx) =
     (if pd_context ds \<noteq> sha256_digest H (context_json ctx)
      then Inl (InvalidValueError ''compiled task context body does not hash to its declared digest'' ''compiled_task_context'')
      else bindR (check_validation_paths (map obligation_id (required_obligations ex))
                    (map obligation_ref (validation_properties va))) (\<lambda>_.
        bindR (check_deliveries (map obligation_id (required_obligations ex))
                 (map obligation_json (delivery_obligations ex))) (\<lambda>_.
        check_architecture (map obligation_id (required_obligations ex)) (JList (map binding_json kernels)))))"
proof -
  obtain kvs where kvs: "require_section (build_execution_packet H i kernels p ex va ha g ds ctx) ''provenance'' = Inr (JObj kvs)"
    "map_of kvs ''context_digest'' = Some (JStr (pd_context ds))"
    "map_of kvs ''context_plan_id'' = Some (JStr (pd_plan_id ds))" "kvs \<noteq> []"
    using packet_provenance by blast
  have c: "check_context_identity H (context_json ctx) (JStr (pd_context ds)) (JStr (pd_plan_id ds)) (JObj kvs) =
     (if pd_context ds \<noteq> sha256_digest H (context_json ctx)
      then Inl (InvalidValueError ''compiled task context body does not hash to its declared digest'' ''compiled_task_context'')
      else Inr ())"
    using kvs(2-4) by (auto simp: check_context_identity_def)
  show ?thesis
    by (simp add: validate_packet_def packet_sections kvs(1) c texts_at_obligations texts_at_properties)
qed

lemma check_validation_paths_Inr:
  "check_validation_paths xs ys = Inr () \<longleftrightarrow> set ys = set xs"
  by (auto simp: check_validation_paths_def)

definition gar_declared :: "kernel_binding list \<Rightarrow> bool" where
  "gar_declared kernels \<longleftrightarrow>
     (\<exists>b. find (\<lambda>b. ends_with (kb_source_ref b) GAR_SUFFIX) kernels = Some b \<and> kb_outputs b \<noteq> [])"

lemma check_architecture_Inr:
  "check_architecture ids (JList (map binding_json kernels)) = Inr () \<longleftrightarrow>
     (''OBL.ARCHITECTURE'' \<in> set ids \<longrightarrow> gar_declared kernels)"
  by (cases "find (\<lambda>b. ends_with (kb_source_ref b) GAR_SUFFIX) kernels")
     (auto simp: check_architecture_def first_gar_json gar_declared_def binding_outputs_read)

definition all_pending :: "execution_contract \<Rightarrow> bool" where
  "all_pending ex \<longleftrightarrow>
     list_all (\<lambda>x. disposition x = PENDING \<and> (obligation_id x = ''OBL.ARCHITECTURE'' \<longrightarrow> ob_required x)) (obligations ex)"

lemma pending_required: "all_pending ex \<Longrightarrow> required_obligations ex = filter ob_required (obligations ex)"
  unfolding required_obligations_def by (rule filter_cong) (auto simp: all_pending_def list_all_iff)

text \<open>The one check a freshly compiled packet can fail is the one for the Global Architect.\<close>

lemma compiled_packet_Inr:
  assumes pend: "all_pending ex" and digest: "pd_context ds = sha256_digest H (context_json ctx)"
  shows "validate_packet H (build_execution_packet H i kernels p ex (compile_validation ex p) ha g ds ctx) = Inr () \<longleftrightarrow>
     (''OBL.ARCHITECTURE'' \<in> set (map obligation_id (required_obligations ex)) \<longrightarrow> gar_declared kernels)"
proof -
  have refs: "set (map obligation_ref (validation_properties (compile_validation ex p))) =
      set (map obligation_id (required_obligations ex))"
    using pend unfolding pending_required [OF pend]
    by (auto simp: compile_validation_def new_property_def Let_def list_ex_iff all_pending_def list_all_iff
        intro: rev_image_eqI)
  have deliv: "\<forall>x \<in> set (delivery_obligations ex). ob_required x \<longrightarrow>
      obligation_id x \<in> set (map obligation_id (required_obligations ex))"
    unfolding pending_required [OF pend] by (auto simp: delivery_obligations_def intro: rev_image_eqI)
  have paths: "check_validation_paths (map obligation_id (required_obligations ex))
      (map obligation_ref (validation_properties (compile_validation ex p))) = Inr ()"
    unfolding check_validation_paths_Inr by (rule refs)
  show ?thesis using deliv by (simp add: validate_built_packet digest paths check_deliveries_read check_architecture_Inr)
qed

section \<open>The projections of a built packet\<close>

lemma packet_context_read:
  "packet_context (build_execution_packet H i kernels p ex va ha g ds ctx) = Inr (context_json ctx)"
  by (simp add: packet_context_def py_get_or_def build_execution_packet_def)

lemma refs_in_map:
  assumes "py_get d k = Inr (Some (JList (map f xs)))"
    and "\<And>x. x \<in> set xs \<Longrightarrow> py_index (f x) idk = Inr (JStr (h x))"
  shows "refs_in d k idk = Inr (map h xs)"
proof -
  have "strs_at idk (map f xs) = Inr (map h xs)"
    unfolding strs_at_def by (rule mapR_map) (simp add: assms(2))
  thus ?thesis using assms(1) by (cases "xs = []") (simp_all add: refs_in_def py_get_or_def strs_at_def)
qed

text \<open>The identifier a law, a capability fact or an authority fact carries in a field of its own.\<close>

fun claim_id :: "item_body \<Rightarrow> string" where
  "claim_id (AuthorityFact aid _ _ _ _) = aid"
| "claim_id b = expected_semantic_key b"

lemma claim_id_read:
  "item_kind it = APPLICABLE_LAW \<Longrightarrow> py_index (item_json it) ''law_id'' = Inr (JStr (claim_id (body it)))"
  "item_kind it = CAPABILITY_FACT \<Longrightarrow> py_index (item_json it) ''capability_id'' = Inr (JStr (claim_id (body it)))"
  "item_kind it = AUTHORITY_FACT \<Longrightarrow> py_index (item_json it) ''authority_id'' = Inr (JStr (claim_id (body it)))"
  by (cases "body it"; simp add: item_json_def item_fields_def item_kind_def)+

text \<open>The sections of a context hold the kinds of claim their types demand.\<close>

definition sections_typed :: "compiled_task_context \<Rightarrow> bool" where
  "sections_typed c \<longleftrightarrow> list_all (\<lambda>it. item_kind it = APPLICABLE_LAW) (ctx_law c)
     \<and> list_all (\<lambda>it. item_kind it = CAPABILITY_FACT) (cap_available (ctx_capabilities c))
     \<and> list_all (\<lambda>it. item_kind it = AUTHORITY_FACT) (auth_limits (ctx_authority c))"

definition capability_gaps :: "compiled_task_context \<Rightarrow> string list" where
  "capability_gaps c = sort (filter (\<lambda>r. r \<notin> claim_id ` body ` set (cap_available (ctx_capabilities c)))
     (map cr_capability_id (cap_required (ctx_capabilities c))))"

lemma projections_read:
  fixes H i kernels p ex va ha g ds ctx
  defines "pk \<equiv> build_execution_packet H i kernels p ex va ha g ds ctx"
  assumes typed: "sections_typed ctx"
  shows "applicable_law_refs pk = Inr (map (claim_id \<circ> body) (ctx_law ctx))"
    and "authority_limit_refs pk = Inr (map (claim_id \<circ> body) (auth_limits (ctx_authority ctx)))"
    and "capability_gap_refs pk = Inr (capability_gaps ctx)"
    and "context_unknown_ids pk = Inr (map unknown_id (ctx_unknowns ctx))"
proof -
  note ctx_read = packet_context_read [of H i kernels p ex va ha g ds ctx, folded pk_def]
  have law: "refs_in (context_json ctx) ''applicable_law'' ''law_id'' = Inr (map (claim_id \<circ> body) (ctx_law ctx))"
    by (rule refs_in_map) (use typed in \<open>auto simp: context_json_def claim_id_read sections_typed_def list_all_iff\<close>)
  thus "applicable_law_refs pk = Inr (map (claim_id \<circ> body) (ctx_law ctx))"
    by (simp add: applicable_law_refs_def ctx_read)
  have auth: "py_get_or (context_json ctx) ''authority'' d = Inr (authority_context_json (ctx_authority ctx))" for d
    by (simp add: py_get_or_def context_json_def authority_context_json_def)
  have "refs_in (authority_context_json (ctx_authority ctx)) ''limits'' ''authority_id'' =
      Inr (map (claim_id \<circ> body) (auth_limits (ctx_authority ctx)))"
    by (rule refs_in_map)
       (use typed in \<open>auto simp: authority_context_json_def claim_id_read sections_typed_def list_all_iff\<close>)
  thus "authority_limit_refs pk = Inr (map (claim_id \<circ> body) (auth_limits (ctx_authority ctx)))"
    by (simp add: authority_limit_refs_def ctx_read auth)
  have cap: "py_get_or (context_json ctx) ''capabilities'' d = Inr (capability_context_json (ctx_capabilities ctx))" for d
    by (simp add: py_get_or_def context_json_def capability_context_json_def)
  have av: "refs_in (capability_context_json (ctx_capabilities ctx)) ''available'' ''capability_id'' =
      Inr (map (claim_id \<circ> body) (cap_available (ctx_capabilities ctx)))"
    by (rule refs_in_map)
       (use typed in \<open>auto simp: capability_context_json_def claim_id_read sections_typed_def list_all_iff\<close>)
  have req: "refs_in (capability_context_json (ctx_capabilities ctx)) ''required'' ''capability_id'' =
      Inr (map cr_capability_id (cap_required (ctx_capabilities ctx)))"
    by (rule refs_in_map [where f = capreq_json]) (simp_all add: capability_context_json_def capreq_json_def)
  show "capability_gap_refs pk = Inr (capability_gaps ctx)"
    by (simp add: capability_gap_refs_def ctx_read cap av req capability_gaps_def image_comp)
  have "refs_in (context_json ctx) ''unresolved_unknowns'' ''unknown_id'' = Inr (map unknown_id (ctx_unknowns ctx))"
    by (rule refs_in_map [where f = unknown_json]) (simp_all add: context_json_def unknown_json_def)
  thus "context_unknown_ids pk = Inr (map unknown_id (ctx_unknowns ctx))"
    by (simp add: context_unknown_ids_def ctx_read)
qed

definition gar_outputs :: "kernel_binding list \<Rightarrow> string list" where
  "gar_outputs kernels = sorted_unique (concat (map (\<lambda>b. if ends_with (kb_source_ref b) GAR_SUFFIX
     then map output_id (kb_outputs b) else []) kernels))"

lemma gar_outputs_read:
  "gar_output_refs (build_execution_packet H i kernels p ex va ha g ds ctx) = Inr (gar_outputs kernels)"
proof -
  have "texts_at ''id'' (map output_json xs) = Inr (map output_id xs)" for xs
    unfolding texts_at_def by (rule mapR_map) (simp add: output_json_def)
  hence b: "binding_outputs (binding_json b) =
      Inr (if ends_with (kb_source_ref b) GAR_SUFFIX then map output_id (kb_outputs b) else [])" for b
    by (cases "kb_outputs b = []")
       (simp_all add: binding_outputs_def is_gar_binding_json binding_outputs_read texts_at_def)
  have "mapR binding_outputs (map binding_json kernels) =
      Inr (map (\<lambda>b. if ends_with (kb_source_ref b) GAR_SUFFIX then map output_id (kb_outputs b) else []) kernels)"
    by (rule mapR_map) (rule b)
  thus ?thesis
    by (cases "kernels = []") (simp_all add: gar_output_refs_def py_get_or_def build_execution_packet_def gar_outputs_def)
qed

section \<open>Properties\<close>

definition sample_digests :: "string \<Rightarrow> packet_digests" where
  "sample_digests d = \<lparr>pd_routing_rules = ''r'', pd_pipeline = ''p'', pd_semantic = ''s'', pd_context = d,
     pd_plan_id = ''plan''\<rparr>"

definition sample_graph :: execution_graph where
  "sample_graph = chain_graph sample_steps []"

definition sample_handoff :: handoff_contract where
  "sample_handoff = compile_handoff sample_steps sample_activation"

text \<open>C22: The packet built from a compiled contract whose obligations are all pending validates exactly when
  the declared context digest is the digest of the carried body and, if the architecture obligation is
  required, the first Global Architect binding declares outputs. Nothing else can be wrong with it.\<close>

theorem packet_validates_exactly:
  assumes "all_pending ex"
  shows "validate_packet H (build_execution_packet H i kernels p ex (compile_validation ex p) ha g ds ctx) = Inr () \<longleftrightarrow>
     pd_context ds = sha256_digest H (context_json ctx) \<and>
     (''OBL.ARCHITECTURE'' \<in> set (map obligation_id (required_obligations ex)) \<longrightarrow> gar_declared kernels)"
proof (cases "pd_context ds = sha256_digest H (context_json ctx)")
  case True
  thus ?thesis using compiled_packet_Inr [OF assms True] by blast
next
  case False
  thus ?thesis by (simp add: validate_built_packet)
qed

theorem packet_validates_exactly_witness:
  "validate_packet (\<lambda>_. ''0'') (build_execution_packet (\<lambda>_. ''0'') (sample_intent ''m'') [] sample_activation
       (sample_contract [sample_authority_obligation])
       (compile_validation (sample_contract [sample_authority_obligation]) sample_activation)
       sample_handoff sample_graph (sample_digests ''0'') (sample_context [])) = Inr ()"
proof -
  let ?ex = "sample_contract [sample_authority_obligation]"
  have "all_pending ?ex"
    by (simp add: all_pending_def sample_contract_def sample_authority_obligation_def new_obligation_def)
  from packet_validates_exactly [OF this] show ?thesis
    by (simp add: sample_digests_def sha256_digest_def required_obligations_def sample_contract_def
        sample_authority_obligation_def new_obligation_def)
qed

text \<open>C23: A packet is tamper-evident: two packets that validate and declare the same context digest carry
  context bodies equal up to key order, unless the two bodies collide under the hash.\<close>

theorem packet_tamper_evident:
  assumes "validate_packet H p = Inr ()" and "validate_packet H q = Inr ()"
    and "py_get p ''compiled_task_context_digest'' = py_get q ''compiled_task_context_digest''"
    and "py_get p ''compiled_task_context'' = Inr (Some a)" and "wf_json a"
    and "py_get q ''compiled_task_context'' = Inr (Some b)" and "wf_json b"
  shows "normalize_json a = normalize_json b \<or> hash_collision H a b"
proof -
  have body: "require_section r ''compiled_task_context'' = Inr c \<Longrightarrow> py_get r ''compiled_task_context'' = Inr (Some c)"
    for r c by (auto simp: require_section_def bindR_eq_Inr split: option.splits if_splits)
  have dig: "py_get r ''compiled_task_context_digest'' = Inr (Some (JStr (sha256_digest H c)))"
    if v: "validate_packet H r = Inr ()" and c: "py_get r ''compiled_task_context'' = Inr (Some c)" for r c
  proof -
    obtain c' declared planid prov where r: "require_section r ''compiled_task_context'' = Inr c'"
      "require_section r ''compiled_task_context_digest'' = Inr declared"
      "check_context_identity H c' declared planid prov = Inr ()"
      using v unfolding validate_packet_def bindR_eq_Inr by (elim exE conjE) (rule that, auto)
    have "c' = c" using body [OF r(1)] c by simp
    moreover have "declared = JStr (sha256_digest H c')"
      using r(3) by (auto simp: check_context_identity_def split: if_splits)
    ultimately show ?thesis
      using r(2) by (auto simp: require_section_def bindR_eq_Inr split: option.splits if_splits)
  qed
  have "sha256_digest H a = sha256_digest H b"
    using dig [OF assms(1,4)] dig [OF assms(2,6)] assms(3) by simp
  thus ?thesis by (rule sha256_digest_eq [OF assms(5,7)])
qed

theorem packet_tamper_evident_witness:
  "\<exists>p. validate_packet (\<lambda>_. ''0'') p = Inr () \<and>
     py_get p ''compiled_task_context'' = Inr (Some (JStr ''a'')) \<and>
     (normalize_json (JStr ''a'') = normalize_json (JStr ''b'') \<or> hash_collision (\<lambda>_. ''0'') (JStr ''a'') (JStr ''b''))"
proof -
  let ?p = "\<lambda>c. JObj [(''intent'', JObj []), (''compiled_task_context'', c),
     (''compiled_task_context_digest'', JStr ''0''), (''context_plan_id'', JStr ''p''),
     (''active_kernel_bindings'', JList []), (''execution_steps'', JList []), (''required_obligations'', JList []),
     (''validation_properties'', JList []), (''delivery_obligations'', JList []), (''unknowns'', JList []),
     (''convergence_contract'', JObj []),
     (''provenance'', JObj [(''context_digest'', JStr ''0''), (''context_plan_id'', JStr ''p'')])]"
  have v: "validate_packet (\<lambda>_. ''0'') (?p (JStr ''a'')) = Inr ()" "validate_packet (\<lambda>_. ''0'') (?p (JStr ''b'')) = Inr ()"
    by code_simp+
  have "normalize_json (JStr ''a'') = normalize_json (JStr ''b'') \<or> hash_collision (\<lambda>_. ''0'') (JStr ''a'') (JStr ''b'')"
    by (rule packet_tamper_evident [OF v]) simp_all
  with v(1) show ?thesis by (intro exI [of _ "?p (JStr ''a'')"]) simp
qed

end
