(* ===== verification/Adapters.thy ===== *)
theory Adapters
  imports Packet
begin

text \<open>
  Adapter rendering (\<open>compiler/adapters.py\<close>) and provider acceptance
  (\<open>compiler/providers.py\<close>): the two readers of the execution packet. A template is filled in
  one pass over its own text, so a value that looks like a placeholder stays data. The file system
  and the verified pack are parameters of the template source.
\<close>

section \<open>Digest of a packet\<close>

text \<open>
  \<open>json.dumps(packet, sort_keys=True, separators=(",", ":"))\<close> escapes every character outside
  printable ASCII: \<open>ascii_escape\<close> rewrites the UTF-8 text of the canonical encoding, with surrogate
  pairs beyond the basic plane.
\<close>

definition u16 :: "nat \<Rightarrow> string" where
  "u16 n = [CHR 0x5C, CHR ''u'', hex_digit (n div 4096 mod 16), hex_digit (n div 256 mod 16),
            hex_digit (n div 16 mod 16), hex_digit (n mod 16)]"

definition u_escape :: "nat \<Rightarrow> string" where
  "u_escape cp = (if cp < 65536 then u16 cp
     else u16 (55296 + (cp - 65536) div 1024) @ u16 (56320 + (cp - 65536) mod 1024))"

definition tail_bits :: "string \<Rightarrow> nat \<Rightarrow> nat" where
  "tail_bits cs k = (if k < length cs then char_nat (cs ! k) mod 64 else 0)"

function ascii_escape :: "string \<Rightarrow> string" where
  "ascii_escape [] = []"
| "ascii_escape (c # cs) =
     (let n = char_nat c in
      if n < 127 then c # ascii_escape cs
      else if n < 192 then u_escape n @ ascii_escape cs
      else if n < 224 then u_escape (n mod 32 * 64 + tail_bits cs 0) @ ascii_escape (drop 1 cs)
      else if n < 240 then
        u_escape ((n mod 16 * 64 + tail_bits cs 0) * 64 + tail_bits cs 1) @ ascii_escape (drop 2 cs)
      else u_escape (((n mod 8 * 64 + tail_bits cs 0) * 64 + tail_bits cs 1) * 64 + tail_bits cs 2)
             @ ascii_escape (drop 3 cs))"
  by pat_completeness auto
termination by (relation "measure length") auto

definition ascii_digest :: "(string \<Rightarrow> string) \<Rightarrow> json \<Rightarrow> string" where
  "ascii_digest H v = H (ascii_escape (canonical_json_bytes v))"

section \<open>Templates\<close>

definition ADAPTER_TEMPLATE_DIR :: string where
  "ADAPTER_TEMPLATE_DIR = ''runtime/contract_compiler/adapters''"

definition ADAPTER_TEMPLATES :: "(string \<times> string) list" where
  "ADAPTER_TEMPLATES =
     [(''claude_code'', ''claude_code.md''), (''cursor'', ''cursor.md''), (''codex'', ''codex.md''),
      (''chatgpt'', ''chatgpt.md''), (''human_operator'', ''human_operator.md'')]"

definition newline :: char where
  "newline = CHR 0x0A"

definition DEFAULT_TEMPLATE :: string where
  "DEFAULT_TEMPLATE = join_with [newline]
       [''# L9 Cognitive Runtime Execution Packet '' @ [CHR 0xE2, CHR 0x80, CHR 0x94] @ '' {{adapter}} projection'',
        [],
        ''Packet digest: {{packet_digest}}'',
        [],
        ''## Mission'',
        ''{{mission}} (realization: {{realization_mode}})'',
        [],
        ''## Active kernels'',
        ''{{kernel_activation}}'',
        [],
        ''## Required obligations (blocking '' @ [CHR 0xE2, CHR 0x80, CHR 0x94] @ '' must not be dropped)'',
        ''{{required_obligations}}'',
        [],
        ''## Validation properties'',
        ''{{validation_properties}}'',
        [],
        ''## Delivery obligations'',
        ''{{delivery_obligations}}'',
        [],
        ''## Unknowns (must be preserved until disposed)'',
        ''{{unknowns}}'',
        [],
        ''## Global Architect outputs'',
        ''{{gar_outputs}}'',
        [],
        ''## Compiled task context (digest {{context_digest}})'',
        ''Projected from the packet's compiled task context. Never re-derived, never reselected.'',
        [],
        ''### Applicable law'',
        ''{{applicable_law}}'',
        [],
        ''### Effective authority order (source: {{authority_order_source}})'',
        ''{{authority_order}}'',
        [],
        ''### Authority limits'',
        ''{{authority_limits}}'',
        [],
        ''### Capability gaps (required, not proven available)'',
        ''{{capability_gaps}}'',
        [],
        ''### Unresolved context unknowns'',
        ''{{context_unknowns}}''] @ [newline]"

text \<open>
  The regular expression \<open>\{\{[^{}]*\}\}\<close>: \<open>token_here s\<close> is its match at the start of \<open>s\<close> and
  the text after it; \<open>scan\<close> is the left-to-right pass of \<open>findall\<close> and \<open>sub\<close>.
\<close>

definition is_brace :: "char \<Rightarrow> bool" where
  "is_brace c \<longleftrightarrow> c = CHR 0x7B \<or> c = CHR 0x7D"

definition lbraces :: string where
  "lbraces = [CHR 0x7B, CHR 0x7B]"

definition rbraces :: string where
  "rbraces = [CHR 0x7D, CHR 0x7D]"

definition token_here :: "string \<Rightarrow> (string \<times> string) option" where
  "token_here s =
     (if starts_with s lbraces then
        (let inner = takeWhile (\<lambda>c. \<not> is_brace c) (drop 2 s);
             after = dropWhile (\<lambda>c. \<not> is_brace c) (drop 2 s)
         in if starts_with after rbraces then Some (lbraces @ inner @ rbraces, drop 2 after) else None)
      else None)"

datatype segment = Lit char | Tok string

lemma token_here_shorter: "token_here s = Some (tok, rest) \<Longrightarrow> length rest < length s"
proof -
  assume t: "token_here s = Some (tok, rest)"
  have s2: "length s \<ge> 2" using t
    by (auto simp: token_here_def starts_with_iff lbraces_def split: if_splits)
  have "rest = drop 2 (dropWhile (\<lambda>c. \<not> is_brace c) (drop 2 s))"
    using t by (auto simp: token_here_def Let_def split: if_splits)
  hence "length rest \<le> length (drop 2 s)"
    by (metis diff_le_self length_drop length_dropWhile_le order_trans)
  thus ?thesis using s2 by simp
qed

function scan :: "string \<Rightarrow> segment list" where
  "scan [] = []"
| "scan (c # cs) = (case token_here (c # cs) of
       Some (tok, rest) \<Rightarrow> Tok tok # scan rest
     | None \<Rightarrow> Lit c # scan cs)"
  by pat_completeness auto
termination by (relation "measure length") (auto dest: token_here_shorter)

fun literal :: "segment \<Rightarrow> string" where
  "literal (Lit c) = [c]"
| "literal (Tok _) = []"

fun filled :: "(string \<times> string) list \<Rightarrow> segment \<Rightarrow> string" where
  "filled vals (Lit c) = [c]"
| "filled vals (Tok t) = al_get vals t []"

fun unknown_token :: "(string \<times> string) list \<Rightarrow> segment \<Rightarrow> bool" where
  "unknown_token vals (Lit c) = False"
| "unknown_token vals (Tok t) \<longleftrightarrow> t \<notin> fst ` set vals"

definition stray_delimiter :: "string \<Rightarrow> bool" where
  "stray_delimiter s \<longleftrightarrow> contains s lbraces \<or> contains s rbraces"

definition fill_template :: "string \<Rightarrow> (string \<times> string) list \<Rightarrow> string \<Rightarrow> string res" where
  "fill_template name vals template =
     (let segs = scan template
      in if list_ex (unknown_token vals) segs \<or> stray_delimiter (concat (map literal segs))
         then Inl (InvalidValueError ''adapter template left placeholders unresolved'' name)
         else Inr (concat (map (filled vals) segs)))"

section \<open>The template source\<close>

datatype template_source =
    BuiltIn
  | VerifiedPack "string list" "string \<Rightarrow> string res" "string \<Rightarrow> bool"
      \<comment> \<open>the listed files, the verified read, existence on disk\<close>
  | PackRoot "string \<Rightarrow> string option"
      \<comment> \<open>the text of a regular file below the root\<close>

definition make_renderer :: "template_source option \<Rightarrow> template_source option \<Rightarrow> template_source res" where
  "make_renderer pack_root pack =
     (if pack \<noteq> None \<and> pack_root \<noteq> None then Inl (InvalidValueError ''pass pack or pack_root, not both'' [])
      else Inr (case pack of Some p \<Rightarrow> p | None \<Rightarrow> (case pack_root of Some r \<Rightarrow> r | None \<Rightarrow> BuiltIn)))"

definition template_path :: "string \<Rightarrow> string" where
  "template_path name = ADAPTER_TEMPLATE_DIR @ ''/'' @ name"

fun template_of :: "template_source \<Rightarrow> string \<Rightarrow> string option res" where
  "template_of BuiltIn name = Inr None"
| "template_of (PackRoot read_root) name = Inr (read_root (template_path name))"
| "template_of (VerifiedPack listed read_verified on_disk) name =
     (let rel = template_path name
      in if rel \<in> set listed then bindR (read_verified rel) (\<lambda>t. Inr (Some t))
         else if on_disk rel
         then Inl (InvalidValueError ''adapter template is not listed in the verified manifest'' rel)
         else Inr None)"

section \<open>Rendering\<close>

definition ph :: "string \<Rightarrow> string" where
  "ph name = lbraces @ name @ rbraces"

definition bullets :: "string list \<Rightarrow> string" where
  "bullets xs = join_with [newline] (map (\<lambda>x. ''- '' @ x) xs)"

definition get_str :: "json \<Rightarrow> string \<Rightarrow> string \<Rightarrow> string res" where
  "get_str d k dflt = bindR (py_get d k) (\<lambda>v. Inr (case v of None \<Rightarrow> dflt | Some x \<Rightarrow> py_str x))"

text \<open>The names read by subscription are those of sections \<open>validate_packet\<close> has required.\<close>

definition section_items :: "json \<Rightarrow> string \<Rightarrow> json list res" where
  "section_items packet k = bindR (py_index packet k) py_items"

definition section_ids :: "json \<Rightarrow> string \<Rightarrow> string \<Rightarrow> string list res" where
  "section_ids packet k idk = bindR (section_items packet k) (strs_at idk)"

definition realization_of :: "json \<Rightarrow> string res" where
  "realization_of i = bindR (py_get i ''objective'') (\<lambda>o'.
     get_str (case o' of None \<Rightarrow> JObj [] | Some x \<Rightarrow> x) ''realization_mode'' ''UNKNOWN'')"

definition placeholders :: "string \<Rightarrow> json \<Rightarrow> string \<Rightarrow> (string \<times> string) list res" where
  "placeholders adapter packet digest =
     bindR (py_index packet ''intent'') (\<lambda>i.
     bindR (section_ids packet ''active_kernel_bindings'' ''source_ref'') (\<lambda>kernels.
     bindR (section_ids packet ''required_obligations'' ''obligation_id'') (\<lambda>obs.
     bindR (section_ids packet ''delivery_obligations'' ''obligation_id'') (\<lambda>delivery.
     bindR (section_ids packet ''validation_properties'' ''property_id'') (\<lambda>validation.
     bindR (bindR (packet_context packet) (\<lambda>c. py_get_or c ''authority'' (JObj []))) (\<lambda>authority.
     bindR (py_index packet ''compiled_task_context_digest'') (\<lambda>cd.
     bindR (applicable_law_refs packet) (\<lambda>laws.
     bindR (bindR (py_get_or authority ''effective_order'' (JList [])) py_items) (\<lambda>order.
     bindR (get_str authority ''effective_order_source'' []) (\<lambda>order_source.
     bindR (authority_limit_refs packet) (\<lambda>limits.
     bindR (capability_gap_refs packet) (\<lambda>gaps.
     bindR (context_unknown_ids packet) (\<lambda>ctx_unks.
     bindR (get_str i ''mission'' []) (\<lambda>mis.
     bindR (realization_of i) (\<lambda>mode.
     bindR (section_items packet ''unknowns'') (\<lambda>unks.
     bindR (gar_output_refs packet) (\<lambda>gar.
     Inr [(ph ''adapter'', adapter),
          (ph ''packet_digest'', digest),
          (ph ''context_digest'', py_str cd),
          (ph ''applicable_law'', bullets laws),
          (ph ''authority_order'', bullets (map py_str order)),
          (ph ''authority_order_source'', order_source),
          (ph ''authority_limits'', bullets limits),
          (ph ''capability_gaps'', bullets gaps),
          (ph ''context_unknowns'', bullets ctx_unks),
          (ph ''mission'', mis),
          (ph ''realization_mode'', mode),
          (ph ''kernel_activation'', bullets kernels),
          (ph ''required_obligations'', bullets obs),
          (ph ''validation_properties'', bullets validation),
          (ph ''delivery_obligations'', bullets delivery),
          (ph ''unknowns'', bullets (map py_str unks)),
          (ph ''gar_outputs'', bullets gar)])))))))))))))))))"

definition adapter_for_template :: "string \<Rightarrow> string" where
  "adapter_for_template name = (if ends_with name ''.md'' then take (length name - 3) name else name)"

definition render_template :: "template_source \<Rightarrow> string \<Rightarrow> json \<Rightarrow> string \<Rightarrow> string res" where
  "render_template src name packet digest =
     bindR (template_of src name) (\<lambda>t.
     bindR (placeholders (adapter_for_template name) packet digest) (\<lambda>vals.
     fill_template name vals (case t of None \<Rightarrow> DEFAULT_TEMPLATE | Some text \<Rightarrow> text)))"

record adapter_packet =
  ad_adapter :: string
  ad_source_contract :: string
  ad_packet_digest :: string
  ad_context_digest :: string
  ad_context_plan_id :: string
  ad_context :: json
  ad_content :: string
  ad_required_ids :: "string list"
  ad_unknowns :: "string list"
  ad_validation :: "json list"
  ad_delivery :: "json list"
  ad_gar_refs :: "string list"
  ad_law_refs :: "string list"
  ad_limit_refs :: "string list"
  ad_gap_refs :: "string list"
  ad_context_unknowns :: "string list"
  ad_limitations :: "string list"

definition adapter_packet_json :: "adapter_packet \<Rightarrow> json" where
  "adapter_packet_json a = JObj
     [(''adapter'', JStr (ad_adapter a)),
      (''source_contract'', JStr (ad_source_contract a)),
      (''packet_digest'', JStr (ad_packet_digest a)),
      (''context_digest'', JStr (ad_context_digest a)),
      (''context_plan_id'', JStr (ad_context_plan_id a)),
      (''compiled_task_context'', ad_context a),
      (''content'', JStr (ad_content a)),
      (''required_obligation_ids'', jstrs (ad_required_ids a)),
      (''unknowns'', jstrs (ad_unknowns a)),
      (''validation_properties'', JList (ad_validation a)),
      (''delivery_obligations'', JList (ad_delivery a)),
      (''gar_output_refs'', jstrs (ad_gar_refs a)),
      (''applicable_law_refs'', jstrs (ad_law_refs a)),
      (''authority_limit_refs'', jstrs (ad_limit_refs a)),
      (''capability_gap_refs'', jstrs (ad_gap_refs a)),
      (''context_unknown_ids'', jstrs (ad_context_unknowns a)),
      (''limitations'', jstrs (ad_limitations a))]"

definition render :: "(string \<Rightarrow> string) \<Rightarrow> template_source \<Rightarrow> json \<Rightarrow> string \<Rightarrow> adapter_packet res" where
  "render H src packet adapter =
     bindR (validate_packet H packet) (\<lambda>_.
     case map_of ADAPTER_TEMPLATES adapter of
       None \<Rightarrow> Inl (InvalidValueError ''unknown adapter target'' adapter)
     | Some name \<Rightarrow>
         bindR (render_template src name packet (ascii_digest H packet)) (\<lambda>content.
         bindR (bindR (section_items packet ''required_obligations'') (texts_at ''obligation_id'')) (\<lambda>ids.
         bindR (py_index packet ''compiled_task_context_digest'') (\<lambda>cd.
         bindR (py_index packet ''context_plan_id'') (\<lambda>planid.
         bindR (py_index packet ''compiled_task_context'') (\<lambda>ctx.
         bindR (section_items packet ''unknowns'') (\<lambda>unks.
         bindR (section_items packet ''validation_properties'') (\<lambda>props.
         bindR (section_items packet ''delivery_obligations'') (\<lambda>deliveries.
         bindR (gar_output_refs packet) (\<lambda>gar.
         bindR (applicable_law_refs packet) (\<lambda>laws.
         bindR (authority_limit_refs packet) (\<lambda>limits.
         bindR (capability_gap_refs packet) (\<lambda>gaps.
         bindR (context_unknown_ids packet) (\<lambda>ctx_unks.
         Inr \<lparr>ad_adapter = adapter, ad_source_contract = ''FINAL_EXECUTION_CONTRACT'',
           ad_packet_digest = ascii_digest H packet, ad_context_digest = py_str cd,
           ad_context_plan_id = py_str planid, ad_context = ctx, ad_content = content,
           ad_required_ids = sort ids, ad_unknowns = map py_str unks, ad_validation = props,
           ad_delivery = deliveries, ad_gar_refs = gar, ad_law_refs = laws, ad_limit_refs = limits,
           ad_gap_refs = gaps, ad_context_unknowns = ctx_unks, ad_limitations = []\<rparr>))))))))))))))"

section \<open>Provider acceptance\<close>

record provider_acceptance =
  pa_provider_id :: string
  pa_accepted :: "string list"
  pa_unsupported :: "string list"
  pa_capabilities :: "string list"
  pa_limits :: "string list"
  pa_receipt :: string

definition acceptance_json :: "provider_acceptance \<Rightarrow> json" where
  "acceptance_json a = JObj
     [(''provider_id'', JStr (pa_provider_id a)),
      (''accepted_obligation_ids'', jstrs (pa_accepted a)),
      (''unsupported_obligation_ids'', jstrs (pa_unsupported a)),
      (''capabilities'', jstrs (pa_capabilities a)),
      (''authority_limits'', jstrs (pa_limits a)),
      (''receipt_digest'', JStr (pa_receipt a))]"

definition str_items :: "json \<Rightarrow> string \<Rightarrow> string list res" where
  "str_items d k = bindR (bindR (py_index d k) py_items) (\<lambda>xs. Inr (map py_str xs))"

definition acceptance_from_mapping :: "(string \<times> json) list \<Rightarrow> provider_acceptance res" where
  "acceptance_from_mapping kvs =
     (let d = JObj kvs in
      if list_ex (\<lambda>f. f \<notin> fst ` set kvs)
           [''provider_id'', ''accepted_obligation_ids'', ''unsupported_obligation_ids'', ''capabilities'',
            ''authority_limits'', ''receipt_digest'']
      then Inl (InvalidValueError ''provider acceptance missing required fields'' ''provider_acceptance'')
      else bindR (py_index d ''provider_id'') (\<lambda>pid.
        bindR (str_items d ''accepted_obligation_ids'') (\<lambda>acc.
        bindR (str_items d ''unsupported_obligation_ids'') (\<lambda>uns.
        bindR (str_items d ''capabilities'') (\<lambda>caps.
        bindR (str_items d ''authority_limits'') (\<lambda>lims.
        bindR (py_index d ''receipt_digest'') (\<lambda>r.
        Inr \<lparr>pa_provider_id = py_str pid, pa_accepted = acc, pa_unsupported = uns, pa_capabilities = caps,
             pa_limits = lims, pa_receipt = py_str r\<rparr>)))))))"

definition acceptance_receipt_digest :: "(string \<Rightarrow> string) \<Rightarrow> json \<Rightarrow> provider_acceptance \<Rightarrow> string" where
  "acceptance_receipt_digest H packet a = ascii_digest H (JObj
     [(''packet_digest'', JStr (ascii_digest H packet)),
      (''provider_id'', JStr (pa_provider_id a)),
      (''accepted_obligation_ids'', jstrs (sort (pa_accepted a))),
      (''unsupported_obligation_ids'', jstrs (sort (pa_unsupported a))),
      (''capabilities'', jstrs (sort (pa_capabilities a))),
      (''authority_limits'', jstrs (sort (pa_limits a)))])"

datatype acceptance_outcome =
    Executable "string list" string
  | Blocked "string list" "json list"

definition with_id :: "json \<Rightarrow> (string \<times> json) res" where
  "with_id x = bindR (bindR (py_index x ''obligation_id'') py_text) (\<lambda>oid. Inr (oid, x))"

definition packet_obligations :: "json \<Rightarrow> (string \<times> json) list res" where
  "packet_obligations packet =
     bindR (bindR (py_get_or packet ''required_obligations'' (JList [])) py_items) (mapR with_id)"

definition validate_provider_acceptance ::
  "(string \<Rightarrow> string) \<Rightarrow> json \<Rightarrow> provider_acceptance \<Rightarrow> acceptance_outcome res" where
  "validate_provider_acceptance H packet a =
     bindR (packet_obligations packet) (\<lambda>required.
       let accepted = set (pa_accepted a);
           unsupported = set (pa_unsupported a);
           blocking = sorted_unique (filter (\<lambda>r. r \<in> unsupported) (map fst required));
           unaccepted = filter (\<lambda>r. r \<notin> accepted \<and> r \<notin> unsupported) (map fst required)
       in if accepted \<inter> unsupported \<noteq> {}
          then Inl (InvalidValueError ''obligation both accepted and unsupported'' ''provider_acceptance'')
          else if pa_receipt a \<noteq> acceptance_receipt_digest H packet a
          then Inl (InvalidValueError ''provider acceptance receipt digest mismatch'' ''provider_acceptance'')
          else if blocking \<noteq> []
          then Inr (Blocked blocking (map snd (filter (\<lambda>r. fst r \<in> set blocking) required)))
          else if unaccepted \<noteq> []
          then Inl (InvalidValueError ''required obligations neither accepted nor declared unsupported'' ''provider_acceptance'')
          else Inr (Executable (sorted_unique (pa_accepted a)) (pa_receipt a)))"

fun outcome_json :: "acceptance_outcome \<Rightarrow> json" where
  "outcome_json (Executable accepted receipt) = JObj
     [(''executable'', JBool True), (''accepted_obligation_ids'', jstrs accepted), (''receipt_digest'', JStr receipt)]"
| "outcome_json (Blocked ids handed) = JObj
     [(''executable'', JBool False),
      (''block'', JObj
        [(''type'', JStr ''CAPABILITY''),
         (''unsupported_required_obligation_ids'', jstrs ids),
         (''governed_handoff'', JList handed),
         (''disposition'', JStr (disposition_value VALID_BLOCK))])]"

section \<open>Filling a template\<close>

definition brace_free :: "string \<Rightarrow> bool" where
  "brace_free s \<longleftrightarrow> list_all (\<lambda>c. \<not> is_brace c) s"

lemma token_here_lit: "\<not> is_brace c \<Longrightarrow> token_here (c # cs) = None"
  by (auto simp: token_here_def lbraces_def is_brace_def)

lemma scan_plain: "brace_free a \<Longrightarrow> scan (a @ t) = map Lit a @ scan t"
  by (induction a) (simp_all add: brace_free_def token_here_lit)

lemma token_here_ph:
  assumes "brace_free nm"
  shows "token_here (ph nm @ t) = Some (ph nm, t)"
proof -
  have tw: "takeWhile (\<lambda>c. \<not> is_brace c) (nm @ rbraces @ t) = nm"
    and dw: "dropWhile (\<lambda>c. \<not> is_brace c) (nm @ rbraces @ t) = rbraces @ t"
    using assms by (simp_all add: brace_free_def list_all_iff rbraces_def is_brace_def
        takeWhile_append2 dropWhile_append2)
  have d: "drop 2 (lbraces @ x) = x" "drop 2 (rbraces @ x) = x" "starts_with (lbraces @ x) lbraces"
    "starts_with (rbraces @ x) rbraces" for x
    by (simp_all add: lbraces_def rbraces_def)
  show ?thesis unfolding token_here_def ph_def append_assoc d Let_def tw dw by simp
qed

lemma scan_ph: "brace_free nm \<Longrightarrow> scan (ph nm @ t) = Tok (ph nm) # scan t"
proof -
  assume nm: "brace_free nm"
  obtain c cs where c: "ph nm @ t = c # cs" by (auto simp: ph_def lbraces_def)
  show ?thesis using token_here_ph [OF nm, of t] unfolding c by simp
qed

lemma stray_plain: "brace_free a \<Longrightarrow> stray_delimiter (a @ r) \<longleftrightarrow> stray_delimiter r"
  by (induction a) (auto simp: brace_free_def stray_delimiter_def is_brace_def lbraces_def rbraces_def)

lemma concat_map_Lit [simp]:
  "concat (map (literal \<circ> Lit) a) = a" "concat (map (filled vals \<circ> Lit) a) = a"
  "list_ex (unknown_token vals) (map Lit a) = False"
  by (induction a) simp_all

lemma fill_template_step:
  assumes a: "brace_free a" and nm: "brace_free nm"
  shows "fill_template n vals (a @ ph nm @ t) =
     (case map_of vals (ph nm) of
        None \<Rightarrow> Inl (InvalidValueError ''adapter template left placeholders unresolved'' n)
      | Some v \<Rightarrow> bindR (fill_template n vals t) (\<lambda>c. Inr (a @ v @ c)))"
proof -
  have s: "scan (a @ ph nm @ t) = map Lit a @ Tok (ph nm) # scan t"
    by (simp add: scan_plain [OF a] scan_ph [OF nm])
  have u: "list_ex (unknown_token vals) (map Lit a @ Tok (ph nm) # scan t) \<longleftrightarrow>
      map_of vals (ph nm) = None \<or> list_ex (unknown_token vals) (scan t)"
    by (simp add: map_of_eq_None_iff)
  have l: "concat (map literal (map Lit a @ Tok (ph nm) # scan t)) = a @ concat (map literal (scan t))"
    by simp
  show ?thesis
    unfolding fill_template_def Let_def s u l stray_plain [OF a]
    by (cases "map_of vals (ph nm)") (simp_all add: al_get_def)
qed

lemma fill_template_plain: "brace_free a \<Longrightarrow> fill_template n vals a = Inr a"
proof -
  assume a: "brace_free a"
  have s: "scan a = map Lit a" using scan_plain [OF a, of "[]"] by simp
  have "\<not> stray_delimiter a" using stray_plain [OF a, of "[]"] by (simp add: stray_delimiter_def lbraces_def rbraces_def)
  thus ?thesis by (simp add: fill_template_def s)
qed

section \<open>The projection of a built packet\<close>

lemma contains_concat: "x \<in> set xs \<Longrightarrow> contains x p \<Longrightarrow> contains (concat xs) p"
  unfolding contains_iff by (metis append.assoc concat.simps(2) concat_append split_list)

lemma join_contains: "y \<in> set ys \<Longrightarrow> contains (join_with sep ys) y"
proof (induction ys rule: join_with.induct [of _ sep])
  case (3 sep' s t ss)
  show ?case
  proof (cases "y = s")
    case True
    thus ?thesis unfolding contains_iff
      by (intro exI [of _ "[]"] exI [of _ "sep' @ join_with sep' (t # ss)"]) simp
  next
    case False
    then obtain a b where "join_with sep' (t # ss) = a @ y @ b" using 3 unfolding contains_iff by auto
    thus ?thesis unfolding contains_iff by (intro exI [of _ "s @ sep' @ a"] exI [of _ b]) simp
  qed
qed (auto simp: contains_iff intro: exI [of _ "[]"])

lemma bullets_contains: "x \<in> set xs \<Longrightarrow> contains (bullets xs) (''- '' @ x)"
  unfolding bullets_def by (rule join_contains) simp

text \<open>The default template as its literal pieces, each followed by a placeholder.\<close>

definition default_parts :: "(string \<times> string) list" where
  "default_parts =
     [(''# L9 Cognitive Runtime Execution Packet '' @ [CHR 0xE2, CHR 0x80, CHR 0x94] @ '' '', ''adapter''),
      ('' projection'' @ [newline] @ [newline] @ ''Packet digest: '', ''packet_digest''),
      ([newline] @ [newline] @ ''## Mission'' @ [newline], ''mission''),
      ('' (realization: '', ''realization_mode''),
      ('')'' @ [newline] @ [newline] @ ''## Active kernels'' @ [newline], ''kernel_activation''),
      ([newline] @ [newline] @ ''## Required obligations (blocking '' @ [CHR 0xE2, CHR 0x80, CHR 0x94] @ '' must not be dropped)'' @ [newline], ''required_obligations''),
      ([newline] @ [newline] @ ''## Validation properties'' @ [newline], ''validation_properties''),
      ([newline] @ [newline] @ ''## Delivery obligations'' @ [newline], ''delivery_obligations''),
      ([newline] @ [newline] @ ''## Unknowns (must be preserved until disposed)'' @ [newline], ''unknowns''),
      ([newline] @ [newline] @ ''## Global Architect outputs'' @ [newline], ''gar_outputs''),
      ([newline] @ [newline] @ ''## Compiled task context (digest '', ''context_digest''),
      ('')'' @ [newline] @ ''Projected from the packet's compiled task context. Never re-derived, never reselected.'' @ [newline] @ [newline] @ ''### Applicable law'' @ [newline], ''applicable_law''),
      ([newline] @ [newline] @ ''### Effective authority order (source: '', ''authority_order_source''),
      ('')'' @ [newline], ''authority_order''),
      ([newline] @ [newline] @ ''### Authority limits'' @ [newline], ''authority_limits''),
      ([newline] @ [newline] @ ''### Capability gaps (required, not proven available)'' @ [newline], ''capability_gaps''),
      ([newline] @ [newline] @ ''### Unresolved context unknowns'' @ [newline], ''context_unknowns'')]"

definition unparts :: "(string \<times> string) list \<Rightarrow> string" where
  "unparts parts = concat (map (\<lambda>p. fst p @ ph (snd p)) parts)"

lemma default_parts: "DEFAULT_TEMPLATE = unparts default_parts @ [newline]"
  by code_simp

lemma fill_parts:
  assumes "list_all (\<lambda>p. brace_free (fst p) \<and> brace_free (snd p) \<and> ph (snd p) \<in> fst ` set vals) parts"
    and "brace_free end"
  shows "fill_template n vals (unparts parts @ end) =
     Inr (concat (map (\<lambda>p. fst p @ al_get vals (ph (snd p)) []) parts) @ end)"
  using assms
proof (induction parts)
  case Nil
  thus ?case by (simp add: unparts_def fill_template_plain)
next
  case (Cons p parts)
  then obtain v where "map_of vals (ph (snd p)) = Some v"
    by (cases "map_of vals (ph (snd p))") (auto simp: map_of_eq_None_iff)
  moreover have "unparts (p # parts) @ end = fst p @ ph (snd p) @ unparts parts @ end"
    by (simp add: unparts_def)
  ultimately show ?case using Cons by (simp add: fill_template_step al_get_def)
qed

lemma default_parts_brace_free: "list_all (\<lambda>p. brace_free (fst p) \<and> brace_free (snd p)) default_parts"
  by code_simp

section \<open>What the compiler's packet projects to\<close>

text \<open>The reference value of every placeholder, over the typed compilation products.\<close>

definition placeholder_values ::
  "string \<Rightarrow> string \<Rightarrow> intent_contract \<Rightarrow> kernel_binding list \<Rightarrow> activation_plan \<Rightarrow> execution_contract \<Rightarrow>
     validation_contract \<Rightarrow> packet_digests \<Rightarrow> compiled_task_context \<Rightarrow> (string \<times> string) list" where
  "placeholder_values adapter digest i kernels p ex va ds ctx =
     [(ph ''adapter'', adapter),
      (ph ''packet_digest'', digest),
      (ph ''context_digest'', pd_context ds),
      (ph ''applicable_law'', bullets (map (claim_id \<circ> body) (ctx_law ctx))),
      (ph ''authority_order'', bullets (effective_order (ctx_authority ctx))),
      (ph ''authority_order_source'', order_source_value (effective_order_source (ctx_authority ctx))),
      (ph ''authority_limits'', bullets (map (claim_id \<circ> body) (auth_limits (ctx_authority ctx)))),
      (ph ''capability_gaps'', bullets (capability_gaps ctx)),
      (ph ''context_unknowns'', bullets (map unknown_id (ctx_unknowns ctx))),
      (ph ''mission'', intent_contract.mission i),
      (ph ''realization_mode'', realization_mode_value (realization_mode (objective i))),
      (ph ''kernel_activation'', bullets (map kb_source_ref kernels)),
      (ph ''required_obligations'', bullets (map obligation_id (required_obligations ex))),
      (ph ''validation_properties'', bullets (map property_id (validation_properties va))),
      (ph ''delivery_obligations'', bullets (map obligation_id (delivery_obligations ex))),
      (ph ''unknowns'', bullets (int_unknowns i @ ap_unknowns p @ map unknown_id (ctx_unknowns ctx))),
      (ph ''gar_outputs'', bullets (gar_outputs kernels))]"

lemma section_items_read:
  fixes H i kernels p ex va ha g ds ctx
  defines "pk \<equiv> build_execution_packet H i kernels p ex va ha g ds ctx"
  shows "section_items pk ''required_obligations'' = Inr (map obligation_json (required_obligations ex))"
    and "section_items pk ''delivery_obligations'' = Inr (map obligation_json (delivery_obligations ex))"
    and "section_items pk ''validation_properties'' =
       Inr (map validation_property_json (validation_properties va))"
    and "section_items pk ''active_kernel_bindings'' = Inr (map binding_json kernels)"
    and "section_items pk ''unknowns'' = Inr (map JStr (int_unknowns i @ ap_unknowns p @ map unknown_id (ctx_unknowns ctx)))"
    and "py_index pk ''intent'' = Inr (intent_json i)"
    and "py_index pk ''compiled_task_context'' = Inr (context_json ctx)"
    and "py_index pk ''compiled_task_context_digest'' = Inr (JStr (pd_context ds))"
    and "py_index pk ''context_plan_id'' = Inr (JStr (pd_plan_id ds))"
  by (simp_all add: pk_def section_items_def build_execution_packet_def jstrs_def)

lemma strs_read:
  "strs_at ''obligation_id'' (map obligation_json xs) = Inr (map obligation_id xs)"
  "strs_at ''property_id'' (map validation_property_json vs) = Inr (map property_id vs)"
  "strs_at ''source_ref'' (map binding_json bs) = Inr (map kb_source_ref bs)"
  unfolding strs_at_def
  by (rule mapR_map, simp add: obligation_json_def validation_property_json_def binding_json_def)+

lemma authority_read:
  "bindR (packet_context (build_execution_packet H i kernels p ex va ha g ds ctx)) (\<lambda>c. py_get_or c ''authority'' (JObj [])) =
     Inr (authority_context_json (ctx_authority ctx))"
  by (simp add: packet_context_read) (simp add: py_get_or_def context_json_def authority_context_json_def)

lemma order_read:
  "bindR (py_get_or (authority_context_json a) ''effective_order'' (JList [])) py_items =
     Inr (map JStr (effective_order a))"
  by (cases "effective_order a = []") (simp_all add: py_get_or_def authority_context_json_def jstrs_def)

lemma get_str_read:
  "get_str (authority_context_json a) ''effective_order_source'' d =
     Inr (order_source_value (effective_order_source a))"
  "get_str (intent_json i) ''mission'' d = Inr (intent_contract.mission i)"
  by (simp_all add: get_str_def authority_context_json_def intent_json_def)

lemma realization_read: "realization_of (intent_json i) = Inr (realization_mode_value (realization_mode (objective i)))"
  by (simp add: realization_of_def get_str_def intent_json_def objective_json_def)

lemma placeholders_read:
  assumes "sections_typed ctx"
  shows "placeholders adapter (build_execution_packet H i kernels p ex va ha g ds ctx) digest =
     Inr (placeholder_values adapter digest i kernels p ex va ds ctx)"
  unfolding placeholders_def section_ids_def
  by (simp add: section_items_read strs_read authority_read order_read get_str_read realization_read
      projections_read [OF assms] gar_outputs_read placeholder_values_def comp_def)

definition placeholder_names :: "string list" where
  "placeholder_names =
     [''adapter'', ''packet_digest'', ''context_digest'', ''applicable_law'', ''authority_order'',
      ''authority_order_source'', ''authority_limits'', ''capability_gaps'', ''context_unknowns'', ''mission'',
      ''realization_mode'', ''kernel_activation'', ''required_obligations'', ''validation_properties'',
      ''delivery_obligations'', ''unknowns'', ''gar_outputs'']"

lemma ph_inject [simp]: "ph a = ph b \<longleftrightarrow> a = b"
  by (simp add: ph_def)

lemma placeholder_keys:
  "map fst (placeholder_values adapter digest i kernels p ex va ds ctx) = map ph placeholder_names"
  by (simp add: placeholder_values_def placeholder_names_def)

lemma default_parts_names: "set (map snd default_parts) = set placeholder_names"
  by code_simp

definition default_content :: "(string \<times> string) list \<Rightarrow> string" where
  "default_content vals = concat (map (\<lambda>p. fst p @ al_get vals (ph (snd p)) []) default_parts) @ [newline]"

lemma fill_default:
  assumes "map fst vals = map ph placeholder_names"
  shows "fill_template n vals DEFAULT_TEMPLATE = Inr (default_content vals)"
proof -
  have "fst ` set vals = ph ` set placeholder_names" by (metis assms set_map)
  hence "list_all (\<lambda>p. brace_free (fst p) \<and> brace_free (snd p) \<and> ph (snd p) \<in> fst ` set vals) default_parts"
    using default_parts_brace_free default_parts_names by (auto simp: list_all_iff)
  moreover have "brace_free [newline]" by (simp add: brace_free_def is_brace_def newline_def)
  ultimately show ?thesis unfolding default_parts default_content_def by (rule fill_parts)
qed

lemma default_content_value:
  assumes "nm \<in> set placeholder_names" and "map_of vals (ph nm) = Some v" and "contains v x"
  shows "contains (default_content vals) x"
proof -
  obtain a where a: "(a, nm) \<in> set default_parts"
    using assms(1) unfolding default_parts_names [symmetric] by auto
  have "contains (a @ v) x" using assms(3) unfolding contains_iff by (metis append.assoc)
  hence "contains (concat (map (\<lambda>p. fst p @ al_get vals (ph (snd p)) []) default_parts)) x"
    by (intro contains_concat [of "a @ v"]) (use a assms(2) in \<open>auto simp: al_get_def intro!: rev_image_eqI [OF a]\<close>)
  thus ?thesis unfolding default_content_def contains_iff by (metis append.assoc)
qed

lemma render_default:
  fixes H i kernels p ex va ha g ds ctx
  defines "pk \<equiv> build_execution_packet H i kernels p ex va ha g ds ctx"
  assumes valid: "validate_packet H pk = Inr ()" and typed: "sections_typed ctx"
    and target: "map_of ADAPTER_TEMPLATES adapter = Some name"
  shows "render H BuiltIn pk adapter = Inr \<lparr>ad_adapter = adapter, ad_source_contract = ''FINAL_EXECUTION_CONTRACT'',
     ad_packet_digest = ascii_digest H pk, ad_context_digest = pd_context ds, ad_context_plan_id = pd_plan_id ds,
     ad_context = context_json ctx,
     ad_content = default_content (placeholder_values (adapter_for_template name) (ascii_digest H pk) i kernels p ex va ds ctx),
     ad_required_ids = sort (map obligation_id (required_obligations ex)),
     ad_unknowns = int_unknowns i @ ap_unknowns p @ map unknown_id (ctx_unknowns ctx),
     ad_validation = map validation_property_json (validation_properties va),
     ad_delivery = map obligation_json (delivery_obligations ex),
     ad_gar_refs = gar_outputs kernels, ad_law_refs = map (claim_id \<circ> body) (ctx_law ctx),
     ad_limit_refs = map (claim_id \<circ> body) (auth_limits (ctx_authority ctx)),
     ad_gap_refs = capability_gaps ctx, ad_context_unknowns = map unknown_id (ctx_unknowns ctx),
     ad_limitations = []\<rparr>"
proof -
  have r: "render_template BuiltIn name pk d =
      Inr (default_content (placeholder_values (adapter_for_template name) d i kernels p ex va ds ctx))" for d
    by (simp add: render_template_def pk_def placeholders_read [OF typed] fill_default [OF placeholder_keys])
  show ?thesis
    by (simp add: render_def valid target r)
       (simp add: pk_def section_items_read texts_at_obligations gar_outputs_read projections_read [OF typed] comp_def)
qed

section \<open>Properties\<close>

text \<open>Filling a template is one left-to-right pass over the template text: literal text and every value
  are inserted verbatim, whatever braces the value holds, a placeholder without a value fails, and a
  template without braces is its own content.\<close>

theorem template_filled_verbatim:
  assumes "brace_free a" and "brace_free nm"
  shows "fill_template n vals a = Inr a \<and>
    fill_template n vals (a @ ph nm @ t) =
     (case map_of vals (ph nm) of
        None \<Rightarrow> Inl (InvalidValueError ''adapter template left placeholders unresolved'' n)
      | Some v \<Rightarrow> bindR (fill_template n vals t) (\<lambda>c. Inr (a @ v @ c)))"
  using fill_template_plain [OF assms(1)] fill_template_step [OF assms] by blast

theorem template_filled_verbatim_witness:
  "fill_template ''t.md'' [(ph ''mission'', ph ''unknowns'')] (''Do '' @ ph ''mission'' @ '' now'') =
     Inr (''Do '' @ ph ''unknowns'' @ '' now'')"
proof -
  have b: "brace_free ''Do ''" "brace_free ''mission''" "brace_free '' now''" by code_simp+
  from template_filled_verbatim [OF b(1,2), of "''t.md''" "[(ph ''mission'', ph ''unknowns'')]" "'' now''"]
    fill_template_plain [OF b(3)]
  show ?thesis by simp
qed

text \<open>C24: No adapter drops anything: every supported target renders a valid compiled packet with the built-in
  template; the projection carries the compiled context with its digest and plan identity unchanged,
  exactly the required obligations, unknowns, laws, authority limits and capability gaps of the typed
  products, and the rendered text lists each of them.\<close>

theorem default_projection_complete:
  fixes H i kernels p ex va ha g ds ctx
  defines "pk \<equiv> build_execution_packet H i kernels p ex va ha g ds ctx"
  assumes "validate_packet H pk = Inr ()" and "sections_typed ctx" and "adapter \<in> fst ` set ADAPTER_TEMPLATES"
  shows "\<exists>a. render H BuiltIn pk adapter = Inr a \<and>
     ad_context a = context_json ctx \<and> ad_context_digest a = pd_context ds \<and> ad_context_plan_id a = pd_plan_id ds \<and>
     ad_required_ids a = sort (map obligation_id (required_obligations ex)) \<and>
     ad_unknowns a = int_unknowns i @ ap_unknowns p @ map unknown_id (ctx_unknowns ctx) \<and>
     ad_law_refs a = map (claim_id \<circ> body) (ctx_law ctx) \<and>
     ad_limit_refs a = map (claim_id \<circ> body) (auth_limits (ctx_authority ctx)) \<and>
     ad_gap_refs a = capability_gaps ctx \<and>
     (\<forall>x \<in> set (ad_required_ids a) \<union> set (ad_unknowns a) \<union> set (ad_law_refs a) \<union> set (ad_limit_refs a)
          \<union> set (ad_gap_refs a) \<union> property_id ` set (validation_properties va) \<union> kb_source_ref ` set kernels.
        contains (ad_content a) (''- '' @ x)) \<and>
     contains (ad_content a) (intent_contract.mission i)"
proof -
  obtain name where name: "map_of ADAPTER_TEMPLATES adapter = Some name"
    using assms(4) by (cases "map_of ADAPTER_TEMPLATES adapter") (auto simp: map_of_eq_None_iff)
  let ?vals = "placeholder_values (adapter_for_template name) (ascii_digest H pk) i kernels p ex va ds ctx"
  note r = render_default [where adapter = adapter, OF assms(2)[unfolded pk_def] assms(3) name, folded pk_def]
  have bullet: "contains (default_content ?vals) (''- '' @ x)"
    if "nm \<in> set placeholder_names" "map_of ?vals (ph nm) = Some (bullets xs)" "x \<in> set xs" for nm xs x
    using default_content_value [OF that(1,2) bullets_contains [OF that(3)]] .
  note names = placeholder_names_def placeholder_values_def
  have mission: "contains (default_content ?vals) (intent_contract.mission i)"
    by (rule default_content_value [of "''mission''"]) (auto simp: names contains_iff intro: exI [of _ "[]"])
  have "contains (default_content ?vals) (''- '' @ x)"
    if "x \<in> set (map obligation_id (required_obligations ex))" for x
    by (rule bullet [OF _ _ that, of "''required_obligations''"]) (simp_all add: names)
  moreover have "contains (default_content ?vals) (''- '' @ x)"
    if "x \<in> set (int_unknowns i @ ap_unknowns p @ map unknown_id (ctx_unknowns ctx))" for x
    by (rule bullet [OF _ _ that, of "''unknowns''"]) (simp_all add: names)
  moreover have "contains (default_content ?vals) (''- '' @ x)" if "x \<in> set (map (claim_id \<circ> body) (ctx_law ctx))" for x
    by (rule bullet [OF _ _ that, of "''applicable_law''"]) (simp_all add: names)
  moreover have "contains (default_content ?vals) (''- '' @ x)"
    if "x \<in> set (map (claim_id \<circ> body) (auth_limits (ctx_authority ctx)))" for x
    by (rule bullet [OF _ _ that, of "''authority_limits''"]) (simp_all add: names)
  moreover have "contains (default_content ?vals) (''- '' @ x)" if "x \<in> set (capability_gaps ctx)" for x
    by (rule bullet [OF _ _ that, of "''capability_gaps''"]) (simp_all add: names)
  moreover have "contains (default_content ?vals) (''- '' @ x)" if "x \<in> set (map property_id (validation_properties va))" for x
    by (rule bullet [OF _ _ that, of "''validation_properties''"]) (simp_all add: names)
  moreover have "contains (default_content ?vals) (''- '' @ x)" if "x \<in> set (map kb_source_ref kernels)" for x
    by (rule bullet [OF _ _ that, of "''kernel_activation''"]) (simp_all add: names)
  ultimately have listed: "\<forall>x \<in> set (sort (map obligation_id (required_obligations ex)))
        \<union> set (int_unknowns i @ ap_unknowns p @ map unknown_id (ctx_unknowns ctx))
        \<union> set (map (claim_id \<circ> body) (ctx_law ctx)) \<union> set (map (claim_id \<circ> body) (auth_limits (ctx_authority ctx)))
        \<union> set (capability_gaps ctx) \<union> property_id ` set (validation_properties va) \<union> kb_source_ref ` set kernels.
      contains (default_content ?vals) (''- '' @ x)"
    unfolding Un_iff ball_Un set_sort set_map [symmetric] by blast
  from r obtain a where a: "render H BuiltIn pk adapter = Inr a" "ad_context a = context_json ctx"
    "ad_context_digest a = pd_context ds" "ad_context_plan_id a = pd_plan_id ds"
    "ad_required_ids a = sort (map obligation_id (required_obligations ex))"
    "ad_unknowns a = int_unknowns i @ ap_unknowns p @ map unknown_id (ctx_unknowns ctx)"
    "ad_law_refs a = map (claim_id \<circ> body) (ctx_law ctx)"
    "ad_limit_refs a = map (claim_id \<circ> body) (auth_limits (ctx_authority ctx))"
    "ad_gap_refs a = capability_gaps ctx" "ad_content a = default_content ?vals"
    by simp
  show ?thesis
    by (intro exI [of _ a] conjI; (simp only: a)?; (rule listed | rule mission)?)
qed

theorem default_projection_complete_witness:
  "\<exists>a. render (\<lambda>_. ''0'') BuiltIn (build_execution_packet (\<lambda>_. ''0'') (sample_intent ''{{x}}'') [] sample_activation
       (sample_contract [sample_authority_obligation])
       (compile_validation (sample_contract [sample_authority_obligation]) sample_activation)
       sample_handoff sample_graph (sample_digests ''0'') (sample_context [])) ''codex'' = Inr a \<and>
     ad_required_ids a = [''OBL.AUTHORITY''] \<and> contains (ad_content a) ''- OBL.AUTHORITY'' \<and>
     contains (ad_content a) ''{{x}}''"
proof -
  let ?ex = "sample_contract [sample_authority_obligation]"
  have pend: "all_pending ?ex" and ids: "required_obligations ?ex = [sample_authority_obligation]"
    by (simp_all add: all_pending_def required_obligations_def sample_contract_def sample_authority_obligation_def
        new_obligation_def)
  have oid: "obligation_id sample_authority_obligation = ''OBL.AUTHORITY''"
    by (simp add: sample_authority_obligation_def new_obligation_def)
  have d: "pd_context (sample_digests ''0'') = sha256_digest (\<lambda>_. ''0'') (context_json (sample_context []))"
    by (simp add: sample_digests_def sha256_digest_def)
  have v: "validate_packet (\<lambda>_. ''0'') (build_execution_packet (\<lambda>_. ''0'') (sample_intent ''{{x}}'') [] sample_activation
       ?ex (compile_validation ?ex sample_activation) sample_handoff sample_graph (sample_digests ''0'')
       (sample_context [])) = Inr ()"
    unfolding compiled_packet_Inr [OF pend d] by (simp add: ids oid)
  have t: "sections_typed (sample_context [])" by (simp add: sections_typed_def sample_context_def)
  have c: "''codex'' \<in> fst ` set ADAPTER_TEMPLATES" by (simp add: ADAPTER_TEMPLATES_def)
  have m: "intent_contract.mission (sample_intent ''{{x}}'') = ''{{x}}''" by (simp add: sample_intent_def)
  from default_projection_complete [OF v t c] obtain a where
    a: "render (\<lambda>_. ''0'') BuiltIn (build_execution_packet (\<lambda>_. ''0'') (sample_intent ''{{x}}'') [] sample_activation
       ?ex (compile_validation ?ex sample_activation) sample_handoff sample_graph (sample_digests ''0'')
       (sample_context [])) ''codex'' = Inr a"
    and r: "ad_required_ids a = sort (map obligation_id (required_obligations ?ex))"
    and l: "\<forall>x \<in> set (ad_required_ids a). contains (ad_content a) (''- '' @ x)"
    and m': "contains (ad_content a) (intent_contract.mission (sample_intent ''{{x}}''))"
    by blast
  have r': "ad_required_ids a = [''OBL.AUTHORITY'']" by (simp add: r ids oid)
  hence "contains (ad_content a) ''- OBL.AUTHORITY''" using l by simp
  thus ?thesis using a r' m' m by auto
qed

text \<open>C25: Acceptance is exact. A provider may execute exactly when its receipt binds the packet and its own
  lists, it accepts every required obligation and contradicts itself nowhere; it blocks exactly when it
  declares some required obligation unsupported, and then hands over precisely those; every other
  acceptance is an error, so a required obligation that nobody answered for never executes.\<close>

theorem acceptance_never_partial:
  assumes "packet_obligations packet = Inr reqs"
  shows "(let ids = fst ` set reqs; bound = (set (pa_accepted a) \<inter> set (pa_unsupported a) = {} \<and>
             pa_receipt a = acceptance_receipt_digest H packet a);
             outcome = validate_provider_acceptance H packet a
     in ((\<exists>acc r. outcome = Inr (Executable acc r)) \<longleftrightarrow> bound \<and> ids \<subseteq> set (pa_accepted a)) \<and>
        ((\<exists>us ho. outcome = Inr (Blocked us ho)) \<longleftrightarrow> bound \<and> ids \<inter> set (pa_unsupported a) \<noteq> {}) \<and>
        (\<forall>us ho. outcome = Inr (Blocked us ho) \<longrightarrow>
           set us = ids \<inter> set (pa_unsupported a) \<and> set ho = snd ` {x \<in> set reqs. fst x \<in> set (pa_unsupported a)}) \<and>
        (\<forall>acc r. outcome = Inr (Executable acc r) \<longrightarrow> set acc = set (pa_accepted a) \<and> r = pa_receipt a))"
proof -
  have b: "filter (\<lambda>r. r \<in> U) (map fst reqs) = [] \<longleftrightarrow> fst ` set reqs \<inter> U = {}" for U
    by (auto simp: filter_empty_conv)
  have u: "filter (\<lambda>r. r \<notin> A \<and> r \<notin> U) (map fst reqs) = [] \<longleftrightarrow> fst ` set reqs \<subseteq> A \<union> U" for A U
    by (auto simp: filter_empty_conv)
  show ?thesis
    unfolding validate_provider_acceptance_def assms bindR_simps Let_def sorted_unique_Nil_iff b u
    by (auto simp: image_iff)
qed

theorem acceptance_never_partial_witness:
  "\<exists>us ho. validate_provider_acceptance (\<lambda>_. ''0'')
     (JObj [(''required_obligations'', JList [JObj [(''obligation_id'', JStr ''A'')]])])
     \<lparr>pa_provider_id = ''p'', pa_accepted = [''B''], pa_unsupported = [''A''], pa_capabilities = [], pa_limits = [],
        pa_receipt = ''0''\<rparr> = Inr (Blocked us ho) \<and> set us = {''A''}"
proof -
  let ?pk = "JObj [(''required_obligations'', JList [JObj [(''obligation_id'', JStr ''A'')]])]"
  let ?a = "\<lparr>pa_provider_id = ''p'', pa_accepted = [''B''], pa_unsupported = [''A''], pa_capabilities = [],
     pa_limits = [], pa_receipt = ''0''\<rparr>"
  have r: "packet_obligations ?pk = Inr [(''A'', JObj [(''obligation_id'', JStr ''A'')])]"
    by (simp add: packet_obligations_def py_get_or_def with_id_def)
  have b: "pa_receipt ?a = acceptance_receipt_digest (\<lambda>_. ''0'') ?pk ?a"
    by (simp add: acceptance_receipt_digest_def ascii_digest_def)
  from acceptance_never_partial [OF r, of ?a "\<lambda>_. ''0''"] b show ?thesis
    unfolding Let_def by fastforce
qed

text \<open>
  A block names only the declared unsupported obligations: a required obligation that the same
  acceptance leaves unanswered goes unreported beside it.
\<close>

lemma block_hides_unanswered:
  "validate_provider_acceptance (\<lambda>_. ''0'')
     (JObj [(''required_obligations'', JList [JObj [(''obligation_id'', JStr ''A'')], JObj [(''obligation_id'', JStr ''B'')]])])
     \<lparr>pa_provider_id = ''p'', pa_accepted = [], pa_unsupported = [''A''], pa_capabilities = [], pa_limits = [],
        pa_receipt = ''0''\<rparr> = Inr (Blocked [''A''] [JObj [(''obligation_id'', JStr ''A'')]])"
  by code_simp

end
