(* ===== verification/Liveness.thy ===== *)
theory Liveness
  imports Packet
begin

text \<open>
  Compile-time semantic liveness (\<open>compiler/liveness.py\<close>): the twenty-four checks over the
  finished compilation products, in the order of the ladder, each with the condition the code computes. The
  packet and the semantic payload are untyped mappings, so a check that reads them can also raise.

  The lemmas compute what every check amounts to on the products of the spine's own stages; the
  property says which seven conditions are left to fail there.
\<close>

section \<open>The products under judgement\<close>

record products =
  lv_intent :: intent_contract
  lv_plan :: activation_plan
  lv_kernels :: "kernel_binding list"
  lv_execution :: execution_contract
  lv_validation :: validation_contract
  lv_handoff :: handoff_contract
  lv_graph :: execution_graph
  lv_context :: compiled_task_context
  lv_context_digest :: string
  lv_closure :: closure_report
  lv_packet :: json
  lv_payload :: json

definition ALL_CHECKS :: "string list" where
  "ALL_CHECKS =
     [''every_required_intent_obligation_is_accounted_for'', ''every_activated_kernel_is_bound'',
      ''every_bound_kernel_is_present'', ''every_activated_kernel_has_graph_invocation'',
      ''every_required_kernel_output_exists'', ''every_required_kernel_output_has_consumer'',
      ''every_required_execution_obligation_has_realization_path'',
      ''every_required_validation_obligation_has_evidence_path'',
      ''every_required_delivery_obligation_has_delivery_path'',
      ''every_terminal_success_path_crosses_convergence'',
      ''every_terminal_block_requires_valid_block_evidence'', ''no_orphan_required_graph_node'',
      ''no_unresolved_kernel_reference'', ''no_semantic_field_reset_to_default_downstream'',
      ''no_adapter_drops_blocking_obligation'', ''no_required_obligation_disappears'',
      ''context_closure_ladder_executed_completely'', ''every_authoritative_selected_item_has_provenance'',
      ''every_selected_context_item_has_relevance_binding'',
      ''every_selected_kernel_equals_downstream_kernel_binding'',
      ''no_unresolved_equal_authority_conflict_is_silently_selected'',
      ''context_digest_participates_in_semantic_identity'', ''execution_packet_preserves_compiled_context'',
      ''material_context_unknowns_are_conserved'']"

record liveness_report =
  live_checks :: "string list"
  live_passed :: bool

definition liveness_report_json :: "liveness_report \<Rightarrow> json" where
  "liveness_report_json r = JObj [(''checks'', jstrs (live_checks r)), (''passed'', JBool (live_passed r))]"

definition live_fail :: "string \<Rightarrow> cog_error" where
  "live_fail name = InvalidValueError (''semantic liveness check failed: '' @ name) ''liveness''"

text \<open>\<open>_kernel_id\<close>: the last path segment without its YAML suffix.\<close>

definition live_kernel_id :: "string \<Rightarrow> string" where
  "live_kernel_id ref =
     (let name = rev (takeWhile (\<lambda>c. c \<noteq> CHR ''/'') (rev (normalize_ref ref)))
      in if ends_with name ''.yaml'' then take (length name - 5) name
         else if ends_with name ''.yml'' then take (length name - 4) name else name)"

section \<open>Obligations, kernels and the graph\<close>

definition required_pending :: "execution_contract \<Rightarrow> string set" where
  "required_pending ex = obligation_id ` set (required_obligations ex)"

definition intent_accounted :: "products \<Rightarrow> bool" where
  "intent_accounted x \<longleftrightarrow>
     list_all (\<lambda>o'. disposition o' \<noteq> PENDING
         \<or> obligation_id o' \<in> set (map obligation_id (obligations (lv_execution x))))
       (filter ob_required (int_obligations (lv_intent x)))"

definition kernels_bound :: "products \<Rightarrow> bool" where
  "kernels_bound x \<longleftrightarrow> set (active_kernels (lv_plan x)) \<subseteq> set (map kb_source_ref (lv_kernels x))"

definition kernels_present :: "products \<Rightarrow> bool" where
  "kernels_present x \<longleftrightarrow> list_all (\<lambda>b. kb_source_digest b \<noteq> []) (lv_kernels x)"

definition bound_kernel_ids :: "products \<Rightarrow> string set" where
  "bound_kernel_ids x = set (map (\<lambda>b. live_kernel_id (kb_source_ref b)) (lv_kernels x))"

definition node_kernel_ids :: "products \<Rightarrow> string set" where
  "node_kernel_ids x = set (concat (map (\<lambda>n. map live_kernel_id (node_kernel_refs n)) (nodes (lv_graph x))))"

definition step_outputs_of :: "products \<Rightarrow> string \<Rightarrow> string set" where
  "step_outputs_of x ref = set (concat (map output_refs
     (filter (\<lambda>s. ref \<in> set (kernel_refs s)) (execution_steps (lv_execution x)))))"

definition graph_outputs_of :: "products \<Rightarrow> string \<Rightarrow> string set" where
  "graph_outputs_of x ref = set (concat (map node_outputs
     (filter (\<lambda>n. ref \<in> set (node_kernel_refs n)) (nodes (lv_graph x)))))"

definition required_outputs_of :: "products \<Rightarrow> (kernel_binding \<times> kernel_output) list" where
  "required_outputs_of x =
     concat (map (\<lambda>b. map (\<lambda>k. (b, k)) (filter ko_required (kb_outputs b))) (lv_kernels x))"

definition outputs_realized :: "products \<Rightarrow> bool" where
  "outputs_realized x \<longleftrightarrow> list_all (\<lambda>(b, k). output_id k \<in> step_outputs_of x (kb_source_ref b)
       \<and> output_id k \<in> graph_outputs_of x (kb_source_ref b)) (required_outputs_of x)"

definition outputs_consumed :: "products \<Rightarrow> bool" where
  "outputs_consumed x \<longleftrightarrow> list_all (\<lambda>(b, k). ko_consumer_refs k \<noteq> []) (required_outputs_of x)"

definition node_obligations :: "products \<Rightarrow> string set" where
  "node_obligations x = set (concat (map node_obligation_refs (nodes (lv_graph x))))"

definition evidence_bound :: "products \<Rightarrow> string set" where
  "evidence_bound x = obligation_id ` set (filter (\<lambda>o'. ob_kind o' = VALIDATION \<or> ob_kind o' = ARCHITECTURE)
     (required_obligations (lv_execution x)))"

definition bound_properties :: "products \<Rightarrow> string set" where
  "bound_properties x = set (map obligation_ref (validation_properties (lv_validation x)))"

definition delivery_bound :: "products \<Rightarrow> string set" where
  "delivery_bound x = obligation_id ` set (filter (\<lambda>o'. ob_kind o' = DELIVERY) (required_obligations (lv_execution x)))"

definition handoff_ids :: "products \<Rightarrow> string set" where
  "handoff_ids x = set (map obligation_id (hand_obligations (lv_handoff x)))"

definition converges :: "products \<Rightarrow> bool" where
  "converges x \<longleftrightarrow>
     (if terminal_allowed (lv_plan x)
      then list_ex (\<lambda>o'. ob_required o' \<and> ob_kind o' = CONVERGENCE) (obligations (lv_execution x))
      else \<not> list_ex (\<lambda>s. phase s = ''P7_FLAWLESS_VICTORY'') (execution_steps (lv_execution x)))"

definition blocks_evidenced :: "products \<Rightarrow> bool" where
  "blocks_evidenced x \<longleftrightarrow> list_all (\<lambda>o'. disposition o' = VALID_BLOCK \<longrightarrow> evidence_requirements o' \<noteq> [])
     (obligations (lv_execution x))"

definition no_orphans :: "products \<Rightarrow> bool" where
  "no_orphans x \<longleftrightarrow> list_all (\<lambda>n. node_id n = terminal_node (lv_graph x)
     \<or> list_ex (\<lambda>e. from_node e = node_id n) (edges (lv_graph x))) (nodes (lv_graph x))"

definition nothing_reset :: "products \<Rightarrow> bool" where
  "nothing_reset x \<longleftrightarrow>
     \<not> list_ex (\<lambda>o'. disposition o' = PENDING \<and>
         obligation_id o' \<in> set (map obligation_id
           (filter (\<lambda>e. disposition e \<noteq> PENDING) (obligations (lv_execution x)))))
       (hand_obligations (lv_handoff x))"

text \<open>\<open>str(entry.get("obligation_id"))\<close> for every entry of \<open>packet.get("required_obligations") or []\<close>.\<close>

definition packet_required :: "json \<Rightarrow> string list res" where
  "packet_required packet =
     bindR (bindR (py_get_or packet ''required_obligations'' (JList [])) py_items) (mapR (\<lambda>e.
       bindR (py_get e ''obligation_id'') (\<lambda>v. Inr (py_str (case v of None \<Rightarrow> JNull | Some j \<Rightarrow> j)))))"

section \<open>The compiled context\<close>

definition selected_provenanced :: "products \<Rightarrow> bool" where
  "selected_provenanced x \<longleftrightarrow>
     list_all (\<lambda>it. is_governed (authority_level it) \<longrightarrow> has_immutable_provenance (source_ref it))
       (selected_items (lv_context x))"

definition selected_relevant :: "products \<Rightarrow> bool" where
  "selected_relevant x \<longleftrightarrow> list_all (\<lambda>it. selected_because it \<noteq> []) (selected_items (lv_context x))"

text \<open>
  The contradictions on record, by kind and key; a contradiction without a readable kind counts
  against every kind.
\<close>

definition conflict_key :: "context_unknown \<Rightarrow> (string option \<times> string)" where
  "conflict_key u =
     (let kind = detail_of u ''context_kind''
      in (if falsy kind then None else Some (py_str kind), or_empty (unk_key u)))"

definition conflict_keys :: "compiled_task_context \<Rightarrow> (string option \<times> string) list" where
  "conflict_keys ctx = map conflict_key
     (filter (\<lambda>u. reason_code u = CONFLICTING_GOVERNED_CLAIMS \<and> truthy (unk_key u)) (ctx_unknowns ctx))"

definition no_selected_conflict :: "compiled_task_context \<Rightarrow> bool" where
  "no_selected_conflict ctx \<longleftrightarrow>
     \<not> list_ex (\<lambda>it. (Some (kind_value (item_kind it)), semantic_key it) \<in> set (conflict_keys ctx)
         \<or> (None, semantic_key it) \<in> set (conflict_keys ctx)) (selected_items ctx)"

definition digest_participates :: "(string \<Rightarrow> string) \<Rightarrow> products \<Rightarrow> bool res" where
  "digest_participates H x = bindR (py_get (lv_payload x) ''context_digest'') (\<lambda>d.
     Inr (d = Some (JStr (lv_context_digest x))
          \<and> sha256_digest H (context_json (lv_context x)) = lv_context_digest x))"

text \<open>Equality of parsed values: dictionaries compare up to the order of their keys.\<close>

definition packet_preserves :: "products \<Rightarrow> bool res" where
  "packet_preserves x = bindR (py_get (lv_packet x) ''compiled_task_context_digest'') (\<lambda>d.
     if d \<noteq> Some (JStr (lv_context_digest x)) then Inr False
     else bindR (py_get (lv_packet x) ''compiled_task_context'') (\<lambda>c.
       Inr (map_option normalize_json c = Some (normalize_json (context_json (lv_context x))))))"

definition EPISTEMIC_PREFIX :: string where
  "EPISTEMIC_PREFIX = ''OBL.EPISTEMIC.CONTEXT.''"

definition unknowns_conserved :: "products \<Rightarrow> bool" where
  "unknowns_conserved x \<longleftrightarrow>
     set (map unknown_id (filter (\<lambda>u. materiality u = BLOCKING) (ctx_unknowns (lv_context x))))
     \<subseteq> set (map (\<lambda>o'. drop (length EPISTEMIC_PREFIX) (obligation_id o'))
         (filter (\<lambda>o'. starts_with (obligation_id o') EPISTEMIC_PREFIX) (obligations (lv_execution x))))"

section \<open>The ladder\<close>

definition liveness_ladder :: "(string \<Rightarrow> string) \<Rightarrow> products \<Rightarrow> (string \<times> bool res) list" where
  "liveness_ladder H x = zip ALL_CHECKS
     [Inr (intent_accounted x),
      Inr (kernels_bound x),
      Inr (kernels_present x),
      Inr (bound_kernel_ids x \<subseteq> node_kernel_ids x),
      Inr (outputs_realized x),
      Inr (outputs_consumed x),
      Inr (required_pending (lv_execution x) \<subseteq> node_obligations x),
      Inr (evidence_bound x \<subseteq> bound_properties x),
      Inr (delivery_bound x \<subseteq> handoff_ids x),
      Inr (converges x),
      Inr (blocks_evidenced x),
      Inr (no_orphans x),
      Inr (node_kernel_ids x \<subseteq> bound_kernel_ids x),
      Inr (nothing_reset x),
      bindR (packet_required (lv_packet x)) (\<lambda>ids. Inr (required_pending (lv_execution x) \<subseteq> set ids)),
      Inr (required_pending (lv_execution x) \<subseteq> handoff_ids x),
      Inr (closure_passed (lv_closure x) \<and> closure_checks (lv_closure x) = CONTEXT_CHECKS),
      Inr (selected_provenanced x),
      Inr (selected_relevant x),
      Inr (kernels_match (lv_context x) (lv_kernels x)),
      Inr (no_selected_conflict (lv_context x)),
      digest_participates H x,
      packet_preserves x,
      Inr (unknowns_conserved x)]"

fun run_live :: "string list \<Rightarrow> (string \<times> bool res) list \<Rightarrow> string list res" where
  "run_live executed [] = Inr executed"
| "run_live executed ((name, cond) # rest) =
     bindR cond (\<lambda>ok. if ok then run_live (executed @ [name]) rest else Inl (live_fail name))"

definition validate_liveness :: "(string \<Rightarrow> string) \<Rightarrow> products \<Rightarrow> liveness_report res" where
  "validate_liveness H x =
     bindR (run_live [] (liveness_ladder H x)) (\<lambda>executed.
       if executed \<noteq> ALL_CHECKS then Inl (live_fail ''liveness_check_coverage'')
       else Inr \<lparr>live_checks = executed, live_passed = True\<rparr>)"

section \<open>What the report certifies\<close>

lemma run_live_Inr:
  "run_live executed cs = Inr ns \<longleftrightarrow> list_all (\<lambda>c. snd c = Inr True) cs \<and> ns = executed @ map fst cs"
  by (induction executed cs rule: run_live.induct) (auto simp: bindR_eq_Inr)

lemma validate_liveness_Inr:
  "(\<exists>r. validate_liveness H x = Inr r) \<longleftrightarrow> list_all (\<lambda>c. snd c = Inr True) (liveness_ladder H x)"
proof -
  have "map fst (liveness_ladder H x) = ALL_CHECKS"
    by (simp add: liveness_ladder_def ALL_CHECKS_def)
  thus ?thesis by (auto simp: validate_liveness_def bindR_eq_Inr run_live_Inr)
qed

lemma run_live_Inl:
  "list_all (\<lambda>c. snd c \<noteq> Inr False \<longrightarrow> (\<exists>ok. snd c = Inr ok)) cs \<Longrightarrow>
     run_live executed cs = Inl e \<longleftrightarrow> (\<exists>name. find (\<lambda>c. snd c = Inr False) cs = Some (name, Inr False) \<and> e = live_fail name)"
proof (induction executed cs rule: run_live.induct)
  case (2 executed name cond rest)
  then obtain ok where "cond = Inr ok" by auto
  thus ?case using 2 by (cases ok) auto
qed simp

section \<open>The products of the spine\<close>

text \<open>Every product is what the stage before liveness computes, from the same inputs.\<close>

definition from_stages ::
  "(string \<Rightarrow> string) \<Rightarrow> pipeline_source \<Rightarrow> context_requirement_plan \<Rightarrow> snapshot_resolution \<Rightarrow> products \<Rightarrow> bool" where
  "from_stages H px rplan cands x \<longleftrightarrow>
     list_all binding_ok (lv_kernels x) \<and>
     validate_closure H (lv_context x) rplan cands (lv_kernels x) = Inr (lv_closure x) \<and>
     lv_context_digest x = sha256_digest H (context_json (lv_context x)) \<and>
     int_obligations (lv_intent x) = derive_obligations (lv_intent x) (lv_plan x) (lv_kernels x) (lv_context x) \<and>
     validate_obligations (int_obligations (lv_intent x)) (owner_registry (lv_plan x) (lv_kernels x)) ''intent'' = Inr () \<and>
     compile_execution (lv_intent x) (lv_plan x) (lv_kernels x) px (int_obligations (lv_intent x)) (lv_context x)
       (lv_context_digest x) = Inr (lv_execution x) \<and>
     lv_validation x = compile_validation (lv_execution x) (lv_plan x) \<and>
     lv_handoff x = compile_handoff (lv_execution x) (lv_plan x) \<and>
     derive_execution_graph (lv_execution x) = Some (Inr (lv_graph x)) \<and>
     (\<exists>ds. pd_context ds = lv_context_digest x \<and> lv_packet x = build_execution_packet H (lv_intent x) (lv_kernels x)
        (lv_plan x) (lv_execution x) (lv_validation x) (lv_handoff x) (lv_graph x) ds (lv_context x)) \<and>
     py_get (lv_payload x) ''context_digest'' = Inr (Some (JStr (lv_context_digest x)))"

lemma handoff_conserves [simp]: "hand_obligations (compile_handoff ex p) = obligations ex"
  by (simp add: compile_handoff_def)

lemma stages_obligations:
  assumes "from_stages H px rplan cands x"
  shows "obligations (lv_execution x) = int_obligations (lv_intent x)"
    and "\<forall>o' \<in> set (obligations (lv_execution x)). disposition o' = PENDING"
    and "required_obligations (lv_execution x) = filter ob_required (obligations (lv_execution x))"
proof -
  have c: "compile_execution (lv_intent x) (lv_plan x) (lv_kernels x) px (int_obligations (lv_intent x)) (lv_context x)
      (lv_context_digest x) = Inr (lv_execution x)"
    and d: "int_obligations (lv_intent x) = derive_obligations (lv_intent x) (lv_plan x) (lv_kernels x) (lv_context x)"
    using assms by (auto simp: from_stages_def)
  show o: "obligations (lv_execution x) = int_obligations (lv_intent x)"
    using c by (rule compile_execution_Inr) simp
  show "\<forall>o' \<in> set (obligations (lv_execution x)). disposition o' = PENDING"
    using derived_props(1) unfolding o d by blast
  thus "required_obligations (lv_execution x) = filter ob_required (obligations (lv_execution x))"
    unfolding required_obligations_def by (intro filter_cong) auto
qed

lemma stages_graph:
  assumes "from_stages H px rplan cands x"
  shows "nodes (lv_graph x) = map step_node (execution_steps (lv_execution x))"
    and "edges (lv_graph x) = map step_edge (chain (map step_id (execution_steps (lv_execution x))))"
    and "terminal_node (lv_graph x) = last (map step_id (execution_steps (lv_execution x)))"
proof -
  have "derive_execution_graph (lv_execution x) = Some (Inr (lv_graph x))"
    using assms by (simp add: from_stages_def)
  hence "lv_graph x = chain_graph (lv_execution x) (map step_node (execution_steps (lv_execution x)))"
    by (auto simp: derive_execution_graph_eq split: if_splits)
  thus "nodes (lv_graph x) = map step_node (execution_steps (lv_execution x))"
    "edges (lv_graph x) = map step_edge (chain (map step_id (execution_steps (lv_execution x))))"
    "terminal_node (lv_graph x) = last (map step_id (execution_steps (lv_execution x)))"
    by (simp_all add: chain_graph_def comp_def)
qed

lemma step_node_parts [simp]:
  "node_kernel_refs (step_node s) = kernel_refs s" "node_outputs (step_node s) = output_refs s"
  "node_obligation_refs (step_node s) = obligation_refs s"
  by (simp_all add: step_node_def)

lemma chain_feeds: "i \<in> set ids \<Longrightarrow> i \<noteq> last ids \<Longrightarrow> \<exists>n. (i, n) \<in> set (chain ids)"
proof -
  assume i: "i \<in> set ids" and l: "i \<noteq> last ids"
  then obtain k where k: "k < length ids" "i = ids ! k" by (metis in_set_conv_nth)
  have "ids \<noteq> []" using k(1) by auto
  hence "k \<noteq> length ids - 1" using l k last_conv_nth [of ids] by auto
  hence "Suc k < length ids" using k(1) by simp
  thus ?thesis using k(2) by (auto simp: chain_mem)
qed

lemma stages_no_orphans: "from_stages H px rplan cands x \<Longrightarrow> no_orphans x"
proof -
  assume a: "from_stages H px rplan cands x"
  let ?ids = "map step_id (execution_steps (lv_execution x))"
  have "i = last ?ids \<or> (\<exists>n. (i, n) \<in> set (chain ?ids))" if "i \<in> set ?ids" for i
    using chain_feeds that by blast
  thus ?thesis unfolding no_orphans_def stages_graph [OF a] list_all_iff list_ex_iff
    by (fastforce simp: step_edge_def)
qed

lemma stages_closure:
  assumes "from_stages H px rplan cands x"
  shows "closure_passed (lv_closure x)" "closure_checks (lv_closure x) = CONTEXT_CHECKS"
    "selected_provenanced x" "selected_relevant x" "kernels_match (lv_context x) (lv_kernels x)"
proof -
  have v: "validate_closure H (lv_context x) rplan cands (lv_kernels x) = Inr (lv_closure x)"
    using assms by (simp add: from_stages_def)
  show "closure_passed (lv_closure x)" "closure_checks (lv_closure x) = CONTEXT_CHECKS"
    using v by (simp_all add: validate_closure_Inr)
  have l: "provenance_valid (lv_context x)" "kernels_match (lv_context x) (lv_kernels x)"
    "relevance_bound (lv_context x) rplan"
    using v by (simp_all add: validate_closure_Inr closure_ladder_def)
  show "kernels_match (lv_context x) (lv_kernels x)" by (rule l)
  show "selected_provenanced x"
    using l(1) by (auto simp: selected_provenanced_def provenance_valid_def list_all_iff)
  show "selected_relevant x"
    using l(3) by (auto simp: selected_relevant_def relevance_bound_def list_all_iff)
qed

text \<open>\<open>invoked px p ref\<close>: some planned phase lists the kernel among its primary kernels.\<close>

definition invoked :: "pipeline_source \<Rightarrow> activation_plan \<Rightarrow> string \<Rightarrow> bool" where
  "invoked px p ref \<longleftrightarrow> list_ex (\<lambda>q. lists_kernel (phase_order px) q ref) (phase_sequence p)"

lemma stages_steps:
  assumes "from_stages H px rplan cands x"
  obtains target where "terminal_target (phase_sequence (lv_plan x)) = Inr target"
    "phase_sequence (lv_plan x) \<noteq> []"
    "\<And>s. s \<in> set (execution_steps (lv_execution x)) \<Longrightarrow> \<exists>prev q. q \<in> set (phase_sequence (lv_plan x)) \<and>
       s = build_step px (lv_kernels x) (obligations (lv_execution x)) (phase_sequence (lv_plan x)) target prev q"
    "\<And>q. q \<in> set (phase_sequence (lv_plan x)) \<Longrightarrow> \<exists>prev. build_step px (lv_kernels x) (obligations (lv_execution x))
       (phase_sequence (lv_plan x)) target prev q \<in> set (execution_steps (lv_execution x))"
proof -
  have c: "compile_execution (lv_intent x) (lv_plan x) (lv_kernels x) px (int_obligations (lv_intent x)) (lv_context x)
      (lv_context_digest x) = Inr (lv_execution x)"
    using assms unfolding from_stages_def by blast
  show thesis
  proof (rule compile_execution_Inr [OF c])
    fix target
    assume t: "terminal_target (phase_sequence (lv_plan x)) = Inr target" "phase_sequence (lv_plan x) \<noteq> []"
      and st: "execution_steps (lv_execution x) = build_steps px (lv_kernels x) (int_obligations (lv_intent x))
        (phase_sequence (lv_plan x)) target [] (phase_sequence (lv_plan x))"
      and o: "obligations (lv_execution x) = int_obligations (lv_intent x)"
    show thesis
      by (rule that [OF t]) (use st o build_steps_mem build_steps_step in \<open>(metis | fastforce)+\<close>)
  qed
qed

lemma stages_kernel_refs:
  assumes "from_stages H px rplan cands x"
  shows "(\<exists>s \<in> set (execution_steps (lv_execution x)). r \<in> set (kernel_refs s)) \<longleftrightarrow>
     r \<in> kb_source_ref ` set (lv_kernels x) \<and> invoked px (lv_plan x) r"
proof (rule stages_steps [OF assms])
  fix target
  assume a: "\<And>s. s \<in> set (execution_steps (lv_execution x)) \<Longrightarrow> \<exists>prev q. q \<in> set (phase_sequence (lv_plan x)) \<and>
       s = build_step px (lv_kernels x) (obligations (lv_execution x)) (phase_sequence (lv_plan x)) target prev q"
    and b: "\<And>q. q \<in> set (phase_sequence (lv_plan x)) \<Longrightarrow> \<exists>prev. build_step px (lv_kernels x) (obligations (lv_execution x))
       (phase_sequence (lv_plan x)) target prev q \<in> set (execution_steps (lv_execution x))"
  show ?thesis
  proof
    assume "\<exists>s \<in> set (execution_steps (lv_execution x)). r \<in> set (kernel_refs s)"
    then obtain s where s: "s \<in> set (execution_steps (lv_execution x))" "r \<in> set (kernel_refs s)" by blast
    from a [OF s(1)] s(2) show "r \<in> kb_source_ref ` set (lv_kernels x) \<and> invoked px (lv_plan x) r"
      by (auto simp: build_step_simps phase_kernel_map_set invoked_def list_ex_iff)
  next
    assume "r \<in> kb_source_ref ` set (lv_kernels x) \<and> invoked px (lv_plan x) r"
    then obtain q where q: "q \<in> set (phase_sequence (lv_plan x))" "lists_kernel (phase_order px) q r"
      "r \<in> kb_source_ref ` set (lv_kernels x)"
      by (auto simp: invoked_def list_ex_iff)
    from b [OF q(1)] obtain prev where s: "build_step px (lv_kernels x) (obligations (lv_execution x))
       (phase_sequence (lv_plan x)) target prev q \<in> set (execution_steps (lv_execution x))" ..
    show "\<exists>s \<in> set (execution_steps (lv_execution x)). r \<in> set (kernel_refs s)"
      by (rule bexI [OF _ s]) (use q in \<open>auto simp: build_step_simps phase_kernel_map_set\<close>)
  qed
qed

lemma stages_node_kernel_ids:
  assumes "from_stages H px rplan cands x"
  shows "node_kernel_ids x = {live_kernel_id (kb_source_ref b) |b. b \<in> set (lv_kernels x) \<and> invoked px (lv_plan x) (kb_source_ref b)}"
proof -
  have "node_kernel_ids x = live_kernel_id ` {r. \<exists>s \<in> set (execution_steps (lv_execution x)). r \<in> set (kernel_refs s)}"
    by (auto simp: node_kernel_ids_def stages_graph(1) [OF assms])
  also have "\<dots> = {live_kernel_id (kb_source_ref b) |b. b \<in> set (lv_kernels x) \<and> invoked px (lv_plan x) (kb_source_ref b)}"
    unfolding stages_kernel_refs [OF assms] by auto
  finally show ?thesis .
qed

lemma graph_outputs_are_step_outputs:
  "from_stages H px rplan cands x \<Longrightarrow> graph_outputs_of x r = step_outputs_of x r"
  by (auto simp: graph_outputs_of_def step_outputs_of_def stages_graph(1))

lemma stages_outputs:
  assumes a: "from_stages H px rplan cands x"
  shows "outputs_realized x \<longleftrightarrow>
     (\<forall>b \<in> set (lv_kernels x). list_ex ko_required (kb_outputs b) \<longrightarrow> invoked px (lv_plan x) (kb_source_ref b))"
proof -
  have "output_id k \<in> step_outputs_of x (kb_source_ref b) \<longleftrightarrow> invoked px (lv_plan x) (kb_source_ref b)"
    if b: "b \<in> set (lv_kernels x)" "k \<in> set (kb_outputs b)" for b k
  proof
    assume "output_id k \<in> step_outputs_of x (kb_source_ref b)"
    hence "\<exists>s \<in> set (execution_steps (lv_execution x)). kb_source_ref b \<in> set (kernel_refs s)"
      by (auto simp: step_outputs_of_def)
    thus "invoked px (lv_plan x) (kb_source_ref b)" unfolding stages_kernel_refs [OF a] by simp
  next
    assume "invoked px (lv_plan x) (kb_source_ref b)"
    hence "\<exists>s \<in> set (execution_steps (lv_execution x)). kb_source_ref b \<in> set (kernel_refs s)"
      unfolding stages_kernel_refs [OF a] using b(1) by simp
    then obtain s where s: "s \<in> set (execution_steps (lv_execution x))" "kb_source_ref b \<in> set (kernel_refs s)" by blast
    have "output_id k \<in> set (output_refs s)"
    proof (rule stages_steps [OF a])
      fix target
      assume "\<And>s. s \<in> set (execution_steps (lv_execution x)) \<Longrightarrow> \<exists>prev q. q \<in> set (phase_sequence (lv_plan x)) \<and>
         s = build_step px (lv_kernels x) (obligations (lv_execution x)) (phase_sequence (lv_plan x)) target prev q"
      from this [OF s(1)] s(2) b show ?thesis
        by (auto simp: build_step_simps intro: step_outputs_declared)
    qed
    thus "output_id k \<in> step_outputs_of x (kb_source_ref b)" using s by (auto simp: step_outputs_of_def)
  qed
  thus ?thesis
    unfolding outputs_realized_def graph_outputs_are_step_outputs [OF a] required_outputs_of_def
    by (auto simp: list_all_iff list_ex_iff)
qed

lemma stages_consumed: "from_stages H px rplan cands x \<Longrightarrow> outputs_consumed x"
  by (auto simp: from_stages_def outputs_consumed_def required_outputs_of_def list_all_iff binding_ok_def output_ok_def)

text \<open>The phase that carries the obligations of a kind.\<close>

definition obligation_phase :: "activation_plan \<Rightarrow> obligation_kind \<Rightarrow> string" where
  "obligation_phase p kind = (case terminal_target (phase_sequence p) of
     Inl e \<Rightarrow> [] | Inr target \<Rightarrow> kind_phase (phase_sequence p) target kind)"

lemma stages_realized:
  assumes a: "from_stages H px rplan cands x"
  shows "required_pending (lv_execution x) \<subseteq> node_obligations x \<longleftrightarrow>
     (\<forall>o' \<in> set (obligations (lv_execution x)). ob_required o' \<longrightarrow>
        obligation_phase (lv_plan x) (ob_kind o') \<in> set (phase_sequence (lv_plan x)))"
proof (rule stages_steps [OF a])
  fix target
  assume t: "terminal_target (phase_sequence (lv_plan x)) = Inr target"
    and mem: "\<And>s. s \<in> set (execution_steps (lv_execution x)) \<Longrightarrow> \<exists>prev q. q \<in> set (phase_sequence (lv_plan x)) \<and>
       s = build_step px (lv_kernels x) (obligations (lv_execution x)) (phase_sequence (lv_plan x)) target prev q"
    and has: "\<And>q. q \<in> set (phase_sequence (lv_plan x)) \<Longrightarrow> \<exists>prev. build_step px (lv_kernels x) (obligations (lv_execution x))
       (phase_sequence (lv_plan x)) target prev q \<in> set (execution_steps (lv_execution x))"
  let ?obs = "obligations (lv_execution x)" and ?ps = "phase_sequence (lv_plan x)"
  have ph: "obligation_phase (lv_plan x) kd = kind_phase ?ps target kd" for kd
    by (simp add: obligation_phase_def t)
  have "r \<in> node_obligations x \<longleftrightarrow> (\<exists>o' \<in> set ?obs. obligation_id o' = r \<and> kind_phase ?ps target (ob_kind o') \<in> set ?ps)" for r
  proof
    assume "r \<in> node_obligations x"
    then obtain s where s: "s \<in> set (execution_steps (lv_execution x))" "r \<in> set (obligation_refs s)"
      by (auto simp: node_obligations_def stages_graph(1) [OF a])
    from mem [OF s(1)] s(2) show "\<exists>o' \<in> set ?obs. obligation_id o' = r \<and> kind_phase ?ps target (ob_kind o') \<in> set ?ps"
      by (auto simp: build_step_simps)
  next
    assume "\<exists>o' \<in> set ?obs. obligation_id o' = r \<and> kind_phase ?ps target (ob_kind o') \<in> set ?ps"
    then obtain o' where o': "o' \<in> set ?obs" "obligation_id o' = r" "kind_phase ?ps target (ob_kind o') \<in> set ?ps" by blast
    from has [OF o'(3)] obtain prev where s: "build_step px (lv_kernels x) ?obs ?ps target prev
       (kind_phase ?ps target (ob_kind o')) \<in> set (execution_steps (lv_execution x))" ..
    have "r \<in> set (obligation_refs (build_step px (lv_kernels x) ?obs ?ps target prev (kind_phase ?ps target (ob_kind o'))))"
      using o' by (auto simp: build_step_simps)
    thus "r \<in> node_obligations x" using s by (auto simp: node_obligations_def stages_graph(1) [OF a])
  qed
  moreover have dist: "distinct (map obligation_id (obligations (lv_execution x)))"
    using a unfolding from_stages_def stages_obligations(1) [OF a] validate_obligations_def
    by (auto simp: bindR_eq_Inr index_obligations_Inr)
  have "o1 = o2" if "o1 \<in> set ?obs" "o2 \<in> set ?obs" "obligation_id o1 = obligation_id o2" for o1 o2
    using that dist by (auto simp: distinct_map inj_on_def)
  ultimately show ?thesis
    unfolding required_pending_def stages_obligations(3) [OF a] ph by (auto simp: subset_iff) blast+
qed

lemma stages_converge:
  assumes a: "from_stages H px rplan cands x"
  shows "converges x \<longleftrightarrow> (terminal_allowed (lv_plan x) \<or> P7 \<notin> set (phase_sequence (lv_plan x)))"
proof -
  have d: "obligations (lv_execution x) = derive_obligations (lv_intent x) (lv_plan x) (lv_kernels x) (lv_context x)"
    using a unfolding stages_obligations(1) [OF a] from_stages_def by blast
  have c: "compile_execution (lv_intent x) (lv_plan x) (lv_kernels x) px (int_obligations (lv_intent x)) (lv_context x)
      (lv_context_digest x) = Inr (lv_execution x)"
    using a unfolding from_stages_def by blast
  have ph: "map phase (execution_steps (lv_execution x)) = phase_sequence (lv_plan x)"
    by (rule compile_execution_Inr [OF c]) (simp add: build_steps_phases)
  have conv: "list_ex (\<lambda>o'. ob_required o' \<and> ob_kind o' = CONVERGENCE) (obligations (lv_execution x))"
    if "terminal_allowed (lv_plan x)"
    using that unfolding d derive_obligations_def intent_obligations_def Let_def by (simp add: new_obligation_def)
  have "list_ex (\<lambda>s. phase s = ''P7_FLAWLESS_VICTORY'') (execution_steps (lv_execution x)) \<longleftrightarrow>
      ''P7_FLAWLESS_VICTORY'' \<in> phase ` set (execution_steps (lv_execution x))"
    by (auto simp: list_ex_iff intro: rev_image_eqI)
  also have "\<dots> \<longleftrightarrow> P7 \<in> set (phase_sequence (lv_plan x))"
    unfolding set_map [symmetric] ph P7_def ..
  finally show ?thesis using conv by (auto simp: converges_def)
qed

lemma stages_packet:
  assumes a: "from_stages H px rplan cands x"
  shows "packet_required (lv_packet x) = Inr (map obligation_id (required_obligations (lv_execution x)))"
    and "packet_preserves x = Inr True" and "digest_participates H x = Inr True"
proof -
  obtain ds where ds: "pd_context ds = lv_context_digest x" "lv_packet x = build_execution_packet H (lv_intent x)
      (lv_kernels x) (lv_plan x) (lv_execution x) (lv_validation x) (lv_handoff x) (lv_graph x) ds (lv_context x)"
    using a unfolding from_stages_def by blast
  have "mapR (\<lambda>e. bindR (py_get e ''obligation_id'') (\<lambda>v. Inr (py_str (case v of None \<Rightarrow> JNull | Some j \<Rightarrow> j))))
      (map obligation_json xs) = Inr (map obligation_id xs)" for xs
    by (rule mapR_map) (simp add: obligation_json_def)
  thus "packet_required (lv_packet x) = Inr (map obligation_id (required_obligations (lv_execution x)))"
    unfolding ds(2) packet_required_def
    by (cases "required_obligations (lv_execution x) = []")
       (simp_all add: py_get_or_def build_execution_packet_def)
  show "packet_preserves x = Inr True"
    unfolding packet_preserves_def ds(2) by (simp add: build_execution_packet_def ds(1))
  have "py_get (lv_payload x) ''context_digest'' = Inr (Some (JStr (lv_context_digest x)))"
    "lv_context_digest x = sha256_digest H (context_json (lv_context x))"
    using a unfolding from_stages_def by blast+
  thus "digest_participates H x = Inr True" by (simp add: digest_participates_def)
qed

lemma stages_unknowns: "from_stages H px rplan cands x \<Longrightarrow> unknowns_conserved x"
proof -
  assume a: "from_stages H px rplan cands x"
  have d: "obligations (lv_execution x) = derive_obligations (lv_intent x) (lv_plan x) (lv_kernels x) (lv_context x)"
    using a unfolding stages_obligations(1) [OF a] from_stages_def by blast
  have "\<exists>o' \<in> set (obligations (lv_execution x)). obligation_id o' = EPISTEMIC_PREFIX @ unknown_id u"
    if u: "u \<in> set (ctx_unknowns (lv_context x))" "materiality u = BLOCKING" for u
  proof -
    have "\<exists>o' \<in> set (context_obligations (lv_intent x) (lv_context x)). obligation_id o' = context_obligation_id u"
      using u by (auto simp: context_obligations_def)
    thus ?thesis unfolding d derive_obligations_def context_obligation_id_def EPISTEMIC_PREFIX_def by auto
  qed
  thus ?thesis unfolding unknowns_conserved_def by (fastforce simp: image_iff)
qed

lemma stages_contracts:
  assumes a: "from_stages H px rplan cands x"
  shows "intent_accounted x" "evidence_bound x \<subseteq> bound_properties x" "delivery_bound x \<subseteq> handoff_ids x"
    "blocks_evidenced x" "nothing_reset x" "required_pending (lv_execution x) \<subseteq> handoff_ids x"
proof -
  have h: "lv_handoff x = compile_handoff (lv_execution x) (lv_plan x)"
    and v: "lv_validation x = compile_validation (lv_execution x) (lv_plan x)"
    using a unfolding from_stages_def by blast+
  note obs = stages_obligations [OF a]
  show "intent_accounted x" unfolding intent_accounted_def obs(1) list_all_iff by auto
  show "evidence_bound x \<subseteq> bound_properties x"
    unfolding evidence_bound_def bound_properties_def v set_map validation_refs obs(3) by auto
  show "delivery_bound x \<subseteq> handoff_ids x" "required_pending (lv_execution x) \<subseteq> handoff_ids x"
    unfolding delivery_bound_def required_pending_def handoff_ids_def h handoff_conserves obs(3) by auto
  show "blocks_evidenced x" "nothing_reset x"
    using obs(2) unfolding blocks_evidenced_def nothing_reset_def h handoff_conserves list_all_iff list_ex_iff by auto
qed

text \<open>
  What is left to fail: every activated reference is bound as written, every binding has a digest, every
  kernel shares its name with one that a planned phase lists, every kernel with a required output is
  itself listed, every required obligation has its phase planned, the terminal phase is planned only when
  allowed, and no recorded contradiction was also selected.
\<close>

definition live_ready ::
  "pipeline_source \<Rightarrow> activation_plan \<Rightarrow> kernel_binding list \<Rightarrow> obligation list \<Rightarrow> compiled_task_context \<Rightarrow> bool" where
  "live_ready px p kernels obs ctx \<longleftrightarrow>
     set (active_kernels p) \<subseteq> kb_source_ref ` set kernels \<and>
     (\<forall>b \<in> set kernels. kb_source_digest b \<noteq> []) \<and>
     (\<forall>b \<in> set kernels. \<exists>c \<in> set kernels. live_kernel_id (kb_source_ref c) = live_kernel_id (kb_source_ref b)
        \<and> invoked px p (kb_source_ref c)) \<and>
     (\<forall>b \<in> set kernels. list_ex ko_required (kb_outputs b) \<longrightarrow> invoked px p (kb_source_ref b)) \<and>
     (\<forall>o' \<in> set obs. ob_required o' \<longrightarrow>
        obligation_phase p (ob_kind o') \<in> set (phase_sequence p)) \<and>
     (terminal_allowed p \<or> P7 \<notin> set (phase_sequence p)) \<and>
     no_selected_conflict ctx"

lemma stages_live:
  assumes "from_stages H px rplan cands x"
  shows "(\<exists>r. validate_liveness H x = Inr r) \<longleftrightarrow>
     live_ready px (lv_plan x) (lv_kernels x) (obligations (lv_execution x)) (lv_context x)"
proof -
  note a = assms
  have invocation: "bound_kernel_ids x \<subseteq> node_kernel_ids x \<longleftrightarrow>
      (\<forall>b \<in> set (lv_kernels x). \<exists>c \<in> set (lv_kernels x). live_kernel_id (kb_source_ref c) = live_kernel_id (kb_source_ref b)
        \<and> invoked px (lv_plan x) (kb_source_ref c))"
    unfolding bound_kernel_ids_def stages_node_kernel_ids [OF a] set_map image_subset_iff mem_Collect_eq
    by (intro ball_cong refl) (metis (no_types, lifting))
  have resolved: "node_kernel_ids x \<subseteq> bound_kernel_ids x"
    unfolding bound_kernel_ids_def stages_node_kernel_ids [OF a] by auto
  have inpacket: "required_pending (lv_execution x) \<subseteq> obligation_id ` set (required_obligations (lv_execution x))"
    by (simp add: required_pending_def)
  show ?thesis
    unfolding live_ready_def validate_liveness_Inr liveness_ladder_def ALL_CHECKS_def
    by (simp add: stages_contracts [OF a] stages_packet [OF a] stages_closure [OF a] stages_consumed [OF a]
        stages_no_orphans [OF a] stages_unknowns [OF a] invocation resolved stages_outputs [OF a]
        stages_realized [OF a] stages_converge [OF a] inpacket kernels_bound_def kernels_present_def list_all_iff)
       blast?
qed

section \<open>Properties\<close>

text \<open>C26: On the products of the spine's own stages, seventeen of the twenty-four checks cannot fail. A
  liveness report is returned exactly when every activated reference is bound as written, every binding
  has a digest, every kernel shares its name with one that a planned phase lists, every kernel with a required
  output is itself listed by a planned phase, every required obligation has its phase planned, the
  terminal phase is planned only when allowed, and no recorded contradiction was also selected.\<close>

theorem liveness_residue:
  assumes "from_stages H px rplan cands x"
  shows "(\<exists>r. validate_liveness H x = Inr r) \<longleftrightarrow>
     set (active_kernels (lv_plan x)) \<subseteq> kb_source_ref ` set (lv_kernels x) \<and>
     (\<forall>b \<in> set (lv_kernels x). kb_source_digest b \<noteq> []) \<and>
     (\<forall>b \<in> set (lv_kernels x). \<exists>c \<in> set (lv_kernels x). live_kernel_id (kb_source_ref c) = live_kernel_id (kb_source_ref b)
        \<and> invoked px (lv_plan x) (kb_source_ref c)) \<and>
     (\<forall>b \<in> set (lv_kernels x). list_ex ko_required (kb_outputs b) \<longrightarrow> invoked px (lv_plan x) (kb_source_ref b)) \<and>
     (\<forall>o' \<in> set (obligations (lv_execution x)). ob_required o' \<longrightarrow>
        obligation_phase (lv_plan x) (ob_kind o') \<in> set (phase_sequence (lv_plan x))) \<and>
     (terminal_allowed (lv_plan x) \<or> P7 \<notin> set (phase_sequence (lv_plan x))) \<and>
     no_selected_conflict (lv_context x)"
  using stages_live [OF assms] unfolding live_ready_def .

definition live_kernel :: kernel_binding where
  "live_kernel = \<lparr>kernel_id = ''K01-platform-architecture-engine'',
     kb_source_ref = ''runtime/kernels/constitutional/K01-platform-architecture-engine.yaml'', kb_source_digest = ''0'',
     kb_outputs = [\<lparr>output_id = ''preflight'', ko_required = True, ko_consumer_refs = [''execution_gate'']\<rparr>],
     kb_context_needs = []\<rparr>"

definition live_plan :: activation_plan where
  "live_plan = sample_phases\<lparr>active_kernels := [kb_source_ref live_kernel]\<rparr>"

definition live_source :: pipeline_source where
  "live_source = \<lparr>px_terminal_contract = Some (JStr ''t.yaml''), px_pipeline_id = Some (JStr ''p.v1''),
     px_phases = [(\<lparr>phase_id = ''P1_CONSTITUTIONAL_PREFLIGHT'', primary_kernels = [kb_source_ref live_kernel],
         ph_required_outputs = []\<rparr>, JStr ''gate''),
       (\<lparr>phase_id = ''P2_TASK_ROUTING'', primary_kernels = [], ph_required_outputs = []\<rparr>, JNull)]\<rparr>"

definition live_context :: compiled_task_context where
  "live_context = (sample_context [])\<lparr>ctx_kernels := [binding_json live_kernel]\<rparr>"

definition live_intent :: intent_contract where
  "live_intent = (sample_intent ''m'')\<lparr>int_obligations :=
     derive_obligations (sample_intent ''m'') live_plan [live_kernel] live_context\<rparr>"

lemma live_obligations:
  "int_obligations live_intent = derive_obligations live_intent live_plan [live_kernel] live_context"
  "list_all (\<lambda>o'. obligation_phase live_plan (ob_kind o') \<in> set (phase_sequence live_plan)) (int_obligations live_intent)"
  by code_simp+

lemma live_validated:
  "validate_obligations (int_obligations live_intent) (owner_registry live_plan [live_kernel]) ''intent'' = Inr ()"
  by code_simp

lemma live_closure:
  "validate_closure (\<lambda>_. ''0'') live_context (sample_plan []) [] [live_kernel] =
     Inr \<lparr>closure_checks = CONTEXT_CHECKS, closure_passed = True\<rparr>"
proof -
  have "list_all snd (closure_ladder (\<lambda>_. ''0'') live_context (sample_plan []) [] [live_kernel])"
    by code_simp
  thus ?thesis by (simp add: validate_closure_Inr)
qed

lemma live_execution:
  "\<exists>ex. compile_execution live_intent live_plan [live_kernel] live_source (int_obligations live_intent) live_context ''0''
     = Inr ex"
proof -
  let ?c = "compile_execution live_intent live_plan [live_kernel] live_source (int_obligations live_intent) live_context ''0''"
  have "isl ?c = False" by code_simp
  then show ?thesis by (cases ?c) auto
qed

lemma live_phases: "phase_sequence live_plan = [''P1_CONSTITUTIONAL_PREFLIGHT'', ''P2_TASK_ROUTING'']"
  by (simp add: live_plan_def sample_phases_def)

theorem liveness_residue_witness:
  "\<exists>x r. from_stages (\<lambda>_. ''0'') live_source (sample_plan []) [] x \<and> lv_kernels x = [live_kernel] \<and>
     validate_liveness (\<lambda>_. ''0'') x = Inr r"
proof -
  obtain ex where ex: "compile_execution live_intent live_plan [live_kernel] live_source (int_obligations live_intent)
      live_context ''0'' = Inr ex"
    using live_execution by blast
  have steps: "map step_id (execution_steps ex) = map (\<lambda>q. ''step.'' @ q) (phase_sequence live_plan)"
    and obs: "obligations ex = int_obligations live_intent"
    using ex by (auto elim!: compile_execution_Inr simp: build_steps_ids)
  define g where "g = chain_graph ex (map step_node (execution_steps ex))"
  have g: "derive_execution_graph ex = Some (Inr g)"
    using steps by (auto simp: derive_execution_graph_eq g_def live_phases)
  define x where "x = \<lparr>lv_intent = live_intent, lv_plan = live_plan, lv_kernels = [live_kernel], lv_execution = ex,
    lv_validation = compile_validation ex live_plan, lv_handoff = compile_handoff ex live_plan, lv_graph = g,
    lv_context = live_context, lv_context_digest = ''0'',
    lv_closure = \<lparr>closure_checks = CONTEXT_CHECKS, closure_passed = True\<rparr>,
    lv_packet = build_execution_packet (\<lambda>_. ''0'') live_intent [live_kernel] live_plan ex (compile_validation ex live_plan)
      (compile_handoff ex live_plan) g (sample_digests ''0'') live_context,
    lv_payload = JObj [(''context_digest'', JStr ''0'')]\<rparr>"
  have bind: "list_all binding_ok [live_kernel]" by code_simp
  have fs: "from_stages (\<lambda>_. ''0'') live_source (sample_plan []) [] x"
    unfolding from_stages_def x_def
    by (intro conjI exI [of _ "sample_digests ''0''"])
       (simp_all add: ex g live_validated live_closure sha256_digest_def sample_digests_def live_obligations(1) [symmetric]
          bind [simplified])
  have inv: "invoked live_source live_plan (kb_source_ref live_kernel)" by code_simp
  have k: "kb_source_digest live_kernel \<noteq> []" "active_kernels live_plan = [kb_source_ref live_kernel]"
    by (simp_all add: live_kernel_def live_plan_def)
  have c: "no_selected_conflict live_context" by code_simp
  have p7: "P7 \<notin> set (phase_sequence live_plan)" by (simp add: live_phases P7_def)
  have "\<exists>r. validate_liveness (\<lambda>_. ''0'') x = Inr r"
    unfolding liveness_residue [OF fs]
    using inv k c p7 live_obligations(2) by (simp add: x_def obs list_all_iff)
  thus ?thesis using fs by (intro exI [of _ x]) (auto simp: x_def)
qed

end
