(* ===== verification/Pipeline.thy ===== *)
theory Pipeline
  imports Liveness RequirementPlanner
begin

text \<open>
  The compilation spine (\<open>compiler/pipeline.py\<close>), the types it returns (\<open>types.py\<close>), its
  compatibility surface (\<open>compiler/context.py\<close>) and the service facade (\<open>service.py\<close>).

  The semantic sources are read through the same access to the pack as the kernels. Decoding and parsing
  the routing rules and the pipeline are parameters that return the documents as the planner
  reads them. The graph stage is a loop, so a compilation is an option: \<open>None\<close> would be a compilation
  that does not return, which the first property excludes.
\<close>

section \<open>Inputs and outputs\<close>

record pack_provenance =
  pack_ref :: string
  pack_root :: string
  manifest_digest :: string
  file_digests :: "(string \<times> string) list"

definition pack_provenance_json :: "pack_provenance \<Rightarrow> json" where
  "pack_provenance_json p = JObj
     [(''pack_ref'', JStr (pack_ref p)), (''root'', JStr (pack_root p)),
      (''manifest_digest'', JStr (manifest_digest p)), (''file_digests'', jdict (file_digests p))]"

record pack_sources =
  ps_access :: pack_access
  ps_rules :: "string \<Rightarrow> routing_rules res"
  ps_pipeline :: "string \<Rightarrow> pipeline_source res"

record runtime_bundle =
  rb_intent :: intent_contract
  rb_execution :: execution_contract
  rb_validation :: validation_contract
  rb_handoff :: handoff_contract
  rb_graph :: execution_graph
  rb_provenance :: pack_provenance
  rb_semantic_digest :: string
  rb_packet :: json
  rb_context :: compiled_task_context
  rb_context_plan :: context_plan

record root_compilation =
  rc_bundle :: runtime_bundle
  rc_plan :: activation_plan
  rc_kernels :: "kernel_binding list"

record prepared_plan =
  pp_intent :: intent_contract
  pp_snapshot :: context_snapshot
  pp_scope :: task_scope
  pp_resolution :: snapshot_resolution
  pp_discovery :: discovery_context
  pp_activation :: activation_plan
  pp_kernels :: "kernel_binding list"
  pp_pipeline :: pipeline_source
  pp_requirement_plan :: context_requirement_plan
  pp_context_plan :: context_plan

text \<open>\<open>ContextPlan.to_canonical_dict\<close>: the payload with the identity.\<close>

definition context_plan_json :: "context_plan \<Rightarrow> json" where
  "context_plan_json p = (case context_plan_payload p of
     JObj kvs \<Rightarrow> JObj ((''context_plan_id'', JStr (context_plan_id p)) # kvs) | j \<Rightarrow> j)"

definition bundle_digests :: "(string \<Rightarrow> string) \<Rightarrow> runtime_bundle \<Rightarrow> (string \<times> string) list" where
  "bundle_digests H b =
     [(''intent'', sha256_digest H (intent_json (rb_intent b))),
      (''execution'', sha256_digest H (execution_json (rb_execution b))),
      (''validation'', sha256_digest H (validation_json (rb_validation b))),
      (''handoff'', sha256_digest H (handoff_json (rb_handoff b))),
      (''graph'', sha256_digest H (graph_json (rb_graph b))),
      (''manifest'', manifest_digest (rb_provenance b)),
      (''semantic'', rb_semantic_digest b),
      (''context'', sha256_digest H (context_json (rb_context b))),
      (''context_plan'', sha256_digest H (context_plan_json (rb_context_plan b)))]"

definition RULES_REL :: string where
  "RULES_REL = ''runtime/kernel_pipeline/planner/TASK_ROUTING_RULES.yaml''"

definition PIPELINE_REL :: string where
  "PIPELINE_REL = ''runtime/kernel_pipeline/KERNEL_PIPELINE.yaml''"

definition UNVERIFIED_ROOT_MANIFEST :: string where
  "UNVERIFIED_ROOT_MANIFEST = ''unverified:repository_root''"

definition PACKAGE_VERSION :: string where
  "PACKAGE_VERSION = ''0.1.0''"

section \<open>The prefix shared by planning and compilation\<close>

definition read_source :: "pack_sources \<Rightarrow> string \<Rightarrow> string res" where
  "read_source src rel = pk_read (ps_access src) rel"

definition prepare_context_plan ::
  "(string \<Rightarrow> string) \<Rightarrow> pack_sources \<Rightarrow> pack_provenance \<Rightarrow> compile_request \<Rightarrow> context_snapshot option \<Rightarrow>
     bool \<Rightarrow> activation_plan option \<Rightarrow> prepared_plan res" where
  "prepare_context_plan H src prov rq snap include_terminal given =
     bindR (read_source src RULES_REL) (\<lambda>rules_source.
     bindR (read_source src PIPELINE_REL) (\<lambda>pipeline_bytes.
     bindR (ps_rules src rules_source) (\<lambda>rules.
     bindR (ps_pipeline src pipeline_bytes) (\<lambda>px.
     bindR (derive_intent rq) (\<lambda>i.
     let snapshot = (case snap of Some s \<Rightarrow> s | None \<Rightarrow> empty_snapshot) in
     bindR (preflight_snapshot snapshot) (\<lambda>_.
     bindR (compile_task_scope H i) (\<lambda>scope.
     let resolution = resolve_snapshot snapshot;
         disc = compile_discovery H scope resolution in
     bindR (case given of Some p \<Rightarrow> Inr p
            | None \<Rightarrow> plan_activation i rules (phase_order px) disc include_terminal) (\<lambda>p.
     bindR (resolve_kernels H (ps_access src) (active_kernels p)) (\<lambda>kernels.
     bindR (plan_context H scope disc p kernels) (\<lambda>rplan.
     bindR (make_compiler_identity PACKAGE_VERSION CONTEXT_COMPILER_SEMANTICS_VERSION) (\<lambda>ident.
     bindR (make_context_plan H
       \<lparr>context_plan_id = [], cp_scope = scope, cp_discovery = disc, cp_requirement_plan = rplan,
        active_kernel_digests = fold (\<lambda>b. dict_put (kb_source_ref b) (kb_source_digest b)) kernels [],
        pack_manifest_digest = manifest_digest prov, routing_rules_digest = H rules_source,
        pipeline_digest = H pipeline_bytes, cp_compiler = ident\<rparr>) (\<lambda>cplan.
     Inr \<lparr>pp_intent = i, pp_snapshot = snapshot, pp_scope = scope, pp_resolution = resolution,
       pp_discovery = disc, pp_activation = p, pp_kernels = kernels, pp_pipeline = px,
       pp_requirement_plan = rplan, pp_context_plan = cplan\<rparr>))))))))))))"

section \<open>Compilation\<close>

definition semantic_payload ::
  "(string \<Rightarrow> string) \<Rightarrow> intent_contract \<Rightarrow> execution_contract \<Rightarrow> validation_contract \<Rightarrow> handoff_contract \<Rightarrow>
     execution_graph \<Rightarrow> kernel_binding list \<Rightarrow> context_plan \<Rightarrow> string \<Rightarrow> json" where
  "semantic_payload H i ex va ha g kernels cplan digest = JObj
     [(''intent_digest'', JStr (sha256_digest H (intent_json i))),
      (''execution_digest'', JStr (sha256_digest H (execution_json ex))),
      (''validation_digest'', JStr (sha256_digest H (validation_json va))),
      (''handoff_digest'', JStr (sha256_digest H (handoff_json ha))),
      (''graph_digest'', JStr (sha256_digest H (graph_json g))),
      (''obligation_set_digest'', JStr (sha256_digest H (jstrs (map obligation_id (obligations ex))))),
      (''active_kernel_digests'', kernel_digests kernels),
      (''routing_rules_digest'', JStr (routing_rules_digest cplan)),
      (''pipeline_digest'', JStr (pipeline_digest cplan)),
      (''context_digest'', JStr digest),
      (''context_plan_id'', JStr (context_plan_id cplan))]"

text \<open>
  What follows the graph: the graph's own obligation list, the semantic digest, the packet and its
  validation, liveness, and the bundle. \<open>sha256_digest\<close> is applied to the text of the payload, so what is
  hashed is a JSON string.
\<close>

definition compile_tail ::
  "(string \<Rightarrow> string) \<Rightarrow> pack_provenance \<Rightarrow> prepared_plan \<Rightarrow> intent_contract \<Rightarrow> compiled_task_context \<Rightarrow>
     string \<Rightarrow> closure_report \<Rightarrow> execution_contract \<Rightarrow> validation_contract \<Rightarrow> handoff_contract \<Rightarrow>
     execution_graph \<Rightarrow> root_compilation res" where
  "compile_tail H prov pp i ctx digest closure ex va ha g =
     (let required_ids = required_pending_ids (obligations ex) in
      if graph_obligation_refs g \<noteq> required_ids
      then Inl (InvalidValueError ''graph obligation_refs diverged from required pending obligations''
                  ''execution->graph'')
      else
       (let cplan = pp_context_plan pp;
            payload = semantic_payload H i ex va ha g (pp_kernels pp) cplan digest;
            semantic = sha256_digest H (JStr (canonical_json_bytes payload));
            packet = build_execution_packet H i (pp_kernels pp) (pp_activation pp) ex va ha g
              \<lparr>pd_routing_rules = routing_rules_digest cplan, pd_pipeline = pipeline_digest cplan,
               pd_semantic = semantic, pd_context = digest, pd_plan_id = context_plan_id cplan\<rparr> ctx
        in bindR (validate_packet H packet) (\<lambda>_.
           bindR (validate_liveness H
             \<lparr>lv_intent = i, lv_plan = pp_activation pp, lv_kernels = pp_kernels pp, lv_execution = ex,
              lv_validation = va, lv_handoff = ha, lv_graph = g, lv_context = ctx,
              lv_context_digest = digest, lv_closure = closure, lv_packet = packet,
              lv_payload = payload\<rparr>) (\<lambda>_.
           Inr \<lparr>rc_bundle =
               \<lparr>rb_intent = i, rb_execution = ex, rb_validation = va, rb_handoff = ha, rb_graph = g,
                rb_provenance = prov, rb_semantic_digest = semantic, rb_packet = packet,
                rb_context = ctx, rb_context_plan = cplan\<rparr>,
              rc_plan = pp_activation pp, rc_kernels = pp_kernels pp\<rparr>))))"

definition bindO :: "'a res option \<Rightarrow> ('a \<Rightarrow> 'b res option) \<Rightarrow> 'b res option" where
  "bindO m f = (case m of None \<Rightarrow> None | Some (Inl e) \<Rightarrow> Some (Inl e) | Some (Inr x) \<Rightarrow> f x)"

definition compile_prepared ::
  "(string \<Rightarrow> string) \<Rightarrow> pack_provenance \<Rightarrow> string option \<Rightarrow> prepared_plan \<Rightarrow> root_compilation res option" where
  "compile_prepared H prov expected pp =
     (if expected \<noteq> None \<and> Some (context_plan_id (pp_context_plan pp)) \<noteq> expected
      then Some (Inl (InvalidValueError ''context planning inputs changed; replan required''
                        ''expected_context_plan_id''))
      else
       (let p = pp_activation pp; kernels = pp_kernels pp; i0 = pp_intent pp in
        bindO (Some (compile_context H i0 (pp_scope pp) (pp_resolution pp) (pp_discovery pp)
            (pp_requirement_plan pp) p kernels PACKAGE_VERSION AUTHORITY_ORDER)) (\<lambda>ctx.
        bindO (Some (validate_closure H ctx (pp_requirement_plan pp) (pp_resolution pp) kernels)) (\<lambda>closure.
        let digest = sha256_digest H (context_json ctx);
            obs = derive_obligations i0 p kernels ctx in
        bindO (Some (validate_obligations obs (owner_registry p kernels) ''intent'')) (\<lambda>_.
        let i = i0\<lparr>int_obligations := obs\<rparr> in
        bindO (Some (compile_execution i p kernels (pp_pipeline pp) obs ctx digest)) (\<lambda>ex.
        bindO (Some (conserve (int_obligations i) (obligations ex) ''intent->execution'')) (\<lambda>_.
        let va = compile_validation ex p in
        bindO (Some (conserve_ids (obligations ex)
            (sorted_unique (map obligation_ref (validation_properties va))) ''execution->validation'')) (\<lambda>_.
        let ha = compile_handoff ex p in
        bindO (Some (conserve (obligations ex) (hand_obligations ha) ''execution->handoff'')) (\<lambda>_.
        bindO (derive_execution_graph ex) (\<lambda>g.
        Some (compile_tail H prov pp i ctx digest closure ex va ha g)))))))))))"

definition compile_spine ::
  "(string \<Rightarrow> string) \<Rightarrow> pack_sources \<Rightarrow> pack_provenance \<Rightarrow> compile_request \<Rightarrow> context_snapshot option \<Rightarrow>
     bool \<Rightarrow> activation_plan option \<Rightarrow> string option \<Rightarrow> root_compilation res option" where
  "compile_spine H src prov rq snap include_terminal given expected =
     bindO (Some (prepare_context_plan H src prov rq snap include_terminal given))
       (compile_prepared H prov expected)"

text \<open>The two entry points over a verified pack.\<close>

definition compile_pack ::
  "(string \<Rightarrow> string) \<Rightarrow> pack_sources \<Rightarrow> pack_provenance \<Rightarrow> compile_request \<Rightarrow> context_snapshot option \<Rightarrow>
     string option \<Rightarrow> runtime_bundle res option" where
  "compile_pack H src prov rq snap expected =
     bindO (compile_spine H src prov rq snap False None expected) (\<lambda>rc. Some (Inr (rc_bundle rc)))"

definition plan_pack ::
  "(string \<Rightarrow> string) \<Rightarrow> pack_sources \<Rightarrow> pack_provenance \<Rightarrow> compile_request \<Rightarrow> context_snapshot option \<Rightarrow>
     context_plan res" where
  "plan_pack H src prov rq snap =
     bindR (prepare_context_plan H src prov rq snap False None) (\<lambda>pp. Inr (pp_context_plan pp))"

section \<open>The repository-root entries\<close>

definition DEFAULT_TASK_TYPE :: string where
  "DEFAULT_TASK_TYPE = ''kernel_runtime_convergence''"

definition default_request :: "string \<Rightarrow> string \<Rightarrow> compile_request" where
  "default_request m tt = \<lparr>rq_mission = m, rq_task_type = tt,
     rq_constraints = [''model_agnostic'', ''kernel_first'', ''evidence_backed'', ''no_fake_validation''],
     rq_desired_outputs = [''kernel_activation_plan'', ''execution_contract'', ''execution_graph'',
       ''validation_evidence'', ''adapter_render''],
     rq_source_context = [(''pack'', JStr ''l9_cognitive_runtime'')], rq_unknowns = []\<rparr>"

definition unverified_root ::
  "string \<Rightarrow> string \<Rightarrow> string option \<Rightarrow> compile_request \<times> pack_provenance" where
  "unverified_root root m tt =
     (default_request m (case tt of Some t \<Rightarrow> t | None \<Rightarrow> DEFAULT_TASK_TYPE),
      \<lparr>pack_ref = root, pack_root = root, manifest_digest = UNVERIFIED_ROOT_MANIFEST, file_digests = []\<rparr>)"

text \<open>\<open>root\<close> is the resolved root; \<open>src\<close> reads beneath it.\<close>

definition compile_from_root ::
  "(string \<Rightarrow> string) \<Rightarrow> pack_sources \<Rightarrow> string \<Rightarrow> string \<Rightarrow> string option \<Rightarrow> bool \<Rightarrow> context_snapshot option \<Rightarrow>
     activation_plan option \<Rightarrow> string option \<Rightarrow> root_compilation res option" where
  "compile_from_root H src root m tt include_terminal snap given expected =
     (case unverified_root root m tt of (rq, prov) \<Rightarrow>
        compile_spine H src prov rq snap include_terminal given expected)"

definition plan_activation_from_root ::
  "(string \<Rightarrow> string) \<Rightarrow> pack_sources \<Rightarrow> string \<Rightarrow> string \<Rightarrow> bool \<Rightarrow> activation_plan res" where
  "plan_activation_from_root H src root m include_terminal =
     (case unverified_root root m None of (rq, prov) \<Rightarrow>
        bindR (prepare_context_plan H src prov rq None include_terminal None) (\<lambda>pp. Inr (pp_activation pp)))"

record compiled_contracts =
  cc_intent :: intent_contract
  cc_plan :: activation_plan
  cc_kernels :: "kernel_binding list"
  cc_execution :: execution_contract
  cc_validation :: validation_contract
  cc_handoff :: handoff_contract
  cc_context :: compiled_task_context

definition compile_execution_from_plan ::
  "(string \<Rightarrow> string) \<Rightarrow> pack_sources \<Rightarrow> string \<Rightarrow> activation_plan \<Rightarrow> execution_contract res option" where
  "compile_execution_from_plan H src root p =
     bindO (compile_from_root H src root (task_summary p) None False None (Some p) None)
       (\<lambda>rc. Some (Inr (rb_execution (rc_bundle rc))))"

definition compile_contracts_from_root ::
  "(string \<Rightarrow> string) \<Rightarrow> pack_sources \<Rightarrow> string \<Rightarrow> string \<Rightarrow> bool \<Rightarrow> compiled_contracts res option" where
  "compile_contracts_from_root H src root m include_terminal =
     bindO (compile_from_root H src root m None include_terminal None None None) (\<lambda>rc.
       let b = rc_bundle rc in
       Some (Inr \<lparr>cc_intent = rb_intent b, cc_plan = rc_plan rc, cc_kernels = rc_kernels rc,
         cc_execution = rb_execution b, cc_validation = rb_validation b, cc_handoff = rb_handoff b,
         cc_context = rb_context b\<rparr>))"

section \<open>The service\<close>

text \<open>
  The request of the service carries the pack it names, as text. Loading that pack and resolving its root
  are parameters.
\<close>

record service_request = compile_request +
  rq_pack_root :: "string option"
  rq_pack_ref :: "string option"

record service_env =
  se_load :: "string \<Rightarrow> (pack_sources \<times> pack_provenance) res"
  se_resolve_root :: "string \<Rightarrow> unit res"

definition service_load_pack :: "service_env \<Rightarrow> service_request \<Rightarrow> (pack_sources \<times> pack_provenance) res" where
  "service_load_pack env rq =
     (if \<not> non_blank (rq_mission rq) then Inl (InvalidValueError ''mission must be non-empty'' ''mission'')
      else case (case rq_pack_ref rq of Some r \<Rightarrow> Some r | None \<Rightarrow> rq_pack_root rq) of
        None \<Rightarrow> Inl (InvalidValueError ''explicit pack_ref required'' ''pack_ref'')
      | Some r \<Rightarrow>
          if \<not> non_blank r then Inl (InvalidValueError ''explicit pack_ref required'' ''pack_ref'')
          else bindR (se_load env r) (\<lambda>pack.
            bindR (se_resolve_root env (pack_root (snd pack))) (\<lambda>_. Inr pack)))"

definition service_plan_context ::
  "(string \<Rightarrow> string) \<Rightarrow> service_env \<Rightarrow> service_request \<Rightarrow> context_snapshot option \<Rightarrow> context_plan res" where
  "service_plan_context H env rq snap =
     bindR (service_load_pack env rq) (\<lambda>(src, prov).
       plan_pack H src prov (compile_request.truncate rq) snap)"

definition service_compile_runtime ::
  "(string \<Rightarrow> string) \<Rightarrow> service_env \<Rightarrow> service_request \<Rightarrow> context_snapshot option \<Rightarrow> string option \<Rightarrow>
     runtime_bundle res option" where
  "service_compile_runtime H env rq snap expected =
     bindO (Some (service_load_pack env rq)) (\<lambda>(src, prov).
       compile_pack H src prov (compile_request.truncate rq) snap expected)"

section \<open>Every cross-representation check on the spine's own products\<close>

lemma bindO_simps [simp]:
  "bindO None f = None" "bindO (Some (Inl e)) f = Some (Inl e)" "bindO (Some (Inr x)) f = f x"
  by (simp_all add: bindO_def)

lemma bindO_Inr: "bindO m f = Some (Inr y) \<longleftrightarrow> (\<exists>x. m = Some (Inr x) \<and> f x = Some (Inr y))"
  by (auto simp: bindO_def split: option.splits sum.splits)

lemma bindO_returns:
  "(\<exists>r. m = Some r) \<Longrightarrow> (\<And>x. m = Some (Inr x) \<Longrightarrow> \<exists>r. f x = Some r) \<Longrightarrow> \<exists>r. bindO m f = Some r"
  by (auto simp: bindO_def split: option.splits sum.splits)

lemma derive_obligations_intent [simp]:
  "derive_obligations (i\<lparr>int_obligations := xs\<rparr>) p kernels ctx = derive_obligations i p kernels ctx"
proof -
  have o: "new_obligation (i\<lparr>int_obligations := xs\<rparr>) = new_obligation i"
    by (intro ext) (simp add: new_obligation_def)
  have u: "unknown_notes (i\<lparr>int_obligations := xs\<rparr>) n us = unknown_notes i n us" for n us
    by (induction us arbitrary: n) (simp_all add: o)
  show ?thesis
    unfolding derive_obligations_def intent_obligations_def context_obligations_def o u by simp
qed

lemma architecture_obligation:
  assumes "x \<in> set (derive_obligations i p kernels ctx)" and "obligation_id x = ''OBL.ARCHITECTURE''"
  shows "ob_required x \<and> mt_required (architecture_materiality p)"
proof -
  have "x \<notin> set (context_obligations i ctx)"
    using assms(2) by (auto simp: context_obligations_def context_obligation_id_def)
  moreover have "x \<notin> set (unknown_notes i 0 (int_unknowns i))"
    using assms(2) unknown_notes_mem by fastforce
  ultimately have "x \<in> set (intent_obligations i p kernels)" using assms(1) by (auto simp: derive_obligations_def)
  thus ?thesis using assms(2) by (auto simp: intent_obligations_def Let_def split: if_splits)
qed

lemma architecture_derived:
  "mt_required (architecture_materiality p) \<Longrightarrow>
     ''OBL.ARCHITECTURE'' \<in> obligation_id ` set (filter ob_required (derive_obligations i p kernels ctx))"
  by (simp add: derive_obligations_def intent_obligations_def Let_def)

lemma derived_all_pending:
  assumes "obligations ex = derive_obligations i p kernels ctx"
  shows "all_pending ex"
  using derived_props(1) architecture_obligation unfolding all_pending_def assms list_all_iff by blast

lemma pending_live: "all_pending ex \<Longrightarrow> filter (\<lambda>x. ob_required x \<and> \<not> is_terminal x) (obligations ex) = filter ob_required (obligations ex)"
  by (rule filter_cong) (auto simp: all_pending_def list_all_iff is_terminal_def)

text \<open>The property references of a validation contract are the required obligations.\<close>

lemma validation_ids:
  assumes "obligations ex = derive_obligations i p kernels ctx"
  shows "set (map obligation_ref (validation_properties (compile_validation ex q))) =
     obligation_id ` set (filter ob_required (obligations ex))"
  using derived_all_pending [OF assms]
  by (auto simp: compile_validation_def new_property_def Let_def list_ex_iff all_pending_def list_all_iff
      intro: rev_image_eqI)

lemma conserve_same: "distinct (map obligation_id xs) \<Longrightarrow> conserve xs xs stage = Inr ()"
  by (auto simp: conserve_Inr live_def)

lemma conserve_validation:
  assumes "obligations ex = derive_obligations i p kernels ctx" and "distinct (map obligation_id (obligations ex))"
  shows "conserve_ids (obligations ex)
     (sorted_unique (map obligation_ref (validation_properties (compile_validation ex q)))) stage = Inr ()"
  unfolding conserve_ids_Inr set_sorted_unique validation_ids [OF assms(1)]
  using assms(2) by (auto simp: live_def)

lemma graph_refs:
  assumes "all_pending ex"
  shows "graph_obligation_refs (chain_graph ex ns) = required_pending_ids (obligations ex)"
proof -
  have "filter (\<lambda>x. ob_required x \<and> disposition x = PENDING) (obligations ex) = filter ob_required (obligations ex)"
    using pending_required [OF assms] by (simp add: required_obligations_def)
  thus ?thesis by (simp add: chain_graph_def required_pending_ids_def pending_live [OF assms])
qed

section \<open>When a compilation succeeds\<close>

text \<open>The stages that can fail on their own: the context, its closure, the obligations' owners and execution.\<close>

definition derived :: "prepared_plan \<Rightarrow> compiled_task_context \<Rightarrow> obligation list" where
  "derived pp ctx = derive_obligations (pp_intent pp) (pp_activation pp) (pp_kernels pp) ctx"

definition stages_pass ::
  "(string \<Rightarrow> string) \<Rightarrow> prepared_plan \<Rightarrow> compiled_task_context \<Rightarrow> closure_report \<Rightarrow> execution_contract \<Rightarrow> bool" where
  "stages_pass H pp ctx closure ex \<longleftrightarrow>
     compile_context H (pp_intent pp) (pp_scope pp) (pp_resolution pp) (pp_discovery pp) (pp_requirement_plan pp)
       (pp_activation pp) (pp_kernels pp) PACKAGE_VERSION AUTHORITY_ORDER = Inr ctx \<and>
     validate_closure H ctx (pp_requirement_plan pp) (pp_resolution pp) (pp_kernels pp) = Inr closure \<and>
     validate_obligations (derived pp ctx) (owner_registry (pp_activation pp) (pp_kernels pp)) ''intent'' = Inr () \<and>
     compile_execution ((pp_intent pp)\<lparr>int_obligations := derived pp ctx\<rparr>) (pp_activation pp) (pp_kernels pp)
       (pp_pipeline pp) (derived pp ctx) ctx (sha256_digest H (context_json ctx)) = Inr ex"

lemma stages_pass_obligations:
  assumes "stages_pass H pp ctx closure ex"
  shows "obligations ex = derived pp ctx" "distinct (map obligation_id (obligations ex))"
    "map step_id (execution_steps ex) = map (\<lambda>q. ''step.'' @ q) (phase_sequence (pp_activation pp))"
    "phase_sequence (pp_activation pp) \<noteq> []"
proof -
  let ?i = "(pp_intent pp)\<lparr>int_obligations := derived pp ctx\<rparr>"
  have c: "compile_execution ?i (pp_activation pp) (pp_kernels pp) (pp_pipeline pp) (derived pp ctx) ctx
      (sha256_digest H (context_json ctx)) = Inr ex"
    and v: "validate_obligations (derived pp ctx) (owner_registry (pp_activation pp) (pp_kernels pp)) ''intent'' = Inr ()"
    using assms by (simp_all add: stages_pass_def)
  show o: "obligations ex = derived pp ctx" using c by (rule compile_execution_Inr) simp
  show "distinct (map obligation_id (obligations ex))"
    using v unfolding o validate_obligations_def by (auto simp: bindR_eq_Inr index_obligations_Inr)
  show "map step_id (execution_steps ex) = map (\<lambda>q. ''step.'' @ q) (phase_sequence (pp_activation pp))"
    using c by (auto elim!: compile_execution_Inr simp: build_steps_ids)
  show "phase_sequence (pp_activation pp) \<noteq> []"
    using c by (auto simp: compile_execution_def bindR_eq_Inr terminal_target_def split: if_splits)
qed

lemma stages_graph_result:
  assumes "stages_pass H pp ctx closure ex"
  shows "derive_execution_graph ex = Some
     (if distinct (phase_sequence (pp_activation pp))
      then Inr (chain_graph ex (map step_node (execution_steps ex)))
      else Inl (InvalidValueError ''duplicate execution step id'' ''execution_steps''))"
proof -
  note st = stages_pass_obligations [OF assms]
  have "distinct (map step_id (execution_steps ex)) \<longleftrightarrow> distinct (phase_sequence (pp_activation pp))"
    unfolding st(3) by (simp add: distinct_map inj_on_def)
  moreover have "execution_steps ex \<noteq> []" using st(3,4) by auto
  ultimately show ?thesis by (simp add: derive_execution_graph_eq)
qed

lemma compile_tail_Inr:
  assumes st: "stages_pass H pp ctx closure ex" and ok: "list_all binding_ok (pp_kernels pp)"
    and dist: "distinct (phase_sequence (pp_activation pp))"
  shows "(\<exists>rc. compile_tail H prov pp ((pp_intent pp)\<lparr>int_obligations := derived pp ctx\<rparr>) ctx
      (sha256_digest H (context_json ctx)) closure ex (compile_validation ex (pp_activation pp))
      (compile_handoff ex (pp_activation pp)) (chain_graph ex (map step_node (execution_steps ex))) = Inr rc) \<longleftrightarrow>
    (mt_required (architecture_materiality (pp_activation pp)) \<longrightarrow> gar_declared (pp_kernels pp)) \<and>
    live_ready (pp_pipeline pp) (pp_activation pp) (pp_kernels pp) (derived pp ctx) ctx"
proof -
  let ?i = "(pp_intent pp)\<lparr>int_obligations := derived pp ctx\<rparr>" and ?p = "pp_activation pp"
  let ?va = "compile_validation ex ?p" and ?ha = "compile_handoff ex ?p"
  let ?g = "chain_graph ex (map step_node (execution_steps ex))" and ?digest = "sha256_digest H (context_json ctx)"
  let ?cplan = "pp_context_plan pp"
  let ?payload = "semantic_payload H ?i ex ?va ?ha ?g (pp_kernels pp) ?cplan ?digest"
  let ?ds = "\<lparr>pd_routing_rules = routing_rules_digest ?cplan, pd_pipeline = pipeline_digest ?cplan,
     pd_semantic = sha256_digest H (JStr (canonical_json_bytes ?payload)), pd_context = ?digest,
     pd_plan_id = context_plan_id ?cplan\<rparr>"
  let ?packet = "build_execution_packet H ?i (pp_kernels pp) ?p ex ?va ?ha ?g ?ds ctx"
  define x where "x = \<lparr>lv_intent = ?i, lv_plan = ?p, lv_kernels = pp_kernels pp, lv_execution = ex,
    lv_validation = ?va, lv_handoff = ?ha, lv_graph = ?g, lv_context = ctx, lv_context_digest = ?digest,
    lv_closure = closure, lv_packet = ?packet, lv_payload = ?payload\<rparr>"
  note obs = stages_pass_obligations(1) [OF st]
  have der: "obligations ex = derive_obligations (pp_intent pp) ?p (pp_kernels pp) ctx"
    using obs by (simp add: derived_def)
  have pend: "all_pending ex" by (rule derived_all_pending [OF der])
  have refs: "graph_obligation_refs ?g = required_pending_ids (obligations ex)" by (rule graph_refs [OF pend])
  have arch: "''OBL.ARCHITECTURE'' \<in> set (map obligation_id (required_obligations ex)) \<longleftrightarrow>
      mt_required (architecture_materiality ?p)"
    unfolding pending_required [OF pend] der set_map
    using architecture_obligation architecture_derived by fastforce
  have packet: "validate_packet H ?packet = Inr () \<longleftrightarrow>
      (mt_required (architecture_materiality ?p) \<longrightarrow> gar_declared (pp_kernels pp))"
    unfolding arch [symmetric] by (rule compiled_packet_Inr [OF pend]) simp
  have fs: "from_stages H (pp_pipeline pp) (pp_requirement_plan pp) (pp_resolution pp) x"
    unfolding from_stages_def x_def
    using ok st stages_graph_result [OF st] dist
    by (auto simp: stages_pass_def derived_def semantic_payload_def intro!: exI [of _ ?ds])
  have liveness: "(\<exists>r. validate_liveness H x = Inr r) \<longleftrightarrow>
      live_ready (pp_pipeline pp) ?p (pp_kernels pp) (derived pp ctx) ctx"
    using stages_live [OF fs] by (simp add: x_def obs)
  show ?thesis unfolding packet [symmetric] liveness [symmetric] x_def
    by (auto simp: compile_tail_def Let_def refs bindR_eq_Inr)
qed

lemma compile_prepared_returns: "\<exists>r. compile_prepared H prov expected pp = Some r"
  unfolding compile_prepared_def Let_def
  by (auto intro!: bindO_returns simp: derive_execution_graph_eq)

text \<open>On stages that pass, what is left is the graph and the tail: no conservation check can fail.\<close>

lemma compile_prepared_tail:
  assumes "stages_pass H pp ctx closure ex"
    and "expected = None \<or> expected = Some (context_plan_id (pp_context_plan pp))"
  shows "compile_prepared H prov expected pp = Some
    (if distinct (phase_sequence (pp_activation pp))
     then compile_tail H prov pp ((pp_intent pp)\<lparr>int_obligations := derived pp ctx\<rparr>) ctx
       (sha256_digest H (context_json ctx)) closure ex (compile_validation ex (pp_activation pp))
       (compile_handoff ex (pp_activation pp)) (chain_graph ex (map step_node (execution_steps ex)))
     else Inl (InvalidValueError ''duplicate execution step id'' ''execution_steps''))"
proof -
  note st = stages_pass_obligations [OF assms(1)]
  have der: "obligations ex = derive_obligations (pp_intent pp) (pp_activation pp) (pp_kernels pp) ctx"
    using st(1) by (simp add: derived_def)
  have c: "conserve (derived pp ctx) (obligations ex) ''intent->execution'' = Inr ()"
    "conserve (obligations ex) (obligations ex) ''execution->handoff'' = Inr ()"
    using conserve_same [OF st(2)] st(1) by simp_all
  show ?thesis
    using assms stages_graph_result [OF assms(1)] c conserve_validation [OF der st(2)]
    by (auto simp: compile_prepared_def stages_pass_def derived_def Let_def)
qed

lemma compile_prepared_stages:
  assumes "compile_prepared H prov expected pp = Some (Inr rc)"
  shows "(expected = None \<or> expected = Some (context_plan_id (pp_context_plan pp))) \<and>
     (\<exists>ctx closure ex. stages_pass H pp ctx closure ex)"
  using assms unfolding compile_prepared_def
  by (auto simp: bindO_Inr Let_def stages_pass_def derived_def split: if_splits)

lemma compile_prepared_Inr:
  assumes ok: "list_all binding_ok (pp_kernels pp)"
  shows "(\<exists>rc. compile_prepared H prov expected pp = Some (Inr rc)) \<longleftrightarrow>
    (expected = None \<or> expected = Some (context_plan_id (pp_context_plan pp))) \<and>
    (\<exists>ctx closure ex. stages_pass H pp ctx closure ex \<and>
       distinct (phase_sequence (pp_activation pp)) \<and>
       (mt_required (architecture_materiality (pp_activation pp)) \<longrightarrow> gar_declared (pp_kernels pp)) \<and>
       live_ready (pp_pipeline pp) (pp_activation pp) (pp_kernels pp) (derived pp ctx) ctx)"
    (is "?L \<longleftrightarrow> ?E \<and> ?S")
proof
  assume ?L
  then obtain rc where rc: "compile_prepared H prov expected pp = Some (Inr rc)" by blast
  from compile_prepared_stages [OF this] obtain ctx closure ex where e: ?E and st: "stages_pass H pp ctx closure ex"
    by blast
  from rc compile_prepared_tail [OF st e] have dist: "distinct (phase_sequence (pp_activation pp))"
    by (auto split: if_splits)
  from rc compile_prepared_tail [OF st e] dist compile_tail_Inr [OF st ok dist] e st show "?E \<and> ?S" by auto
next
  assume es: "?E \<and> ?S"
  then obtain ctx closure ex where st: "stages_pass H pp ctx closure ex" and
    r: "distinct (phase_sequence (pp_activation pp))"
      "mt_required (architecture_materiality (pp_activation pp)) \<longrightarrow> gar_declared (pp_kernels pp)"
      "live_ready (pp_pipeline pp) (pp_activation pp) (pp_kernels pp) (derived pp ctx) ctx" by blast
  from compile_tail_Inr [OF st ok r(1)] compile_prepared_tail [OF st] es r show ?L by auto
qed

lemma prepare_bindings:
  assumes "prepare_context_plan H src prov rq snap term given = Inr pp"
  shows "list_all binding_ok (pp_kernels pp)"
  using assms resolve_kernels_loop_ok
  by (fastforce simp: prepare_context_plan_def bindR_eq_Inr Let_def resolve_kernels_def)

section \<open>The identity of a context plan\<close>

text \<open>Every unknown a stage before the plan records has well-formed details.\<close>

definition wf_details :: "context_unknown list \<Rightarrow> bool" where
  "wf_details us \<longleftrightarrow> (\<forall>u \<in> set us. wf_json (details u))"

lemma wf_details_simps [simp]:
  "wf_details []" "wf_details (u # us) \<longleftrightarrow> wf_json (details u) \<and> wf_details us"
  "wf_details (us @ vs) \<longleftrightarrow> wf_details us \<and> wf_details vs"
  by (auto simp: wf_details_def)

lemma new_unknown_details [simp]: "details (new_unknown H rref key code det mat srcs) = det"
  by (simp add: new_unknown_def Let_def)

lemma supersession_details: "wf_details (snd (resolve_supersession H ms kind))"
  by (auto simp: resolve_supersession_def Let_def wf_details_def cycle_unknowns_def refused_unknown_def
      dangling_unknown_def split: prod.splits)

lemma apply_supersession_details: "wf_details (snd (apply_supersession H items))"
proof -
  have "wf_details (snd (fold (apply_step H) gs st))" if "wf_details (snd st)" for gs st
    using that
  proof (induction gs arbitrary: st)
    case (Cons km gs)
    have "wf_details (snd (apply_step H km st))"
      using Cons.prems supersession_details [of H "snd km" "fst km"]
      by (auto simp: apply_step_def split: option.splits prod.splits)
    thus ?case using Cons.IH by simp
  qed simp
  thus ?thesis by (simp add: apply_supersession_def)
qed

lemma resolve_by_authority_details:
  "wf_json (JObj ((''context_kind'', JStr k) # res_details (resolve_by_authority rs)))"
  by (simp add: resolve_by_authority_def Let_def settled_def contested_def)

lemma resolve_group_details:
  "wf_json (JObj ((''context_kind'', JStr k) # res_details (resolve_group kind rs)))"
  using resolve_by_authority_details [of k]
  by (cases kind) (simp_all add: resolve_group_def resolve_law_def Let_def settled_def contested_def del: wf_json.simps(3)
      split: if_splits, simp_all)

lemma discover_group_ok:
  assumes "wf_json (JObj ((''context_kind'', JStr (fst (fst kg))) # res_details (snd kg)))"
    and "distinct (map fst (ds_digests st)) \<and> wf_details (ds_unknowns st)"
  shows "distinct (map fst (ds_digests (discover_group H kg st))) \<and> wf_details (ds_unknowns (discover_group H kg st))"
proof -
  have "distinct (map fst (ds_digests (fold (discover_item H) its st))) \<and>
      wf_details (ds_unknowns (fold (discover_item H) its st))" for its
    using assms(2)
    by (induction its arbitrary: st) (simp_all add: discover_item_def distinct_dict_put)
  thus ?thesis using assms by (simp add: discover_group_def Let_def)
qed

lemma dedupe_details: "wf_details us \<Longrightarrow> wf_details (dedupe_unknowns us)"
proof -
  assume wf: "wf_details us"
  define m where "m = fold (\<lambda>u m. m(unknown_id u \<mapsto> u)) us Map.empty"
  have "(\<forall>k u. d k = Some u \<longrightarrow> wf_json (details u)) \<Longrightarrow>
      (\<forall>k u. fold (\<lambda>u m. m(unknown_id u \<mapsto> u)) us d k = Some u \<longrightarrow> wf_json (details u)) \<and>
      (\<forall>k \<in> unknown_id ` set us \<union> dom d. k \<in> dom (fold (\<lambda>u m. m(unknown_id u \<mapsto> u)) us d))" for d
    using wf
  proof (induction us arbitrary: d)
    case (Cons a us)
    have "\<forall>k u. (d(unknown_id a \<mapsto> a)) k = Some u \<longrightarrow> wf_json (details u)"
      using Cons.prems by auto
    from Cons.IH [OF this] Cons.prems(2) show ?case by auto
  qed auto
  from this [of Map.empty] have m: "\<forall>k u. m k = Some u \<longrightarrow> wf_json (details u)" "\<forall>k \<in> unknown_id ` set us. k \<in> dom m"
    by (auto simp: m_def)
  show "wf_details (dedupe_unknowns us)"
    using m by (fastforce simp: dedupe_unknowns_def wf_details_def Let_def m_def [symmetric])
qed

lemma compile_discovery_ok:
  "distinct (map fst (disc_item_digests (compile_discovery H scope cands))) \<and>
   wf_details (disc_unknowns (compile_discovery H scope cands))"
proof -
  let ?view = "resolve_eligible H cands (\<lambda>it. discovery_eligible it (eligible_refs scope))"
  let ?st = "fold (discover_group H) (discovery_groups ?view)
    \<lparr>ds_routing = [], ds_signals = [], ds_digests = [], ds_unknowns = supersession_unknowns ?view\<rparr>"
  have g: "wf_json (JObj ((''context_kind'', JStr (fst (fst kg))) # res_details (snd kg)))"
    if "kg \<in> set (discovery_groups ?view)" for kg
    using that resolve_group_details
    by (auto simp: discovery_groups_def sorted_groups_def resolve_eligible_def resolve_candidates_def
        split: prod.splits simp del: wf_json.simps)
  have "wf_details (supersession_unknowns ?view)"
    using apply_supersession_details
    by (simp add: resolve_eligible_def resolve_candidates_def split_beta)
  moreover have "distinct (map fst (ds_digests (fold (discover_group H) gs st))) \<and> wf_details (ds_unknowns (fold (discover_group H) gs st))"
    if "\<forall>kg \<in> set gs. wf_json (JObj ((''context_kind'', JStr (fst (fst kg))) # res_details (snd kg)))"
      "distinct (map fst (ds_digests st)) \<and> wf_details (ds_unknowns st)" for gs st
    using that
  proof (induction gs arbitrary: st)
    case (Cons kg gs)
    from Cons.IH [OF _ discover_group_ok [OF _ Cons.prems(2)]] Cons.prems(1) show ?case
      by (simp del: wf_json.simps)
  qed simp
  ultimately have "distinct (map fst (ds_digests ?st)) \<and> wf_details (ds_unknowns ?st)" using g by simp
  moreover have "distinct (map fst (sort_key fst (ds_digests ?st)))"
    using calculation by (metis (no_types, lifting) distinct_map distinct_sort set_sort)
  ultimately show ?thesis
    using dedupe_details by (simp add: compile_discovery_def Let_def make_discovery_def)
qed

lemma compile_scope_details: "compile_task_scope H i = Inr s \<Longrightarrow> wf_details (sc_unknowns s)"
  by (auto simp: compile_task_scope_def make_scope_def canon_scope_def Let_def split: if_splits)

lemma prepare_Inr:
  assumes "prepare_context_plan H src prov rq snap term given = Inr pp"
  shows "\<exists>ident rd pd. make_context_plan H
       \<lparr>context_plan_id = [], cp_scope = pp_scope pp, cp_discovery = pp_discovery pp,
        cp_requirement_plan = pp_requirement_plan pp,
        active_kernel_digests = fold (\<lambda>b. dict_put (kb_source_ref b) (kb_source_digest b)) (pp_kernels pp) [],
        pack_manifest_digest = manifest_digest prov, routing_rules_digest = rd,
        pipeline_digest = pd, cp_compiler = ident\<rparr> = Inr (pp_context_plan pp)"
    and "compile_task_scope H (pp_intent pp) = Inr (pp_scope pp)"
    and "pp_discovery pp = compile_discovery H (pp_scope pp) (pp_resolution pp)"
  using assms unfolding prepare_context_plan_def Let_def bindR_eq_Inr by (clarsimp, blast, clarsimp+)

lemma prepare_plan_ok:
  assumes "prepare_context_plan H src prov rq snap term given = Inr pp"
  shows "context_plan_ok (pp_context_plan pp)"
    and "context_plan_id (pp_context_plan pp) = expected_context_plan_id H (pp_context_plan pp)"
proof -
  note sc = prepare_Inr(2,3) [OF assms]
  obtain p where p: "make_context_plan H p = Inr (pp_context_plan pp)"
    "cp_scope p = pp_scope pp" "cp_discovery p = pp_discovery pp"
    "active_kernel_digests p = fold (\<lambda>b. dict_put (kb_source_ref b) (kb_source_digest b)) (pp_kernels pp) []"
    using prepare_Inr(1) [OF assms] by force
  note q = make_context_plan_Inr [OF p(1)]
  show "context_plan_id (pp_context_plan pp) = expected_context_plan_id H (pp_context_plan pp)" by (rule q(4))
  have "distinct (map fst (fold (\<lambda>b. dict_put (kb_source_ref b) (kb_source_digest b)) (pp_kernels pp) []))"
    by (rule distinct_fold_put) simp
  thus "context_plan_ok (pp_context_plan pp)"
    using compile_discovery_ok compile_scope_details [OF sc(1)] unfolding q(1)
    by (simp add: context_plan_ok_def p sc(2) wf_details_def)
qed

lemma compile_prepared_bound:
  "compile_prepared H prov (Some e) pp =
     (if context_plan_id (pp_context_plan pp) = e then compile_prepared H prov None pp
      else Some (Inl (InvalidValueError ''context planning inputs changed; replan required'' ''expected_context_plan_id'')))"
  by (simp add: compile_prepared_def)

section \<open>Properties\<close>

text \<open>C1: A compilation always returns. Of everything it checks after planning, what can still reject is
  exactly: a context plan other than the expected one, a context compilation, closure, obligation
  ownership or execution that fails, a plan that repeats a phase, a required architecture without a Global
  Architect binding that declares outputs, and the seven conditions of liveness. The conservation checks
  between representations, the graph's obligation list and the rest of packet validation never reject.\<close>

theorem compile_succeeds_exactly:
  assumes "list_all binding_ok (pp_kernels pp)"
  shows "(\<exists>r. compile_prepared H prov expected pp = Some r) \<and>
    ((\<exists>rc. compile_prepared H prov expected pp = Some (Inr rc)) \<longleftrightarrow>
      (expected = None \<or> expected = Some (context_plan_id (pp_context_plan pp))) \<and>
      (\<exists>ctx closure ex. stages_pass H pp ctx closure ex \<and>
         distinct (phase_sequence (pp_activation pp)) \<and>
         (mt_required (architecture_materiality (pp_activation pp)) \<longrightarrow> gar_declared (pp_kernels pp)) \<and>
         live_ready (pp_pipeline pp) (pp_activation pp) (pp_kernels pp) (derived pp ctx) ctx))"
  by (rule conjI [OF compile_prepared_returns compile_prepared_Inr [OF assms]])

definition sample_context_plan :: context_plan where
  "sample_context_plan = \<lparr>context_plan_id = ''p'', cp_scope = sample_scope [], cp_discovery = sample_discovery [],
     cp_requirement_plan = sample_plan [], active_kernel_digests = [], pack_manifest_digest = ''0'',
     routing_rules_digest = ''0'', pipeline_digest = ''0'',
     cp_compiler = \<lparr>package_version = ''0.1.0'', semantics_version = ''1.3.0''\<rparr>\<rparr>"

definition sample_prepared :: prepared_plan where
  "sample_prepared = \<lparr>pp_intent = sample_intent ''m'', pp_snapshot = empty_snapshot, pp_scope = sample_scope [],
     pp_resolution = [], pp_discovery = sample_discovery [], pp_activation = live_plan,
     pp_kernels = [live_kernel], pp_pipeline = live_source, pp_requirement_plan = sample_plan [],
     pp_context_plan = sample_context_plan\<rparr>"

definition sample_provenance :: pack_provenance where
  "sample_provenance = snd (unverified_root ''/repo'' ''m'' None)"

lemma sample_stages:
  "case compile_context (\<lambda>_. ''0'') (sample_intent ''m'') (sample_scope []) [] (sample_discovery []) (sample_plan [])
      live_plan [live_kernel] PACKAGE_VERSION AUTHORITY_ORDER of
     Inl _ \<Rightarrow> False
   | Inr ctx \<Rightarrow> (let obs = derived sample_prepared ctx in
       list_all snd (closure_ladder (\<lambda>_. ''0'') ctx (sample_plan []) [] [live_kernel])
       \<and> validate_obligations obs (owner_registry live_plan [live_kernel]) ''intent'' = Inr ()
       \<and> (case compile_execution ((sample_intent ''m'')\<lparr>int_obligations := obs\<rparr>) live_plan [live_kernel] live_source
             obs ctx ''0'' of Inl _ \<Rightarrow> False | Inr _ \<Rightarrow> True)
       \<and> live_ready live_source live_plan [live_kernel] obs ctx)"
  by code_simp

theorem compile_succeeds_exactly_witness:
  "\<exists>rc. compile_prepared (\<lambda>_. ''0'') sample_provenance (Some ''p'') sample_prepared = Some (Inr rc)"
proof -
  have ok: "list_all binding_ok (pp_kernels sample_prepared)" by code_simp
  obtain ctx ex where c: "compile_context (\<lambda>_. ''0'') (sample_intent ''m'') (sample_scope []) [] (sample_discovery [])
      (sample_plan []) live_plan [live_kernel] PACKAGE_VERSION AUTHORITY_ORDER = Inr ctx"
    and r: "list_all snd (closure_ladder (\<lambda>_. ''0'') ctx (sample_plan []) [] [live_kernel])"
      "validate_obligations (derived sample_prepared ctx) (owner_registry live_plan [live_kernel]) ''intent'' = Inr ()"
      "compile_execution ((sample_intent ''m'')\<lparr>int_obligations := derived sample_prepared ctx\<rparr>) live_plan [live_kernel]
         live_source (derived sample_prepared ctx) ctx ''0'' = Inr ex"
      "live_ready live_source live_plan [live_kernel] (derived sample_prepared ctx) ctx"
    using sample_stages by (auto simp: Let_def split: sum.splits)
  have p: "pp_intent sample_prepared = sample_intent ''m''" "pp_scope sample_prepared = sample_scope []"
    "pp_resolution sample_prepared = []" "pp_discovery sample_prepared = sample_discovery []"
    "pp_requirement_plan sample_prepared = sample_plan []" "pp_activation sample_prepared = live_plan"
    "pp_kernels sample_prepared = [live_kernel]" "pp_pipeline sample_prepared = live_source"
    "context_plan_id (pp_context_plan sample_prepared) = ''p''"
    by (simp_all add: sample_prepared_def sample_context_plan_def)
  have "stages_pass (\<lambda>_. ''0'') sample_prepared ctx \<lparr>closure_checks = CONTEXT_CHECKS, closure_passed = True\<rparr> ex"
    unfolding stages_pass_def p using c r by (simp add: validate_closure_Inr sha256_digest_def)
  moreover have "distinct (phase_sequence live_plan)" "\<not> mt_required (architecture_materiality live_plan)"
    by code_simp+
  ultimately show ?thesis
    using compile_succeeds_exactly [OF ok, of "\<lambda>_. ''0''" sample_provenance "Some ''p''"] r(4) unfolding p by blast
qed

text \<open>C29: Planning and compiling run one prefix. A compilation bound to a context plan is the unbound
  compilation when planning its inputs again gives that identity, and asks for replanning when it does not; and two
  inputs have one identity exactly when their plans agree, scope, discovery, requirements, kernel digests, sources
  and compiler included, up to key order or a hash collision.\<close>

theorem compile_bound_to_plan:
  assumes p: "plan_pack H src prov rq snap = Inr p" and q: "plan_pack H src' prov' rq' snap' = Inr q"
  shows "compile_pack H src' prov' rq' snap' (Some (context_plan_id p)) =
      (if context_plan_id q = context_plan_id p then compile_pack H src' prov' rq' snap' None
       else Some (Inl (InvalidValueError ''context planning inputs changed; replan required'' ''expected_context_plan_id'')))
    \<and> ((context_plan_id q = context_plan_id p
          \<longleftrightarrow> normalize_json (context_plan_payload q) = normalize_json (context_plan_payload p))
       \<or> hash_collision H (context_plan_payload q) (context_plan_payload p))"
proof -
  obtain pp where pp: "prepare_context_plan H src prov rq snap False None = Inr pp" "p = pp_context_plan pp"
    using p by (auto simp: plan_pack_def bindR_eq_Inr)
  obtain qq where qq: "prepare_context_plan H src' prov' rq' snap' False None = Inr qq" "q = pp_context_plan qq"
    using q by (auto simp: plan_pack_def bindR_eq_Inr)
  note ok = prepare_plan_ok [OF pp(1), folded pp(2)] prepare_plan_ok [OF qq(1), folded qq(2)]
  have "normalize_json (context_plan_payload q) = normalize_json (context_plan_payload p)
      \<or> hash_collision H (context_plan_payload q) (context_plan_payload p)" if "context_plan_id q = context_plan_id p"
    using context_plan_ident.ident_inj [OF ok(3,1)] that ok(2,4) by simp
  moreover have "context_plan_id q = context_plan_id p"
    if "normalize_json (context_plan_payload q) = normalize_json (context_plan_payload p)"
    using context_plan_ident.ident_cong [OF that] ok(2,4) by simp
  moreover have "compile_pack H src' prov' rq' snap' (Some (context_plan_id p)) =
      (if context_plan_id q = context_plan_id p then compile_pack H src' prov' rq' snap' None
       else Some (Inl (InvalidValueError ''context planning inputs changed; replan required'' ''expected_context_plan_id'')))"
    by (simp add: compile_pack_def compile_spine_def qq compile_prepared_bound)
  ultimately show ?thesis by blast
qed

definition plain_rules :: routing_rules where
  "plain_rules = \<lparr>task_routes = [(''pack_review'', \<lparr>rr_phases = [], rr_optional_phases = [], rr_task_kernels = [],
       rr_match_any = []\<rparr>)], allowed_when_any = [], mission_signal_tokens = [], context_signal_map = [],
     adds_phase = None, lenses = []\<rparr>"

definition sample_sources :: pack_sources where
  "sample_sources = \<lparr>ps_access = sample_pack, ps_rules = (\<lambda>_. Inr plain_rules),
     ps_pipeline = (\<lambda>_. Inr \<lparr>px_terminal_contract = None, px_pipeline_id = None, px_phases = []\<rparr>)\<rparr>"

lemma plain_activation:
  "\<exists>p. plan_activation i plain_rules [] disc False = Inr p \<and> active_kernels p = [] \<and> matched_route p = ''pack_review''"
proof -
  have m: "\<not> mt_required (assess_materiality i plain_rules disc)"
    by (simp add: mt_required_iff plain_rules_def signal_fires_def mission_fires_def list_ex_iff)
  obtain n r c where r: "match_route (intent_contract.mission i) plain_rules = Inr (n, r, c)" "n = ''pack_review''"
      "rr_task_kernels r = []" "rr_phases r = []" "rr_optional_phases r = []"
    by (simp add: match_route_def plain_rules_def match_step_eq route_score_def)
  thus ?thesis
    by (simp add: plan_activation_def Let_def r m candidate_phases_def order_phases_def base_active_def
        insert_task_kernels_def insert_index_def)
qed

lemma plan_fields:
  assumes "plan_context H scope disc p kernels = Inr q" and "list_all binding_ok kernels"
  shows "plan_scope_digest q = scope_sha256 H scope" "plan_route q = matched_route p"
  using make_plan_Inr(5,6) [OF assms(1) [unfolded plan_context_built [OF assms(2)]]] by simp_all

lemma plain_prepare:
  assumes "read_source src RULES_REL = Inr rb" and "read_source src PIPELINE_REL = Inr pb"
    and "ps_rules src rb = Inr plain_rules"
    and "ps_pipeline src pb = Inr \<lparr>px_terminal_contract = None, px_pipeline_id = None, px_phases = []\<rparr>"
  shows "\<exists>pp. prepare_context_plan (\<lambda>bytes. bytes) src prov (default_request ''review'' t) None False None = Inr pp"
proof -
  let ?H = "\<lambda>bytes :: string. bytes"
  obtain i where i: "derive_intent (default_request ''review'' t) = Inr i"
    by (simp add: derive_intent_def make_intent_def default_request_def Let_def)
  obtain scope where sc: "compile_task_scope ?H i = Inr scope" using compile_task_scope_total by blast
  define disc where disc: "disc = compile_discovery ?H scope (resolve_snapshot empty_snapshot)"
  obtain p where p: "plan_activation i plain_rules [] disc False = Inr p" "active_kernels p = []" "matched_route p = ''pack_review''"
    using plain_activation by blast
  have none: "list_all binding_ok []" by simp
  have "\<not> hash_collision ?H a b" for a b by (simp add: hash_collision_def)
  then obtain q where q: "plan_context ?H scope disc p [] = Inr q"
    using plan_context_or_collision [OF none, of ?H scope disc p] by blast
  have nb: "non_blank ''pack_review''" by code_simp
  have d: "disc_scope_digest disc = scope_sha256 ?H scope"
    by (simp add: disc compile_discovery_def Let_def make_discovery_def)
  have "canonical_byte_size empty_snapshot \<le> 1000" "item_count empty_snapshot = 0" by code_simp+
  hence pre: "preflight_snapshot empty_snapshot = Inr ()"
    by (simp add: preflight_snapshot_def SNAPSHOT_MAX_ITEMS_def SNAPSHOT_MAX_BYTES_def)
  have "\<not> isl (make_compiler_identity PACKAGE_VERSION CONTEXT_COMPILER_SEMANTICS_VERSION)" by code_simp
  then obtain ident where ident: "make_compiler_identity PACKAGE_VERSION CONTEXT_COMPILER_SEMANTICS_VERSION = Inr ident"
    by (cases "make_compiler_identity PACKAGE_VERSION CONTEXT_COMPILER_SEMANTICS_VERSION") auto
  thus ?thesis
    using plan_fields [OF q none] p(3)
    by (simp add: prepare_context_plan_def assms Let_def
        i sc pre p ident nb phase_order_def resolve_kernels_def q make_context_plan_def d disc [symmetric])
qed

lemma sample_plans:
  "\<exists>q. plan_pack (\<lambda>bytes. bytes) sample_sources prov (default_request ''review'' t) None = Inr q"
proof -
  have "\<exists>pp. prepare_context_plan (\<lambda>bytes. bytes) sample_sources prov (default_request ''review'' t) None False None = Inr pp"
    by (rule plain_prepare) (simp_all add: read_source_def sample_sources_def sample_pack_def)
  thus ?thesis by (auto simp: plan_pack_def)
qed

lemma plan_pack_manifest: "plan_pack H src prov rq snap = Inr q \<Longrightarrow> pack_manifest_digest q = manifest_digest prov"
  unfolding plan_pack_def bindR_eq_Inr
proof -
  assume "\<exists>pp. prepare_context_plan H src prov rq snap False None = Inr pp \<and> Inr (pp_context_plan pp) = Inr q"
  then obtain pp where pp: "prepare_context_plan H src prov rq snap False None = Inr pp" "q = pp_context_plan pp" by auto
  from prepare_Inr(1) [OF pp(1)] obtain p where "make_context_plan H p = Inr q" "pack_manifest_digest p = manifest_digest prov"
    unfolding pp(2) by force
  thus ?thesis using make_context_plan_Inr(1) by fastforce
qed

lemma manifest_moves_payload:
  assumes "normalize_json (context_plan_payload p) = normalize_json (context_plan_payload q)"
  shows "pack_manifest_digest p = pack_manifest_digest q"
proof -
  have "set (map (\<lambda>(k, v). (k, normalize_json v)) (case context_plan_payload p of JObj kvs \<Rightarrow> kvs | _ \<Rightarrow> []))
      \<subseteq> set (map (\<lambda>(k, v). (k, normalize_json v)) (case context_plan_payload q of JObj kvs \<Rightarrow> kvs | _ \<Rightarrow> []))"
    using assms by (simp add: context_plan_payload_def del: set_map)
  thus ?thesis by (simp add: context_plan_payload_def)
qed

theorem compile_bound_to_plan_witness:
  "\<exists>p q. plan_pack (\<lambda>bytes. bytes) sample_sources sample_provenance (default_request ''review'' ''t'') None = Inr p \<and>
     plan_pack (\<lambda>bytes. bytes) sample_sources (sample_provenance\<lparr>manifest_digest := ''other''\<rparr>)
       (default_request ''review'' ''t'') None = Inr q \<and>
     compile_pack (\<lambda>bytes. bytes) sample_sources (sample_provenance\<lparr>manifest_digest := ''other''\<rparr>)
       (default_request ''review'' ''t'') None (Some (context_plan_id p)) =
     Some (Inl (InvalidValueError ''context planning inputs changed; replan required'' ''expected_context_plan_id''))"
proof -
  obtain p q where p: "plan_pack (\<lambda>bytes. bytes) sample_sources sample_provenance (default_request ''review'' ''t'') None = Inr p"
    and q: "plan_pack (\<lambda>bytes. bytes) sample_sources (sample_provenance\<lparr>manifest_digest := ''other''\<rparr>)
       (default_request ''review'' ''t'') None = Inr q"
    using sample_plans by blast
  have "pack_manifest_digest q \<noteq> pack_manifest_digest p"
    using plan_pack_manifest [OF p] plan_pack_manifest [OF q]
    by (simp add: sample_provenance_def unverified_root_def UNVERIFIED_ROOT_MANIFEST_def)
  hence "context_plan_id q \<noteq> context_plan_id p"
    using compile_bound_to_plan [OF p q] manifest_moves_payload [of q p] by (auto simp: hash_collision_def)
  thus ?thesis using compile_bound_to_plan [OF p q] p q by auto
qed

end
