(* ===== verification/Pack.thy ===== *)
theory Pack
  imports Pipeline
begin

text \<open>
  The strict parsers (\<open>parsing/__init__.py\<close>) and the verified pack (\<open>pack/loader.py\<close>). The file system
  is a parameter: what a path resolves to, what is there, and its bytes. Loading and reading take
  a file system each, because files can change in between. \<open>json.loads\<close> and \<open>yaml.safe_load\<close> are parameters that
  return \<open>None\<close> on malformed text; a text is the UTF-8 bytes it was decoded from.
\<close>

section \<open>Strict parsing\<close>

fun as_mapping :: "string \<Rightarrow> string \<Rightarrow> json \<Rightarrow> json res" where
  "as_mapping msg source (JObj kvs) = Inr (JObj kvs)"
| "as_mapping msg source _ = Inl (StrictParseError ROOT_NOT_MAPPING msg source)"

definition load_json_mapping :: "(string \<Rightarrow> json option) \<Rightarrow> string \<Rightarrow> string \<Rightarrow> json res" where
  "load_json_mapping parse source text =
     (if \<not> non_blank text then Inl (StrictParseError EMPTY_DOCUMENT ''empty JSON document'' source)
      else case parse text of
        None \<Rightarrow> Inl (StrictParseError MALFORMED_JSON ''malformed JSON'' source)
      | Some v \<Rightarrow> as_mapping ''JSON root must be an object'' source v)"

definition load_yaml_mapping :: "(string \<Rightarrow> json option) \<Rightarrow> string \<Rightarrow> string \<Rightarrow> json res" where
  "load_yaml_mapping parse source text =
     (if \<not> non_blank text then Inl (StrictParseError EMPTY_DOCUMENT ''empty YAML document'' source)
      else case parse text of
        None \<Rightarrow> Inl (StrictParseError MALFORMED_YAML ''malformed YAML'' source)
      | Some v \<Rightarrow>
          if v = JNull then Inl (StrictParseError EMPTY_DOCUMENT ''empty YAML document'' source)
          else as_mapping ''YAML root must be a mapping'' source v)"

definition require_non_empty_plan :: "string \<Rightarrow> (string \<times> json) list \<Rightarrow> (string \<times> json) list res" where
  "require_non_empty_plan source plan =
     (if plan = [] then Inl (StrictParseError EMPTY_PLAN ''empty plans gain no authority'' source) else Inr plan)"

definition require_known_kernels :: "string \<Rightarrow> string list \<Rightarrow> string list \<Rightarrow> string list res" where
  "require_known_kernels source wanted_names available =
     (if filter (\<lambda>n. n \<notin> set available) wanted_names \<noteq> []
      then Inl (StrictParseError UNKNOWN_KERNEL ''unknown kernels never substitute'' source)
      else Inr wanted_names)"

section \<open>The file system\<close>

text \<open>
  \<open>fs_resolve\<close> is \<open>Path(p).expanduser().resolve()\<close>; the other three are asked of resolved
  paths.
\<close>

record file_system =
  fs_resolve :: "string \<Rightarrow> string"
  fs_is_dir :: "string \<Rightarrow> bool"
  fs_bytes :: "string \<Rightarrow> string option"

definition fs_is_file :: "file_system \<Rightarrow> string \<Rightarrow> bool" where
  "fs_is_file fs p \<longleftrightarrow> fs_bytes fs p \<noteq> None"

definition fs_exists :: "file_system \<Rightarrow> string \<Rightarrow> bool" where
  "fs_exists fs p \<longleftrightarrow> fs_is_file fs p \<or> fs_is_dir fs p"

definition read_bytes :: "file_system \<Rightarrow> string \<Rightarrow> string res" where
  "read_bytes fs p = (case fs_bytes fs p of Some b \<Rightarrow> Inr b | None \<Rightarrow> Inl PyOSError)"

definition under :: "string \<Rightarrow> string \<Rightarrow> string" where
  "under root rel = root @ ''/'' @ rel"

text \<open>\<open>candidate.relative_to(root)\<close> does not raise.\<close>

definition relative_to :: "string \<Rightarrow> string \<Rightarrow> bool" where
  "relative_to candidate root \<longleftrightarrow> take (length (path_parts root)) (path_parts candidate) = path_parts root"

definition rooted :: "string \<Rightarrow> bool" where
  "rooted rel \<longleftrightarrow> starts_with rel ''/'' \<or> starts_with rel [CHR 0x5C]"

definition confined_input_file :: "file_system \<Rightarrow> string \<Rightarrow> string \<Rightarrow> string res" where
  "confined_input_file fs path allow_root =
     (let candidate = fs_resolve fs path in
      if \<not> relative_to candidate (fs_resolve fs allow_root)
      then Inl (InvalidValueError ''input path escapes allow_root'' path)
      else if \<not> fs_is_file fs candidate then Inl (InvalidValueError ''input file missing'' candidate)
      else Inr candidate)"

definition load_yaml_file :: "(string \<Rightarrow> json option) \<Rightarrow> file_system \<Rightarrow> string \<Rightarrow> string \<Rightarrow> json res" where
  "load_yaml_file parse fs path allow_root =
     bindR (confined_input_file fs path allow_root) (\<lambda>resolved.
     bindR (read_bytes fs resolved) (load_yaml_mapping parse resolved))"

section \<open>The pack\<close>

record runtime_pack =
  rp_provenance :: pack_provenance
  rp_manifest :: "(string \<times> json) list"

definition resolve_in_pack :: "file_system \<Rightarrow> runtime_pack \<Rightarrow> string \<Rightarrow> string res" where
  "resolve_in_pack fs pack rel =
     (if rel = [] \<or> rooted rel then Inl (InvalidValueError ''absolute pack paths are forbidden'' rel)
      else
       (let root = pack_root (rp_provenance pack);
            candidate = fs_resolve fs (under root rel)
        in if \<not> relative_to candidate (fs_resolve fs root)
           then Inl (InvalidValueError ''path escapes pack root'' rel)
           else if \<not> fs_exists fs candidate then Inl (InvalidValueError ''pack path missing'' rel)
           else Inr candidate))"

definition read_verified :: "(string \<Rightarrow> string) \<Rightarrow> file_system \<Rightarrow> runtime_pack \<Rightarrow> string \<Rightarrow> string res" where
  "read_verified H fs pack rel =
     (case map_of (file_digests (rp_provenance pack)) rel of
        None \<Rightarrow> Inl (InvalidValueError ''pack file is not listed in the verified manifest'' rel)
      | Some expected \<Rightarrow>
          bindR (bindR (resolve_in_pack fs pack rel) (read_bytes fs)) (\<lambda>data.
            if H data \<noteq> expected
            then Inl (InvalidValueError ''pack file no longer matches its manifest digest (tamper detected)'' rel)
            else Inr data))"

definition safe_join :: "file_system \<Rightarrow> string \<Rightarrow> string \<Rightarrow> string res" where
  "safe_join fs root rel =
     (if rooted rel \<or> ''..'' \<in> set (path_parts rel) then Inl (InvalidValueError ''path escapes pack root'' rel)
      else
       (let candidate = fs_resolve fs (under root rel)
        in if \<not> relative_to candidate (fs_resolve fs root)
           then Inl (InvalidValueError ''path escapes pack root'' rel) else Inr candidate))"

definition sha256_file :: "(string \<Rightarrow> string) \<Rightarrow> file_system \<Rightarrow> string \<Rightarrow> string res" where
  "sha256_file H fs p = bindR (read_bytes fs p) (\<lambda>b. Inr (H b))"

definition entry_fields :: "json \<Rightarrow> (string \<times> string) res" where
  "entry_fields e = (case e of
     JObj kvs \<Rightarrow> (case (map_of kvs ''path'', map_of kvs ''sha256'') of
         (Some (JStr rel), Some (JStr expected)) \<Rightarrow> Inr (rel, expected)
       | _ \<Rightarrow> Inl (InvalidValueError ''manifest entry requires path+sha256'' ''files''))
   | _ \<Rightarrow> Inl (InvalidValueError ''manifest file entry must be object'' ''files''))"

text \<open>The loop over the entries, with the digests verified so far.\<close>

fun verify_entries ::
  "(string \<Rightarrow> string) \<Rightarrow> file_system \<Rightarrow> string \<Rightarrow> (string \<times> string) list \<Rightarrow> json list \<Rightarrow>
     (string \<times> string) list res" where
  "verify_entries H fs root digests [] = Inr digests"
| "verify_entries H fs root digests (e # es) =
     bindR (entry_fields e) (\<lambda>(rel, expected).
       if rel = ''MANIFEST.json'' then verify_entries H fs root digests es
       else bindR (safe_join fs root rel) (\<lambda>target.
         if \<not> fs_is_file fs target then Inl (InvalidValueError ''manifest lists missing file'' rel)
         else bindR (sha256_file H fs target) (\<lambda>actual.
           if actual \<noteq> lower expected \<and> actual \<noteq> expected
           then Inl (InvalidValueError ''manifest hash mismatch (tamper detected)'' rel)
           else verify_entries H fs root (dict_put rel actual digests) es)))"

definition load_pack ::
  "(string \<Rightarrow> string) \<Rightarrow> (string \<Rightarrow> json option) \<Rightarrow> file_system \<Rightarrow> string \<Rightarrow> runtime_pack res" where
  "load_pack H parse fs ref =
     (if \<not> non_blank ref then Inl (InvalidValueError ''explicit pack_ref required'' ''pack_ref'')
      else
       (let root = fs_resolve fs ref; manifest_path = under root ''MANIFEST.json'' in
        if \<not> fs_is_dir fs root then Inl (InvalidValueError ''pack_ref is not a directory'' root)
        else if \<not> fs_is_file fs manifest_path then Inl (InvalidValueError ''missing MANIFEST.json'' manifest_path)
        else bindR (read_bytes fs manifest_path) (\<lambda>text.
          case parse text of
            None \<Rightarrow> Inl (InvalidValueError ''manifest is not valid JSON'' manifest_path)
          | Some (JObj kvs) \<Rightarrow>
              (case map_of kvs ''files'' of
                 Some (JList files) \<Rightarrow>
                   bindR (verify_entries H fs root [] files) (\<lambda>digests.
                   bindR (sha256_file H fs manifest_path) (\<lambda>d.
                   Inr \<lparr>rp_provenance = \<lparr>pack_ref = root, pack_root = root, manifest_digest = d,
                       file_digests = digests\<rparr>, rp_manifest = kvs\<rparr>))
               | _ \<Rightarrow> Inl (InvalidValueError ''manifest.files must be a list'' ''files''))
          | Some _ \<Rightarrow> Inl (InvalidValueError ''manifest root must be an object'' manifest_path))))"

section \<open>What the compiler reads\<close>

text \<open>
  The access of the compiler to a loaded pack, and to a bare repository root. The two readers of a parsed
  document into the records of the planner are parameters.
\<close>

record document_readers =
  dr_yaml :: "string \<Rightarrow> json option"
  dr_rules :: "json \<Rightarrow> routing_rules res"
  dr_pipeline :: "json \<Rightarrow> pipeline_source res"

definition sources_over ::
  "document_readers \<Rightarrow> file_system \<Rightarrow> string \<Rightarrow> (string \<Rightarrow> string res) \<Rightarrow> pack_sources" where
  "sources_over dr fs root reader =
     \<lparr>ps_access =
        \<lparr>pk_outside = (\<lambda>rel. \<not> relative_to (fs_resolve fs (under (fs_resolve fs root) rel)) (fs_resolve fs root)),
         pk_target = (\<lambda>rel. fs_resolve fs (under (fs_resolve fs root) rel)),
         pk_is_file = (\<lambda>rel. fs_is_file fs (fs_resolve fs (under (fs_resolve fs root) rel))),
         pk_read = reader, pk_yaml = load_yaml_mapping (dr_yaml dr)\<rparr>,
      ps_rules = (\<lambda>data. bindR (load_yaml_mapping (dr_yaml dr) RULES_REL data) (dr_rules dr)),
      ps_pipeline = (\<lambda>data. bindR (load_yaml_mapping (dr_yaml dr) PIPELINE_REL data) (dr_pipeline dr))\<rparr>"

definition pack_sources_of ::
  "(string \<Rightarrow> string) \<Rightarrow> document_readers \<Rightarrow> file_system \<Rightarrow> runtime_pack \<Rightarrow> pack_sources" where
  "pack_sources_of H dr fs pack =
     sources_over dr fs (pack_root (rp_provenance pack)) (read_verified H fs pack)"

definition root_sources_of :: "document_readers \<Rightarrow> file_system \<Rightarrow> string \<Rightarrow> pack_sources" where
  "root_sources_of dr fs root = sources_over dr fs root
     (\<lambda>rel. bindR (confined_input_file fs (under root rel) root) (read_bytes fs))"

definition resolve_pack_root :: "file_system \<Rightarrow> string option \<Rightarrow> string res" where
  "resolve_pack_root fs root = (case root of
     None \<Rightarrow> Inl (InvalidValueError ''pack_root is required'' ''pack_root'')
   | Some r \<Rightarrow> if \<not> fs_exists fs (fs_resolve fs r)
              then Inl (InvalidValueError ''pack_root does not exist'' (fs_resolve fs r)) else Inr (fs_resolve fs r))"

text \<open>The service over a file system, with the local bundle repository.\<close>

definition local_service ::
  "(string \<Rightarrow> string) \<Rightarrow> (string \<Rightarrow> json option) \<Rightarrow> document_readers \<Rightarrow> file_system \<Rightarrow> service_env" where
  "local_service H parse dr fs =
     \<lparr>se_load = (\<lambda>ref. bindR (load_pack H parse fs ref) (\<lambda>pack.
         Inr (pack_sources_of H dr fs pack, rp_provenance pack))),
      se_resolve_root = (\<lambda>root. bindR (resolve_pack_root fs (Some root)) (\<lambda>_. Inr ()))\<rparr>"

section \<open>What a loaded pack guarantees\<close>

text \<open>An entry that was verified when the pack was loaded: confined, present, and hashed.\<close>

definition verified_entry :: "(string \<Rightarrow> string) \<Rightarrow> file_system \<Rightarrow> string \<Rightarrow> string \<times> string \<Rightarrow> bool" where
  "verified_entry H fs root e \<longleftrightarrow>
     \<not> rooted (fst e) \<and> ''..'' \<notin> set (path_parts (fst e)) \<and>
     relative_to (fs_resolve fs (under root (fst e))) (fs_resolve fs root) \<and>
     (\<exists>b. fs_bytes fs (fs_resolve fs (under root (fst e))) = Some b \<and> H b = snd e)"

lemma dict_put_mem: "e \<in> set (dict_put k v d) \<Longrightarrow> e = (k, v) \<or> e \<in> set d"
  by (induction k v d rule: dict_put.induct) (auto split: if_splits)

lemma safe_join_Inr:
  "safe_join fs root rel = Inr target \<Longrightarrow> target = fs_resolve fs (under root rel) \<and> \<not> rooted rel \<and>
     ''..'' \<notin> set (path_parts rel) \<and> relative_to (fs_resolve fs (under root rel)) (fs_resolve fs root)"
  unfolding safe_join_def Let_def by (simp split: if_splits)

lemma sha256_file_Inr: "sha256_file H fs p = Inr d \<Longrightarrow> \<exists>b. fs_bytes fs p = Some b \<and> H b = d"
  by (auto simp: sha256_file_def read_bytes_def split: option.splits)

lemma verify_entries_ok:
  "verify_entries H fs root digests es = Inr ds \<Longrightarrow> distinct (map fst digests) \<Longrightarrow>
     \<forall>e \<in> set digests. verified_entry H fs root e \<Longrightarrow>
     distinct (map fst ds) \<and> (\<forall>e \<in> set ds. verified_entry H fs root e)"
proof (induction es arbitrary: digests)
  case (Cons e es)
  from Cons.prems(1) obtain rel expected where e: "entry_fields e = Inr (rel, expected)"
    by (auto simp: bindR_eq_Inr)
  show ?case
  proof (cases "rel = ''MANIFEST.json''")
    case True
    show ?thesis by (rule Cons.IH) (use Cons.prems e True in simp_all)
  next
    case False
    from Cons.prems(1) obtain target where t: "safe_join fs root rel = Inr target"
      using e False by (auto simp: bindR_eq_Inr)
    with Cons.prems(1) e False obtain actual where a: "sha256_file H fs target = Inr actual"
        "verify_entries H fs root (dict_put rel actual digests) es = Inr ds"
      by (auto simp: bindR_eq_Inr split: if_splits)
    have v: "verified_entry H fs root (rel, actual)"
      using safe_join_Inr [OF t] sha256_file_Inr [OF a(1)] by (simp add: verified_entry_def)
    have "\<forall>x \<in> set (dict_put rel actual digests). verified_entry H fs root x"
      using Cons.prems(3) v by (auto dest!: dict_put_mem)
    from Cons.IH [OF a(2) distinct_dict_put [OF Cons.prems(2)] this] show ?thesis .
  qed
qed simp

lemma load_pack_Inr:
  assumes "load_pack H parse fs ref = Inr pack"
  shows "\<forall>e \<in> set (file_digests (rp_provenance pack)). verified_entry H fs (pack_root (rp_provenance pack)) e"
    and "distinct (map fst (file_digests (rp_provenance pack)))"
    and "\<exists>b. fs_bytes fs (under (pack_root (rp_provenance pack)) ''MANIFEST.json'') = Some b \<and>
      manifest_digest (rp_provenance pack) = H b"
    and "pack_root (rp_provenance pack) = fs_resolve fs ref"
proof -
  obtain ds d kvs files where p: "pack = \<lparr>rp_provenance = \<lparr>pack_ref = fs_resolve fs ref, pack_root = fs_resolve fs ref,
      manifest_digest = d, file_digests = ds\<rparr>, rp_manifest = kvs\<rparr>"
    and v: "verify_entries H fs (fs_resolve fs ref) [] files = Inr ds"
    and d: "sha256_file H fs (under (fs_resolve fs ref) ''MANIFEST.json'') = Inr d"
  proof -
    from assms obtain bytes0 where t: "(case parse bytes0 of
            None \<Rightarrow> Inl (InvalidValueError ''manifest is not valid JSON'' (under (fs_resolve fs ref) ''MANIFEST.json''))
          | Some (JObj kvs) \<Rightarrow>
              (case map_of kvs ''files'' of
                 Some (JList files) \<Rightarrow>
                   bindR (verify_entries H fs (fs_resolve fs ref) [] files) (\<lambda>digests.
                   bindR (sha256_file H fs (under (fs_resolve fs ref) ''MANIFEST.json'')) (\<lambda>d.
                   Inr \<lparr>rp_provenance = \<lparr>pack_ref = fs_resolve fs ref, pack_root = fs_resolve fs ref, manifest_digest = d,
                       file_digests = digests\<rparr>, rp_manifest = kvs\<rparr>))
               | _ \<Rightarrow> Inl (InvalidValueError ''manifest.files must be a list'' ''files''))
          | Some _ \<Rightarrow> Inl (InvalidValueError ''manifest root must be an object'' (under (fs_resolve fs ref) ''MANIFEST.json''))) = Inr pack"
      unfolding load_pack_def Let_def by (auto simp only: bindR_eq_Inr split: if_splits)
    then obtain kvs where k: "parse bytes0 = Some (JObj kvs)" by (simp split: option.splits json.splits)
    with t obtain files where f: "map_of kvs ''files'' = Some (JList files)" by (simp split: option.splits json.splits)
    from t show ?thesis unfolding k option.case json.case f by (auto simp: bindR_eq_Inr intro: that)
  qed
  show "\<forall>e \<in> set (file_digests (rp_provenance pack)). verified_entry H fs (pack_root (rp_provenance pack)) e"
    "distinct (map fst (file_digests (rp_provenance pack)))"
    using verify_entries_ok [OF v] by (simp_all add: p)
  show "\<exists>b. fs_bytes fs (under (pack_root (rp_provenance pack)) ''MANIFEST.json'') = Some b \<and>
      manifest_digest (rp_provenance pack) = H b"
    using sha256_file_Inr [OF d] by (auto simp: p)
  show "pack_root (rp_provenance pack) = fs_resolve fs ref" by (simp add: p)
qed

lemma read_verified_Inr:
  "read_verified H fs pack rel = Inr data \<Longrightarrow> map_of (file_digests (rp_provenance pack)) rel = Some (H data)"
  by (auto simp: read_verified_def bindR_eq_Inr split: option.splits if_splits)

lemma prepare_reads:
  assumes "prepare_context_plan H src prov rq snap term given = Inr pp"
  shows "\<exists>rules_bytes pipeline_bytes. read_source src RULES_REL = Inr rules_bytes \<and>
      read_source src PIPELINE_REL = Inr pipeline_bytes \<and>
      routing_rules_digest (pp_context_plan pp) = H rules_bytes \<and>
      pipeline_digest (pp_context_plan pp) = H pipeline_bytes \<and>
      pack_manifest_digest (pp_context_plan pp) = manifest_digest prov \<and>
      resolve_kernels H (ps_access src) (active_kernels (pp_activation pp)) = Inr (pp_kernels pp)"
proof -
  have "\<exists>rb pb ident. read_source src RULES_REL = Inr rb \<and> read_source src PIPELINE_REL = Inr pb \<and>
      resolve_kernels H (ps_access src) (active_kernels (pp_activation pp)) = Inr (pp_kernels pp) \<and>
      make_context_plan H
       \<lparr>context_plan_id = [], cp_scope = pp_scope pp, cp_discovery = pp_discovery pp,
        cp_requirement_plan = pp_requirement_plan pp,
        active_kernel_digests = fold (\<lambda>b. dict_put (kb_source_ref b) (kb_source_digest b)) (pp_kernels pp) [],
        pack_manifest_digest = manifest_digest prov, routing_rules_digest = H rb,
        pipeline_digest = H pb, cp_compiler = ident\<rparr> = Inr (pp_context_plan pp)"
    using assms unfolding prepare_context_plan_def Let_def bindR_eq_Inr by (clarsimp, blast)
  then obtain rb pb ident where r: "read_source src RULES_REL = Inr rb" "read_source src PIPELINE_REL = Inr pb"
      "resolve_kernels H (ps_access src) (active_kernels (pp_activation pp)) = Inr (pp_kernels pp)"
    and m: "make_context_plan H
       \<lparr>context_plan_id = [], cp_scope = pp_scope pp, cp_discovery = pp_discovery pp,
        cp_requirement_plan = pp_requirement_plan pp,
        active_kernel_digests = fold (\<lambda>b. dict_put (kb_source_ref b) (kb_source_digest b)) (pp_kernels pp) [],
        pack_manifest_digest = manifest_digest prov, routing_rules_digest = H rb,
        pipeline_digest = H pb, cp_compiler = ident\<rparr> = Inr (pp_context_plan pp)"
    by blast
  have "routing_rules_digest (pp_context_plan pp) = H rb" "pipeline_digest (pp_context_plan pp) = H pb"
    "pack_manifest_digest (pp_context_plan pp) = manifest_digest prov"
    unfolding make_context_plan_Inr(1) [OF m] by simp_all
  thus ?thesis using r by blast
qed

section \<open>Properties\<close>

text \<open>C30: A compilation over a loaded pack consumes verified bytes only, whatever happened to the files since:
  the rules, the pipeline and every kernel it planned with hash to the digest the manifest check recorded, and
  every recorded digest is that of the file that was there at loading, confined beneath the root.\<close>

theorem pack_compiles_verified_bytes:
  assumes load: "load_pack H parse fs ref = Inr pack"
    and prep: "prepare_context_plan H (pack_sources_of H dr later pack) (rp_provenance pack) rq snap term given = Inr pp"
  shows "map_of (file_digests (rp_provenance pack)) RULES_REL = Some (routing_rules_digest (pp_context_plan pp)) \<and>
    map_of (file_digests (rp_provenance pack)) PIPELINE_REL = Some (pipeline_digest (pp_context_plan pp)) \<and>
    (\<forall>b \<in> set (pp_kernels pp). map_of (file_digests (rp_provenance pack)) (kb_source_ref b) = Some (kb_source_digest b)) \<and>
    (\<forall>(rel, digest) \<in> set (file_digests (rp_provenance pack)).
       \<not> rooted rel \<and> ''..'' \<notin> set (path_parts rel) \<and>
       relative_to (fs_resolve fs (under (fs_resolve fs ref) rel)) (fs_resolve fs (fs_resolve fs ref)) \<and>
       (\<exists>bytes. fs_bytes fs (fs_resolve fs (under (fs_resolve fs ref) rel)) = Some bytes \<and> H bytes = digest)) \<and>
    (\<exists>bytes. fs_bytes fs (under (fs_resolve fs ref) ''MANIFEST.json'') = Some bytes \<and>
       pack_manifest_digest (pp_context_plan pp) = H bytes)"
proof -
  obtain rb pb where r: "read_source (pack_sources_of H dr later pack) RULES_REL = Inr rb"
      "read_source (pack_sources_of H dr later pack) PIPELINE_REL = Inr pb"
      "routing_rules_digest (pp_context_plan pp) = H rb" "pipeline_digest (pp_context_plan pp) = H pb"
      "pack_manifest_digest (pp_context_plan pp) = manifest_digest (rp_provenance pack)"
      "resolve_kernels H (ps_access (pack_sources_of H dr later pack)) (active_kernels (pp_activation pp)) = Inr (pp_kernels pp)"
    using prepare_reads [OF prep] by blast
  have pk: "pk_read (ps_access (pack_sources_of H dr later pack)) = read_verified H later pack"
    by (simp add: pack_sources_of_def sources_over_def)
  note src = read_verified_Inr [OF r(1) [unfolded read_source_def pk]] read_verified_Inr [OF r(2) [unfolded read_source_def pk]]
  have "map_of (file_digests (rp_provenance pack)) (kb_source_ref b) = Some (kb_source_digest b)"
    if b: "b \<in> set (pp_kernels pp)" for b
  proof -
    from resolve_kernels_loop_ok [OF r(6) [unfolded resolve_kernels_def]] b obtain data where
      "pk_read (ps_access (pack_sources_of H dr later pack)) (kb_source_ref b) = Inr data" "kb_source_digest b = H data"
      by blast
    thus ?thesis using read_verified_Inr [of H later pack] by (simp add: pk)
  qed
  hence kernels: "\<forall>b \<in> set (pp_kernels pp). map_of (file_digests (rp_provenance pack)) (kb_source_ref b) = Some (kb_source_digest b)"
    by blast
  note l = load_pack_Inr [OF load]
  have entries: "\<forall>(rel, digest) \<in> set (file_digests (rp_provenance pack)).
       \<not> rooted rel \<and> ''..'' \<notin> set (path_parts rel) \<and>
       relative_to (fs_resolve fs (under (fs_resolve fs ref) rel)) (fs_resolve fs (fs_resolve fs ref)) \<and>
       (\<exists>bytes. fs_bytes fs (fs_resolve fs (under (fs_resolve fs ref) rel)) = Some bytes \<and> H bytes = digest)"
    using l(1) unfolding l(4) verified_entry_def by (simp add: case_prod_unfold)
  show ?thesis using src kernels entries l(3) unfolding l(4) r(3-5) by blast
qed

definition sample_files :: file_system where
  "sample_files = \<lparr>fs_resolve = (\<lambda>p. p), fs_is_dir = (\<lambda>p. p = ''/p''),
     fs_bytes = map_of [(''/p/MANIFEST.json'', ''m''), (under ''/p'' RULES_REL, ''r''), (under ''/p'' PIPELINE_REL, ''q'')]\<rparr>"

definition sample_parse :: "string \<Rightarrow> json option" where
  "sample_parse t = (if t = ''m'' then Some (JObj [(''files'', JList
       [JObj [(''path'', JStr RULES_REL), (''sha256'', JStr ''R'')], JObj [(''path'', JStr PIPELINE_REL), (''sha256'', JStr ''q'')]])])
     else Some (JObj []))"

definition sample_readers :: document_readers where
  "sample_readers = \<lparr>dr_yaml = sample_parse, dr_rules = (\<lambda>_. Inr plain_rules),
     dr_pipeline = (\<lambda>_. Inr \<lparr>px_terminal_contract = None, px_pipeline_id = None, px_phases = []\<rparr>)\<rparr>"

definition sample_loaded :: runtime_pack where
  "sample_loaded = \<lparr>rp_provenance = \<lparr>pack_ref = ''/p'', pack_root = ''/p'', manifest_digest = ''m'',
       file_digests = [(RULES_REL, ''r''), (PIPELINE_REL, ''q'')]\<rparr>,
     rp_manifest = [(''files'', JList
       [JObj [(''path'', JStr RULES_REL), (''sha256'', JStr ''R'')], JObj [(''path'', JStr PIPELINE_REL), (''sha256'', JStr ''q'')]])]\<rparr>"

lemma sample_loads: "load_pack (\<lambda>bytes. bytes) sample_parse sample_files ''/p'' = Inr sample_loaded"
  by code_simp

text \<open>A tampered file is refused at the next read.\<close>

lemma sample_tampered:
  "read_verified (\<lambda>bytes. bytes) (sample_files\<lparr>fs_bytes := \<lambda>_. Some ''x''\<rparr>) sample_loaded RULES_REL =
     Inl (InvalidValueError ''pack file no longer matches its manifest digest (tamper detected)'' RULES_REL)"
  by code_simp

theorem pack_compiles_verified_bytes_witness:
  "\<exists>pp. prepare_context_plan (\<lambda>bytes. bytes) (pack_sources_of (\<lambda>bytes. bytes) sample_readers sample_files sample_loaded)
       (rp_provenance sample_loaded) (default_request ''review'' ''t'') None False None = Inr pp \<and>
     map_of (file_digests (rp_provenance sample_loaded)) RULES_REL = Some (routing_rules_digest (pp_context_plan pp))"
proof -
  let ?src = "pack_sources_of (\<lambda>bytes. bytes) sample_readers sample_files sample_loaded"
  have r: "read_source ?src RULES_REL = Inr ''r''" and q: "read_source ?src PIPELINE_REL = Inr ''q''" by code_simp+
  have n: "non_blank ''r''" "non_blank ''q''" by code_simp+
  have rules: "ps_rules ?src ''r'' = Inr plain_rules"
    and px: "ps_pipeline ?src ''q'' = Inr \<lparr>px_terminal_contract = None, px_pipeline_id = None, px_phases = []\<rparr>"
    by (simp_all add: pack_sources_of_def sources_over_def load_yaml_mapping_def sample_readers_def sample_parse_def n)
  obtain pp where "prepare_context_plan (\<lambda>bytes. bytes) ?src (rp_provenance sample_loaded)
      (default_request ''review'' ''t'') None False None = Inr pp"
    using plain_prepare [OF r q rules px] by blast
  thus ?thesis using pack_compiles_verified_bytes [OF sample_loads] by blast
qed

end
