(* ===== verification/Auth.thy ===== *)
theory Auth
  imports ContextClosure
begin

text \<open>
  Hosted authentication (\<open>mcp/auth.py\<close>): the configuration and its environment, the transport
  rule, discovery of the issuer's keys, and the verifier with the state it caches. What fetches a document,
  finds a signing key or decodes a token is outside the repository and a parameter; decoding is
  documented to check the signature, the issuer, the audience and the validity interval it is given.
\<close>

section \<open>Configuration\<close>

text \<open>\<open>HostedAuthConfigurationError\<close>, one constructor per place that raises it, and \<open>ValueError\<close> of a URL.\<close>

datatype auth_error =
    EmptyField string
  | NoAlgorithm
  | RefusedAlgorithm string
  | IncompleteConfiguration "string list"
  | RefusedTransport string string
  | NotAnObject string
  | IssuerMismatch string
  | NoJwksUri string
  | InvalidUrl

type_synonym 'a auth = "auth_error + 'a"

definition bindA :: "'a auth \<Rightarrow> ('a \<Rightarrow> 'b auth) \<Rightarrow> 'b auth" where
  "bindA m f = (case m of Inl e \<Rightarrow> Inl e | Inr x \<Rightarrow> f x)"

definition DEFAULT_ALGORITHMS :: "string list" where
  "DEFAULT_ALGORITHMS = [''RS256'', ''RS384'', ''RS512'', ''ES256'', ''ES384'', ''ES512'', ''PS256'', ''PS384'', ''PS512'', ''EdDSA'']"

definition FORBIDDEN_ALGORITHM_PREFIXES :: "string list" where
  "FORBIDDEN_ALGORITHM_PREFIXES = [''HS'', ''none'', ''NONE'']"

definition LOOPBACK_HOSTS :: "string list" where
  "LOOPBACK_HOSTS = [''127.0.0.1'', ''localhost'', ''::1'', ''[::1]'']"

definition OIDC_DISCOVERY_PATH :: string where
  "OIDC_DISCOVERY_PATH = ''/.well-known/openid-configuration''"

definition OAUTH_AS_DISCOVERY_PATH :: string where
  "OAUTH_AS_DISCOVERY_PATH = ''/.well-known/oauth-authorization-server''"

text \<open>
  \<open>urlparse(url).hostname\<close>: leading control characters and spaces, and every tab and line end, are dropped; after a
  scheme and two slashes the authority ends at the first slash, question mark or hash, and what follows its last
  at-sign is the host, in brackets or up to the first colon. Unbalanced brackets, text around them other than a port, and
  a bracketed name that is no IPv6 address raise; of the address the model only asks that it has a colon, which no
  other loopback name has.
\<close>

definition after_last :: "char \<Rightarrow> string \<Rightarrow> string" where
  "after_last c s = rev (takeWhile (\<lambda>x. x \<noteq> c) (rev s))"

definition is_scheme :: "string \<Rightarrow> bool" where
  "is_scheme s = (case s of [] \<Rightarrow> False | c # _ \<Rightarrow>
     char_nat (lower_char c) \<in> {97..122} \<and>
     list_all (\<lambda>x. char_nat (lower_char x) \<in> {97..122} \<or> char_nat x \<in> {48..57} \<or> x \<in> set ''+-.'') s)"

definition url_netloc :: "string \<Rightarrow> string" where
  "url_netloc url =
     (let u = filter (\<lambda>c. c \<noteq> CHR 9 \<and> c \<noteq> CHR 10 \<and> c \<noteq> CHR 13) (dropWhile (\<lambda>c. char_nat c \<le> 32) url);
          scheme = takeWhile (\<lambda>c. c \<noteq> CHR '':'') u;
          rest = (if CHR '':'' \<in> set u \<and> is_scheme scheme then drop (Suc (length scheme)) u else u)
      in if starts_with rest ''//'' then takeWhile (\<lambda>c. c \<notin> set ''/?#'') (drop 2 rest) else [])"

definition url_hostname :: "string \<Rightarrow> string auth" where
  "url_hostname url =
     (let netloc = url_netloc url; info = after_last CHR ''@'' netloc in
      if (CHR ''['' \<in> set netloc) \<noteq> (CHR '']'' \<in> set netloc) then Inl InvalidUrl
      else if CHR ''['' \<in> set info
      then (let inside = takeWhile (\<lambda>c. c \<noteq> CHR '']'') (tl info); port = drop (Suc (length inside)) (tl info) in
            if hd info \<noteq> CHR ''['' \<or> CHR '':'' \<notin> set inside \<or> (port \<noteq> [] \<and> hd port \<noteq> CHR '':'') then Inl InvalidUrl
            else Inr (lower inside))
      else Inr (lower (takeWhile (\<lambda>c. c \<noteq> CHR '':'') info)))"

definition require_secure_transport :: "string \<Rightarrow> string \<Rightarrow> unit auth" where
  "require_secure_transport url what =
     (if starts_with (lower url) ''https://'' then Inr ()
      else bindA (url_hostname url) (\<lambda>host.
        if starts_with (lower url) ''http://'' \<and> host \<in> set LOOPBACK_HOSTS then Inr ()
        else Inl (RefusedTransport what url)))"

definition split_csv :: "string option \<Rightarrow> string list" where
  "split_csv raw = (case raw of None \<Rightarrow> [] | Some s \<Rightarrow>
     map strip (filter (\<lambda>p. strip p \<noteq> []) (if s = [] then [] else split_on CHR '','' s)))"

record auth_config =
  ac_issuer :: string
  ac_audience :: string
  ac_resource_url :: string
  ac_jwks_uri :: "string option"
  ac_required_scopes :: "string list"
  ac_algorithms :: "string list"

definition forbidden_algorithm :: "string \<Rightarrow> bool" where
  "forbidden_algorithm alg \<longleftrightarrow> list_ex (\<lambda>p. starts_with alg p) FORBIDDEN_ALGORITHM_PREFIXES"

definition make_auth_config :: "auth_config \<Rightarrow> auth_config auth" where
  "make_auth_config c =
     (case find (\<lambda>f. \<not> non_blank (snd f)) [(''issuer'', ac_issuer c), (''audience'', ac_audience c),
         (''resource_url'', ac_resource_url c)] of
        Some f \<Rightarrow> Inl (EmptyField (fst f))
      | None \<Rightarrow>
          if ac_algorithms c = [] then Inl NoAlgorithm
          else case find forbidden_algorithm (ac_algorithms c) of
            Some alg \<Rightarrow> Inl (RefusedAlgorithm alg)
          | None \<Rightarrow> Inr c)"

definition env_value :: "(string \<Rightarrow> string option) \<Rightarrow> string \<Rightarrow> string" where
  "env_value env k = strip (case env k of None \<Rightarrow> [] | Some v \<Rightarrow> v)"

definition auth_from_env :: "(string \<Rightarrow> string option) \<Rightarrow> auth_config option auth" where
  "auth_from_env env =
     (let required = map (\<lambda>k. (k, env_value env k)) [''L9_OAUTH_ISSUER'', ''L9_OAUTH_AUDIENCE'', ''L9_MCP_RESOURCE_URL''];
          supplied = filter (\<lambda>kv. snd kv \<noteq> []) required;
          missing = filter (\<lambda>kv. snd kv = []) required
      in if supplied = [] then Inr None
         else if missing \<noteq> [] then Inl (IncompleteConfiguration (map fst missing))
         else
          (let algs = split_csv (env ''L9_OAUTH_ALGORITHMS''); uri = env_value env ''L9_OAUTH_JWKS_URI'' in
           bindA (make_auth_config
             \<lparr>ac_issuer = env_value env ''L9_OAUTH_ISSUER'', ac_audience = env_value env ''L9_OAUTH_AUDIENCE'',
              ac_resource_url = env_value env ''L9_MCP_RESOURCE_URL'',
              ac_jwks_uri = (if uri = [] then None else Some uri),
              ac_required_scopes = split_csv (env ''L9_OAUTH_REQUIRED_SCOPES''),
              ac_algorithms = (if algs = [] then DEFAULT_ALGORITHMS else algs)\<rparr>) (\<lambda>c. Inr (Some c))))"

section \<open>Discovery\<close>

text \<open>
  \<open>rstrip("/")\<close>; a fetch either fails, which is a miss, or gives a parsed document. The transport is checked before.
\<close>

definition rstrip_slash :: "string \<Rightarrow> string" where
  "rstrip_slash s = rev (dropWhile (\<lambda>c. c = CHR ''/'') (rev s))"

definition fetch_json :: "(string \<Rightarrow> json option) \<Rightarrow> string \<Rightarrow> (string \<times> json) list option auth" where
  "fetch_json fetch url =
     (case require_secure_transport url ''discovery'' of
        Inl InvalidUrl \<Rightarrow> Inr None
      | Inl e \<Rightarrow> Inl e
      | Inr _ \<Rightarrow> (case fetch url of
            None \<Rightarrow> Inr None
          | Some (JObj kvs) \<Rightarrow> Inr (Some kvs)
          | Some _ \<Rightarrow> Inl (NotAnObject url)))"

fun discover_loop :: "(string \<Rightarrow> json option) \<Rightarrow> string \<Rightarrow> string \<Rightarrow> string list \<Rightarrow> string auth" where
  "discover_loop fetch issuer base [] = Inl (NoJwksUri issuer)"
| "discover_loop fetch issuer base (path # paths) =
     bindA (fetch_json fetch (base @ path)) (\<lambda>doc. case doc of
       None \<Rightarrow> discover_loop fetch issuer base paths
     | Some kvs \<Rightarrow>
         if (case map_of kvs ''issuer'' of None \<Rightarrow> False
             | Some v \<Rightarrow> v \<noteq> JNull \<and> rstrip_slash (py_str v) \<noteq> base)
         then Inl (IssuerMismatch (base @ path))
         else (case map_of kvs ''jwks_uri'' of
             None \<Rightarrow> discover_loop fetch issuer base paths
           | Some v \<Rightarrow> if falsy v then discover_loop fetch issuer base paths else Inr (py_str v)))"

definition discover_jwks_uri :: "(string \<Rightarrow> json option) \<Rightarrow> string \<Rightarrow> string auth" where
  "discover_jwks_uri fetch issuer =
     discover_loop fetch issuer (rstrip_slash issuer) [OIDC_DISCOVERY_PATH, OAUTH_AS_DISCOVERY_PATH]"

section \<open>Claims\<close>

definition words :: "string \<Rightarrow> string list" where
  "words s = filter (\<lambda>w. w \<noteq> []) (split_on CHR '' '' s)"

definition scopes_from_claims :: "(string \<times> json) list \<Rightarrow> string list" where
  "scopes_from_claims claims = (case map_of claims ''scope'' of
     Some (JStr raw) \<Rightarrow> words raw
   | _ \<Rightarrow> (case map_of claims ''scp'' of
       Some (JStr scp) \<Rightarrow> words scp
     | Some (JList xs) \<Rightarrow> filter (\<lambda>w. w \<noteq> []) (map py_str xs)
     | _ \<Rightarrow> []))"

definition text_claim :: "(string \<times> json) list \<Rightarrow> string \<Rightarrow> string option" where
  "text_claim claims k = (case map_of claims k of Some (JStr s) \<Rightarrow> Some s | _ \<Rightarrow> None)"

definition client_id_from_claims :: "(string \<times> json) list \<Rightarrow> string option" where
  "client_id_from_claims claims =
     (case find (\<lambda>k. case text_claim claims k of Some s \<Rightarrow> s \<noteq> [] | None \<Rightarrow> False) [''client_id'', ''azp''] of
        Some k \<Rightarrow> text_claim claims k | None \<Rightarrow> None)"

section \<open>The verifier\<close>

text \<open>
  The network, the keys and the tokens: a fetch, a signing key of a key set for a token, and the claims of a token decoded under a
  key, the algorithms, the audience and the issuer; \<open>None\<close> is any exception. \<open>token_expiry\<close> is \<open>int(exp)\<close> for
  a number.
\<close>

record 'key token_world =
  tw_fetch :: "string \<Rightarrow> json option"
  tw_signing_key :: "string \<Rightarrow> string \<Rightarrow> 'key option"
  tw_decode :: "string \<Rightarrow> 'key \<Rightarrow> string list \<Rightarrow> string \<Rightarrow> string \<Rightarrow> (string \<times> json) list option"
  tw_expiry :: "json \<Rightarrow> int option"

record verifier =
  ver_config :: auth_config
  ver_uri :: "string option"
  ver_client :: "string option"

definition new_verifier :: "auth_config \<Rightarrow> verifier" where
  "new_verifier c = \<lparr>ver_config = c, ver_uri = ac_jwks_uri c, ver_client = None\<rparr>"

record access_token =
  at_token :: string
  at_client_id :: string
  at_scopes :: "string list"
  at_expires_at :: "int option"
  at_resource :: string
  at_subject :: "string option"
  at_claims :: "(string \<times> json) list"

text \<open>\<open>_client\<close>: the client is its key set; a discovered address stays known when the transport is then refused.\<close>

definition jwks_client :: "'key token_world \<Rightarrow> verifier \<Rightarrow> verifier \<times> string auth" where
  "jwks_client w v = (case ver_client v of
     Some uri \<Rightarrow> (v, Inr uri)
   | None \<Rightarrow>
       (case (case ver_uri v of Some uri \<Rightarrow> Inr uri
              | None \<Rightarrow> discover_jwks_uri (tw_fetch w) (ac_issuer (ver_config v))) of
          Inl e \<Rightarrow> (v, Inl e)
        | Inr uri \<Rightarrow>
            (let known = v\<lparr>ver_uri := Some uri\<rparr> in
             case require_secure_transport uri ''JWKS'' of
               Inl e \<Rightarrow> (known, Inl e)
             | Inr _ \<Rightarrow> (known\<lparr>ver_client := Some uri\<rparr>, Inr uri))))"

definition token_of_claims :: "'key token_world \<Rightarrow> auth_config \<Rightarrow> string \<Rightarrow> (string \<times> json) list \<Rightarrow> access_token option" where
  "token_of_claims w c token claims =
     (let client = client_id_from_claims claims; subject = text_claim claims ''sub'' in
      if client = None \<and> subject = None then None
      else Some \<lparr>at_token = token,
        at_client_id = (case client of Some i \<Rightarrow> i | None \<Rightarrow> the subject),
        at_scopes = scopes_from_claims claims,
        at_expires_at = (case map_of claims ''exp'' of None \<Rightarrow> None | Some e \<Rightarrow> tw_expiry w e),
        at_resource = ac_audience c,
        at_subject = subject,
        at_claims = [(''iss'', case map_of claims ''iss'' of None \<Rightarrow> JNull | Some i \<Rightarrow> i)]\<rparr>)"

definition verify_token :: "'key token_world \<Rightarrow> verifier \<Rightarrow> string \<Rightarrow> verifier \<times> access_token option" where
  "verify_token w v token =
     (case jwks_client w v of
        (v', Inl _) \<Rightarrow> (v', None)
      | (v', Inr uri) \<Rightarrow>
          (v', case tw_signing_key w uri token of
             None \<Rightarrow> None
           | Some key \<Rightarrow>
               (case tw_decode w token key (ac_algorithms (ver_config v)) (ac_audience (ver_config v))
                       (ac_issuer (ver_config v)) of
                  None \<Rightarrow> None
                | Some claims \<Rightarrow> token_of_claims w (ver_config v) token claims)))"

section \<open>What the verifier guarantees\<close>

lemma bindA_simps [simp]: "bindA (Inl e) f = Inl e" "bindA (Inr x) f = f x"
  by (simp_all add: bindA_def)

lemma bindA_Inr: "bindA m f = Inr y \<longleftrightarrow> (\<exists>x. m = Inr x \<and> f x = Inr y)"
  by (cases m) auto

lemma find_first: "find p xs = Some x \<Longrightarrow> x \<in> set xs \<and> p x"
  by (induction xs) (auto split: if_splits)

lemma make_auth_config_Inr:
  "make_auth_config c = Inr c' \<longleftrightarrow> c' = c \<and> non_blank (ac_issuer c) \<and> non_blank (ac_audience c) \<and>
     non_blank (ac_resource_url c) \<and> ac_algorithms c \<noteq> [] \<and> (\<forall>a \<in> set (ac_algorithms c). \<not> forbidden_algorithm a)"
  by (auto simp: make_auth_config_def find_None_iff split: option.splits dest!: find_first)

text \<open>A transport that key material may travel over: HTTPS, or plain HTTP to a loopback host.\<close>

definition secure_url :: "string \<Rightarrow> bool" where
  "secure_url url \<longleftrightarrow> starts_with (lower url) ''https://'' \<or>
     (starts_with (lower url) ''http://'' \<and> (\<exists>h. url_hostname url = Inr h \<and> h \<in> set LOOPBACK_HOSTS))"

lemma require_secure_transport_Inr: "require_secure_transport url what = Inr u \<longleftrightarrow> secure_url url"
  by (cases "url_hostname url") (auto simp: require_secure_transport_def secure_url_def)

lemma jwks_client_Inr:
  assumes "jwks_client w v = (v', Inr uri)"
  shows "ver_client v' = Some uri" "ver_config v' = ver_config v"
    "ver_client v = None \<Longrightarrow> secure_url uri" "ver_client v \<noteq> None \<Longrightarrow> ver_client v = Some uri"
  using assms unfolding jwks_client_def
  by (auto simp: Let_def require_secure_transport_Inr split: option.splits sum.splits)

lemma jwks_client_state:
  "ver_config (fst (jwks_client w v)) = ver_config v \<and>
   (ver_client (fst (jwks_client w v)) = ver_client v \<or> (\<exists>uri. ver_client (fst (jwks_client w v)) = Some uri \<and> secure_url uri))"
  unfolding jwks_client_def
  by (auto simp: Let_def require_secure_transport_Inr split: option.splits sum.splits)

text \<open>The verifier after any number of presented tokens: its client, once built, has a secure address.\<close>

definition verifier_ok :: "auth_config \<Rightarrow> verifier \<Rightarrow> bool" where
  "verifier_ok c v \<longleftrightarrow> ver_config v = c \<and> (\<forall>uri. ver_client v = Some uri \<longrightarrow> secure_url uri)"

lemma verify_token_state: "fst (verify_token w v token) = fst (jwks_client w v)"
  by (simp add: verify_token_def split: prod.splits sum.splits)

lemma verifier_ok_step: "verifier_ok c v \<Longrightarrow> verifier_ok c (fst (verify_token w v token))"
  using jwks_client_state [of w v] unfolding verify_token_state verifier_ok_def by auto

definition present :: "(string \<times> 'key token_world) list \<Rightarrow> verifier \<Rightarrow> verifier" where
  "present ts v = fold (\<lambda>(token, w) v. fst (verify_token w v token)) ts v"

lemma present_ok: "verifier_ok c v \<Longrightarrow> verifier_ok c (present ts v)"
  unfolding present_def by (induction ts arbitrary: v) (auto simp: case_prod_unfold intro: verifier_ok_step)

lemma new_verifier_ok: "verifier_ok c (new_verifier c)"
  by (simp add: verifier_ok_def new_verifier_def)

text \<open>The environment: configured, off, or an error; the other three variables alone switch nothing on.\<close>

lemma auth_from_env_off:
  "auth_from_env env = Inr None \<longleftrightarrow>
     env_value env ''L9_OAUTH_ISSUER'' = [] \<and> env_value env ''L9_OAUTH_AUDIENCE'' = [] \<and> env_value env ''L9_MCP_RESOURCE_URL'' = []"
  by (auto simp: auth_from_env_def Let_def bindA_Inr)

lemma auth_from_env_on:
  assumes "auth_from_env env = Inr (Some c)"
  shows "ac_issuer c = env_value env ''L9_OAUTH_ISSUER''" "ac_audience c = env_value env ''L9_OAUTH_AUDIENCE''"
    "non_blank (ac_issuer c)" "non_blank (ac_audience c)" "non_blank (ac_resource_url c)"
    "\<forall>a \<in> set (ac_algorithms c). \<not> forbidden_algorithm a"
proof -
  obtain uri scopes algs where "make_auth_config
     \<lparr>ac_issuer = env_value env ''L9_OAUTH_ISSUER'', ac_audience = env_value env ''L9_OAUTH_AUDIENCE'',
      ac_resource_url = env_value env ''L9_MCP_RESOURCE_URL'', ac_jwks_uri = uri, ac_required_scopes = scopes,
      ac_algorithms = algs\<rparr> = Inr c"
    using assms unfolding auth_from_env_def Let_def bindA_Inr by (simp only: bindA_Inr sum.inject sum.distinct option.inject simp_thms ex_simps split: if_splits, blast+)
  thus "ac_issuer c = env_value env ''L9_OAUTH_ISSUER''" "ac_audience c = env_value env ''L9_OAUTH_AUDIENCE''"
    "non_blank (ac_issuer c)" "non_blank (ac_audience c)" "non_blank (ac_resource_url c)"
    "\<forall>a \<in> set (ac_algorithms c). \<not> forbidden_algorithm a"
    unfolding make_auth_config_Inr by simp_all
qed

lemma token_of_claims_Some:
  assumes "token_of_claims w c token claims = Some t"
  shows "at_token t = token" "at_resource t = ac_audience c" "at_subject t = text_claim claims ''sub''"
    "Some (at_client_id t) = (case client_id_from_claims claims of Some i \<Rightarrow> Some i | None \<Rightarrow> text_claim claims ''sub'')"
    "at_scopes t = scopes_from_claims claims"
  using assms by (auto simp: token_of_claims_def Let_def split: if_splits option.splits)

lemma client_id_non_empty: "client_id_from_claims claims = Some i \<Longrightarrow> i \<noteq> []"
proof -
  assume i: "client_id_from_claims claims = Some i"
  then obtain k where k: "find (\<lambda>k. case text_claim claims k of Some s \<Rightarrow> s \<noteq> [] | None \<Rightarrow> False) [''client_id'', ''azp''] = Some k"
    "text_claim claims k = Some i"
    unfolding client_id_from_claims_def by (simp split: option.splits)
  from find_first [OF k(1)] k(2) show "i \<noteq> []" by simp
qed

section \<open>Properties\<close>

text \<open>C40: However many tokens were presented before, a token is accepted exactly when a key set at a secure address
  has a key for it, it decodes under that key with the configured asymmetric algorithms, audience and issuer, and
  its claims name a client or a subject; the identity is the client, else the authorized party, else the
  subject, and it is empty exactly when the subject claim is the empty string and no client is named.\<close>

theorem tokens_accepted_exactly:
  fixes w :: "'key token_world" and ts :: "(string \<times> 'key token_world) list"
  assumes "make_auth_config c = Inr c"
  shows "(\<forall>a \<in> set (ac_algorithms c). \<not> forbidden_algorithm a) \<and>
    (case snd (verify_token w (present ts (new_verifier c)) token) of
       Some t \<Rightarrow>
         (\<exists>uri key claims. snd (jwks_client w (present ts (new_verifier c))) = Inr uri \<and> secure_url uri \<and>
            tw_signing_key w uri token = Some key \<and>
            tw_decode w token key (ac_algorithms c) (ac_audience c) (ac_issuer c) = Some claims \<and>
            at_token t = token \<and> at_resource t = ac_audience c \<and> at_scopes t = scopes_from_claims claims \<and>
            at_subject t = text_claim claims ''sub'' \<and>
            Some (at_client_id t) = (case client_id_from_claims claims of Some i \<Rightarrow> Some i | None \<Rightarrow> text_claim claims ''sub'') \<and>
            (at_client_id t = [] \<longleftrightarrow> client_id_from_claims claims = None \<and> text_claim claims ''sub'' = Some []))
     | None \<Rightarrow>
         (\<forall>uri key claims. snd (jwks_client w (present ts (new_verifier c))) = Inr uri \<and>
            tw_signing_key w uri token = Some key \<and>
            tw_decode w token key (ac_algorithms c) (ac_audience c) (ac_issuer c) = Some claims \<longrightarrow>
            client_id_from_claims claims = None \<and> text_claim claims ''sub'' = None))"
proof -
  let ?v = "present ts (new_verifier c)"
  have ok: "verifier_ok c ?v" by (rule present_ok [OF new_verifier_ok])
  hence conf: "ver_config ?v = c" by (simp add: verifier_ok_def)
  obtain v' r where j: "jwks_client w ?v = (v', r)" by (cases "jwks_client w ?v")
  have secure: "secure_url uri" if "r = Inr uri" for uri
    using jwks_client_Inr [of w ?v v' uri] ok j that by (auto simp: verifier_ok_def)
  have "case snd (verify_token w ?v token) of
       Some t \<Rightarrow>
         (\<exists>uri key claims. r = Inr uri \<and> secure_url uri \<and>
            tw_signing_key w uri token = Some key \<and>
            tw_decode w token key (ac_algorithms c) (ac_audience c) (ac_issuer c) = Some claims \<and>
            token_of_claims w c token claims = Some t)
     | None \<Rightarrow>
         (\<forall>uri key claims. r = Inr uri \<and>
            tw_signing_key w uri token = Some key \<and>
            tw_decode w token key (ac_algorithms c) (ac_audience c) (ac_issuer c) = Some claims \<longrightarrow>
            token_of_claims w c token claims = None)"
    using secure by (auto simp: verify_token_def j conf split: sum.splits option.splits)
  moreover have "token_of_claims w c token claims = None \<longleftrightarrow> client_id_from_claims claims = None \<and> text_claim claims ''sub'' = None"
    for claims by (simp add: token_of_claims_def Let_def)
  moreover have "at_client_id t = [] \<longleftrightarrow> client_id_from_claims claims = None \<and> text_claim claims ''sub'' = Some []"
    if "token_of_claims w c token claims = Some t" for claims t
    using token_of_claims_Some(4) [OF that] client_id_non_empty by (auto split: option.splits)
  moreover note token_of_claims_Some
  ultimately have "case snd (verify_token w ?v token) of
       Some t \<Rightarrow>
         (\<exists>uri key claims. r = Inr uri \<and> secure_url uri \<and>
            tw_signing_key w uri token = Some key \<and>
            tw_decode w token key (ac_algorithms c) (ac_audience c) (ac_issuer c) = Some claims \<and>
            at_token t = token \<and> at_resource t = ac_audience c \<and> at_scopes t = scopes_from_claims claims \<and>
            at_subject t = text_claim claims ''sub'' \<and>
            Some (at_client_id t) = (case client_id_from_claims claims of Some i \<Rightarrow> Some i | None \<Rightarrow> text_claim claims ''sub'') \<and>
            (at_client_id t = [] \<longleftrightarrow> client_id_from_claims claims = None \<and> text_claim claims ''sub'' = Some []))
     | None \<Rightarrow>
         (\<forall>uri key claims. r = Inr uri \<and>
            tw_signing_key w uri token = Some key \<and>
            tw_decode w token key (ac_algorithms c) (ac_audience c) (ac_issuer c) = Some claims \<longrightarrow>
            client_id_from_claims claims = None \<and> text_claim claims ''sub'' = None)"
    by (cases "snd (verify_token w ?v token)") (simp, fastforce)
  moreover have "\<forall>a \<in> set (ac_algorithms c). \<not> forbidden_algorithm a" using assms by (simp add: make_auth_config_Inr)
  ultimately show ?thesis unfolding j snd_conv by blast
qed

definition sample_auth :: auth_config where
  "sample_auth = \<lparr>ac_issuer = ''https://issuer'', ac_audience = ''mcp'', ac_resource_url = ''https://mcp'',
     ac_jwks_uri = Some ''https://issuer/jwks'', ac_required_scopes = [], ac_algorithms = [''RS256'']\<rparr>"

text \<open>A world whose tokens are their own subject claim.\<close>

definition sample_world :: "unit token_world" where
  "sample_world = \<lparr>tw_fetch = (\<lambda>_. None), tw_signing_key = (\<lambda>_ _. Some ()),
     tw_decode = (\<lambda>token _ _ _ _. Some [(''sub'', JStr token)]), tw_expiry = (\<lambda>_. None)\<rparr>"

theorem tokens_accepted_exactly_witness:
  "make_auth_config sample_auth = Inr sample_auth \<and>
   (\<exists>t. snd (verify_token sample_world (new_verifier sample_auth) []) = Some t \<and> at_client_id t = [])"
proof -
  have m: "make_auth_config sample_auth = Inr sample_auth" by code_simp
  have "case snd (verify_token sample_world (new_verifier sample_auth) []) of None \<Rightarrow> False | Some t \<Rightarrow> at_client_id t = []"
    by code_simp
  then obtain t where t: "snd (verify_token sample_world (new_verifier sample_auth) []) = Some t"
    by (cases "snd (verify_token sample_world (new_verifier sample_auth) [])") auto
  have none: "present ([] :: (string \<times> unit token_world) list) (new_verifier sample_auth) = new_verifier sample_auth" by (simp add: present_def)
  from tokens_accepted_exactly [OF m, of sample_world "[] :: (string \<times> unit token_world) list" "[]"] t none
  have "\<exists>claims. tw_decode sample_world [] () (ac_algorithms sample_auth) (ac_audience sample_auth) (ac_issuer sample_auth) = Some claims
      \<and> (at_client_id t = [] \<longleftrightarrow> client_id_from_claims claims = None \<and> text_claim claims ''sub'' = Some [])"
    by auto
  hence "at_client_id t = []" by (auto simp: sample_world_def client_id_from_claims_def text_claim_def)
  thus ?thesis using m t by blast
qed

end
