(* ===== verification/RunStore.thy ===== *)
theory RunStore
  imports Canonical
begin

text \<open>
  The bounded run store of the MCP server (\<open>mcp/run_store.py\<close>). The state is the dictionary of
  records in insertion order and the recency list; each operation is one critical section of the lock, so
  an interleaving of callers is a sequence of operations. The clock and the random run identity are inputs
  of the operation that reads them; instants are exact numbers. An operation returns the state it
  leaves behind also when it raises.

  The store refines a plain list of records, least recently used first: \<open>recency\<close> is the abstraction and the
  \<open>a_\<close> operations are the specification.
\<close>

section \<open>State and operations\<close>

record run_record =
  run_id :: string
  principal :: string
  created_at :: int
  expires_at :: int
  payload :: json
  resource_uri :: string

record run_store =
  max_entries :: int
  ttl_seconds :: int
  rs_items :: "(string \<times> run_record) list"
  rs_order :: "string list"

definition empty_store :: "int \<Rightarrow> int \<Rightarrow> run_store" where
  "empty_store m ttl = \<lparr>max_entries = m, ttl_seconds = ttl, rs_items = [], rs_order = []\<rparr>"

text \<open>\<open>d[k] = v\<close> and \<open>d.pop(k, None)\<close> on an insertion-ordered dictionary.\<close>

fun dict_set :: "string \<Rightarrow> 'v \<Rightarrow> (string \<times> 'v) list \<Rightarrow> (string \<times> 'v) list" where
  "dict_set k v [] = [(k, v)]"
| "dict_set k v ((k', v') # d) = (if k' = k then (k, v) # d else (k', v') # dict_set k v d)"

definition dict_pop :: "string \<Rightarrow> (string \<times> 'v) list \<Rightarrow> (string \<times> 'v) list" where
  "dict_pop k d = filter (\<lambda>kv. fst kv \<noteq> k) d"

fun evict_expired :: "string list \<Rightarrow> run_store \<Rightarrow> run_store" where
  "evict_expired [] st = st"
| "evict_expired (rid # rids) st =
     evict_expired rids (st\<lparr>rs_items := dict_pop rid (rs_items st), rs_order := remove1 rid (rs_order st)\<rparr>)"

definition evict_locked :: "int \<Rightarrow> run_store \<Rightarrow> run_store" where
  "evict_locked now st =
     evict_expired (map fst (filter (\<lambda>kv. expires_at (snd kv) \<le> now) (rs_items st))) st"

definition principal_of :: "run_store \<Rightarrow> string \<Rightarrow> string res" where
  "principal_of st rid = (case map_of (rs_items st) rid of None \<Rightarrow> Inl (PyKeyError rid) | Some r \<Rightarrow> Inr (principal r))"

definition occurrences :: "string list \<Rightarrow> string \<Rightarrow> nat" where
  "occurrences ps p = length (filter (\<lambda>q. q = p) ps)"

text \<open>\<open>max\<close> over the counts of a non-empty order, then the first run of a principal with that count.\<close>

definition capacity_victim :: "run_store \<Rightarrow> string res" where
  "capacity_victim st =
     bindR (mapR (principal_of st) (rs_order st)) (\<lambda>ps.
       if ps = [] then Inl (PyValueError ''max() iterable argument is empty'')
       else (let most = Max (occurrences ps ` set ps)
             in case find (\<lambda>rp. occurrences ps (snd rp) = most) (zip (rs_order st) ps) of
                  None \<Rightarrow> Inl (PyValueError ''StopIteration'') | Some rp \<Rightarrow> Inr (fst rp)))"

function trim :: "run_store \<Rightarrow> run_store \<times> unit res" where
  "trim st =
     (if int (length (rs_order st)) \<le> max_entries st then (st, Inr ())
      else case capacity_victim st of
        Inl e \<Rightarrow> (st, Inl e)
      | Inr old \<Rightarrow>
          if old \<notin> set (rs_order st) then (st, Inl (PyValueError ''list.remove(x): x not in list''))
          else trim (st\<lparr>rs_items := dict_pop old (rs_items st), rs_order := remove1 old (rs_order st)\<rparr>))"
  by pat_completeness auto
termination
proof (relation "measure (\<lambda>st. length (rs_order st))", simp)
  fix st old
  assume "\<not> old \<notin> set (rs_order st)"
  thus "(st\<lparr>rs_items := dict_pop old (rs_items st), rs_order := remove1 old (rs_order st)\<rparr>, st)
      \<in> measure (\<lambda>st. length (rs_order st))"
    using length_pos_if_in_set [of old "rs_order st"] by (simp add: length_remove1)
qed

declare trim.simps [simp del]

definition new_record :: "run_store \<Rightarrow> int \<Rightarrow> string \<Rightarrow> string \<Rightarrow> json \<Rightarrow> run_record" where
  "new_record st now rid who data = \<lparr>run_id = rid, principal = who, created_at = now,
     expires_at = now + ttl_seconds st, payload = data, resource_uri = ''l9://runs/'' @ rid\<rparr>"

definition create_run :: "run_store \<Rightarrow> int \<Rightarrow> string \<Rightarrow> string \<Rightarrow> json \<Rightarrow> run_store \<times> run_record res" where
  "create_run st now rid who data =
     (let r = new_record st now rid who data;
          ev = evict_locked now st;
          added = ev\<lparr>rs_items := dict_set rid r (rs_items ev), rs_order := rs_order ev @ [rid]\<rparr>;
          (st', outcome) = trim added
      in (st', bindR outcome (\<lambda>_. Inr r)))"

definition get_run :: "run_store \<Rightarrow> int \<Rightarrow> string \<Rightarrow> string \<Rightarrow> run_store \<times> run_record option res" where
  "get_run st now rid who =
     (let ev = evict_locked now st
      in case map_of (rs_items ev) rid of
           None \<Rightarrow> (ev, Inr None)
         | Some r \<Rightarrow>
             if principal r \<noteq> who then (ev, Inr None)
             else if rid \<notin> set (rs_order ev) then (ev, Inl (PyValueError ''list.remove(x): x not in list''))
             else (ev\<lparr>rs_order := remove1 rid (rs_order ev) @ [rid]\<rparr>, Inr (Some r)))"

definition require_run :: "run_store \<Rightarrow> int \<Rightarrow> string \<Rightarrow> string \<Rightarrow> run_store \<times> run_record res" where
  "require_run st now rid who =
     (let (st', found) = get_run st now rid who
      in (st', bindR found (\<lambda>r. case r of None \<Rightarrow> Inl (RunNotFoundError rid) | Some x \<Rightarrow> Inr x)))"

definition list_for_principal :: "run_store \<Rightarrow> int \<Rightarrow> string \<Rightarrow> run_store \<times> run_record list res" where
  "list_for_principal st now who =
     (let ev = evict_locked now st
      in (ev, bindR (mapR (\<lambda>rid. case map_of (rs_items ev) rid of
                None \<Rightarrow> Inl (PyKeyError rid) | Some r \<Rightarrow> Inr r) (rs_order ev)) (\<lambda>rs.
              Inr (filter (\<lambda>r. principal r = who) rs))))"

section \<open>The specification: records by recency\<close>

definition a_evict :: "int \<Rightarrow> run_record list \<Rightarrow> run_record list" where
  "a_evict now rs = filter (\<lambda>r. now < expires_at r) rs"

definition holdings :: "run_record list \<Rightarrow> string \<Rightarrow> nat" where
  "holdings rs who = length (filter (\<lambda>r. principal r = who) rs)"

text \<open>A largest holder, and what remains when the least recent run of one is dropped.\<close>

definition largest :: "run_record list \<Rightarrow> run_record \<Rightarrow> bool" where
  "largest rs r \<longleftrightarrow> list_all (\<lambda>q. holdings rs (principal q) \<le> holdings rs (principal r)) rs"

fun drop_first :: "('a \<Rightarrow> bool) \<Rightarrow> 'a list \<Rightarrow> 'a list" where
  "drop_first p [] = []"
| "drop_first p (x # xs) = (if p x then xs else x # drop_first p xs)"

definition a_trim :: "int \<Rightarrow> run_record list \<Rightarrow> run_record list" where
  "a_trim m rs = (if int (length rs) \<le> m then rs else drop_first (largest rs) rs)"

definition a_create :: "int \<Rightarrow> int \<Rightarrow> run_record \<Rightarrow> run_record list \<Rightarrow> run_record list" where
  "a_create m now r rs = a_trim m (a_evict now rs @ [r])"

definition a_get :: "int \<Rightarrow> string \<Rightarrow> string \<Rightarrow> run_record list \<Rightarrow> run_record list \<times> run_record option" where
  "a_get now rid who rs =
     (let live = a_evict now rs
      in case find (\<lambda>r. run_id r = rid \<and> principal r = who) live of
           None \<Rightarrow> (live, None)
         | Some r \<Rightarrow> (filter (\<lambda>q. run_id q \<noteq> rid) live @ [r], Some r))"

definition recency :: "run_store \<Rightarrow> run_record list" where
  "recency st = map (\<lambda>rid. the (map_of (rs_items st) rid)) (rs_order st)"

text \<open>The invariant of the concrete state.\<close>

definition store_ok :: "run_store \<Rightarrow> bool" where
  "store_ok st \<longleftrightarrow> distinct (map fst (rs_items st)) \<and> distinct (rs_order st) \<and>
     set (rs_order st) = fst ` set (rs_items st) \<and> list_all (\<lambda>kv. run_id (snd kv) = fst kv) (rs_items st)"

section \<open>The state after each operation\<close>

lemma dict_set_keys: "fst ` set (dict_set k v d) = insert k (fst ` set d)"
  by (induction k v d rule: dict_set.induct) auto

lemma dict_set_distinct: "distinct (map fst d) \<Longrightarrow> distinct (map fst (dict_set k v d))"
  by (induction k v d rule: dict_set.induct) (auto simp: dict_set_keys)

lemma map_of_dict_set [simp]: "map_of (dict_set k v d) = (map_of d)(k \<mapsto> v)"
  by (induction k v d rule: dict_set.induct) auto

lemma dict_set_mem: "kv \<in> set (dict_set k v d) \<Longrightarrow> kv = (k, v) \<or> kv \<in> set d"
  by (induction k v d rule: dict_set.induct) (auto split: if_splits)

lemma map_of_dict_pop [simp]: "map_of (dict_pop k d) = (map_of d)(k := None)"
  by (induction d) (auto simp: dict_pop_def)

lemma dict_pop_keys: "fst ` set (dict_pop k d) = fst ` set d - {k}"
  by (auto simp: dict_pop_def)

lemma dict_pop_distinct: "distinct (map fst d) \<Longrightarrow> distinct (map fst (dict_pop k d))"
  by (induction d) (auto simp: dict_pop_def)

text \<open>One removal keeps the invariant and drops the record from the recency list.\<close>

definition drop_run :: "string \<Rightarrow> run_store \<Rightarrow> run_store" where
  "drop_run rid st = st\<lparr>rs_items := dict_pop rid (rs_items st), rs_order := remove1 rid (rs_order st)\<rparr>"

lemma drop_run_ok: "store_ok st \<Longrightarrow> store_ok (drop_run rid st)"
  by (auto simp: store_ok_def drop_run_def dict_pop_keys dict_pop_distinct list_all_iff) (auto simp: dict_pop_def)

lemma recency_id:
  assumes "store_ok st" and "rid \<in> set (rs_order st)"
  shows "\<exists>r. map_of (rs_items st) rid = Some r \<and> run_id r = rid"
proof -
  have "rid \<in> fst ` set (rs_items st)" using assms by (simp add: store_ok_def)
  then obtain r where r: "map_of (rs_items st) rid = Some r"
    by (cases "map_of (rs_items st) rid") (auto simp: map_of_eq_None_iff)
  thus ?thesis using assms(1) map_of_SomeD [OF r] by (auto simp: store_ok_def list_all_iff)
qed

lemma recency_ids: "store_ok st \<Longrightarrow> map run_id (recency st) = rs_order st"
proof -
  assume ok: "store_ok st"
  have "run_id (the (map_of (rs_items st) rid)) = rid" if "rid \<in> set (rs_order st)" for rid
    using recency_id [OF ok that] by auto
  thus ?thesis by (simp add: recency_def map_idI)
qed

lemma recency_drop: "store_ok st \<Longrightarrow> recency (drop_run rid st) = filter (\<lambda>r. run_id r \<noteq> rid) (recency st)"
proof -
  assume ok: "store_ok st"
  have d: "distinct (rs_order st)" using ok by (simp add: store_ok_def)
  have "recency (drop_run rid st) = map (\<lambda>x. the (map_of (rs_items st) x)) (filter (\<lambda>x. x \<noteq> rid) (rs_order st))"
    using d by (auto simp: recency_def drop_run_def distinct_remove1_removeAll removeAll_filter_not_eq
        intro!: map_cong filter_cong)
  also have "filter (\<lambda>x. x \<noteq> rid) (rs_order st) =
      filter (\<lambda>x. run_id (the (map_of (rs_items st) x)) \<noteq> rid) (rs_order st)"
    by (rule filter_cong [OF refl]) (use recency_id [OF ok] in fastforce)
  also have "map (\<lambda>x. the (map_of (rs_items st) x)) \<dots> = filter (\<lambda>r. run_id r \<noteq> rid) (recency st)"
    by (simp add: recency_def filter_map comp_def)
  finally show ?thesis .
qed

lemma evict_expired_fold: "evict_expired rids st = fold drop_run rids st"
  by (induction rids st rule: evict_expired.induct) (simp_all add: drop_run_def)

lemma drop_runs:
  "store_ok st \<Longrightarrow> store_ok (fold drop_run rids st) \<and>
     recency (fold drop_run rids st) = filter (\<lambda>r. run_id r \<notin> set rids) (recency st)"
proof (induction rids arbitrary: st)
  case (Cons rid rids)
  have "store_ok (drop_run rid st)" by (rule drop_run_ok [OF Cons.prems])
  from Cons.IH [OF this] recency_drop [OF Cons.prems]
  show ?case by (auto intro!: filter_cong)
qed simp

lemma recency_mem:
  assumes ok: "store_ok st"
  shows "r \<in> set (recency st) \<longleftrightarrow> (run_id r, r) \<in> set (rs_items st)"
proof
  assume "r \<in> set (recency st)"
  then obtain rid where rid: "rid \<in> set (rs_order st)" "r = the (map_of (rs_items st) rid)"
    by (auto simp: recency_def)
  from recency_id [OF ok rid(1)] rid(2) have "map_of (rs_items st) (run_id r) = Some r" by auto
  thus "(run_id r, r) \<in> set (rs_items st)" by (rule map_of_SomeD)
next
  assume r: "(run_id r, r) \<in> set (rs_items st)"
  hence "map_of (rs_items st) (run_id r) = Some r" using ok by (simp add: store_ok_def)
  moreover have "run_id r \<in> set (rs_order st)" using r ok by (force simp: store_ok_def)
  ultimately show "r \<in> set (recency st)" by (force simp: recency_def)
qed

lemma evict_locked_spec:
  assumes ok: "store_ok st"
  shows "store_ok (evict_locked now st)" and "recency (evict_locked now st) = a_evict now (recency st)"
proof -
  let ?rids = "map fst (filter (\<lambda>kv. expires_at (snd kv) \<le> now) (rs_items st))"
  show "store_ok (evict_locked now st)"
    unfolding evict_locked_def evict_expired_fold using drop_runs [OF ok] by blast
  have "run_id r \<notin> set ?rids \<longleftrightarrow> now < expires_at r" if r: "r \<in> set (recency st)" for r
  proof -
    have mem: "(run_id r, r) \<in> set (rs_items st)" using r recency_mem [OF ok] by blast
    have uniq: "r' = r" if "(run_id r, r') \<in> set (rs_items st)" for r'
      using mem that ok by (metis eq_key_imp_eq_value store_ok_def)
    have "run_id r \<in> set ?rids \<longleftrightarrow> (\<exists>r'. (run_id r, r') \<in> set (rs_items st) \<and> expires_at r' \<le> now)"
      by (auto simp: image_iff)
    also have "\<dots> \<longleftrightarrow> expires_at r \<le> now" using mem uniq by blast
    finally show ?thesis by auto
  qed
  thus "recency (evict_locked now st) = a_evict now (recency st)"
    unfolding evict_locked_def evict_expired_fold a_evict_def using drop_runs [OF ok, of ?rids]
    by (simp cong: filter_cong)
qed

lemma evict_params [simp]:
  "max_entries (evict_locked now st) = max_entries st" "ttl_seconds (evict_locked now st) = ttl_seconds st"
proof -
  have "max_entries (fold drop_run rids st) = max_entries st \<and> ttl_seconds (fold drop_run rids st) = ttl_seconds st" for rids
    by (induction rids arbitrary: st) (simp_all add: drop_run_def)
  thus "max_entries (evict_locked now st) = max_entries st" "ttl_seconds (evict_locked now st) = ttl_seconds st"
    by (simp_all add: evict_locked_def evict_expired_fold)
qed

section \<open>The capacity victim\<close>

lemma find_map: "find p (map f xs) = map_option f (find (p \<circ> f) xs)"
  by (induction xs) auto

lemma holdings_occurrences: "occurrences (map principal rs) p = holdings rs p"
  by (simp add: occurrences_def holdings_def filter_map comp_def)

lemma largest_iff:
  assumes "r \<in> set rs"
  shows "largest rs r \<longleftrightarrow> holdings rs (principal r) = Max (holdings rs ` principal ` set rs)"
proof -
  let ?M = "Max (holdings rs ` principal ` set rs)"
  have le: "holdings rs (principal q) \<le> ?M" if "q \<in> set rs" for q using that by (intro Max_ge) auto
  have mem: "?M \<in> holdings rs ` principal ` set rs" using assms by (intro Max_in) auto
  show ?thesis
  proof
    assume "largest rs r"
    hence "?M \<le> holdings rs (principal r)" using mem by (auto simp: largest_def list_all_iff)
    thus "holdings rs (principal r) = ?M" using le [OF assms] by simp
  next
    assume "holdings rs (principal r) = ?M"
    thus "largest rs r" using le by (auto simp: largest_def list_all_iff)
  qed
qed

lemma largest_exists: "rs \<noteq> [] \<Longrightarrow> \<exists>v. find (largest rs) rs = Some v"
proof -
  assume "rs \<noteq> []"
  hence "Max (holdings rs ` principal ` set rs) \<in> holdings rs ` principal ` set rs" by (intro Max_in) auto
  then obtain r where r: "r \<in> set rs" "holdings rs (principal r) = Max (holdings rs ` principal ` set rs)" by auto
  have "find (largest rs) rs \<noteq> None" unfolding find_None_iff using largest_iff [OF r(1)] r by blast
  thus ?thesis by blast
qed

lemma capacity_victim_spec:
  assumes ok: "store_ok st"
  shows "capacity_victim st = (case find (largest (recency st)) (recency st) of
     None \<Rightarrow> Inl (PyValueError ''max() iterable argument is empty'') | Some v \<Rightarrow> Inr (run_id v))"
proof -
  let ?rs = "recency st"
  have "mapR (principal_of st) (rs_order st) = Inr (map principal ?rs)"
    unfolding recency_def map_map
    by (rule mapR_total) (use recency_id [OF ok] in \<open>fastforce simp: principal_of_def\<close>)
  hence v: "capacity_victim st = (if ?rs = [] then Inl (PyValueError ''max() iterable argument is empty'')
      else (let most = Max (holdings ?rs ` principal ` set ?rs)
            in case find (\<lambda>rp. holdings ?rs (snd rp) = most) (zip (rs_order st) (map principal ?rs)) of
                 None \<Rightarrow> Inl (PyValueError ''StopIteration'') | Some rp \<Rightarrow> Inr (fst rp)))"
    by (simp add: capacity_victim_def holdings_occurrences)
  have z: "zip (rs_order st) (map principal ?rs) = map (\<lambda>r. (run_id r, principal r)) ?rs"
    unfolding recency_ids [OF ok, symmetric] by (simp add: zip_map_map zip_same_conv_map)
  have f: "find ((\<lambda>rp. holdings ?rs (snd rp) = Max (holdings ?rs ` principal ` set ?rs)) \<circ> (\<lambda>r. (run_id r, principal r))) ?rs
      = find (largest ?rs) ?rs"
    by (rule find_cong [OF refl]) (simp add: largest_iff)
  show ?thesis
  proof (cases "?rs = []")
    case True
    thus ?thesis by (simp add: v)
  next
    case False
    then obtain r where "find (largest ?rs) ?rs = Some r" using largest_exists by blast
    thus ?thesis using False by (simp add: v z find_map f Let_def)
  qed
qed

lemma drop_first_filter:
  "distinct (map run_id rs) \<Longrightarrow> find p rs = Some v \<Longrightarrow> filter (\<lambda>r. run_id r \<noteq> run_id v) rs = drop_first p rs"
proof (induction rs)
  case (Cons r rs)
  have keep: "filter (\<lambda>q. run_id q \<noteq> run_id r) rs = rs"
    using Cons.prems(1) by (intro filter_True) (auto simp: image_iff)
  show ?case
  proof (cases "p r")
    case True
    thus ?thesis using Cons.prems keep by simp
  next
    case False
    hence f: "find p rs = Some v" using Cons.prems(2) by simp
    hence "v \<in> set rs" by (auto simp: find_Some_iff)
    hence "run_id r \<noteq> run_id v" using Cons.prems(1) by auto
    thus ?thesis using False f Cons by simp
  qed
qed simp

lemma recency_distinct: "store_ok st \<Longrightarrow> distinct (map run_id (recency st))"
  by (simp add: recency_ids) (simp add: store_ok_def)

lemma recency_length: "length (recency st) = length (rs_order st)"
  by (simp add: recency_def)

lemma trim_fits: "int (length (rs_order st)) \<le> max_entries st \<Longrightarrow> trim st = (st, Inr ())"
  by (subst trim.simps) simp

lemma trim_one:
  assumes ok: "store_ok st" and m: "0 \<le> max_entries st" and len: "int (length (rs_order st)) \<le> max_entries st + 1"
  shows "\<exists>st'. trim st = (st', Inr ()) \<and> store_ok st' \<and> recency st' = a_trim (max_entries st) (recency st) \<and>
     int (length (rs_order st')) \<le> max_entries st \<and> max_entries st' = max_entries st \<and> ttl_seconds st' = ttl_seconds st"
proof (cases "int (length (rs_order st)) \<le> max_entries st")
  case True
  thus ?thesis using ok by (simp add: trim_fits a_trim_def recency_length)
next
  case False
  hence "recency st \<noteq> []" using m by (auto simp: recency_def)
  then obtain v where v: "find (largest (recency st)) (recency st) = Some v" using largest_exists by blast
  have cv: "capacity_victim st = Inr (run_id v)" by (simp add: capacity_victim_spec [OF ok] v)
  have "run_id v \<in> set (map run_id (recency st))" using v by (auto simp: find_Some_iff)
  hence mem: "run_id v \<in> set (rs_order st)" by (simp add: recency_ids [OF ok] del: set_map)
  let ?st = "drop_run (run_id v) st"
  have len': "int (length (rs_order ?st)) \<le> max_entries st"
  proof -
    have "length (rs_order ?st) = length (rs_order st) - 1" "0 < length (rs_order st)"
      using mem by (auto simp: drop_run_def length_remove1)
    thus ?thesis using len by linarith
  qed
  have par: "max_entries ?st = max_entries st" "ttl_seconds ?st = ttl_seconds st" by (simp_all add: drop_run_def)
  have "trim st = trim ?st" using False cv mem by (subst trim.simps) (simp add: drop_run_def)
  also have "\<dots> = (?st, Inr ())" using len' by (intro trim_fits) (simp add: par)
  finally have "trim st = (?st, Inr ())" .
  moreover have "recency ?st = a_trim (max_entries st) (recency st)"
    using False drop_first_filter [OF recency_distinct [OF ok] v]
    by (simp add: recency_drop [OF ok] a_trim_def recency_length)
  ultimately show ?thesis using drop_run_ok [OF ok] len' par by blast
qed

section \<open>Every operation refines its specification\<close>

text \<open>The invariant of reachable stores: a consistent state within a non-negative bound.\<close>

definition store_inv :: "run_store \<Rightarrow> bool" where
  "store_inv st \<longleftrightarrow> store_ok st \<and> 0 \<le> max_entries st \<and> int (length (rs_order st)) \<le> max_entries st"

lemma evict_inv: "store_inv st \<Longrightarrow> store_inv (evict_locked now st)"
proof -
  assume inv: "store_inv st"
  hence ok: "store_ok st" by (simp add: store_inv_def)
  have "length (rs_order (evict_locked now st)) \<le> length (rs_order st)"
    using evict_locked_spec(2) [OF ok, of now] recency_length [of st] recency_length [of "evict_locked now st"]
    by (metis a_evict_def length_filter_le)
  thus ?thesis using inv evict_locked_spec(1) [OF ok] by (auto simp: store_inv_def)
qed

lemma add_run:
  assumes ok: "store_ok st" and fresh: "rid \<notin> set (rs_order st)" and rid: "run_id r = rid"
  shows "store_ok (st\<lparr>rs_items := dict_set rid r (rs_items st), rs_order := rs_order st @ [rid]\<rparr>)"
    and "recency (st\<lparr>rs_items := dict_set rid r (rs_items st), rs_order := rs_order st @ [rid]\<rparr>) = recency st @ [r]"
proof -
  show "store_ok (st\<lparr>rs_items := dict_set rid r (rs_items st), rs_order := rs_order st @ [rid]\<rparr>)"
    using ok fresh rid unfolding store_ok_def list_all_iff
    by (auto simp: dict_set_keys dict_set_distinct dest!: dict_set_mem)
  show "recency (st\<lparr>rs_items := dict_set rid r (rs_items st), rs_order := rs_order st @ [rid]\<rparr>) = recency st @ [r]"
    using fresh by (auto simp: recency_def)
qed

lemma create_spec:
  assumes inv: "store_inv st" and fresh: "rid \<notin> set (rs_order st)"
  shows "\<exists>st'. create_run st now rid who data = (st', Inr (new_record st now rid who data)) \<and> store_inv st' \<and>
     recency st' = a_create (max_entries st) now (new_record st now rid who data) (recency st) \<and>
     max_entries st' = max_entries st \<and> ttl_seconds st' = ttl_seconds st"
proof -
  have ok: "store_ok st" using inv by (simp add: store_inv_def)
  let ?r = "new_record st now rid who data" and ?ev = "evict_locked now st"
  have ev: "store_ok ?ev" "recency ?ev = a_evict now (recency st)" by (rule evict_locked_spec [OF ok])+
  have "set (map run_id (recency ?ev)) \<subseteq> set (map run_id (recency st))" unfolding ev(2) a_evict_def by auto
  hence fresh': "rid \<notin> set (rs_order ?ev)"
    using fresh unfolding recency_ids [OF ok] recency_ids [OF ev(1)] by blast
  let ?added = "?ev\<lparr>rs_items := dict_set rid ?r (rs_items ?ev), rs_order := rs_order ?ev @ [rid]\<rparr>"
  have add: "store_ok ?added" "recency ?added = recency ?ev @ [?r]"
    by (rule add_run [OF ev(1) fresh'], simp add: new_record_def)+
  have "store_inv ?ev" by (rule evict_inv [OF inv])
  hence len: "int (length (rs_order ?added)) \<le> max_entries ?added + 1" "0 \<le> max_entries ?added"
    by (simp_all add: store_inv_def)
  from trim_one [OF add(1) len(2,1)] obtain st' where t: "trim ?added = (st', Inr ())" "store_ok st'"
    "recency st' = a_trim (max_entries st) (recency ?added)" "int (length (rs_order st')) \<le> max_entries st"
    "max_entries st' = max_entries st" "ttl_seconds st' = ttl_seconds st" by auto
  have "create_run st now rid who data = (st', Inr ?r)" by (simp add: create_run_def Let_def t(1))
  thus ?thesis using t inv add(2) ev(2) by (auto simp: store_inv_def a_create_def)
qed

lemma find_by_id:
  assumes ok: "store_ok st"
  shows "find (\<lambda>r. run_id r = rid \<and> q r) (recency st) =
     (case map_of (rs_items st) rid of None \<Rightarrow> None | Some r \<Rightarrow> if q r then Some r else None)"
proof -
  have uniq: "r = r'" if "r \<in> set (recency st)" "r' \<in> set (recency st)" "run_id r = run_id r'" for r r'
    using recency_distinct [OF ok] that by (auto simp: distinct_map inj_on_def)
  show ?thesis
  proof (cases "map_of (rs_items st) rid")
    case None
    hence "\<forall>r \<in> set (recency st). run_id r \<noteq> rid"
      using recency_mem [OF ok] by (force simp: map_of_eq_None_iff)
    hence "find (\<lambda>r. run_id r = rid \<and> q r) (recency st) = None" unfolding find_None_iff by blast
    thus ?thesis using None by simp
  next
    case (Some r)
    have "(rid, r) \<in> set (rs_items st)" by (rule map_of_SomeD [OF Some])
    hence r: "run_id r = rid" using ok by (auto simp: store_ok_def list_all_iff)
    hence mem: "r \<in> set (recency st)" using \<open>(rid, r) \<in> set (rs_items st)\<close> recency_mem [OF ok] by simp
    show ?thesis
    proof (cases "q r")
      case True
      hence "find (\<lambda>r. run_id r = rid \<and> q r) (recency st) \<noteq> None"
        unfolding find_None_iff using mem r by metis
      then obtain x where x: "find (\<lambda>r. run_id r = rid \<and> q r) (recency st) = Some x" by blast
      have "x \<in> set (recency st)" "run_id x = rid" using x by (auto simp: find_Some_iff)
      hence "x = r" using uniq mem r by metis
      thus ?thesis using x Some True by simp
    next
      case False
      hence "find (\<lambda>r. run_id r = rid \<and> q r) (recency st) = None"
        unfolding find_None_iff using uniq [OF _ mem] r by metis
      thus ?thesis using Some False by simp
    qed
  qed
qed

lemma get_spec:
  assumes inv: "store_inv st"
  shows "\<exists>st'. get_run st now rid who = (st', Inr (snd (a_get now rid who (recency st)))) \<and> store_inv st' \<and>
     recency st' = fst (a_get now rid who (recency st)) \<and> max_entries st' = max_entries st \<and> ttl_seconds st' = ttl_seconds st"
proof -
  have ok: "store_ok st" using inv by (simp add: store_inv_def)
  let ?ev = "evict_locked now st"
  have ev: "store_ok ?ev" "recency ?ev = a_evict now (recency st)" by (rule evict_locked_spec [OF ok])+
  have evi: "store_inv ?ev" by (rule evict_inv [OF inv])
  have f: "find (\<lambda>r. run_id r = rid \<and> principal r = who) (a_evict now (recency st)) =
     (case map_of (rs_items ?ev) rid of None \<Rightarrow> None | Some r \<Rightarrow> if principal r = who then Some r else None)"
    unfolding ev(2) [symmetric] by (rule find_by_id [OF ev(1)])
  show ?thesis
  proof (cases "\<exists>r. map_of (rs_items ?ev) rid = Some r \<and> principal r = who")
    case False
    hence none: "find (\<lambda>r. run_id r = rid \<and> principal r = who) (a_evict now (recency st)) = None"
      unfolding f by (auto split: option.splits)
    have "get_run st now rid who = (?ev, Inr None)"
      using False by (auto simp: get_run_def Let_def split: option.splits)
    thus ?thesis using evi ev by (simp add: a_get_def none)
  next
    case True
    then obtain r where r: "map_of (rs_items ?ev) rid = Some r" "principal r = who" by blast
    have mem: "rid \<in> set (rs_order ?ev)"
      using ev(1) map_of_SomeD [OF r(1)] by (force simp: store_ok_def)
    let ?st = "?ev\<lparr>rs_order := remove1 rid (rs_order ?ev) @ [rid]\<rparr>"
    have g: "get_run st now rid who = (?st, Inr (Some r))"
      using r mem by (simp add: get_run_def Let_def)
    have some: "find (\<lambda>r. run_id r = rid \<and> principal r = who) (a_evict now (recency st)) = Some r"
      unfolding f using r by simp
    have d: "distinct (rs_order ?ev)" using ev(1) by (simp add: store_ok_def)
    have "store_ok ?st" using ev(1) d mem by (auto simp: store_ok_def)
    moreover have "length (rs_order ?st) = length (rs_order ?ev)" using mem
      by (simp add: length_remove1) (metis Suc_pred length_pos_if_in_set)
    moreover have "recency ?st = filter (\<lambda>q. run_id q \<noteq> rid) (recency ?ev) @ [r]"
    proof -
      have "filter (\<lambda>x. x \<noteq> rid) (rs_order ?ev) =
          filter (\<lambda>x. run_id (the (map_of (rs_items ?ev) x)) \<noteq> rid) (rs_order ?ev)"
        by (rule filter_cong [OF refl]) (use recency_id [OF ev(1)] in fastforce)
      moreover have "remove1 rid (rs_order ?ev) = filter (\<lambda>x. x \<noteq> rid) (rs_order ?ev)"
        using d by (auto simp: distinct_remove1_removeAll removeAll_filter_not_eq intro: filter_cong)
      ultimately show ?thesis using r(1) by (simp add: recency_def filter_map comp_def)
    qed
    ultimately show ?thesis using g evi
      by (intro exI [of _ ?st]) (simp add: a_get_def some ev(2) store_inv_def)
  qed
qed

lemma list_spec:
  assumes inv: "store_inv st"
  shows "list_for_principal st now who =
     (evict_locked now st, Inr (filter (\<lambda>r. principal r = who) (a_evict now (recency st))))"
proof -
  have ok: "store_ok (evict_locked now st)" using evict_inv [OF inv] by (simp add: store_inv_def)
  have "mapR (\<lambda>rid. case map_of (rs_items (evict_locked now st)) rid of None \<Rightarrow> Inl (PyKeyError rid) | Some r \<Rightarrow> Inr r)
      (rs_order (evict_locked now st)) = Inr (recency (evict_locked now st))"
    unfolding recency_def by (rule mapR_total) (use recency_id [OF ok] in fastforce)
  thus ?thesis using inv by (simp add: list_for_principal_def Let_def evict_locked_spec store_inv_def)
qed

section \<open>Sequences of operations\<close>

datatype store_op =
    Create int string string json
  | Get int string string
  | Require int string string
  | ListRuns int string

text \<open>
  A step is one locked operation. A new run identity is not one the store holds, which is what
  \<open>secrets.token_urlsafe(16)\<close> is documented to give.
\<close>

inductive store_step :: "run_store \<Rightarrow> store_op \<Rightarrow> run_store \<Rightarrow> bool" where
  step_create: "rid \<notin> set (rs_order st) \<Longrightarrow> create_run st now rid who data = (st', out) \<Longrightarrow>
     store_step st (Create now rid who data) st'"
| step_get: "get_run st now rid who = (st', out) \<Longrightarrow> store_step st (Get now rid who) st'"
| step_require: "require_run st now rid who = (st', out) \<Longrightarrow> store_step st (Require now rid who) st'"
| step_list: "list_for_principal st now who = (st', out) \<Longrightarrow> store_step st (ListRuns now who) st'"

inductive_cases store_stepE: "store_step st op st'"

inductive runs :: "('s \<Rightarrow> 'o \<Rightarrow> 's \<Rightarrow> bool) \<Rightarrow> 's \<Rightarrow> 'o list \<Rightarrow> 's \<Rightarrow> bool" for step where
  runs_none: "runs step s [] s"
| runs_more: "runs step s ops s' \<Longrightarrow> step s' op s'' \<Longrightarrow> runs step s (ops @ [op]) s''"

text \<open>
  A system with an invariant, and one that moreover computes a deterministic specification under an
  abstraction.
\<close>

locale invariant_system =
  fixes step :: "'s \<Rightarrow> 'o \<Rightarrow> 's \<Rightarrow> bool" and inv :: "'s \<Rightarrow> bool"
  assumes step_inv: "inv s \<Longrightarrow> step s op s' \<Longrightarrow> inv s'"
begin

lemma runs_inv: "runs step s ops s' \<Longrightarrow> inv s \<Longrightarrow> inv s'"
  by (induction rule: runs.induct) (auto intro: step_inv)

end

locale refined_system = invariant_system step inv
  for step :: "'s \<Rightarrow> 'o \<Rightarrow> 's \<Rightarrow> bool" and inv :: "'s \<Rightarrow> bool" +
  fixes abs :: "'s \<Rightarrow> 'a" and spec :: "'a \<Rightarrow> 'o \<Rightarrow> 'a"
  assumes step_abs: "inv s \<Longrightarrow> step s op s' \<Longrightarrow> abs s' = spec (abs s) op"
begin

lemma runs_abs: "runs step s ops s' \<Longrightarrow> inv s \<Longrightarrow> abs s' = foldl spec (abs s) ops"
proof (induction rule: runs.induct)
  case (runs_more s ops s' op s'')
  have "inv s'" by (rule runs_inv [OF runs_more.hyps(1) runs_more.prems])
  from step_abs [OF this runs_more.hyps(2)] runs_more show ?case by simp
qed simp

end

definition a_record :: "int \<Rightarrow> int \<Rightarrow> string \<Rightarrow> string \<Rightarrow> json \<Rightarrow> run_record" where
  "a_record ttl now rid who data = \<lparr>run_id = rid, principal = who, created_at = now, expires_at = now + ttl,
     payload = data, resource_uri = ''l9://runs/'' @ rid\<rparr>"

fun a_step :: "int \<Rightarrow> int \<Rightarrow> run_record list \<Rightarrow> store_op \<Rightarrow> run_record list" where
  "a_step m ttl rs (Create now rid who data) = a_create m now (a_record ttl now rid who data) rs"
| "a_step m ttl rs (Get now rid who) = fst (a_get now rid who rs)"
| "a_step m ttl rs (Require now rid who) = fst (a_get now rid who rs)"
| "a_step m ttl rs (ListRuns now who) = a_evict now rs"

definition bounded_by :: "int \<Rightarrow> int \<Rightarrow> run_store \<Rightarrow> bool" where
  "bounded_by m ttl st \<longleftrightarrow> store_inv st \<and> max_entries st = m \<and> ttl_seconds st = ttl"

lemma require_state: "fst (require_run st now rid who) = fst (get_run st now rid who)"
  by (simp add: require_run_def split_beta)

lemma require_result:
  assumes "store_inv st"
  shows "snd (require_run st now rid who) =
    (case find (\<lambda>r. run_id r = rid \<and> principal r = who) (a_evict now (recency st)) of
       None \<Rightarrow> Inl (RunNotFoundError rid) | Some r \<Rightarrow> Inr r)"
  using get_spec [OF assms, of now rid who]
  by (auto simp: require_run_def split_beta a_get_def Let_def split: option.splits)

lemma step_refines:
  assumes b: "bounded_by m ttl st" and step: "store_step st op st'"
  shows "bounded_by m ttl st' \<and> recency st' = a_step m ttl (recency st) op"
proof -
  have inv: "store_inv st" and m: "max_entries st = m" and ttl: "ttl_seconds st = ttl"
    using b by (simp_all add: bounded_by_def)
  have g: "bounded_by m ttl (fst (get_run st now rid who)) \<and>
      recency (fst (get_run st now rid who)) = fst (a_get now rid who (recency st))" for now rid who
    using get_spec [OF inv, of now rid who] m ttl by (auto simp: bounded_by_def)
  show ?thesis
    using step
  proof (cases rule: store_step.cases)
    case (step_create rid now who data out)
    have "new_record st now rid who data = a_record ttl now rid who data"
      by (simp add: new_record_def a_record_def ttl)
    thus ?thesis using create_spec [OF inv step_create(2), of now who data] step_create m ttl
      by (auto simp: bounded_by_def)
  next
    case (step_get now rid who out)
    thus ?thesis using g [of now rid who] by simp
  next
    case (step_require now rid who out)
    thus ?thesis using g [of now rid who] require_state [of st now rid who] by simp
  next
    case (step_list now who out)
    hence "st' = evict_locked now st" by (simp add: list_for_principal_def Let_def)
    thus ?thesis using evict_inv [OF inv] evict_locked_spec(2) [of st now] inv m ttl step_list
      by (auto simp: bounded_by_def store_inv_def)
  qed
qed

interpretation store: refined_system store_step "bounded_by m ttl" recency "a_step m ttl" for m ttl
  by unfold_locales (use step_refines in blast)+

lemma empty_bounded: "0 \<le> m \<Longrightarrow> bounded_by m ttl (empty_store m ttl)"
  by (simp add: bounded_by_def store_inv_def store_ok_def empty_store_def)

lemma empty_recency: "recency (empty_store m ttl) = []"
  by (simp add: recency_def empty_store_def)

lemma drop_first_subset: "set (drop_first p xs) \<subseteq> set xs"
  by (induction xs) auto

lemma find_mem: "find p xs = Some v \<Longrightarrow> v \<in> set xs \<and> p v"
  by (induction xs) (auto split: if_splits)

lemma a_trim_subset: "set (a_trim m rs) \<subseteq> set rs"
  using drop_first_subset [of "largest rs" rs] by (simp add: a_trim_def)

lemma a_get_subset: "set (fst (a_get now rid who rs)) \<subseteq> set rs"
  by (auto simp: a_get_def a_evict_def Let_def split: option.splits dest: find_mem)

lemma a_step_mem:
  "r \<in> set (a_step m ttl rs op) \<Longrightarrow>
     r \<in> set rs \<or> (\<exists>now rid who data. op = Create now rid who data \<and> r = a_record ttl now rid who data)"
proof (induction m ttl rs op rule: a_step.induct)
  case (1 m ttl rs now rid who data)
  thus ?case using a_trim_subset [of m "a_evict now rs @ [a_record ttl now rid who data]"]
    by (auto simp: a_create_def a_evict_def)
next
  case (2 m ttl rs now rid who)
  thus ?case using a_get_subset [of now rid who rs] by auto
next
  case (3 m ttl rs now rid who)
  thus ?case using a_get_subset [of now rid who rs] by auto
qed (simp add: a_evict_def)

lemma history_mem:
  "r \<in> set (foldl (a_step m ttl) rs ops) \<Longrightarrow>
     r \<in> set rs \<or> (\<exists>now rid who data. Create now rid who data \<in> set ops \<and> r = a_record ttl now rid who data)"
proof (induction ops arbitrary: rs)
  case (Cons op ops)
  hence "r \<in> set (a_step m ttl rs op) \<or>
      (\<exists>now rid who data. Create now rid who data \<in> set ops \<and> r = a_record ttl now rid who data)" by simp
  thus ?case using a_step_mem [of r m ttl rs op] by auto
qed simp

text \<open>What the trim of a full store drops.\<close>

lemma drop_first_cases:
  "drop_first p xs = xs \<and> (\<forall>x \<in> set xs. \<not> p x) \<or>
     (\<exists>as v bs. xs = as @ v # bs \<and> p v \<and> (\<forall>x \<in> set as. \<not> p x) \<and> drop_first p xs = as @ bs)"
proof (induction xs)
  case (Cons x xs)
  show ?case
  proof (cases "p x")
    case True
    thus ?thesis by (intro disjI2 exI [of _ "[]"]) auto
  next
    case False
    from Cons show ?thesis
    proof
      assume "\<exists>as v bs. xs = as @ v # bs \<and> p v \<and> (\<forall>x \<in> set as. \<not> p x) \<and> drop_first p xs = as @ bs"
      then obtain as v bs where "xs = as @ v # bs" "p v" "\<forall>x \<in> set as. \<not> p x" "drop_first p xs = as @ bs" by blast
      thus ?thesis using False by (intro disjI2 exI [of _ "x # as"] exI [of _ v] exI [of _ bs]) auto
    qed (use False in auto)
  qed
qed simp

lemma largest_same: "principal a = principal b \<Longrightarrow> largest rs a = largest rs b"
  by (simp add: largest_def)

text \<open>The run just added is last, so with room for one run it is never the one dropped.\<close>

lemma new_run_stays:
  assumes m: "1 \<le> m"
  shows "r \<in> set (a_trim m (rs @ [r]))"
proof (cases "int (length (rs @ [r])) \<le> m")
  case True
  thus ?thesis by (simp add: a_trim_def)
next
  case False
  hence ne: "rs \<noteq> []" using m by auto
  have "\<exists>q \<in> set rs. largest (rs @ [r]) q"
  proof (cases "\<exists>q \<in> set rs. principal q = principal r")
    case True
    then obtain q where q: "q \<in> set rs" "principal q = principal r" by blast
    obtain v where v: "find (largest (rs @ [r])) (rs @ [r]) = Some v" using largest_exists [of "rs @ [r]"] by auto
    have "v \<in> set (rs @ [r])" "largest (rs @ [r]) v" using find_mem [OF v] by simp_all
    thus ?thesis using q largest_same [of q r "rs @ [r]"] by auto
  next
    case alone: False
    obtain v where v: "find (largest rs) rs = Some v" using largest_exists [OF ne] by blast
    have vs: "v \<in> set rs" "largest rs v" using find_mem [OF v] by simp_all
    have same: "holdings (rs @ [r]) (principal q) = holdings rs (principal q)" if "q \<in> set rs" for q
      using alone that by (auto simp: holdings_def)
    have "holdings (rs @ [r]) (principal r) = 1" using alone by (auto simp: holdings_def filter_empty_conv)
    moreover have "1 \<le> holdings rs (principal v)" using vs(1)
      using length_pos_if_in_set [of v "filter (\<lambda>r. principal r = principal v) rs"]
      by (simp add: holdings_def Suc_le_eq)
    ultimately have "largest (rs @ [r]) v" using vs same by (auto simp: largest_def list_all_iff)
    thus ?thesis using vs by blast
  qed
  moreover have "drop_first p (rs @ [r]) = drop_first p rs @ [r]" if "\<exists>q \<in> set rs. p q" for p
    using that by (induction rs) auto
  ultimately show ?thesis using False by (simp add: a_trim_def)
qed

section \<open>A concrete run\<close>

text \<open>One tenant fills a store for three runs, a second tenant creates one, and the first one's oldest is dropped.\<close>

definition burst :: "store_op list" where
  "burst = [Create 0 ''a'' ''p'' JNull, Create 1 ''b'' ''p'' JNull, Get 2 ''a'' ''p'', Create 3 ''c'' ''q'' JNull,
     Create 4 ''d'' ''q'' JNull]"

definition after_burst :: run_store where
  "after_burst = (let r = (\<lambda>t rid who. a_record 10 t rid who JNull) in
     \<lparr>max_entries = 3, ttl_seconds = 10,
      rs_items = [(''a'', r 0 ''a'' ''p''), (''c'', r 3 ''c'' ''q''), (''d'', r 4 ''d'' ''q'')],
      rs_order = [''a'', ''c'', ''d'']\<rparr>)"

fun do_op :: "run_store \<Rightarrow> store_op \<Rightarrow> run_store" where
  "do_op st (Create now rid who data) = fst (create_run st now rid who data)"
| "do_op st (Get now rid who) = fst (get_run st now rid who)"
| "do_op st (Require now rid who) = fst (require_run st now rid who)"
| "do_op st (ListRuns now who) = fst (list_for_principal st now who)"

fun op_fresh :: "run_store \<Rightarrow> store_op \<Rightarrow> bool" where
  "op_fresh st (Create now rid who data) = (rid \<notin> set (rs_order st))"
| "op_fresh st op = True"

fun do_ops :: "run_store \<Rightarrow> store_op list \<Rightarrow> run_store option" where
  "do_ops st [] = Some st"
| "do_ops st (op # ops) = (if op_fresh st op then do_ops (do_op st op) ops else None)"

lemma do_op_step: "op_fresh st op \<Longrightarrow> store_step st op (do_op st op)"
  by (induction st op rule: do_op.induct)
    (simp_all add: store_step.intros(1) [OF _ surjective_pairing] store_step.intros(2-4) [OF prod.collapse [symmetric]])

lemma do_ops_runs: "runs store_step s0 pre st \<Longrightarrow> do_ops st ops = Some st' \<Longrightarrow> runs store_step s0 (pre @ ops) st'"
proof (induction ops arbitrary: pre st)
  case (Cons op ops)
  from Cons.prems(2) have f: "op_fresh st op" and r: "do_ops (do_op st op) ops = Some st'" by (auto split: if_splits)
  from Cons.IH [OF runs_more [OF Cons.prems(1) do_op_step [OF f]] r] show ?case by simp
qed simp

lemma burst_runs: "runs store_step (empty_store 3 10) burst after_burst"
proof -
  have "do_ops (empty_store 3 10) burst = Some after_burst" by code_simp
  from do_ops_runs [OF runs_none this] show ?thesis by simp
qed

section \<open>Properties\<close>

text \<open>C27: Whatever sequence of operations the server runs from the empty store, the state stays consistent and
  within its bound, and is the result of running the same operations on the specification, a list of
  records by recency; no operation raises, and what it returns is what the specification returns.\<close>

theorem store_refines_recency_list:
  assumes "runs store_step (empty_store m ttl) ops st" and "0 \<le> m"
  shows "store_inv st \<and> int (length (rs_items st)) \<le> m \<and> recency st = foldl (a_step m ttl) [] ops \<and>
    snd (get_run st now rid who) = Inr (snd (a_get now rid who (recency st))) \<and>
    snd (list_for_principal st now who) = Inr (filter (\<lambda>r. principal r = who) (a_evict now (recency st))) \<and>
    (rid \<notin> set (rs_order st) \<longrightarrow> snd (create_run st now rid who data) = Inr (a_record ttl now rid who data))"
proof -
  have b: "bounded_by m ttl st" by (rule store.runs_inv [OF assms(1) empty_bounded [OF assms(2)]])
  hence inv: "store_inv st" and m: "max_entries st = m" and ttl: "ttl_seconds st = ttl" by (simp_all add: bounded_by_def)
  have abs: "recency st = foldl (a_step m ttl) [] ops"
    using store.runs_abs [OF assms(1) empty_bounded [OF assms(2)]] by (simp add: empty_recency)
  have "length (rs_items st) = length (rs_order st)"
    using inv by (metis distinct_card length_map set_map store_inv_def store_ok_def)
  hence len: "int (length (rs_items st)) \<le> m" using inv m by (simp add: store_inv_def)
  have new: "new_record st now rid who data = a_record ttl now rid who data"
    by (simp add: new_record_def a_record_def ttl)
  have get: "snd (get_run st now rid who) = Inr (snd (a_get now rid who (recency st)))"
    using get_spec [OF inv, of now rid who] by auto
  have create: "rid \<notin> set (rs_order st) \<Longrightarrow> snd (create_run st now rid who data) = Inr (a_record ttl now rid who data)"
    using create_spec [OF inv, of rid now who data] new by auto
  show ?thesis using inv len abs get list_spec [OF inv] create by simp
qed

theorem store_refines_recency_list_witness:
  "runs store_step (empty_store 3 10) burst after_burst \<and> (0 :: int) \<le> 3 \<and>
   recency after_burst = foldl (a_step 3 10) [] burst \<and>
   snd (list_for_principal after_burst 11 ''p'') = Inr []"
proof -
  have p: "(0 :: int) \<le> 3" by simp
  have none: "filter (\<lambda>r. principal r = ''p'') (a_evict 11 (recency after_burst)) = []" by code_simp
  from store_refines_recency_list [OF burst_runs p, of 0 "''a''" "''p''" JNull]
    store_refines_recency_list [OF burst_runs p, of 11 "''a''" "''p''" JNull] burst_runs none
  show ?thesis by simp
qed

lemma required_run:
  assumes history: "runs store_step (empty_store m ttl) ops st" and "0 \<le> m"
  shows "case snd (require_run st now rid who) of
       Inr r \<Rightarrow> principal r = who \<and> run_id r = rid \<and> now < expires_at r \<and>
         (\<exists>t data. Create t rid who data \<in> set ops \<and> payload r = data \<and> expires_at r = t + ttl)
     | Inl e \<Rightarrow> e = RunNotFoundError rid \<and>
         \<not> (\<exists>r \<in> set (recency st). run_id r = rid \<and> principal r = who \<and> now < expires_at r)"
proof -
  have b: "bounded_by m ttl st" by (rule store.runs_inv [OF history empty_bounded [OF assms(2)]])
  have abs: "recency st = foldl (a_step m ttl) [] ops"
    using store.runs_abs [OF history empty_bounded [OF assms(2)]] by (simp add: empty_recency)
  let ?f = "find (\<lambda>r. run_id r = rid \<and> principal r = who) (a_evict now (recency st))"
  have "store_inv st" using b by (simp add: bounded_by_def)
  note req = require_result [OF this, of now rid who]
  show ?thesis
  proof (cases ?f)
    case None
    hence "\<not> (\<exists>r \<in> set (recency st). run_id r = rid \<and> principal r = who \<and> now < expires_at r)"
      by (auto simp: find_None_iff a_evict_def)
    thus ?thesis by (simp add: req None)
  next
    case (Some r)
    hence r: "r \<in> set (recency st)" "run_id r = rid" "principal r = who" "now < expires_at r"
      using find_mem [OF Some] by (simp_all add: a_evict_def)
    have "\<exists>t rid' who' data. Create t rid' who' data \<in> set ops \<and> r = a_record ttl t rid' who' data"
      using history_mem [of r m ttl "[]" ops] r(1) abs by auto
    thus ?thesis using r by (auto simp: req Some a_record_def)
  qed
qed

lemma created_run:
  assumes b: "bounded_by m ttl st" and "1 \<le> m" and fresh: "rid \<notin> set (rs_order st)"
  shows "let new = a_record ttl now rid who data; live = a_evict now (recency st);
           after = recency (fst (create_run st now rid who data))
       in after = live @ [new] \<or>
          (\<exists>as v bs. live = as @ v # bs \<and> after = as @ bs @ [new] \<and> largest (live @ [new]) v \<and>
             (\<forall>x \<in> set as. principal x \<noteq> principal v))"
proof -
  have inv: "store_inv st" and m: "max_entries st = m" and ttl: "ttl_seconds st = ttl" using b by (simp_all add: bounded_by_def)
  let ?new = "a_record ttl now rid who data" and ?live = "a_evict now (recency st)"
  have "new_record st now rid who data = ?new" by (simp add: new_record_def a_record_def ttl)
  hence after: "recency (fst (create_run st now rid who data)) = a_trim m (?live @ [?new])"
    using create_spec [OF inv fresh, of now who data] m by (auto simp: a_create_def)
  show ?thesis
  proof (cases "a_trim m (?live @ [?new]) = ?live @ [?new]")
    case True
    thus ?thesis using after by simp
  next
    case False
    hence d: "a_trim m (?live @ [?new]) = drop_first (largest (?live @ [?new])) (?live @ [?new])"
      by (auto simp: a_trim_def)
    from drop_first_cases [of "largest (?live @ [?new])" "?live @ [?new]"] False d obtain as v bs where
      v: "?live @ [?new] = as @ v # bs" "largest (?live @ [?new]) v" "\<forall>x \<in> set as. \<not> largest (?live @ [?new]) x"
        "a_trim m (?live @ [?new]) = as @ bs" by auto
    have "bs \<noteq> []"
    proof
      assume "bs = []"
      hence "v = ?new" "as = ?live" using v(1) by auto
      hence "?new \<in> set ?live" using new_run_stays [OF assms(2), of ?new ?live] v(4) \<open>bs = []\<close> by simp
      thus False using v(2,3) \<open>v = ?new\<close> \<open>as = ?live\<close> by auto
    qed
    then obtain bs' where bs: "bs = bs' @ [?new]" "?live = as @ v # bs'"
      using v(1) by (cases bs rule: rev_cases) auto
    have "\<forall>x \<in> set as. principal x \<noteq> principal v" using v(2,3) largest_same by blast
    thus ?thesis using after v(2,4) bs by (auto simp: Let_def)
  qed
qed

text \<open>C28: Runs are isolated and a burst evicts its own. A run is found exactly when its creator asks for it
  before it expires and it was not evicted, with the payload it was created with; in every other case, unknown,
  expired or foreign, the caller sees the same not-found error. Creating a run drops at most one live run, always the least recently used
  one of a principal that holds the most, and never the new one when there is room for one.\<close>

theorem runs_isolated_and_fair:
  assumes "runs store_step (empty_store m ttl) ops st" and "1 \<le> m"
  shows "(case snd (require_run st now rid who) of
       Inr r \<Rightarrow> principal r = who \<and> run_id r = rid \<and> now < expires_at r \<and>
         (\<exists>t data. Create t rid who data \<in> set ops \<and> payload r = data \<and> expires_at r = t + ttl)
     | Inl e \<Rightarrow> e = RunNotFoundError rid \<and>
         \<not> (\<exists>r \<in> set (recency st). run_id r = rid \<and> principal r = who \<and> now < expires_at r)) \<and>
    (rid \<notin> set (rs_order st) \<longrightarrow>
      (let new = a_record ttl now rid who data; live = a_evict now (recency st);
           after = recency (fst (create_run st now rid who data))
       in after = live @ [new] \<or>
          (\<exists>as v bs. live = as @ v # bs \<and> after = as @ bs @ [new] \<and> largest (live @ [new]) v \<and>
             (\<forall>x \<in> set as. principal x \<noteq> principal v))))"
proof -
  have m0: "0 \<le> m" using assms(2) by simp
  have "bounded_by m ttl st" by (rule store.runs_inv [OF assms(1) empty_bounded [OF m0]])
  from required_run [OF assms(1) m0] created_run [OF this assms(2)] show ?thesis by blast
qed

theorem runs_isolated_and_fair_witness:
  "runs store_step (empty_store 3 10) burst after_burst \<and> (1 :: int) \<le> 3 \<and>
   \<not> (\<exists>r \<in> set (recency after_burst). run_id r = ''c'' \<and> principal r = ''p'' \<and> 5 < expires_at r) \<and>
   snd (require_run after_burst 5 ''c'' ''p'') = Inl (RunNotFoundError ''c'')"
proof -
  have p: "(1 :: int) \<le> 3" by simp
  have e: "snd (require_run after_burst 5 ''c'' ''p'') = Inl (RunNotFoundError ''c'')" by code_simp
  from runs_isolated_and_fair [OF burst_runs p, where now = 5 and rid = "''c''" and who = "''p''" and data = JNull] e burst_runs
  show ?thesis by auto
qed

end
