(* ===== verification/Server.thy ===== *)
theory Server
  imports Adapters Pack Auth RunStore
begin

text \<open>
  The MCP server (\<open>mcp/__init__.py\<close>, \<open>mcp/manus_adapter.py\<close>): building it over a verified pack, its six tools,
  its resources, and the rule that decides who owns a run. The SDK that registers and dispatches the
  handlers is not modelled; a handler is a function of the server, the run store it closes over, and what it
  reads of the world: the file system, the clock, a new run identity and the validated token of the request.

  A failure is \<open>ToolError\<close>, which the SDK shows to the caller, or an exception the handler lets
  escape. A resource returns the value whose indented JSON text the code returns.
\<close>

section \<open>Errors and the world\<close>

datatype server_error = ToolError string | Escaped cog_error

type_synonym 'a served = "(server_error + 'a) option"

definition bindS :: "'a served \<Rightarrow> ('a \<Rightarrow> 'b served) \<Rightarrow> 'b served" where
  "bindS m f = (case m of None \<Rightarrow> None | Some (Inl e) \<Rightarrow> Some (Inl e) | Some (Inr x) \<Rightarrow> f x)"

text \<open>\<open>except (InvalidValueError, ModelValidationError) as exc: raise ToolError(str(exc))\<close>.\<close>

definition as_tool_error :: "cog_error \<Rightarrow> server_error" where
  "as_tool_error e = (if is_model_validation_error e then ToolError (error_text e) else Escaped e)"

definition translated :: "'a res option \<Rightarrow> 'a served" where
  "translated m = (case m of None \<Rightarrow> None | Some (Inl e) \<Rightarrow> Some (Inl (as_tool_error e)) | Some (Inr x) \<Rightarrow> Some (Inr x))"

definition escaping :: "'a res \<Rightarrow> 'a served" where
  "escaping m = (case m of Inl e \<Rightarrow> Some (Inl (Escaped e)) | Inr x \<Rightarrow> Some (Inr x))"

record world =
  wd_hash :: "string \<Rightarrow> string"
  wd_json :: "string \<Rightarrow> json option"
  wd_readers :: document_readers
  wd_files :: file_system
  wd_snapshot :: "json \<Rightarrow> context_snapshot res"
  wd_components :: "access_token \<Rightarrow> json"

section \<open>Names and capabilities\<close>

definition SERVER_NAME :: string where
  "SERVER_NAME = ''l9-cognitive-runtime''"

definition LOCAL_PRINCIPAL :: string where
  "LOCAL_PRINCIPAL = ''local-stdio''"

definition STDIO_TRANSPORT :: string where
  "STDIO_TRANSPORT = ''stdio''"

definition STREAMABLE_HTTP_TRANSPORT :: string where
  "STREAMABLE_HTTP_TRANSPORT = ''streamable_http''"

definition SUPPORTED_TRANSPORTS :: "string list" where
  "SUPPORTED_TRANSPORTS = [STDIO_TRANSPORT, STREAMABLE_HTTP_TRANSPORT]"

definition READ_ONLY_TOOLS :: "string list" where
  "READ_ONLY_TOOLS = [''runtime_capabilities'', ''compile_intent'', ''plan_kernel_activation'',
     ''plan_context_requirements'', ''compile_runtime'', ''validate_runtime_bundle'']"

definition CONTEXT_AWARE_TOOLS :: "string list" where
  "CONTEXT_AWARE_TOOLS = [''compile_runtime'', ''plan_kernel_activation'', ''plan_context_requirements'',
     ''validate_runtime_bundle'']"

record mcp_server =
  sv_name :: string
  sv_prefix :: string
  sv_transport :: string
  sv_hosted :: bool
  sv_root :: string
  sv_pack :: runtime_pack
  sv_pack_ref :: string

definition capabilities_json :: "mcp_server \<Rightarrow> json" where
  "capabilities_json sv = JObj
     [(''server'', JStr (sv_name sv)), (''version'', JStr PACKAGE_VERSION), (''transport'', JStr (sv_transport sv)),
      (''authentication'', JStr (if sv_hosted sv then ''oauth2_bearer'' else ''none'')),
      (''mode'', JStr ''read_only''), (''tools'', jstrs (map (\<lambda>t. sv_prefix sv @ t) READ_ONLY_TOOLS)),
      (''writes'', JBool False), (''execution'', JBool False), (''shell'', JBool False),
      (''context_snapshot_input'', JBool True),
      (''context_aware_tools'', jstrs (map (\<lambda>t. sv_prefix sv @ t) CONTEXT_AWARE_TOOLS)),
      (''context_planning'', JBool True), (''context_plan_schema'', JStr ''context_plan.schema.json''),
      (''context_snapshot_schema'', JStr ''context_snapshot.schema.json''),
      (''pack_ref'', JStr (pack_ref (rp_provenance (sv_pack sv)))),
      (''manifest_digest'', JStr (manifest_digest (rp_provenance (sv_pack sv))))]"

section \<open>Building the server\<close>

text \<open>\<open>str(manifest.get("pack_name") or root.name)\<close>.\<close>

definition bound_pack_ref :: "runtime_pack \<Rightarrow> string \<Rightarrow> string" where
  "bound_pack_ref pack root = (case map_of (rp_manifest pack) ''pack_name'' of
     None \<Rightarrow> path_name root | Some v \<Rightarrow> if falsy v then path_name root else py_str v)"

definition build_server ::
  "world \<Rightarrow> string \<Rightarrow> bool \<Rightarrow> string \<Rightarrow> string \<Rightarrow> string \<Rightarrow> (mcp_server \<times> run_store) res" where
  "build_server wd root0 hosted name tool_prefix transport =
     (if transport \<notin> set SUPPORTED_TRANSPORTS then Inl (InvalidValueError ''unsupported MCP transport'' transport)
      else let root = fs_resolve (wd_files wd) root0 in
        if \<not> fs_is_dir (wd_files wd) root then Inl (InvalidValueError ''pack_root must be an existing directory'' root)
        else bindR (load_pack (wd_hash wd) (wd_json wd) (wd_files wd) root) (\<lambda>pack.
          Inr (\<lparr>sv_name = name, sv_prefix = tool_prefix, sv_transport = transport, sv_hosted = hosted, sv_root = root,
               sv_pack = pack, sv_pack_ref = bound_pack_ref pack root\<rparr>, empty_store 128 3600)))"

definition MANUS_SERVER_NAME :: string where
  "MANUS_SERVER_NAME = ''l9-cognitive-runtime-manus''"

definition MANUS_TOOL_PREFIX :: string where
  "MANUS_TOOL_PREFIX = ''cog_''"

definition build_manus_server :: "world \<Rightarrow> string \<Rightarrow> (mcp_server \<times> run_store) res" where
  "build_manus_server wd root = build_server wd root False MANUS_SERVER_NAME MANUS_TOOL_PREFIX STDIO_TRANSPORT"

section \<open>Inputs of the tools\<close>

definition parse_context_snapshot :: "world \<Rightarrow> json option \<Rightarrow> context_snapshot option res" where
  "parse_context_snapshot wd raw = (case raw of
     None \<Rightarrow> Inr None
   | Some (JObj kvs) \<Rightarrow>
       if payload_item_count (JObj kvs) > SNAPSHOT_MAX_ITEMS
       then Inl (InvalidValueError ''context_snapshot exceeds the maximum item count'' ''context_snapshot'')
       else if payload_canonical_byte_size (JObj kvs) > SNAPSHOT_MAX_BYTES
       then Inl (InvalidValueError ''context_snapshot exceeds the maximum canonical byte size'' ''context_snapshot'')
       else (case wd_snapshot wd (JObj kvs) of
           Inr s \<Rightarrow> Inr (Some s)
         | Inl e \<Rightarrow> if is_model_validation_error e
             then Inl (InvalidValueError (''context_snapshot is not a valid governed snapshot: '' @ error_text e) ''context_snapshot'')
             else Inl e)
   | Some _ \<Rightarrow> Inl (InvalidValueError ''context_snapshot must be an object'' ''context_snapshot''))"

definition tool_request :: "mcp_server \<Rightarrow> string \<Rightarrow> string \<Rightarrow> service_request" where
  "tool_request sv m tt = compile_request.extend (default_request m tt)
     (service_request.fields (Some (sv_root sv)) None)"

definition world_service :: "world \<Rightarrow> service_env" where
  "world_service wd = local_service (wd_hash wd) (wd_json wd) (wd_readers wd) (wd_files wd)"

definition mcp_compile ::
  "world \<Rightarrow> mcp_server \<Rightarrow> string \<Rightarrow> string \<Rightarrow> json option \<Rightarrow> string option \<Rightarrow> runtime_bundle served" where
  "mcp_compile wd sv m tt snap expected = translated
     (bindO (Some (parse_context_snapshot wd snap)) (\<lambda>s.
        service_compile_runtime (wd_hash wd) (world_service wd) (tool_request sv m tt) s expected))"

definition mcp_plan ::
  "world \<Rightarrow> mcp_server \<Rightarrow> string \<Rightarrow> string \<Rightarrow> json option \<Rightarrow> context_plan served" where
  "mcp_plan wd sv m tt snap = translated (Some
     (bindR (parse_context_snapshot wd snap) (\<lambda>s.
        service_plan_context (wd_hash wd) (world_service wd) (tool_request sv m tt) s)))"

text \<open>
  \<open>resolve_principal\<close>. The principal of a token is its components as compact ASCII JSON, which \<open>encode\<close>
  followed by \<open>ascii_escape\<close> gives.
\<close>

definition resolve_principal :: "world \<Rightarrow> bool \<Rightarrow> access_token option \<Rightarrow> string option" where
  "resolve_principal wd hosted token = (case token of
     Some t \<Rightarrow> Some (''oauth:'' @ ascii_escape (encode (wd_components wd t)))
   | None \<Rightarrow> if hosted then None else Some LOCAL_PRINCIPAL)"

section \<open>The tools\<close>

definition digest_of :: "world \<Rightarrow> runtime_bundle \<Rightarrow> string \<Rightarrow> json" where
  "digest_of wd b k = JStr (the (map_of (bundle_digests (wd_hash wd) b) k))"

definition tool_compile_intent :: "world \<Rightarrow> mcp_server \<Rightarrow> string \<Rightarrow> string \<Rightarrow> json served" where
  "tool_compile_intent wd sv m tt = bindS (mcp_compile wd sv m tt None None) (\<lambda>b. Some (Inr (JObj
     [(''intent'', intent_json (rb_intent b)), (''intent_digest'', digest_of wd b ''intent'')])))"

definition tool_plan_kernel_activation :: "world \<Rightarrow> mcp_server \<Rightarrow> string \<Rightarrow> json option \<Rightarrow> json served" where
  "tool_plan_kernel_activation wd sv m snap =
     bindS (mcp_compile wd sv m DEFAULT_TASK_TYPE snap None) (\<lambda>b. Some (Inr (JObj
     [(''kernel_activation'', jstrs (kernel_activation (rb_execution b))),
      (''execution_sequence'', jstrs (execution_sequence (rb_execution b))),
      (''execution_digest'', digest_of wd b ''execution''), (''context_digest'', digest_of wd b ''context'')])))"

definition tool_plan_context_requirements ::
  "world \<Rightarrow> mcp_server \<Rightarrow> string \<Rightarrow> string \<Rightarrow> json option \<Rightarrow> json served" where
  "tool_plan_context_requirements wd sv m tt snap = bindS (mcp_plan wd sv m tt snap) (\<lambda>p. Some (Inr (JObj
     [(''context_plan'', context_plan_json p), (''context_plan_id'', JStr (context_plan_id p)),
      (''context_plan_digest'', JStr (sha256_digest (wd_hash wd) (context_plan_json p)))])))"

text \<open>What a run stores, and the tool that creates one.\<close>

definition run_payload :: "world \<Rightarrow> runtime_bundle \<Rightarrow> (string \<times> json) list" where
  "run_payload wd b =
     [(''digests'', jdict (bundle_digests (wd_hash wd) b)),
      (''context_plan_id'', JStr (context_plan_id (rb_context_plan b))),
      (''execution_contract_id'', JStr (contract_id (rb_execution b))),
      (''graph_id'', JStr (graph_id (rb_graph b))),
      (''terminal_node'', JStr (terminal_node (rb_graph b))),
      (''provenance'', pack_provenance_json (rb_provenance b)),
      (''execution_packet'', rb_packet b)]"

definition tool_compile_runtime ::
  "world \<Rightarrow> mcp_server \<Rightarrow> int \<Rightarrow> string \<Rightarrow> access_token option \<Rightarrow> string \<Rightarrow> string \<Rightarrow> json option \<Rightarrow> string option \<Rightarrow>
     run_store \<Rightarrow> (run_store \<times> (server_error + json)) option" where
  "tool_compile_runtime wd sv now rid token m tt snap expected st =
     (case mcp_compile wd sv m tt snap expected of
        None \<Rightarrow> None
      | Some (Inl e) \<Rightarrow> Some (st, Inl e)
      | Some (Inr b) \<Rightarrow>
          (case resolve_principal wd (sv_hosted sv) token of
             None \<Rightarrow> Some (st, Inl (ToolError ''authenticated principal required''))
           | Some who \<Rightarrow>
               (case create_run st now rid who (JObj (run_payload wd b)) of
                  (st', Inl e) \<Rightarrow> Some (st', Inl (Escaped e))
                | (st', Inr r) \<Rightarrow> Some (st', Inr (JObj (run_payload wd b @
                    [(''run_id'', JStr (run_id r)), (''resource_uri'', JStr (resource_uri r))]))))))"

definition tool_validate_runtime_bundle :: "world \<Rightarrow> mcp_server \<Rightarrow> string \<Rightarrow> json option \<Rightarrow> json served" where
  "tool_validate_runtime_bundle wd sv m snap =
     bindS (mcp_compile wd sv m DEFAULT_TASK_TYPE snap None) (\<lambda>b.
     bindS (escaping (py_get (rb_packet b) ''compiled_task_context_digest'')) (\<lambda>pc.
     let digests = bundle_digests (wd_hash wd) b;
         checks = [(''all_digests_present'', list_all (\<lambda>kv. snd kv \<noteq> []) digests),
                   (''graph_has_terminal'', terminal_node (rb_graph b) \<noteq> []),
                   (''provenance_present'', True),
                   (''packet_context_digest_matches'', pc = Some (digest_of wd b ''context''))]
     in Some (Inr (JObj [(''valid'', JBool (list_all snd checks)), (''digests'', jdict digests),
          (''checks'', JObj (map (\<lambda>(k, v). (k, JBool v)) checks))]))))"

section \<open>The resources\<close>

definition require_bound_pack :: "mcp_server \<Rightarrow> string \<Rightarrow> unit res" where
  "require_bound_pack sv wanted_ref =
     (if wanted_ref \<noteq> sv_pack_ref sv then Inl (InvalidValueError ''unknown pack_ref'' wanted_ref) else Inr ())"

definition pack_manifest_resource :: "mcp_server \<Rightarrow> string \<Rightarrow> json res" where
  "pack_manifest_resource sv ref = bindR (require_bound_pack sv ref) (\<lambda>_. Inr (JObj
     [(''pack_ref'', JStr (pack_ref (rp_provenance (sv_pack sv)))),
      (''manifest_digest'', JStr (manifest_digest (rp_provenance (sv_pack sv)))),
      (''files'', jdict (file_digests (rp_provenance (sv_pack sv))))]))"

definition pack_schema_resource :: "world \<Rightarrow> mcp_server \<Rightarrow> string \<Rightarrow> string \<Rightarrow> string res" where
  "pack_schema_resource wd sv ref name = bindR (require_bound_pack sv ref) (\<lambda>_.
     read_verified (wd_hash wd) (wd_files wd) (sv_pack sv) (''schemas/'' @ name))"

definition pack_kernel_resource :: "world \<Rightarrow> mcp_server \<Rightarrow> string \<Rightarrow> string \<Rightarrow> string res" where
  "pack_kernel_resource wd sv ref name = bindR (require_bound_pack sv ref) (\<lambda>_.
     read_verified (wd_hash wd) (wd_files wd) (sv_pack sv) (''kernels/'' @ name))"

definition run_resource ::
  "world \<Rightarrow> mcp_server \<Rightarrow> int \<Rightarrow> access_token option \<Rightarrow> string \<Rightarrow> run_store \<Rightarrow> run_store \<times> json res" where
  "run_resource wd sv now token rid st =
     (case resolve_principal wd (sv_hosted sv) token of
        None \<Rightarrow> (st, Inl (RunNotFoundError rid))
      | Some who \<Rightarrow> (case require_run st now rid who of (st', out) \<Rightarrow> (st', bindR out (\<lambda>r. Inr (payload r)))))"

section \<open>Sequences of requests\<close>

text \<open>
  The requests that touch the run store, each with the world it reads. A step runs one handler; a new run identity is one the
  store does not hold.
\<close>

datatype request =
    CompileRun world int string "access_token option" string string "json option" "string option"
  | ReadRun world int "access_token option" string

inductive serve_step :: "mcp_server \<Rightarrow> run_store \<Rightarrow> request \<Rightarrow> run_store \<Rightarrow> bool" for sv where
  serve_compile: "rid \<notin> set (rs_order st) \<Longrightarrow>
     tool_compile_runtime wd sv now rid token m tt snap expected st = Some (st', out) \<Longrightarrow>
     serve_step sv st (CompileRun wd now rid token m tt snap expected) st'"
| serve_read: "run_resource wd sv now token rid st = (st', out) \<Longrightarrow> serve_step sv st (ReadRun wd now token rid) st'"

text \<open>What a request asks of the store: nothing when it is refused before it gets there.\<close>

fun op_of :: "mcp_server \<Rightarrow> request \<Rightarrow> store_op option" where
  "op_of sv (CompileRun wd now rid token m tt snap expected) =
     (case mcp_compile wd sv m tt snap expected of
        Some (Inr b) \<Rightarrow> map_option (\<lambda>who. Create now rid who (JObj (run_payload wd b))) (resolve_principal wd (sv_hosted sv) token)
      | _ \<Rightarrow> None)"
| "op_of sv (ReadRun wd now token rid) = map_option (\<lambda>who. Require now rid who) (resolve_principal wd (sv_hosted sv) token)"

definition serve_spec :: "mcp_server \<Rightarrow> run_record list \<Rightarrow> request \<Rightarrow> run_record list" where
  "serve_spec sv rs req = (case op_of sv req of None \<Rightarrow> rs | Some op \<Rightarrow> a_step 128 3600 rs op)"

lemma serve_is_store_step:
  assumes "serve_step sv st req st'"
  shows "case op_of sv req of None \<Rightarrow> st' = st | Some op \<Rightarrow> store_step st op st'"
  using assms
proof (cases rule: serve_step.cases)
  case (serve_compile rid wd now token m tt snap expected out)
  note h = serve_compile(3) [unfolded tool_compile_runtime_def]
  show ?thesis
  proof (cases "mcp_compile wd sv m tt snap expected")
    case (Some r)
    show ?thesis
    proof (cases r)
      case (Inr b)
      show ?thesis
      proof (cases "resolve_principal wd (sv_hosted sv) token")
        case (Some who)
        obtain st1 o1 where c: "create_run st now rid who (JObj (run_payload wd b)) = (st1, o1)" by fastforce
        with h \<open>mcp_compile wd sv m tt snap expected = Some r\<close> Inr Some have "st1 = st'" by (auto split: sum.splits)
        thus ?thesis using step_create [OF serve_compile(2) c] \<open>mcp_compile wd sv m tt snap expected = Some r\<close> Inr Some serve_compile(1) by simp
      qed (use h Some Inr serve_compile(1) in auto)
    qed (use h Some serve_compile(1) in auto)
  qed (use h in auto)
next
  case (serve_read wd now token rid out)
  show ?thesis
  proof (cases "resolve_principal wd (sv_hosted sv) token")
    case (Some who)
    obtain st1 o1 where c: "require_run st now rid who = (st1, o1)" by fastforce
    thus ?thesis using step_require [OF c] serve_read Some by (auto simp: run_resource_def)
  qed (use serve_read in \<open>auto simp: run_resource_def\<close>)
qed

interpretation served: refined_system "serve_step sv" "bounded_by 128 3600" recency "serve_spec sv" for sv
proof (unfold_locales, goal_cases)
  case (1 st req st')
  with serve_is_store_step [OF 1(2)] show ?case
    using step_refines [OF 1(1)] by (cases "op_of sv req") auto
next
  case (2 st req st')
  with serve_is_store_step [OF 2(2)] show ?case
    using step_refines [OF 2(1)] by (cases "op_of sv req") (auto simp: serve_spec_def)
qed

lemma serve_spec_fold: "foldl (serve_spec sv) rs reqs = foldl (a_step 128 3600) rs (List.map_filter (op_of sv) reqs)"
  by (induction reqs arbitrary: rs) (auto simp: serve_spec_def List.map_filter_simps split: option.splits)

lemma served_history:
  assumes "runs (serve_step sv) (empty_store 128 3600) reqs st" and "r \<in> set (recency st)"
  shows "\<exists>wd now rid token m tt snap expected b who.
     CompileRun wd now rid token m tt snap expected \<in> set reqs \<and>
     mcp_compile wd sv m tt snap expected = Some (Inr b) \<and> resolve_principal wd (sv_hosted sv) token = Some who \<and>
     r = a_record 3600 now rid who (JObj (run_payload wd b))"
proof -
  have "recency st = foldl (a_step 128 3600) [] (List.map_filter (op_of sv) reqs)"
    using served.runs_abs [OF assms(1) empty_bounded] by (simp add: empty_recency serve_spec_fold)
  then obtain now rid who data where c: "Create now rid who data \<in> set (List.map_filter (op_of sv) reqs)"
      "r = a_record 3600 now rid who data"
    using history_mem [of r 128 3600 "[]" "List.map_filter (op_of sv) reqs"] assms(2) by auto
  then obtain req where req: "req \<in> set reqs" "op_of sv req = Some (Create now rid who data)"
    by (auto simp: List.map_filter_def)
  show ?thesis
  proof (cases req)
    case (CompileRun wd now' rid' token m tt snap expected)
    with req(2) obtain b where b: "mcp_compile wd sv m tt snap expected = Some (Inr b)"
      by (auto split: option.splits sum.splits)
    with req CompileRun c(2) show ?thesis by auto blast
  next
    case (ReadRun wd now' token rid')
    with req(2) show ?thesis by auto
  qed
qed

lemma principal_kinds: "resolve_principal wd hosted (Some t) \<noteq> Some LOCAL_PRINCIPAL"
  by (simp add: resolve_principal_def LOCAL_PRINCIPAL_def)

text \<open>The lookup behind a run resource.\<close>

lemma run_resource_owned:
  assumes "bounded_by 128 3600 st" and "resolve_principal wd (sv_hosted sv) token = Some who"
  shows "snd (run_resource wd sv now token rid st) =
    (case find (\<lambda>r. run_id r = rid \<and> principal r = who) (a_evict now (recency st)) of
       None \<Rightarrow> Inl (RunNotFoundError rid) | Some r \<Rightarrow> Inr (payload r))"
  using require_result [of st now rid who] assms
  by (auto simp: run_resource_def bounded_by_def split_beta split: option.splits)

text \<open>A run just created is the one its principal reads until it expires: the trim never drops it.\<close>

lemma created_is_found:
  assumes b: "bounded_by m ttl st" and m: "1 \<le> m" and fresh: "rid \<notin> set (rs_order st)"
    and c: "create_run st t rid who data = (st', out)" and live: "now < t + ttl"
  shows "find (\<lambda>r. run_id r = rid \<and> principal r = who) (a_evict now (recency st')) = Some (a_record ttl t rid who data)"
proof -
  let ?r = "a_record ttl t rid who data"
  have step: "store_step st (Create t rid who data) st'" by (rule step_create [OF fresh c])
  have b': "bounded_by m ttl st'" and rec: "recency st' = a_trim m (a_evict t (recency st) @ [?r])"
    using step_refines [OF b step] by (simp_all add: a_create_def)
  hence ok: "store_ok st'" by (simp add: bounded_by_def store_inv_def)
  have "?r \<in> set (recency st')" unfolding rec by (rule new_run_stays [OF m])
  with live have mem: "?r \<in> set (a_evict now (recency st'))" by (simp add: a_evict_def a_record_def)
  have sel: "run_id ?r = rid" "principal ?r = who" by (simp_all add: a_record_def)
  have "find (\<lambda>r. run_id r = rid \<and> principal r = who) (a_evict now (recency st')) \<noteq> None"
    using mem sel unfolding find_None_iff by blast
  then obtain x where x: "find (\<lambda>r. run_id r = rid \<and> principal r = who) (a_evict now (recency st')) = Some x" by blast
  from find_mem [OF x] have "x \<in> set (recency st')" "run_id x = run_id ?r"
    by (simp_all add: a_evict_def a_record_def)
  hence "x = ?r" using recency_distinct [OF ok] \<open>?r \<in> set (recency st')\<close> by (auto simp: distinct_map inj_on_def)
  thus ?thesis using x by simp
qed

lemma compiled_run_is_readable:
  assumes b: "bounded_by 128 3600 st" and fresh: "rid \<notin> set (rs_order st)"
    and c: "tool_compile_runtime wd sv t rid token m tt snap expected st = Some (st', Inr v)"
    and same: "resolve_principal wd' (sv_hosted sv) token' = resolve_principal wd (sv_hosted sv) token"
    and live: "now < t + 3600"
  shows "\<exists>b. mcp_compile wd sv m tt snap expected = Some (Inr b) \<and>
    snd (run_resource wd' sv now token' rid st') = Inr (JObj (run_payload wd b))"
proof -
  from c obtain b who where h: "mcp_compile wd sv m tt snap expected = Some (Inr b)"
      "resolve_principal wd (sv_hosted sv) token = Some who"
    unfolding tool_compile_runtime_def by (auto split: option.splits sum.splits)
  obtain st1 o1 where cr: "create_run st t rid who (JObj (run_payload wd b)) = (st1, o1)" by fastforce
  have st1: "st1 = st'" using c h cr unfolding tool_compile_runtime_def by (auto split: sum.splits)
  have b': "bounded_by 128 3600 st'" using step_refines [OF b step_create [OF fresh cr]] st1 by simp
  have "find (\<lambda>r. run_id r = rid \<and> principal r = who) (a_evict now (recency st')) =
      Some (a_record 3600 t rid who (JObj (run_payload wd b)))"
    using created_is_found [OF b _ fresh cr live] st1 by simp
  thus ?thesis using run_resource_owned [OF b'] h same by (simp add: a_record_def)
qed

section \<open>Properties\<close>


text \<open>A server over the sample pack, a compile it refuses for its snapshot, and a read.\<close>

definition sample_server :: mcp_server where
  "sample_server = \<lparr>sv_name = SERVER_NAME, sv_prefix = [], sv_transport = STDIO_TRANSPORT, sv_hosted = False,
     sv_root = ''/p'', sv_pack = sample_loaded, sv_pack_ref = ''p''\<rparr>"

definition sample_wd :: world where
  "sample_wd = \<lparr>wd_hash = (\<lambda>bytes. bytes), wd_json = sample_parse, wd_readers = sample_readers, wd_files = sample_files,
     wd_snapshot = (\<lambda>_. Inr empty_snapshot), wd_components = (\<lambda>_. JNull)\<rparr>"

lemma sample_builds:
  "build_server sample_wd ''/p'' False SERVER_NAME [] STDIO_TRANSPORT = Inr (sample_server, empty_store 128 3600)"
  by code_simp

definition refused :: request where
  "refused = CompileRun sample_wd 0 ''a'' None ''m'' ''t'' (Some JNull) None"

lemma refused_runs:
  "runs (serve_step sample_server) (empty_store 128 3600) [refused, ReadRun sample_wd 1 None ''a''] (empty_store 128 3600)"
proof -
  have c: "serve_step sample_server (empty_store 128 3600) refused (empty_store 128 3600)"
    unfolding refused_def
    by (rule serve_compile [of _ _ _ _ _ _ _ _ _ _ _ "Inl (ToolError (error_text (InvalidValueError ''context_snapshot must be an object'' ''context_snapshot'')))"])
      (simp_all add: empty_store_def tool_compile_runtime_def mcp_compile_def parse_context_snapshot_def bindO_def
        translated_def as_tool_error_def)
  have r: "serve_step sample_server (empty_store 128 3600) (ReadRun sample_wd 1 None ''a'') (empty_store 128 3600)"
    by (rule serve_read [of _ _ _ _ _ _ _ "Inl (RunNotFoundError ''a'')"]) code_simp
  have one: "runs (serve_step sample_server) (empty_store 128 3600) [refused] (empty_store 128 3600)"
    using runs_more [of "serve_step sample_server" "empty_store 128 3600" "[]", OF runs_none c] by simp
  from runs_more [of "serve_step sample_server", OF one r] show ?thesis by simp
qed


end
