(* ===== verification/Deployment.thy ===== *)
theory Deployment
  imports Adapters Pack
begin

text \<open>
  The build of a deployment pack (\<open>deployment.py\<close>): what is registered, the copies, the manifest and
  the proof that every route compiles from the sealed pack. The file system is the one of the theory Pack with
  its listings, and it changes: every step returns it. Resolving a path does not depend on the files
  written, since the build makes no links.
\<close>

section \<open>Sources\<close>

definition PACK_NAME :: string where
  "PACK_NAME = ''l9-cognitive-runtime-deployment''"

definition SOURCE_REPOSITORY :: string where
  "SOURCE_REPOSITORY = ''https://github.com/Quantum-L9/l9-cognitive-runtime''"

definition full_sha :: "string \<Rightarrow> bool" where
  "full_sha s \<longleftrightarrow> length s = 40 \<and> list_all (\<lambda>c. c \<in> set ''0123456789abcdef'') s"

definition MUSEUM_CONTRACTS :: "string list" where
  "MUSEUM_CONTRACTS = [''FINAL_EXECUTION_CONTRACT.yaml'', ''VALIDATION_CONTRACT.yaml'', ''HANDOFF_CONTRACT.yaml'',
     ''EXECUTION_GRAPH.json'']"

definition CLOSURE_SOURCES :: "string list" where
  "CLOSURE_SOURCES = [RULES_REL, PIPELINE_REL, ''runtime/kernel_pipeline/KERNEL_ROLE_MAP.yaml'',
     ''runtime/kernel_pipeline/planner/ACTIVATION_PLAN_SCHEMA.yaml'', ''runtime/intent_compiler/INTENT_COMPILER.yaml'',
     ''runtime/execution_graph/graph.schema.json'', ''runtime/kernels/terminal/flawless_victory.contract.yaml'']"

definition source_file :: "file_system \<Rightarrow> string \<Rightarrow> string \<Rightarrow> string res" where
  "source_file fs root rel =
     (if starts_with rel ''/'' \<or> ''..'' \<in> set (path_parts rel)
      then Inl (InvalidValueError ''deployment source path escapes repository'' rel)
      else
       (let candidate = fs_resolve fs (under root rel) in
        if \<not> relative_to candidate root then Inl (InvalidValueError ''deployment source path escapes repository'' rel)
        else if \<not> fs_is_file fs candidate then Inl (InvalidValueError ''deployment source file missing'' rel)
        else Inr candidate))"

text \<open>
  Listings: the names in a directory, and the paths of everything beneath it, relative to it.
\<close>

record dir_listing =
  dl_names :: "string \<Rightarrow> string list"
  dl_walk :: "string \<Rightarrow> string list"

definition is_file_at :: "file_system \<Rightarrow> string \<Rightarrow> bool" where
  "is_file_at fs p \<longleftrightarrow> fs_is_file fs (fs_resolve fs p)"

definition is_dir_at :: "file_system \<Rightarrow> string \<Rightarrow> bool" where
  "is_dir_at fs p \<longleftrightarrow> fs_is_dir fs (fs_resolve fs p)"

definition iter_kernel_sources :: "dir_listing \<Rightarrow> file_system \<Rightarrow> string \<Rightarrow> string list res" where
  "iter_kernel_sources dl fs root =
     (let kernels = under root ''runtime/kernels'' in
      if \<not> is_dir_at fs kernels then Inl (InvalidValueError ''runtime/kernels missing'' ''runtime/kernels'')
      else Inr (sort (map (under ''runtime/kernels'') (filter (\<lambda>p. is_file_at fs (under kernels p)) (dl_walk dl kernels)))))"

definition iter_schema_sources :: "dir_listing \<Rightarrow> file_system \<Rightarrow> string \<Rightarrow> string list res" where
  "iter_schema_sources dl fs root =
     (let schemas = under root ''contracts'' in
      if \<not> is_dir_at fs schemas then Inl (InvalidValueError ''contracts missing'' ''contracts'')
      else Inr (sort (map (under ''contracts'') (filter (\<lambda>n. ends_with n ''.schema.json'' \<and> is_file_at fs (under schemas n))
             (dl_names dl schemas)))))"

definition ADAPTER_DIR :: string where
  "ADAPTER_DIR = ''runtime/contract_compiler/adapters''"

definition iter_adapter_sources :: "dir_listing \<Rightarrow> file_system \<Rightarrow> string \<Rightarrow> string list res" where
  "iter_adapter_sources dl fs root =
     (let adapters = under root ADAPTER_DIR in
      if \<not> is_dir_at fs adapters then Inl (InvalidValueError ''adapter templates missing'' adapters)
      else Inr (sort (map (under ADAPTER_DIR) (filter (\<lambda>n. ends_with n ''.md'' \<and> is_file_at fs (under adapters n))
             (dl_names dl adapters)))))"

section \<open>Registration\<close>

text \<open>The copies map a target to its source; the empty alias stands for none.\<close>

definition slashes :: "string \<Rightarrow> string" where
  "slashes s = map (\<lambda>c. if c = CHR 0x5C then CHR ''/'' else c) s"

definition target_of :: "string \<Rightarrow> string option \<Rightarrow> string" where
  "target_of rel alias = slashes (case alias of None \<Rightarrow> rel | Some d \<Rightarrow> if d = [] then rel else d)"

definition register ::
  "file_system \<Rightarrow> string \<Rightarrow> (string \<times> string) list \<Rightarrow> string \<times> string option \<Rightarrow> (string \<times> string) list res" where
  "register fs source copies req =
     bindR (source_file fs source (fst req)) (\<lambda>_.
       case map_of copies (target_of (fst req) (snd req)) of
         Some existing \<Rightarrow>
           if existing \<noteq> fst req then Inl (InvalidValueError ''deployment alias collision'' (target_of (fst req) (snd req)))
           else Inr (dict_put (target_of (fst req) (snd req)) (fst req) copies)
       | None \<Rightarrow> Inr (dict_put (target_of (fst req) (snd req)) (fst req) copies))"

fun register_all ::
  "file_system \<Rightarrow> string \<Rightarrow> (string \<times> string option) list \<Rightarrow> (string \<times> string) list \<Rightarrow> (string \<times> string) list res" where
  "register_all fs source [] copies = Inr copies"
| "register_all fs source (req # reqs) copies =
     bindR (register fs source copies req) (register_all fs source reqs)"

text \<open>The requests of the listings, in the order of the code: each source, and the public alias of a kernel or schema.\<close>

definition with_alias :: "string \<Rightarrow> string list \<Rightarrow> (string \<times> string option) list" where
  "with_alias dir rels = concat (map (\<lambda>r. [(r, None), (r, Some (under dir (path_name r)))]) rels)"

definition plain_requests :: "string list \<Rightarrow> (string \<times> string option) list" where
  "plain_requests rels = map (\<lambda>r. (r, None)) rels"

definition collect_copies :: "dir_listing \<Rightarrow> file_system \<Rightarrow> string \<Rightarrow> (string \<times> string) list res" where
  "collect_copies dl fs source =
     bindR (register_all fs source (plain_requests (MUSEUM_CONTRACTS @ CLOSURE_SOURCES)) []) (\<lambda>c1.
     bindR (iter_kernel_sources dl fs source) (\<lambda>kernels.
     bindR (register_all fs source (with_alias ''kernels'' kernels) c1) (\<lambda>c2.
     bindR (iter_schema_sources dl fs source) (\<lambda>schemas.
     bindR (register_all fs source (with_alias ''schemas'' schemas) c2) (\<lambda>c3.
     bindR (iter_adapter_sources dl fs source) (\<lambda>adapters.
     register_all fs source (plain_requests adapters) c3))))))"

section \<open>Writing\<close>

text \<open>
  \<open>mkdir(parents=True, exist_ok=True)\<close> and \<open>write_bytes\<close> fail on a file in the place of a directory and on a
  directory in the place of the file; directories an error leaves behind are not modelled.
\<close>

definition parents :: "string \<Rightarrow> string list" where
  "parents p = map (\<lambda>i. take i p) (filter (\<lambda>i. p ! i = CHR ''/'') [0..<length p])"

definition make_dirs :: "file_system \<Rightarrow> string list \<Rightarrow> file_system option" where
  "make_dirs fs ds = (if list_ex (fs_is_file fs) ds then None
     else Some (fs\<lparr>fs_is_dir := \<lambda>q. fs_is_dir fs q \<or> q \<in> set ds\<rparr>))"

definition write_at :: "file_system \<Rightarrow> string \<Rightarrow> string \<Rightarrow> file_system option" where
  "write_at fs p data = (if fs_is_dir fs p then None else Some (fs\<lparr>fs_bytes := (fs_bytes fs)(p \<mapsto> data)\<rparr>))"

definition write_target :: "file_system \<Rightarrow> string \<Rightarrow> string \<Rightarrow> file_system option" where
  "write_target fs p data = (case make_dirs fs (parents (fs_resolve fs p)) of
     None \<Rightarrow> None | Some fs' \<Rightarrow> write_at fs' (fs_resolve fs p) data)"

definition manifest_entry :: "(string \<Rightarrow> string) \<Rightarrow> string \<Rightarrow> string \<Rightarrow> string \<Rightarrow> json" where
  "manifest_entry H target source_rel data = JObj
     [(''path'', JStr target), (''source_path'', JStr source_rel), (''bytes'', JInt (int (length data))), (''sha256'', JStr (H data))]"

text \<open>The copies in the order of their targets, and the entries of the manifest.\<close>

fun write_copies ::
  "(string \<Rightarrow> string) \<Rightarrow> string \<Rightarrow> string \<Rightarrow> (string \<times> string) list \<Rightarrow> file_system \<Rightarrow> file_system \<times> json list res" where
  "write_copies H source dest [] fs = (fs, Inr [])"
| "write_copies H source dest ((target, rel) # rest) fs =
     (case bindR (source_file fs source rel) (read_bytes fs) of
        Inl e \<Rightarrow> (fs, Inl e)
      | Inr data \<Rightarrow>
          (case write_target fs (under dest target) data of
             None \<Rightarrow> (fs, Inl PyOSError)
           | Some fs1 \<Rightarrow>
               (case write_copies H source dest rest fs1 of
                  (fs2, out) \<Rightarrow> (fs2, bindR out (\<lambda>es. Inr (manifest_entry H target rel data # es))))))"

section \<open>The manifest\<close>

text \<open>\<open>json.dumps(v, indent=2, sort_keys=True) + newline\<close>.\<close>

definition indent :: "nat \<Rightarrow> string" where
  "indent n = newline # replicate (2 * n) CHR '' ''"

fun pretty :: "nat \<Rightarrow> json \<Rightarrow> string" where
  "pretty n (JList xs) = (if xs = [] then ''[]''
     else ''['' @ join_with '','' (map (\<lambda>x. indent (Suc n) @ pretty (Suc n) x) xs) @ indent n @ '']'')"
| "pretty n (JObj kvs) = (if kvs = [] then ''{}''
     else ''{'' @ join_with '','' (map (\<lambda>(k, v). indent (Suc n) @ enc_str k @ '': '' @ pretty (Suc n) v) kvs) @ indent n @ ''}'')"
| "pretty n v = encode v"

definition manifest_text :: "(string \<times> json) list \<Rightarrow> string" where
  "manifest_text kvs = ascii_escape (pretty 0 (normalize_json (JObj kvs))) @ [newline]"

definition base_manifest :: "string \<Rightarrow> json list \<Rightarrow> (string \<times> json) list" where
  "base_manifest revision entries =
     [(''manifest_format'', JStr ''l9.mcp.deployment-pack.v1''), (''pack_name'', JStr PACK_NAME),
      (''pack_version'', JStr (take 12 revision)), (''source_repository'', JStr SOURCE_REPOSITORY),
      (''source_revision'', JStr revision), (''files'', JList entries)]"

definition sealed_manifest :: "string \<Rightarrow> json list \<Rightarrow> json \<Rightarrow> (string \<times> json) list" where
  "sealed_manifest revision entries closure = base_manifest revision entries @ [(''semantic_closure'', closure)]"

section \<open>Closure over the routes\<close>

text \<open>\<open>tokens[0]\<close> of a truthy value.\<close>

fun first_token :: "json \<Rightarrow> json res" where
  "first_token (JList (x # xs)) = Inr x"
| "first_token (JStr (c # cs)) = Inr (JStr [c])"
| "first_token (JObj kvs) = Inl (PyKeyError ''0'')"
| "first_token _ = Inl PyTypeError"

definition route_mission :: "string \<Rightarrow> json \<Rightarrow> string res" where
  "route_mission name route =
     bindR (py_get_or route ''match_any'' (JList [])) (\<lambda>tokens.
       if falsy tokens then Inl (InvalidValueError ''route without match_any tokens'' name)
       else bindR (first_token tokens) (\<lambda>t. Inr (''Representative '' @ py_str t @ '' mission'')))"

definition deployment_request :: "string \<Rightarrow> string \<Rightarrow> service_request" where
  "deployment_request root m = compile_request.extend (default_request m DEFAULT_TASK_TYPE)
     (service_request.fields (Some root) None)"

definition compile_route ::
  "(string \<Rightarrow> string) \<Rightarrow> service_env \<Rightarrow> string \<Rightarrow> string \<times> json \<Rightarrow> (string \<times> string) res option" where
  "compile_route H env root route =
     bindO (Some (route_mission (fst route) (snd route))) (\<lambda>m.
     bindO (service_compile_runtime H env (deployment_request root m) None None) (\<lambda>b.
       if map_of (metadata (rb_execution b)) ''matched_route'' \<noteq> Some (JStr (fst route))
       then Some (Inl (InvalidValueError ''representative mission compiled a different route'' (fst route)))
       else Some (Inr (fst route, the (map_of (bundle_digests H b) ''context'')))))"

fun compile_routes ::
  "(string \<Rightarrow> string) \<Rightarrow> service_env \<Rightarrow> string \<Rightarrow> (string \<times> json) list \<Rightarrow> (string \<times> string) list res option" where
  "compile_routes H env root [] = Some (Inr [])"
| "compile_routes H env root (r # rs) =
     bindO (compile_route H env root r) (\<lambda>d. bindO (compile_routes H env root rs) (\<lambda>ds. Some (Inr (d # ds))))"

fun as_routes :: "json \<Rightarrow> (string \<times> json) list res" where
  "as_routes (JObj kvs) = Inr (sort_key fst kvs)"
| "as_routes _ = Inl PyAttributeError"

definition pack_routes ::
  "(string \<Rightarrow> string) \<Rightarrow> document_readers \<Rightarrow> file_system \<Rightarrow> runtime_pack \<Rightarrow> (string \<times> json) list res" where
  "pack_routes H dr fs pack =
     bindR (read_verified H fs pack RULES_REL) (\<lambda>data.
     bindR (load_yaml_mapping (dr_yaml dr) RULES_REL data) (\<lambda>rules.
     bindR (py_get_or rules ''task_routes'' (JObj [])) as_routes))"

definition closure_json :: "(string \<times> string) list \<Rightarrow> json" where
  "closure_json ds = JObj
     [(''routes_compiled'', jstrs (map fst ds)), (''count'', JInt (int (length ds))), (''context_digests'', jdict ds)]"

definition validate_deployment_closure ::
  "(string \<Rightarrow> string) \<Rightarrow> (string \<Rightarrow> json option) \<Rightarrow> document_readers \<Rightarrow> file_system \<Rightarrow> string \<Rightarrow> json res option" where
  "validate_deployment_closure H parse dr fs root =
     bindO (Some (load_pack H parse fs root)) (\<lambda>pack.
     bindO (Some (pack_routes H dr fs pack)) (\<lambda>routes.
     bindO (compile_routes H (local_service H parse dr fs) root routes) (\<lambda>ds. Some (Inr (closure_json ds)))))"

section \<open>The build\<close>

definition check_destination :: "dir_listing \<Rightarrow> file_system \<Rightarrow> string \<Rightarrow> string \<Rightarrow> string \<Rightarrow> unit res" where
  "check_destination dl fs source dest revision =
     (if \<not> full_sha revision then Inl (InvalidValueError ''source_revision must be a full 40-character git SHA'' [])
      else if \<not> fs_is_dir fs source then Inl (InvalidValueError ''source_root must be a directory'' source)
      else if dest = source \<or> relative_to dest source
      then Inl (InvalidValueError ''destination must be outside source_root'' dest)
      else if fs_exists fs dest \<and> (\<not> fs_is_dir fs dest \<or> dl_names dl dest \<noteq> [])
      then Inl (InvalidValueError ''destination must be absent or empty'' dest)
      else Inr ())"

definition finish_pack ::
  "(string \<Rightarrow> string) \<Rightarrow> (string \<Rightarrow> json option) \<Rightarrow> document_readers \<Rightarrow> string \<Rightarrow> string \<Rightarrow> json list \<Rightarrow> file_system \<Rightarrow>
     (file_system \<times> string res) option" where
  "finish_pack H parse dr dest revision entries fs =
     (case write_at fs (under dest ''MANIFEST.json'') (manifest_text (base_manifest revision entries)) of
        None \<Rightarrow> Some (fs, Inl PyOSError)
      | Some fs1 \<Rightarrow>
          (case validate_deployment_closure H parse dr fs1 dest of
             None \<Rightarrow> None
           | Some (Inl e) \<Rightarrow> Some (fs1, Inl e)
           | Some (Inr closure) \<Rightarrow>
               (case write_at fs1 (under dest ''MANIFEST.json'') (manifest_text (sealed_manifest revision entries closure)) of
                  None \<Rightarrow> Some (fs1, Inl PyOSError)
                | Some fs2 \<Rightarrow> Some (fs2, Inr dest))))"

definition build_deployment_pack ::
  "(string \<Rightarrow> string) \<Rightarrow> (string \<Rightarrow> json option) \<Rightarrow> document_readers \<Rightarrow> dir_listing \<Rightarrow> file_system \<Rightarrow>
     string \<Rightarrow> string \<Rightarrow> string \<Rightarrow> (file_system \<times> string res) option" where
  "build_deployment_pack H parse dr dl fs source_root destination source_revision =
     (let source = fs_resolve fs source_root; dest = fs_resolve fs destination;
          revision = lower (strip source_revision) in
      case check_destination dl fs source dest revision of
        Inl e \<Rightarrow> Some (fs, Inl e)
      | Inr _ \<Rightarrow>
          (case make_dirs fs (parents dest @ [dest]) of
             None \<Rightarrow> Some (fs, Inl PyOSError)
           | Some fs0 \<Rightarrow>
               (case collect_copies dl fs0 source of
                  Inl e \<Rightarrow> Some (fs0, Inl e)
                | Inr copies \<Rightarrow>
                    (case write_copies H source dest (sort_key fst copies) fs0 of
                       (fs1, Inl e) \<Rightarrow> Some (fs1, Inl e)
                     | (fs1, Inr entries) \<Rightarrow> finish_pack H parse dr dest revision entries fs1))))"

section \<open>Paths\<close>

lemma split_on_not_Nil [simp]: "split_on d s \<noteq> []"
  by (induction s) (auto split: list.splits)

lemma split_on_append: "split_on d (a @ d # b) = split_on d a @ split_on d b"
proof (induction a)
  case (Cons c a)
  thus ?case by (cases "split_on d a") (auto split: list.splits)
qed simp

lemma split_on_free: "d \<notin> set x \<Longrightarrow> split_on d x = [x]"
  by (induction x) auto

lemma split_on_part: "w \<in> set (split_on d s) \<Longrightarrow> d \<notin> set w"
proof (induction s arbitrary: w)
  case (Cons c s)
  show ?case
  proof (cases "split_on d s")
    case (Cons v vs)
    thus ?thesis using Cons.prems Cons.IH by (auto split: if_splits)
  qed simp
qed simp

lemma path_parts_under: "path_parts (under a b) = path_parts a @ path_parts b"
  by (simp add: path_parts_def under_def split_on_append)

lemma under_not_Nil [simp]: "under a b \<noteq> []"
  by (simp add: under_def)

lemma path_part_alone: "x \<in> set (path_parts p) \<Longrightarrow> path_parts x = [x]"
  by (auto simp: path_parts_def dest!: split_on_part split_on_free)

lemma relative_to_parts: "path_parts c = path_parts root @ xs \<Longrightarrow> relative_to c root"
  by (simp add: relative_to_def)

lemma split_on_sub: "w \<in> set (split_on c s) \<Longrightarrow> set w \<subseteq> set s"
proof (induction s arbitrary: w)
  case (Cons x s)
  thus ?case by (cases "split_on c s") (auto split: if_splits, fastforce+)
qed simp

lemma path_part_sub: "x \<in> set (path_parts p) \<Longrightarrow> set x \<subseteq> set p"
  by (auto simp: path_parts_def dest!: split_on_sub)

lemma slashes_plain: "CHR 0x5C \<notin> set s \<Longrightarrow> slashes s = s"
  by (induction s) (auto simp: slashes_def)

section \<open>What is registered\<close>

text \<open>Every request of the build, in order.\<close>

definition deployment_requests :: "dir_listing \<Rightarrow> file_system \<Rightarrow> string \<Rightarrow> (string \<times> string option) list" where
  "deployment_requests dl fs source =
     plain_requests (MUSEUM_CONTRACTS @ CLOSURE_SOURCES) @
     with_alias ''kernels'' (sort (map (under ''runtime/kernels'')
       (filter (\<lambda>p. is_file_at fs (under (under source ''runtime/kernels'') p)) (dl_walk dl (under source ''runtime/kernels''))))) @
     with_alias ''schemas'' (sort (map (under ''contracts'')
       (filter (\<lambda>n. ends_with n ''.schema.json'' \<and> is_file_at fs (under (under source ''contracts'') n))
         (dl_names dl (under source ''contracts''))))) @
     plain_requests (sort (map (under ADAPTER_DIR)
       (filter (\<lambda>n. ends_with n ''.md'' \<and> is_file_at fs (under (under source ADAPTER_DIR) n))
         (dl_names dl (under source ADAPTER_DIR)))))"

lemma map_of_put: "map_of (dict_put k v d) = (map_of d)(k \<mapsto> v)"
  by (induction k v d rule: dict_put.induct) auto

lemma register_all_append:
  "register_all fs source (as @ bs) c = bindR (register_all fs source as c) (register_all fs source bs)"
  by (induction as arbitrary: c) (auto simp: bindR_def split: sum.splits)

lemma register_Inr:
  assumes "register fs source c req = Inr c'"
  shows "\<exists>p. source_file fs source (fst req) = Inr p" "c' = dict_put (target_of (fst req) (snd req)) (fst req) c"
    "map_of c (target_of (fst req) (snd req)) \<in> {None, Some (fst req)}"
  using assms by (auto simp: register_def bindR_eq_Inr split: option.splits if_splits)

lemma register_all_Inr:
  assumes "register_all fs source reqs c = Inr c'" and "distinct (map fst c)"
  shows "distinct (map fst c') \<and>
    (\<forall>t s. map_of c' t = Some s \<longleftrightarrow> map_of c t = Some s \<or> (\<exists>req \<in> set reqs. t = target_of (fst req) (snd req) \<and> s = fst req)) \<and>
    (\<forall>req \<in> set reqs. \<exists>p. source_file fs source (fst req) = Inr p)"
  using assms
proof (induction reqs arbitrary: c)
  case (Cons req reqs)
  then obtain c1 where c1: "register fs source c req = Inr c1" "register_all fs source reqs c1 = Inr c'"
    by (auto simp: bindR_eq_Inr)
  note r = register_Inr [OF c1(1)]
  have "distinct (map fst c1)" unfolding r(2) by (rule distinct_dict_put [OF Cons.prems(2)])
  from Cons.IH [OF c1(2) this] r(1,3) show ?case unfolding r(2) map_of_put by auto
qed simp

lemma collect_copies_Inr:
  assumes "collect_copies dl fs source = Inr copies"
  shows "register_all fs source (deployment_requests dl fs source) [] = Inr copies"
  using assms unfolding collect_copies_def deployment_requests_def register_all_append bindR_eq_Inr
  by (clarsimp simp: iter_kernel_sources_def iter_schema_sources_def iter_adapter_sources_def Let_def split: if_splits)

text \<open>A target that stays beneath the destination and is not the manifest.\<close>

definition safe_target :: "string \<Rightarrow> bool" where
  "safe_target t \<longleftrightarrow> ''..'' \<notin> set (path_parts t) \<and> path_parts t \<noteq> [''MANIFEST.json'']"

definition no_backslash :: "dir_listing \<Rightarrow> bool" where
  "no_backslash dl \<longleftrightarrow> (\<forall>d. CHR 0x5C \<notin> \<Union> (set ` set (dl_names dl d)) \<and> CHR 0x5C \<notin> \<Union> (set ` set (dl_walk dl d)))"

lemma source_file_parts: "source_file fs root rel = Inr p \<Longrightarrow> ''..'' \<notin> set (path_parts rel) \<and> p = fs_resolve fs (under root rel) \<and>
    fs_bytes fs p \<noteq> None"
  by (auto simp: source_file_def Let_def fs_is_file_def split: if_splits)

lemma safe_under:
  assumes "''..'' \<notin> set (path_parts (under d x))" "CHR 0x5C \<notin> set (under d x)" "path_parts d \<noteq> []"
    "hd (path_parts d) \<noteq> ''MANIFEST.json''"
  shows "safe_target (target_of (under d x) None)"
  using assms by (cases "path_parts d") (simp_all add: safe_target_def target_of_def slashes_plain path_parts_under)

lemma safe_alias:
  assumes "''..'' \<notin> set (path_parts r)" "CHR 0x5C \<notin> set r" "CHR 0x5C \<notin> set d" "path_parts d = [h]" "h \<noteq> ''..''" "h \<noteq> ''MANIFEST.json''"
  shows "safe_target (target_of r (Some (under d (path_name r))))"
proof -
  have name: "path_name r = [] \<or> path_name r \<in> set (path_parts r)" by (simp add: path_name_def)
  hence "set (path_name r) \<subseteq> set r" using path_part_sub by auto
  hence free: "CHR 0x5C \<notin> set (under d (path_name r))" using assms(2,3) by (auto simp: under_def)
  have "path_parts (path_name r) = [] \<or> path_parts (path_name r) = [path_name r] \<and> path_name r \<noteq> ''..''"
    using name assms(1) path_part_alone by (auto simp: path_parts_def)
  thus ?thesis using assms(4-6)
    by (auto simp: safe_target_def target_of_def slashes_plain [OF free] path_parts_under)
qed

lemma under_free: "CHR 0x5C \<notin> set d \<Longrightarrow> CHR 0x5C \<notin> set x \<Longrightarrow> CHR 0x5C \<notin> set (under d x)"
  by (simp add: under_def)

text \<open>The three shapes of a registered request: a fixed path, a listed file under its own path, a listed file
  under its alias.\<close>

lemma request_cases:
  assumes free: "no_backslash dl" and req: "req \<in> set (deployment_requests dl fs source)"
  obtains (fixed) r where "req = (r, None)" "r \<in> set (MUSEUM_CONTRACTS @ CLOSURE_SOURCES)"
    | (plain) d x where "req = (under d x, None)" "d \<in> {''runtime/kernels'', ''contracts'', ADAPTER_DIR}" "CHR 0x5C \<notin> set x"
    | (aliased) d d' x where "req = (under d' x, Some (under d (path_name (under d' x))))" "d \<in> {''kernels'', ''schemas''}"
        "d' \<in> {''runtime/kernels'', ''contracts''}" "CHR 0x5C \<notin> set x"
proof -
  have "CHR 0x5C \<notin> set x" if "x \<in> set (dl_names dl d) \<or> x \<in> set (dl_walk dl d)" for x d
    using free that by (auto simp: no_backslash_def)
  note free = this
  from req consider (1) r where "req = (r, None)" "r \<in> set (MUSEUM_CONTRACTS @ CLOSURE_SOURCES)"
    | (2) d x where "req = (under d x, None)" "d = ''runtime/kernels'' \<or> d = ''contracts'' \<or> d = ADAPTER_DIR"
        "x \<in> set (dl_names dl (under source d)) \<or> x \<in> set (dl_walk dl (under source d))"
    | (3) d d' x where "req = (under d' x, Some (under d (path_name (under d' x))))" "d = ''kernels'' \<or> d = ''schemas''"
        "d' = ''runtime/kernels'' \<or> d' = ''contracts''"
        "x \<in> set (dl_names dl (under source d')) \<or> x \<in> set (dl_walk dl (under source d'))"
    unfolding deployment_requests_def plain_requests_def with_alias_def by (auto split: prod.splits)
  thus thesis
  proof cases
    case 1
    thus ?thesis by (rule fixed)
  next
    case (2 d x)
    show ?thesis by (rule plain [OF 2(1) _ free [OF 2(3)]]) (use 2(2) in simp)
  next
    case (3 d d' x)
    show ?thesis by (rule aliased [OF 3(1) _ _ free [OF 3(4)]]) (use 3(2,3) in simp_all)
  qed
qed

lemma plain_request_safe:
  assumes "''..'' \<notin> set (path_parts (under d x))" "d \<in> {''runtime/kernels'', ''contracts'', ADAPTER_DIR}" "CHR 0x5C \<notin> set x"
  shows "safe_target (target_of (under d x) None)"
proof -
  have dirs: "CHR 0x5C \<notin> set ''runtime/kernels''" "CHR 0x5C \<notin> set ''contracts''" "CHR 0x5C \<notin> set ADAPTER_DIR"
    by code_simp+
  have heads: "path_parts ''runtime/kernels'' = [''runtime'', ''kernels'']" "path_parts ''contracts'' = [''contracts'']"
    "path_parts ADAPTER_DIR = [''runtime'', ''contract_compiler'', ''adapters'']" by code_simp+
  have "CHR 0x5C \<notin> set d" using assms(2) dirs by blast
  hence free: "CHR 0x5C \<notin> set (under d x)" by (rule under_free [OF _ assms(3)])
  have ne: "path_parts d \<noteq> []" "hd (path_parts d) \<noteq> ''MANIFEST.json''" using assms(2) heads by fastforce+
  show ?thesis by (rule safe_under [OF assms(1) free ne])
qed

lemma aliased_request_safe:
  assumes "''..'' \<notin> set (path_parts (under d' x))" "d \<in> {''kernels'', ''schemas''}" "d' \<in> {''runtime/kernels'', ''contracts''}"
    "CHR 0x5C \<notin> set x"
  shows "safe_target (target_of (under d' x) (Some (under d (path_name (under d' x)))))"
proof -
  have "CHR 0x5C \<notin> set ''runtime/kernels''" "CHR 0x5C \<notin> set ''contracts''" by code_simp+
  hence "CHR 0x5C \<notin> set d'" using assms(3) by blast
  hence free: "CHR 0x5C \<notin> set (under d' x)" by (rule under_free [OF _ assms(4)])
  have "path_parts ''kernels'' = [''kernels'']" "path_parts ''schemas'' = [''schemas'']" "CHR 0x5C \<notin> set ''kernels''"
    "CHR 0x5C \<notin> set ''schemas''" by code_simp+
  hence "\<exists>h. path_parts d = [h] \<and> h \<noteq> ''..'' \<and> h \<noteq> ''MANIFEST.json'' \<and> CHR 0x5C \<notin> set d" using assms(2) by auto
  then obtain h where h: "path_parts d = [h]" "h \<noteq> ''..''" "h \<noteq> ''MANIFEST.json''" "CHR 0x5C \<notin> set d" by blast
  show ?thesis by (rule safe_alias [OF assms(1) free h(4) h(1-3)])
qed

lemma requests_safe:
  assumes files: "\<forall>req \<in> set (deployment_requests dl fs source). \<exists>p. source_file fs source (fst req) = Inr p"
    and free: "no_backslash dl" and req: "req \<in> set (deployment_requests dl fs source)"
  shows "safe_target (target_of (fst req) (snd req))"
proof -
  have dots: "''..'' \<notin> set (path_parts (fst req))" using files req source_file_parts by blast
  have constants: "list_all (\<lambda>r. safe_target (target_of r None)) (MUSEUM_CONTRACTS @ CLOSURE_SOURCES)" by code_simp
  from free req show ?thesis
  proof (cases rule: request_cases)
    case (fixed r)
    thus ?thesis using constants by (simp add: list_all_iff)
  next
    case (plain d x)
    thus ?thesis using plain_request_safe [of d x] dots by simp
  next
    case (aliased d d' x)
    thus ?thesis using aliased_request_safe [of d' x d] dots by simp
  qed
qed

section \<open>What is written\<close>

lemma make_dirs_Some: "make_dirs fs ds = Some fs' \<Longrightarrow> fs_bytes fs' = fs_bytes fs \<and> fs_resolve fs' = fs_resolve fs"
  by (auto simp: make_dirs_def split: if_splits)

lemma write_at_Some: "write_at fs p data = Some fs' \<Longrightarrow>
    fs_bytes fs' = (fs_bytes fs)(p \<mapsto> data) \<and> fs_resolve fs' = fs_resolve fs \<and> fs_is_dir fs' = fs_is_dir fs"
  by (auto simp: write_at_def split: if_splits)

lemma write_target_Some: "write_target fs p data = Some fs' \<Longrightarrow>
    fs_bytes fs' = (fs_bytes fs)(fs_resolve fs p \<mapsto> data) \<and> fs_resolve fs' = fs_resolve fs"
  using make_dirs_Some write_at_Some by (fastforce simp: write_target_def split: option.splits)

text \<open>The bytes of a source in the file system the build started from.\<close>

definition source_bytes :: "file_system \<Rightarrow> string \<Rightarrow> string \<Rightarrow> string" where
  "source_bytes fs source rel = the (fs_bytes fs (fs_resolve fs (under source rel)))"

lemma write_copies_Inr:
  assumes "write_copies H source dest cs fs = (fs', Inr es)"
    and "\<forall>c \<in> set cs. relative_to (fs_resolve fs (under dest (fst c))) dest \<and>
      fs_bytes fs (fs_resolve fs (under source (snd c))) \<noteq> None \<and> \<not> relative_to (fs_resolve fs (under source (snd c))) dest"
  shows "fs_resolve fs' = fs_resolve fs \<and> (\<forall>p. \<not> relative_to p dest \<longrightarrow> fs_bytes fs' p = fs_bytes fs p) \<and>
    es = map (\<lambda>c. manifest_entry H (fst c) (snd c) (source_bytes fs source (snd c))) cs"
  using assms
proof (induction cs arbitrary: fs es)
  case (Cons c cs)
  obtain t s where c: "c = (t, s)" by (cases c)
  from Cons.prems(1) obtain data fs1 es1 where
    d: "bindR (source_file fs source s) (read_bytes fs) = Inr data" and
    w: "write_target fs (under dest t) data = Some fs1" and
    r: "write_copies H source dest cs fs1 = (fs', Inr es1)" and es: "es = manifest_entry H t s data # es1"
    unfolding c by (auto simp: bindR_eq_Inr split: sum.splits option.splits prod.splits)
  have data: "data = source_bytes fs source s"
    using d source_file_parts by (fastforce simp: bindR_eq_Inr read_bytes_def source_bytes_def split: option.splits)
  note f = write_target_Some [OF w]
  have here: "relative_to (fs_resolve fs (under dest t)) dest" using Cons.prems(2) c by simp
  have same: "fs_bytes fs1 p = fs_bytes fs p" if "\<not> relative_to p dest" for p using f here that by auto
  have bytes: "source_bytes fs1 source (snd x) = source_bytes fs source (snd x)" if "x \<in> set cs" for x
    using that Cons.prems(2) same f by (auto simp: source_bytes_def)
  have "\<forall>x \<in> set cs. relative_to (fs_resolve fs1 (under dest (fst x))) dest \<and>
      fs_bytes fs1 (fs_resolve fs1 (under source (snd x))) \<noteq> None \<and> \<not> relative_to (fs_resolve fs1 (under source (snd x))) dest"
    using Cons.prems(2) same f by auto
  from Cons.IH [OF r this] show ?case using f same bytes data es c by auto
qed simp

lemma build_Inr:
  assumes "build_deployment_pack H parse dr dl fs src dst sha = Some (fs', Inr D)"
  shows "\<exists>fs0 copies fs1 entries. D = fs_resolve fs dst \<and> fs_bytes fs0 = fs_bytes fs \<and> fs_resolve fs0 = fs_resolve fs \<and>
    check_destination dl fs (fs_resolve fs src) D (lower (strip sha)) = Inr () \<and>
    collect_copies dl fs0 (fs_resolve fs src) = Inr copies \<and>
    write_copies H (fs_resolve fs src) D (sort_key fst copies) fs0 = (fs1, Inr entries) \<and>
    finish_pack H parse dr D (lower (strip sha)) entries fs1 = Some (fs', Inr D)"
proof -
  let ?dest = "fs_resolve fs dst"
  from assms obtain fs0 copies fs1 entries where h:
    "check_destination dl fs (fs_resolve fs src) ?dest (lower (strip sha)) = Inr ()" "make_dirs fs (parents ?dest @ [?dest]) = Some fs0"
    "collect_copies dl fs0 (fs_resolve fs src) = Inr copies"
    "write_copies H (fs_resolve fs src) ?dest (sort_key fst copies) fs0 = (fs1, Inr entries)"
    "finish_pack H parse dr ?dest (lower (strip sha)) entries fs1 = Some (fs', Inr D)"
    unfolding build_deployment_pack_def Let_def by (auto split: sum.splits option.splits prod.splits)
  have "D = ?dest" using h(5) by (auto simp: finish_pack_def split: option.splits sum.splits)
  thus ?thesis using h make_dirs_Some [OF h(2)] by blast
qed

section \<open>What is loaded\<close>

lemma map_of_sort_key: "distinct (map fst kvs) \<Longrightarrow> map_of (sort_key fst kvs) k = map_of kvs k"
proof -
  assume d: "distinct (map fst kvs)"
  have "map_of (sort_key fst kvs) = map_of kvs"
    using d by (subst map_of_inject_set) (simp_all add: distinct_map)
  thus ?thesis by simp
qed

lemma normalized_field:
  assumes "distinct (map fst kvs)"
  shows "\<exists>kvs'. normalize_json (JObj kvs) = JObj kvs' \<and> (\<forall>k. map_of kvs' k = map_option normalize_json (map_of kvs k))"
proof -
  let ?n = "map (\<lambda>(k, v). (k, normalize_json v)) kvs"
  have "map fst ?n = map fst kvs" by (induction kvs) auto
  with assms have d: "distinct (map fst ?n)" by metis
  have "map_of (sort_key fst ?n) k = map_option normalize_json (map_of kvs k)" for k
    unfolding map_of_sort_key [OF d] by (simp add: map_of_map)
  thus ?thesis by simp
qed

lemma entry_fields_written: "entry_fields (normalize_json (manifest_entry H t s data)) = Inr (t, H data)"
proof -
  let ?kvs = "[(''path'', JStr t), (''source_path'', JStr s), (''bytes'', JInt (int (length data))), (''sha256'', JStr (H data))]"
  obtain kvs where "normalize_json (JObj ?kvs) = JObj kvs" "\<forall>k. map_of kvs k = map_option normalize_json (map_of ?kvs k)"
    using normalized_field [of ?kvs] by auto
  thus ?thesis by (simp add: manifest_entry_def entry_fields_def)
qed

lemma manifest_files:
  assumes "m = base_manifest r es \<or> m = sealed_manifest r es c"
  shows "\<exists>kvs. normalize_json (JObj m) = JObj kvs \<and> map_of kvs ''files'' = Some (JList (map normalize_json es))"
proof -
  have "distinct (map fst m)" "map_of m ''files'' = Some (JList es)"
    using assms by (auto simp: base_manifest_def sealed_manifest_def)
  thus ?thesis using normalized_field by fastforce
qed

lemma verify_entries_frame:
  assumes "fs_resolve fs' = fs_resolve fs"
    and "\<forall>e \<in> set es. \<forall>t h. entry_fields e = Inr (t, h) \<longrightarrow>
      fs_bytes fs' (fs_resolve fs (under root t)) = fs_bytes fs (fs_resolve fs (under root t))"
  shows "verify_entries H fs' root ds es = verify_entries H fs root ds es"
  using assms(2)
proof (induction es arbitrary: ds)
  case (Cons e es)
  have "safe_join fs' root rel = safe_join fs root rel" for rel by (simp add: safe_join_def assms(1))
  moreover have "fs_is_file fs' p = fs_is_file fs p \<and> sha256_file H fs' p = sha256_file H fs p"
    if "entry_fields e = Inr (t, h)" "safe_join fs root t = Inr p" for t h p
    using Cons.prems that safe_join_Inr [OF that(2)] by (simp add: fs_is_file_def sha256_file_def read_bytes_def)
  ultimately show ?case using Cons
    by (cases "entry_fields e") (auto simp: bindR_def split: sum.splits)
qed simp

lemma verify_entries_digests:
  assumes "verify_entries H fs root ds es = Inr out" and "list_all2 (\<lambda>e th. entry_fields e = Inr th) es ths"
    and "\<forall>th \<in> set ths. fst th \<noteq> ''MANIFEST.json'' \<and> lower (snd th) = snd th" and "distinct (map fst ths)"
  shows "map_of out k = (case map_of ths k of Some h \<Rightarrow> Some h | None \<Rightarrow> map_of ds k)"
  using assms
proof (induction es arbitrary: ds ths)
  case (Cons e es)
  from Cons.prems(2) obtain t h ths' where ths: "ths = (t, h) # ths'" "entry_fields e = Inr (t, h)"
      "list_all2 (\<lambda>e th. entry_fields e = Inr th) es ths'"
    by (auto simp: list_all2_Cons1)
  with Cons.prems(1,3) have "verify_entries H fs root (dict_put t h ds) es = Inr out"
    by (auto simp: bindR_eq_Inr split: if_splits)
  hence ih: "map_of out k = (case map_of ths' k of Some h \<Rightarrow> Some h | None \<Rightarrow> map_of (dict_put t h ds) k)"
    using Cons.IH [OF _ ths(3)] Cons.prems(3,4) ths(1) by simp
  have "t \<notin> fst ` set ths'" using Cons.prems(4) ths(1) by simp
  hence "map_of ths' t = None" by (simp add: map_of_eq_None_iff)
  thus ?case unfolding ih ths(1) map_of_put by (auto split: option.splits)
qed simp

lemma load_pack_reads:
  assumes "load_pack H parse fs D = Inr pack" and "fs_resolve fs D = D"
    and "fs_bytes fs (under D ''MANIFEST.json'') = Some text" and "parse text = Some (JObj kvs)"
    and "map_of kvs ''files'' = Some (JList files)"
  shows "non_blank D \<and> fs_is_dir fs D \<and> verify_entries H fs D [] files = Inr (file_digests (rp_provenance pack))"
  using assms
  by (auto simp: load_pack_def Let_def bindR_eq_Inr read_bytes_def fs_is_file_def split: if_splits)

lemma load_pack_again:
  assumes "non_blank D" "fs_is_dir fs D" "fs_resolve fs D = D" "fs_bytes fs (under D ''MANIFEST.json'') = Some data"
    "parse data = Some (JObj kvs)" "map_of kvs ''files'' = Some (JList files)" "verify_entries H fs D [] files = Inr ds"
  shows "\<exists>pack. load_pack H parse fs D = Inr pack \<and> file_digests (rp_provenance pack) = ds \<and> rp_manifest pack = kvs"
  using assms by (simp add: load_pack_def Let_def read_bytes_def fs_is_file_def sha256_file_def)

lemma compile_route_Inr:
  assumes "compile_route H env root r = Some (Inr d)"
  shows "fst d = fst r \<and> (\<exists>m b. route_mission (fst r) (snd r) = Inr m \<and>
    service_compile_runtime H env (deployment_request root m) None None = Some (Inr b) \<and>
    map_of (metadata (rb_execution b)) ''matched_route'' = Some (JStr (fst r)) \<and>
    map_of (bundle_digests H b) ''context'' = Some (snd d))"
  using assms unfolding compile_route_def
  by (auto simp: bindO_Inr bundle_digests_def split: if_splits)

lemma compile_routes_Inr:
  "compile_routes H env root rs = Some (Inr ds) \<Longrightarrow> list_all2 (\<lambda>r d. compile_route H env root r = Some (Inr d)) rs ds"
  by (induction rs arbitrary: ds) (auto simp: bindO_Inr)

section \<open>The sealed pack\<close>

text \<open>
  What is documented of the file system: a file beneath a directory makes it a directory that is not empty, and resolving
  beneath the resolved destination, where the build makes no links, only drops empty components and dots.
\<close>

definition tree_consistent :: "dir_listing \<Rightarrow> file_system \<Rightarrow> bool" where
  "tree_consistent dl fs \<longleftrightarrow> (\<forall>p d. fs_bytes fs p \<noteq> None \<and> relative_to p d \<longrightarrow>
     (p = d \<and> \<not> fs_is_dir fs d) \<or> (fs_is_dir fs d \<and> dl_names dl d \<noteq> []))"

definition resolves_beneath :: "file_system \<Rightarrow> string \<Rightarrow> bool" where
  "resolves_beneath fs d \<longleftrightarrow> fs_resolve fs d = d \<and>
     (\<forall>rel. ''..'' \<notin> set (path_parts rel) \<longrightarrow> path_parts (fs_resolve fs (under d rel)) = path_parts d @ path_parts rel)"

lemma nothing_beneath_destination:
  assumes "check_destination dl fs source D sha = Inr ()" and "tree_consistent dl fs" and "fs_bytes fs p \<noteq> None"
  shows "\<not> relative_to p D"
proof
  assume "relative_to p D"
  with assms(2,3) have "(p = D \<and> \<not> fs_is_dir fs D) \<or> (fs_is_dir fs D \<and> dl_names dl D \<noteq> [])"
    by (simp add: tree_consistent_def)
  thus False using assms(1,3) by (auto simp: check_destination_def fs_exists_def fs_is_file_def split: if_splits)
qed

lemma requests_same:
  "fs_bytes fs' = fs_bytes fs \<Longrightarrow> fs_resolve fs' = fs_resolve fs \<Longrightarrow> deployment_requests dl fs' s = deployment_requests dl fs s"
  by (simp add: deployment_requests_def is_file_at_def fs_is_file_def)

lemma safe_target_place:
  assumes "resolves_beneath fs D" and "safe_target t"
  shows "relative_to (fs_resolve fs (under D t)) D" and "fs_resolve fs (under D t) \<noteq> under D ''MANIFEST.json''"
proof -
  have p: "path_parts (fs_resolve fs (under D t)) = path_parts D @ path_parts t"
    using assms by (simp add: resolves_beneath_def safe_target_def)
  thus "relative_to (fs_resolve fs (under D t)) D" by (rule relative_to_parts)
  have "path_parts ''MANIFEST.json'' = [''MANIFEST.json'']" by code_simp
  hence "path_parts (under D ''MANIFEST.json'') \<noteq> path_parts (fs_resolve fs (under D t))"
    using assms(2) by (auto simp: p path_parts_under safe_target_def)
  thus "fs_resolve fs (under D t) \<noteq> under D ''MANIFEST.json''" by metis
qed

text \<open>The copies that a successful build wrote, and their entries.\<close>

lemma written_copies:
  assumes col: "collect_copies dl fs0 S = Inr copies" and same: "fs_bytes fs0 = fs_bytes fs" "fs_resolve fs0 = fs_resolve fs"
    and chk: "check_destination dl fs S D sha = Inr ()" and names: "no_backslash dl"
    and tree: "tree_consistent dl fs" and res: "resolves_beneath fs D"
    and w: "write_copies H S D (sort_key fst copies) fs0 = (fs1, Inr entries)"
  shows "distinct (map fst copies)"
    and "\<forall>t s. map_of copies t = Some s \<longleftrightarrow> (\<exists>req \<in> set (deployment_requests dl fs S). t = target_of (fst req) (snd req) \<and> s = fst req)"
    and "\<forall>c \<in> set copies. safe_target (fst c)"
    and "\<forall>c \<in> set copies. fs_bytes fs (fs_resolve fs (under S (snd c))) = Some (source_bytes fs S (snd c))"
    and "fs_resolve fs1 = fs_resolve fs" and "\<forall>p. \<not> relative_to p D \<longrightarrow> fs_bytes fs1 p = fs_bytes fs p"
    and "entries = map (\<lambda>c. manifest_entry H (fst c) (snd c) (source_bytes fs S (snd c))) (sort_key fst copies)"
proof -
  have q: "deployment_requests dl fs0 S = deployment_requests dl fs S" by (rule requests_same [OF same])
  note r = register_all_Inr [OF collect_copies_Inr [OF col]]
  have d: "distinct (map fst copies)"
    and m: "\<And>t s. map_of copies t = Some s \<longleftrightarrow> (\<exists>req \<in> set (deployment_requests dl fs S). t = target_of (fst req) (snd req) \<and> s = fst req)"
    and files: "\<forall>req \<in> set (deployment_requests dl fs0 S). \<exists>p. source_file fs0 S (fst req) = Inr p"
    using r by (simp_all add: q)
  have from_req: "\<exists>req \<in> set (deployment_requests dl fs0 S). fst c = target_of (fst req) (snd req) \<and> snd c = fst req" if "c \<in> set copies" for c
    using that m [of "fst c" "snd c"] d by (simp add: q)
  have safe: "\<forall>c \<in> set copies. safe_target (fst c)"
    using from_req requests_safe [OF files names] by fastforce
  have bytes: "\<forall>c \<in> set copies. fs_bytes fs (fs_resolve fs (under S (snd c))) \<noteq> None"
    using from_req files source_file_parts same by (metis (no_types, lifting))
  hence out: "\<forall>c \<in> set copies. \<not> relative_to (fs_resolve fs (under S (snd c))) D"
    using nothing_beneath_destination [OF chk tree] by blast
  have "\<forall>c \<in> set (sort_key fst copies). relative_to (fs_resolve fs0 (under D (fst c))) D \<and>
      fs_bytes fs0 (fs_resolve fs0 (under S (snd c))) \<noteq> None \<and> \<not> relative_to (fs_resolve fs0 (under S (snd c))) D"
    using safe bytes out safe_target_place(1) [OF res] by (simp add: same)
  from write_copies_Inr [OF w this] have
    "fs_resolve fs1 = fs_resolve fs \<and> (\<forall>p. \<not> relative_to p D \<longrightarrow> fs_bytes fs1 p = fs_bytes fs p) \<and>
      entries = map (\<lambda>c. manifest_entry H (fst c) (snd c) (source_bytes fs S (snd c))) (sort_key fst copies)"
    by (simp add: same source_bytes_def)
  thus "fs_resolve fs1 = fs_resolve fs" "\<forall>p. \<not> relative_to p D \<longrightarrow> fs_bytes fs1 p = fs_bytes fs p"
    "entries = map (\<lambda>c. manifest_entry H (fst c) (snd c) (source_bytes fs S (snd c))) (sort_key fst copies)" by blast+
  show "distinct (map fst copies)" by (rule d)
  show "\<forall>t s. map_of copies t = Some s \<longleftrightarrow> (\<exists>req \<in> set (deployment_requests dl fs S). t = target_of (fst req) (snd req) \<and> s = fst req)"
    using m by blast
  show "\<forall>c \<in> set copies. safe_target (fst c)" by (rule safe)
  show "\<forall>c \<in> set copies. fs_bytes fs (fs_resolve fs (under S (snd c))) = Some (source_bytes fs S (snd c))"
    using bytes by (auto simp: source_bytes_def)
qed

text \<open>The digests of the copies, target by target, are those of the requested source files.\<close>

lemma copied_digests:
  assumes d: "distinct (map fst copies)"
    and m: "\<forall>t s. map_of copies t = Some s \<longleftrightarrow> (\<exists>req \<in> set (deployment_requests dl fs S). t = target_of (fst req) (snd req) \<and> s = fst req)"
    and b: "\<forall>c \<in> set copies. fs_bytes fs (fs_resolve fs (under S (snd c))) = Some (source_bytes fs S (snd c))"
  shows "map_of (map (\<lambda>c. (fst c, H (source_bytes fs S (snd c)))) (sort_key fst copies)) t = Some digest \<longleftrightarrow>
    (\<exists>(rel, alias) \<in> set (deployment_requests dl fs S). t = target_of rel alias \<and>
       (\<exists>bytes. fs_bytes fs (fs_resolve fs (under S rel)) = Some bytes \<and> digest = H bytes))"
proof -
  have "map_of (map (\<lambda>c. (fst c, H (source_bytes fs S (snd c)))) (sort_key fst copies)) t =
      map_option (\<lambda>s. H (source_bytes fs S s)) (map_of copies t)"
    using map_of_sort_key [OF d, of t] map_of_map [of "\<lambda>s. H (source_bytes fs S s)" "sort_key fst copies"]
    by (simp add: case_prod_unfold)
  hence "map_of (map (\<lambda>c. (fst c, H (source_bytes fs S (snd c)))) (sort_key fst copies)) t = Some digest \<longleftrightarrow>
      (\<exists>s. map_of copies t = Some s \<and> digest = H (source_bytes fs S s))" by auto
  moreover have "map_of copies t = Some s \<Longrightarrow> fs_bytes fs (fs_resolve fs (under S s)) = Some (source_bytes fs S s)" for s
    using b by (force dest: map_of_SomeD)
  ultimately show ?thesis using m by (fastforce simp: case_prod_unfold)
qed

lemma finish_pack_Inr:
  assumes "finish_pack H parse dr D r entries fs1 = Some (fs', Inr D')"
  shows "\<exists>pack routes ds. let proof_fs = fs1\<lparr>fs_bytes := (fs_bytes fs1)(under D ''MANIFEST.json'' \<mapsto> manifest_text (base_manifest r entries))\<rparr> in
    load_pack H parse proof_fs D = Inr pack \<and> pack_routes H dr proof_fs pack = Inr routes \<and>
    list_all2 (\<lambda>q d. compile_route H (local_service H parse dr proof_fs) D q = Some (Inr d)) routes ds \<and>
    fs' = fs1\<lparr>fs_bytes := (fs_bytes fs1)(under D ''MANIFEST.json'' \<mapsto> manifest_text (sealed_manifest r entries (closure_json ds)))\<rparr>"
proof -
  let ?proof_fs = "fs1\<lparr>fs_bytes := (fs_bytes fs1)(under D ''MANIFEST.json'' \<mapsto> manifest_text (base_manifest r entries))\<rparr>"
  from assms have w: "write_at fs1 (under D ''MANIFEST.json'') (manifest_text (base_manifest r entries)) = Some ?proof_fs"
    by (auto simp: finish_pack_def write_at_def split: if_splits)
  from assms obtain closure where v: "validate_deployment_closure H parse dr ?proof_fs D = Some (Inr closure)"
    and f: "write_at ?proof_fs (under D ''MANIFEST.json'') (manifest_text (sealed_manifest r entries closure)) = Some fs'"
    unfolding finish_pack_def w by (auto split: option.splits sum.splits)
  from v obtain pack routes ds where "load_pack H parse ?proof_fs D = Inr pack" "pack_routes H dr ?proof_fs pack = Inr routes"
    "compile_routes H (local_service H parse dr ?proof_fs) D routes = Some (Inr ds)" "closure = closure_json ds"
    unfolding validate_deployment_closure_def by (auto simp: bindO_Inr)
  moreover have "fs' = fs1\<lparr>fs_bytes := (fs_bytes fs1)(under D ''MANIFEST.json'' \<mapsto> manifest_text (sealed_manifest r entries closure))\<rparr>"
    using f by (auto simp: write_at_def split: if_splits)
  ultimately show ?thesis using compile_routes_Inr by (fastforce simp: Let_def)
qed

text \<open>Loading the final manifest, from the load that proved the first one.\<close>

lemma sealed_load:
  assumes load: "load_pack H parse pf D = Inr pack0" and res: "fs_resolve pf D = D" and res': "fs_resolve fs' = fs_resolve pf"
    and dirs: "fs_is_dir fs' = fs_is_dir pf" and hex: "\<forall>b. lower (H b) = H b"
    and base: "fs_bytes pf (under D ''MANIFEST.json'') = Some (manifest_text b)" "b = base_manifest r es"
      "parse (manifest_text b) = Some (normalize_json (JObj b))"
    and sealed: "fs_bytes fs' (under D ''MANIFEST.json'') = Some (manifest_text s)" "s = sealed_manifest r es c"
      "parse (manifest_text s) = Some (normalize_json (JObj s))"
    and es: "es = map (\<lambda>c. manifest_entry H (fst c) (snd c) (f c)) cs" and d: "distinct (map fst cs)"
    and safe: "\<forall>c \<in> set cs. safe_target (fst c)"
    and frame: "\<forall>c \<in> set cs. fs_bytes fs' (fs_resolve pf (under D (fst c))) = fs_bytes pf (fs_resolve pf (under D (fst c)))"
  shows "\<exists>pack. load_pack H parse fs' D = Inr pack \<and>
    (\<forall>t. map_of (file_digests (rp_provenance pack)) t = map_of (map (\<lambda>c. (fst c, H (f c))) cs) t)"
proof -
  let ?files = "map normalize_json es" and ?ths = "map (\<lambda>c. (fst c, H (f c))) cs"
  obtain kvs where k: "normalize_json (JObj b) = JObj kvs" "map_of kvs ''files'' = Some (JList ?files)"
    using manifest_files [of b r es c] base(2) by blast
  obtain kvs' where k': "normalize_json (JObj s) = JObj kvs'" "map_of kvs' ''files'' = Some (JList ?files)"
    using manifest_files [of s r es c] sealed(2) by blast
  have l: "non_blank D" "fs_is_dir pf D" "verify_entries H pf D [] ?files = Inr (file_digests (rp_provenance pack0))"
    using load_pack_reads [OF load res base(1) base(3) [unfolded k(1)] k(2)] by simp_all
  have two: "list_all2 (\<lambda>e th. entry_fields e = Inr th) ?files ?ths"
    unfolding es by (simp add: list_all2_conv_all_nth entry_fields_written)
  have "verify_entries H fs' D [] ?files = verify_entries H pf D [] ?files"
  proof (rule verify_entries_frame [OF res'])
    show "\<forall>e \<in> set ?files. \<forall>t h. entry_fields e = Inr (t, h) \<longrightarrow>
        fs_bytes fs' (fs_resolve pf (under D t)) = fs_bytes pf (fs_resolve pf (under D t))"
      using frame unfolding es by (auto simp: entry_fields_written)
  qed
  hence v: "verify_entries H fs' D [] ?files = Inr (file_digests (rp_provenance pack0))" using l(3) by simp
  have here: "fs_is_dir fs' D" "fs_resolve fs' D = D" using l(2) dirs res res' by simp_all
  obtain pack where
    pack: "load_pack H parse fs' D = Inr pack" "file_digests (rp_provenance pack) = file_digests (rp_provenance pack0)"
    using load_pack_again [where D = D and fs = fs' and data = "manifest_text s" and parse = parse and kvs = kvs' and files = "?files"
        and H = H and ds = "file_digests (rp_provenance pack0)"] l(1) here sealed(1) sealed(3) [unfolded k'(1)] k'(2) v by blast
  have root: "path_parts ''MANIFEST.json'' = [''MANIFEST.json'']" by code_simp
  have "\<forall>th \<in> set ?ths. fst th \<noteq> ''MANIFEST.json'' \<and> lower (snd th) = snd th"
    using safe hex root by (auto simp: safe_target_def)
  moreover have "distinct (map fst ?ths)" using d by (simp add: comp_def)
  ultimately have "map_of (file_digests (rp_provenance pack)) t = (case map_of ?ths t of Some h \<Rightarrow> Some h | None \<Rightarrow> map_of [] t)" for t
    using verify_entries_digests [OF l(3) two] pack(2) by simp
  thus ?thesis using pack(1) by (auto split: option.splits)
qed

section \<open>Properties\<close>


text \<open>
  A repository with one kernel, one schema and one adapter, whose files all hold one byte and whose rules name no route.
  Directories are the proper ancestors of files.
\<close>

definition sample_paths :: "string list" where
  "sample_paths = map (under ''/s'') (MUSEUM_CONTRACTS @ CLOSURE_SOURCES @
     [''contracts/a.schema.json'', ''runtime/contract_compiler/adapters/a.md''])"

definition beneath :: "string list \<Rightarrow> string \<Rightarrow> string list" where
  "beneath ps d = filter (\<lambda>p. relative_to p d \<and> p \<noteq> d) ps"

definition sample_repo :: file_system where
  "sample_repo = \<lparr>fs_resolve = (\<lambda>p. p), fs_is_dir = (\<lambda>d. beneath sample_paths d \<noteq> []),
     fs_bytes = (\<lambda>p. if p \<in> set sample_paths then Some ''x'' else None)\<rparr>"

definition sample_listing :: dir_listing where
  "sample_listing = \<lparr>dl_names = (\<lambda>d. map (\<lambda>p. case drop (length (path_parts d)) (path_parts p) of [] \<Rightarrow> [] | n # _ \<Rightarrow> n)
       (beneath sample_paths d)),
     dl_walk = (\<lambda>d. map (\<lambda>p. join_with ''/'' (drop (length (path_parts d)) (path_parts p))) (beneath sample_paths d))\<rparr>"

definition sample_revision :: string where
  "sample_revision = replicate 40 CHR ''a''"


text \<open>Rules without routes.\<close>

definition sample_docs :: document_readers where
  "sample_docs = sample_readers\<lparr>dr_yaml := \<lambda>_. Some (JObj [(''version'', JInt 1)])\<rparr>"

lemma sample_tree: "tree_consistent sample_listing sample_repo"
  by (auto simp: tree_consistent_def sample_listing_def sample_repo_def beneath_def filter_empty_conv split: if_splits)

lemma sample_resolves: "resolves_beneath sample_repo ''/d''"
  by (simp add: resolves_beneath_def sample_repo_def path_parts_under)

lemma sample_paths_plain: "CHR 0x5C \<notin> \<Union> (set ` set sample_paths)"
  by code_simp

lemma sample_checked: "check_destination sample_listing sample_repo ''/s'' ''/d'' sample_revision = Inr ()"
  by code_simp

lemma sample_free: "no_backslash sample_listing"
proof -
  have free: "CHR 0x5C \<notin> set x" if "x \<in> set (path_parts p)" "p \<in> set sample_paths" for x p
    using path_part_sub [OF that(1)] that(2) sample_paths_plain by auto
  have dropped: "CHR 0x5C \<notin> set x" if "x \<in> set (drop n (path_parts p))" "p \<in> set (beneath sample_paths d)" for x n p d
    using free [of x p] that by (auto simp: beneath_def dest: in_set_dropD)
  have join: "CHR 0x5C \<notin> set (join_with ''/'' xs)" if "\<forall>x \<in> set xs. CHR 0x5C \<notin> set x" for xs
    using that by (induction "''/''" xs rule: join_with.induct) auto
  show ?thesis
    unfolding no_backslash_def sample_listing_def
    using dropped join by (auto split: list.splits) (metis list.set_intros(1))+
qed

text \<open>The build up to the manifest, and the entries as the loader will check them.\<close>

definition sample_copied :: "(file_system \<times> json list) option" where
  "sample_copied = (case make_dirs sample_repo (parents ''/d'' @ [''/d'']) of None \<Rightarrow> None | Some fs0 \<Rightarrow>
    (case collect_copies sample_listing fs0 ''/s'' of Inl _ \<Rightarrow> None | Inr c \<Rightarrow>
      (case write_copies (\<lambda>_. ''0'') ''/s'' ''/d'' (sort_key fst c) fs0 of
         (fs1, Inl _) \<Rightarrow> None | (fs1, Inr es) \<Rightarrow> Some (fs1, es))))"

lemma sample_copied_ok:
  "case sample_copied of None \<Rightarrow> False | Some (fs1, es) \<Rightarrow>
     \<not> fs_is_dir fs1 (under ''/d'' ''MANIFEST.json'') \<and> fs_is_dir fs1 ''/d'' \<and> fs_bytes fs1 (under ''/d'' RULES_REL) = Some ''x'' \<and>
     (case verify_entries (\<lambda>_. ''0'') fs1 ''/d'' [] (map normalize_json es) of
        Inl _ \<Rightarrow> False | Inr ds \<Rightarrow> map_of ds RULES_REL = Some ''0'')"
  by code_simp

text \<open>A parser that reads the entries that were written.\<close>

definition sample_reader :: "string \<Rightarrow> json option" where
  "sample_reader data = (case sample_copied of None \<Rightarrow> None
     | Some (fs1, es) \<Rightarrow> Some (JObj [(''files'', JList (map normalize_json es))]))"

lemma sample_revision_clean: "lower (strip sample_revision) = sample_revision"
  by code_simp

lemma sample_proof_pack:
  "\<exists>fs1 es pf pack. (\<forall>dr. build_deployment_pack (\<lambda>_. ''0'') sample_reader dr sample_listing sample_repo ''/s'' ''/d'' sample_revision =
       finish_pack (\<lambda>_. ''0'') sample_reader dr ''/d'' sample_revision es fs1) \<and>
     write_at fs1 (under ''/d'' ''MANIFEST.json'') (manifest_text (base_manifest sample_revision es)) = Some pf \<and>
     \<not> fs_is_dir pf (under ''/d'' ''MANIFEST.json'') \<and>
     load_pack (\<lambda>_. ''0'') sample_reader pf ''/d'' = Inr pack \<and> read_verified (\<lambda>_. ''0'') pf pack RULES_REL = Inr ''x''"
proof -
  let ?H = "\<lambda>_ :: string. ''0''" and ?m = "under ''/d'' ''MANIFEST.json''"
  obtain fs1 es where copied: "sample_copied = Some (fs1, es)" using sample_copied_ok by (auto split: option.splits)
  note ok = sample_copied_ok [unfolded copied option.case prod.case]
  have nd: "\<not> fs_is_dir fs1 ?m" and dir: "fs_is_dir fs1 ''/d''" and x: "fs_bytes fs1 (under ''/d'' RULES_REL) = Some ''x''"
    using ok by blast+
  obtain ds where ver: "verify_entries ?H fs1 ''/d'' [] (map normalize_json es) = Inr ds" and rules: "map_of ds RULES_REL = Some ''0''"
    using ok by (cases "verify_entries ?H fs1 ''/d'' [] (map normalize_json es)") auto
  obtain fs0 c where st: "make_dirs sample_repo (parents ''/d'' @ [''/d'']) = Some fs0"
      "collect_copies sample_listing fs0 ''/s'' = Inr c" "write_copies ?H ''/s'' ''/d'' (sort_key fst c) fs0 = (fs1, Inr es)"
    using copied unfolding sample_copied_def by (auto split: option.splits sum.splits prod.splits)
  have rp: "fs_resolve sample_repo = (\<lambda>p. p)" by (simp add: sample_repo_def)
  have same: "fs_bytes fs0 = fs_bytes sample_repo" "fs_resolve fs0 = fs_resolve sample_repo" using make_dirs_Some [OF st(1)] by simp_all
  note w = written_copies [OF st(2) same sample_checked sample_free sample_tree sample_resolves st(3)]
  let ?text = "manifest_text (base_manifest sample_revision es)"
  let ?pf = "fs1\<lparr>fs_bytes := (fs_bytes fs1)(?m \<mapsto> ?text)\<rparr>"
  have other: "fs_resolve fs1 (under ''/d'' t) \<noteq> ?m" if "entry_fields (normalize_json e) = Inr (t, h)" "e \<in> set es" for e t h
    using that w(3,5,7) safe_target_place(2) [OF sample_resolves, of t] by (auto simp: entry_fields_written)
  have "verify_entries ?H ?pf ''/d'' [] (map normalize_json es) = verify_entries ?H fs1 ''/d'' [] (map normalize_json es)"
    by (rule verify_entries_frame) (use other in auto)
  hence ver': "verify_entries ?H ?pf ''/d'' [] (map normalize_json es) = Inr ds" using ver by simp
  have blank: "non_blank ''/d''" by code_simp
  have "\<exists>pack. load_pack ?H sample_reader ?pf ''/d'' = Inr pack \<and> file_digests (rp_provenance pack) = ds \<and>
      rp_manifest pack = [(''files'', JList (map normalize_json es))]"
    by (rule load_pack_again [OF blank _ _ _ _ _ ver'])
      (use dir w(5) rp in \<open>simp_all add: sample_reader_def copied\<close>)
  then obtain pack where pack: "load_pack ?H sample_reader ?pf ''/d'' = Inr pack" "file_digests (rp_provenance pack) = ds" by blast
  have root: "pack_root (rp_provenance pack) = ''/d''" using load_pack_Inr(4) [OF pack(1)] w(5) rp by simp
  have ne: "under ''/d'' RULES_REL \<noteq> ?m" by code_simp
  have rel: "RULES_REL \<noteq> []" "\<not> rooted RULES_REL" "non_blank ''x''" by code_simp+
  have "relative_to (under ''/d'' RULES_REL) ''/d''" by (rule relative_to_parts [OF path_parts_under])
  hence verified: "read_verified ?H ?pf pack RULES_REL = Inr ''x''"
    using rules pack(2) root ne rel x w(5) rp
    by (simp add: read_verified_def resolve_in_pack_def fs_exists_def fs_is_file_def read_bytes_def)
  have first: "write_at fs1 ?m ?text = Some ?pf" using nd by (simp add: write_at_def)
  have "build_deployment_pack ?H sample_reader dr sample_listing sample_repo ''/s'' ''/d'' sample_revision =
      finish_pack ?H sample_reader dr ''/d'' sample_revision es fs1" for dr
    using sample_checked st rp by (simp add: build_deployment_pack_def sample_revision_clean)
  thus ?thesis using first nd pack(1) verified by fastforce
qed

lemma sample_pack_builds:
  "\<exists>fs'. build_deployment_pack (\<lambda>_. ''0'') sample_reader sample_docs sample_listing sample_repo ''/s'' ''/d'' sample_revision =
     Some (fs', Inr ''/d'')"
proof -
  obtain fs1 es pf pack where p: "\<forall>dr. build_deployment_pack (\<lambda>_. ''0'') sample_reader dr sample_listing sample_repo ''/s'' ''/d'' sample_revision =
       finish_pack (\<lambda>_. ''0'') sample_reader dr ''/d'' sample_revision es fs1"
    "write_at fs1 (under ''/d'' ''MANIFEST.json'') (manifest_text (base_manifest sample_revision es)) = Some pf"
    "\<not> fs_is_dir pf (under ''/d'' ''MANIFEST.json'')" "load_pack (\<lambda>_. ''0'') sample_reader pf ''/d'' = Inr pack"
    "read_verified (\<lambda>_. ''0'') pf pack RULES_REL = Inr ''x''" using sample_proof_pack by blast
  have "non_blank ''x''" by code_simp
  hence "pack_routes (\<lambda>_. ''0'') sample_docs pf pack = Inr []"
    by (simp add: pack_routes_def p(5) load_yaml_mapping_def sample_docs_def py_get_or_def)
  hence "validate_deployment_closure (\<lambda>_. ''0'') sample_reader sample_docs pf ''/d'' = Some (Inr (closure_json []))"
    by (simp add: validate_deployment_closure_def p(4))
  thus ?thesis using p(1,3) by (simp add: finish_pack_def p(2)) (simp add: write_at_def)
qed

text \<open>
  The proof of the routes comes after the first manifest: when it fails, the destination keeps a pack the loader
  accepts. Here a route has no tokens.
\<close>

definition tokenless_docs :: document_readers where
  "tokenless_docs = sample_readers\<lparr>dr_yaml := \<lambda>_. Some (JObj [(''task_routes'', JObj [(''r'', JObj [])])])\<rparr>"

lemma unproven_pack_loads:
  "\<exists>fs' pack. build_deployment_pack (\<lambda>_. ''0'') sample_reader tokenless_docs sample_listing sample_repo ''/s'' ''/d'' sample_revision =
     Some (fs', Inl (InvalidValueError ''route without match_any tokens'' ''r'')) \<and>
     load_pack (\<lambda>_. ''0'') sample_reader fs' ''/d'' = Inr pack"
proof -
  obtain fs1 es pf pack where p: "\<forall>dr. build_deployment_pack (\<lambda>_. ''0'') sample_reader dr sample_listing sample_repo ''/s'' ''/d'' sample_revision =
       finish_pack (\<lambda>_. ''0'') sample_reader dr ''/d'' sample_revision es fs1"
    "write_at fs1 (under ''/d'' ''MANIFEST.json'') (manifest_text (base_manifest sample_revision es)) = Some pf"
    "load_pack (\<lambda>_. ''0'') sample_reader pf ''/d'' = Inr pack"
    "read_verified (\<lambda>_. ''0'') pf pack RULES_REL = Inr ''x''" using sample_proof_pack by blast
  have "non_blank ''x''" by code_simp
  hence "pack_routes (\<lambda>_. ''0'') tokenless_docs pf pack = Inr [(''r'', JObj [])]"
    by (simp add: pack_routes_def p(4) load_yaml_mapping_def tokenless_docs_def py_get_or_def)
  hence "validate_deployment_closure (\<lambda>_. ''0'') sample_reader tokenless_docs pf ''/d'' =
      Some (Inl (InvalidValueError ''route without match_any tokens'' ''r''))"
    by (simp add: validate_deployment_closure_def p(3) compile_route_def route_mission_def py_get_or_def bindO_def)
  thus ?thesis using p(1,3) by (simp add: finish_pack_def p(2))
qed

text \<open>
  Backslashes become slashes only in the target, after the source was checked: a kernel file whose name holds them is copied to
  a path that leaves the destination.
\<close>

lemma backslash_leaves_destination:
  "let name = [CHR ''.'', CHR ''.'', CHR 0x5C, CHR ''.'', CHR ''.'', CHR 0x5C, CHR ''e'']; rel = under ''runtime/kernels'' name;
       fs = sample_repo\<lparr>fs_bytes := [under ''/s'' rel \<mapsto> ''x'']\<rparr> in
   register fs ''/s'' [] (rel, Some (under ''kernels'' (path_name rel))) = Inr [(''kernels/../../e'', rel)]"
  by code_simp


end
