(* ===== verification/Ingress.thy ===== *)
theory Ingress
  imports Server
begin

text \<open>
  The HTTP ingress (\<open>mcp/http.py\<close>): its start from the environment, the checks a request passes, and the bound on
  the requests in flight. A request is what the checks read of it; the routes behind them, the event loop and the
  web framework are not modelled, so a step of the system is any one thing that can happen to one request.
  Header values are Latin-1 text, one byte for each character.
\<close>

section \<open>The checks of a request\<close>

definition MAX_BODY_BYTES :: int where
  "MAX_BODY_BYTES = 1048576"

definition COMPILE_CONCURRENCY_LIMIT :: nat where
  "COMPILE_CONCURRENCY_LIMIT = 8"

definition DEFAULT_BIND :: string where
  "DEFAULT_BIND = ''127.0.0.1''"

record http_request =
  hr_content_length :: "string option"
  hr_origin :: "string option"

text \<open>\<open>EntityTooLarge\<close> is the status 413, \<open>Busy\<close> 503, \<open>TimedOut\<close> 504; \<open>Crashed\<close> is an exception that escapes.\<close>

datatype response = OriginRefused | EntityTooLarge | Busy | TimedOut | Crashed | Handled

text \<open>\<open>str.isdigit\<close> holds for the superscript digits of Latin-1 too, on which \<open>int\<close> raises, as it does on more
  than 4300 digits.\<close>

definition ascii_digit :: "char \<Rightarrow> bool" where
  "ascii_digit c \<longleftrightarrow> 48 \<le> char_nat c \<and> char_nat c \<le> 57"

definition superscript :: "char \<Rightarrow> bool" where
  "superscript c \<longleftrightarrow> char_nat c \<in> {178, 179, 185}"

definition is_digit_text :: "string \<Rightarrow> bool" where
  "is_digit_text s \<longleftrightarrow> s \<noteq> [] \<and> list_all (\<lambda>c. ascii_digit c \<or> superscript c) s"

definition int_raises :: "string \<Rightarrow> bool" where
  "int_raises s \<longleftrightarrow> list_ex superscript s \<or> 4300 < length s"

lemma no_digit_text [simp]: "\<not> is_digit_text []"
  by (simp add: is_digit_text_def)

definition check_body :: "int \<Rightarrow> http_request \<Rightarrow> response option" where
  "check_body ceiling rq = (case hr_content_length rq of
     None \<Rightarrow> None
   | Some s \<Rightarrow>
       if s = [] \<or> \<not> is_digit_text s then None
       else if int_raises s then Some Crashed
       else if int (text_nat s) > ceiling then Some EntityTooLarge else None)"

definition check_origin :: "string list \<Rightarrow> http_request \<Rightarrow> response option" where
  "check_origin origins rq = (case hr_origin rq of
     None \<Rightarrow> None | Some origin \<Rightarrow> if origin \<notin> set origins then Some OriginRefused else None)"

text \<open>The outer two middlewares in the order of the application.\<close>

definition check_request :: "string list \<Rightarrow> http_request \<Rightarrow> response option" where
  "check_request origins rq = (case check_origin origins rq of
     Some r \<Rightarrow> Some r | None \<Rightarrow> check_body MAX_BODY_BYTES rq)"

section \<open>The environment\<close>

definition split_list :: "string \<Rightarrow> string list" where
  "split_list raw = filter (\<lambda>h. h \<noteq> []) (map strip (split_on CHR '','' raw))"

definition allowed_origins :: "(string \<Rightarrow> string option) \<Rightarrow> string list" where
  "allowed_origins env = split_list (env_value env ''L9_ALLOWED_ORIGINS'')"

definition allowed_hosts :: "(string \<Rightarrow> string option) \<Rightarrow> string list" where
  "allowed_hosts env = (let hosts = split_list (env_value env ''L9_ALLOWED_HOSTS'') in
     if hosts = [] then [''127.0.0.1'', ''localhost''] else hosts)"

text \<open>\<open>to_auth_settings\<close>; whether the SDK accepts a URL is a parameter.\<close>

record auth_settings =
  as_issuer :: string
  as_resource :: string
  as_scopes :: "string list option"

datatype start_error =
    BadAuthConfig auth_error
  | AuthRequired
  | BadSettings
  | BadPack cog_error
  | Refused string

definition to_auth_settings :: "(string \<Rightarrow> bool) \<Rightarrow> auth_config \<Rightarrow> start_error + auth_settings" where
  "to_auth_settings url_ok c =
     (if url_ok (ac_issuer c) \<and> url_ok (ac_resource_url c)
      then Inr \<lparr>as_issuer = ac_issuer c, as_resource = ac_resource_url c,
        as_scopes = (if ac_required_scopes c = [] then None else Some (ac_required_scopes c))\<rparr>
      else Inl BadSettings)"

definition auth_required :: "(string \<Rightarrow> string option) \<Rightarrow> bool" where
  "auth_required env \<longleftrightarrow> lower (env_value env ''L9_REQUIRE_AUTH'') \<in> {''1'', ''true'', ''yes''}"

definition resolve_hosted_auth ::
  "(string \<Rightarrow> bool) \<Rightarrow> (string \<Rightarrow> string option) \<Rightarrow> start_error + (verifier \<times> auth_settings) option" where
  "resolve_hosted_auth url_ok env = (case auth_from_env env of
     Inl e \<Rightarrow> Inl (BadAuthConfig e)
   | Inr None \<Rightarrow> if auth_required env then Inl AuthRequired else Inr None
   | Inr (Some c) \<Rightarrow> (case to_auth_settings url_ok c of
         Inl e \<Rightarrow> Inl e | Inr settings \<Rightarrow> Inr (Some (new_verifier c, settings))))"

section \<open>The application\<close>

record http_app =
  ha_server :: mcp_server
  ha_store :: run_store
  ha_auth :: "(verifier \<times> auth_settings) option"
  ha_origins :: "string list"
  ha_hosts :: "string list"
  ha_limit :: nat

definition create_http_app ::
  "world \<Rightarrow> (string \<Rightarrow> string option) \<Rightarrow> string \<Rightarrow> (verifier \<times> auth_settings) option \<Rightarrow> start_error + http_app" where
  "create_http_app wd env root auth =
     (case build_server wd root (auth \<noteq> None) SERVER_NAME [] STREAMABLE_HTTP_TRANSPORT of
        Inl e \<Rightarrow> Inl (BadPack e)
      | Inr (sv, st) \<Rightarrow> Inr \<lparr>ha_server = sv, ha_store = st, ha_auth = auth, ha_origins = allowed_origins env,
          ha_hosts = allowed_hosts env, ha_limit = COMPILE_CONCURRENCY_LIMIT\<rparr>)"

definition start_http :: "world \<Rightarrow> (string \<Rightarrow> bool) \<Rightarrow> (string \<Rightarrow> string option) \<Rightarrow> start_error + http_app" where
  "start_http wd url_ok env =
     (if env ''L9_MCP_TRANSPORT'' = Some ''stdio'' then Inl (Refused ''use l9-cognitive-runtime-mcp for stdio transport'')
      else case env ''L9_PACK_ROOT'' of
        None \<Rightarrow> Inl (Refused ''L9_PACK_ROOT is required'')
      | Some root \<Rightarrow>
          if root = [] then Inl (Refused ''L9_PACK_ROOT is required'')
          else case resolve_hosted_auth url_ok env of
            Inl e \<Rightarrow> Inl e
          | Inr auth \<Rightarrow> create_http_app wd env root auth)"

text \<open>The two stdio entry points, which refuse any other transport.\<close>

definition stdio_root :: "(string \<Rightarrow> string option) \<Rightarrow> string \<Rightarrow> start_error + string" where
  "stdio_root env refusal =
     (if (case env ''L9_MCP_TRANSPORT'' of None \<Rightarrow> False | Some t \<Rightarrow> t \<noteq> ''stdio'') then Inl (Refused refusal)
      else case env ''L9_PACK_ROOT'' of
        None \<Rightarrow> Inl (Refused ''L9_PACK_ROOT is required'')
      | Some root \<Rightarrow> if root = [] then Inl (Refused ''L9_PACK_ROOT is required'') else Inr root)"

definition start_stdio :: "world \<Rightarrow> (string \<Rightarrow> string option) \<Rightarrow> start_error + (mcp_server \<times> run_store)" where
  "start_stdio wd env = (case stdio_root env ''only stdio transport is supported (L9CR-MCP-008B)'' of
     Inl e \<Rightarrow> Inl e
   | Inr root \<Rightarrow> (case build_server wd root False SERVER_NAME [] STDIO_TRANSPORT of
         Inl e \<Rightarrow> Inl (BadPack e) | Inr s \<Rightarrow> Inr s))"

definition start_manus :: "world \<Rightarrow> (string \<Rightarrow> string option) \<Rightarrow> start_error + (mcp_server \<times> run_store)" where
  "start_manus wd env = (case stdio_root env ''only stdio transport is supported by the Manus Cog adapter'' of
     Inl e \<Rightarrow> Inl e
   | Inr root \<Rightarrow> (case build_manus_server wd root of Inl e \<Rightarrow> Inl (BadPack e) | Inr s \<Rightarrow> Inr s))"

section \<open>Requests in flight\<close>

text \<open>
  A request is checked when it arrives, waits for a permit, runs with it and is answered. The wait is bounded by the
  acquire timeout, wait and run together by the request timeout, which cancels both; the permit goes back whenever a
  request leaves the handler, which it does when its response starts.
\<close>

datatype phase = Waiting | Running | Answered response

record flight =
  fl_permits :: nat
  fl_phases :: "(string \<times> phase) list"

definition phase_at :: "flight \<Rightarrow> string \<Rightarrow> phase option" where
  "phase_at s rid = map_of (fl_phases s) rid"

definition move :: "string \<Rightarrow> phase \<Rightarrow> flight \<Rightarrow> flight" where
  "move rid new s = s\<lparr>fl_phases := dict_set rid new (fl_phases s)\<rparr>"

datatype event =
    Arrive string http_request
  | Acquire string
  | GiveUp string
  | Finish string response
  | Expire string

inductive flight_step :: "string list \<Rightarrow> flight \<Rightarrow> event \<Rightarrow> flight \<Rightarrow> bool" for origins where
  arrive_refused: "phase_at s rid = None \<Longrightarrow> check_request origins rq = Some r \<Longrightarrow>
     flight_step origins s (Arrive rid rq) (move rid (Answered r) s)"
| arrive_waits: "phase_at s rid = None \<Longrightarrow> check_request origins rq = None \<Longrightarrow>
     flight_step origins s (Arrive rid rq) (move rid Waiting s)"
| acquire: "phase_at s rid = Some Waiting \<Longrightarrow> fl_permits s = Suc n \<Longrightarrow>
     flight_step origins s (Acquire rid) (move rid Running s\<lparr>fl_permits := n\<rparr>)"
| give_up: "phase_at s rid = Some Waiting \<Longrightarrow> flight_step origins s (GiveUp rid) (move rid (Answered Busy) s)"
| finish: "phase_at s rid = Some Running \<Longrightarrow> r \<in> {Handled, Crashed} \<Longrightarrow>
     flight_step origins s (Finish rid r) (move rid (Answered r) s\<lparr>fl_permits := Suc (fl_permits s)\<rparr>)"
| expire_waiting: "phase_at s rid = Some Waiting \<Longrightarrow> flight_step origins s (Expire rid) (move rid (Answered TimedOut) s)"
| expire_running: "phase_at s rid = Some Running \<Longrightarrow>
     flight_step origins s (Expire rid) (move rid (Answered TimedOut) s\<lparr>fl_permits := Suc (fl_permits s)\<rparr>)"

inductive_cases flight_stepE: "flight_step origins s e s'"

inductive_simps flight_step_acquire: "flight_step origins s (Acquire rid) s'"

definition new_flight :: "nat \<Rightarrow> flight" where
  "new_flight limit = \<lparr>fl_permits = limit, fl_phases = []\<rparr>"

definition running :: "flight \<Rightarrow> string list" where
  "running s = map fst (filter (\<lambda>kv. snd kv = Running) (fl_phases s))"

text \<open>Permits and running requests add up to the limit, and every request is in one phase.\<close>

definition flight_inv :: "nat \<Rightarrow> flight \<Rightarrow> bool" where
  "flight_inv limit s \<longleftrightarrow> fl_permits s + length (running s) = limit \<and> distinct (map fst (fl_phases s))"

lemma running_dict_set:
  "distinct (map fst d) \<Longrightarrow> length (filter (\<lambda>kv. snd kv = Running) (dict_set rid new d)) + (if map_of d rid = Some Running then 1 else 0) =
     length (filter (\<lambda>kv. snd kv = Running) d) + (if new = Running then 1 else 0)"
  by (induction rid new d rule: dict_set.induct) (auto simp: map_of_eq_None_iff)

lemma running_move:
  assumes "distinct (map fst (fl_phases s))"
  shows "length (running (move rid new s)) + (if phase_at s rid = Some Running then 1 else 0) =
    length (running s) + (if new = Running then 1 else 0)"
  using running_dict_set [OF assms, of rid new] by (simp add: running_def move_def phase_at_def)

lemma phase_move: "phase_at (move rid new s) q = (if q = rid then Some new else phase_at s q)"
  by (simp add: phase_at_def move_def)

lemma move_distinct: "distinct (map fst (fl_phases s)) \<Longrightarrow> distinct (map fst (fl_phases (move rid new s)))"
  by (simp add: move_def dict_set_distinct)

lemma permits_unseen [simp]:
  "running (s\<lparr>fl_permits := n\<rparr>) = running s" "phase_at (s\<lparr>fl_permits := n\<rparr>) q = phase_at s q"
  "fl_permits (move rid new s) = fl_permits s"
  by (simp_all add: running_def phase_at_def move_def)

lemma move_inv:
  assumes "flight_inv limit s"
    and "n + (if new = Running then 1 else 0) = fl_permits s + (if phase_at s rid = Some Running then 1 else 0)"
  shows "flight_inv limit ((move rid new s)\<lparr>fl_permits := n\<rparr>)"
proof -
  have d: "distinct (map fst (fl_phases s))" using assms(1) by (simp add: flight_inv_def)
  show ?thesis using assms running_move [OF d, of rid new] move_distinct [OF d, of rid new]
    by (auto simp: flight_inv_def split: if_splits)
qed

lemma move_inv_same:
  "flight_inv limit s \<Longrightarrow> new \<noteq> Running \<Longrightarrow> phase_at s rid \<noteq> Some Running \<Longrightarrow> flight_inv limit (move rid new s)"
  using move_inv [of limit s "fl_permits s" new rid] by (simp add: move_def)

lemma flight_inv_step:
  assumes "flight_inv limit s" and "flight_step origins s e s'"
  shows "flight_inv limit s'"
  using assms(2) assms(1)
  by (cases rule: flight_step.cases) (auto intro!: move_inv_same move_inv)

interpretation ingress: invariant_system "flight_step origins" "flight_inv limit" for origins limit
  by unfold_locales (rule flight_inv_step)

lemma new_flight_inv: "flight_inv limit (new_flight limit)"
  by (simp add: flight_inv_def new_flight_def running_def)

text \<open>What a phase says about the request that arrived, and that an answer is final.\<close>

definition fits_check :: "response option \<Rightarrow> phase \<Rightarrow> bool" where
  "fits_check out new = (case out of Some r \<Rightarrow> new = Answered r
     | None \<Rightarrow> new \<notin> {Answered OriginRefused, Answered EntityTooLarge})"

lemma flight_step_phase:
  assumes "flight_step origins s e s'"
  shows "\<exists>rid new. (\<forall>q. phase_at s' q = (if q = rid then Some new else phase_at s q)) \<and>
    (case phase_at s rid of
       None \<Rightarrow> \<exists>rq. e = Arrive rid rq \<and> fits_check (check_request origins rq) new
     | Some before \<Rightarrow> (\<forall>q rq. e \<noteq> Arrive q rq) \<and> before \<in> {Waiting, Running} \<and> fits_check None new)"
  using assms
proof (cases rule: flight_step.cases)
  case (arrive_refused rid rq r)
  thus ?thesis by (intro exI [of _ rid] exI [of _ "Answered r"]) (auto simp: phase_move fits_check_def)
next
  case (arrive_waits rid rq)
  thus ?thesis by (intro exI [of _ rid] exI [of _ "Waiting"]) (auto simp: phase_move fits_check_def)
next
  case (acquire rid n)
  thus ?thesis by (intro exI [of _ rid] exI [of _ "Running"]) (auto simp: phase_move fits_check_def)
next
  case (give_up rid)
  thus ?thesis by (intro exI [of _ rid] exI [of _ "Answered Busy"]) (auto simp: phase_move fits_check_def)
next
  case (finish rid r)
  thus ?thesis by (intro exI [of _ rid] exI [of _ "Answered r"]) (auto simp: phase_move fits_check_def)
next
  case (expire_waiting rid)
  thus ?thesis by (intro exI [of _ rid] exI [of _ "Answered TimedOut"]) (auto simp: phase_move fits_check_def)
next
  case (expire_running rid)
  thus ?thesis by (intro exI [of _ rid] exI [of _ "Answered TimedOut"]) (auto simp: phase_move fits_check_def)
qed

lemma answers_final:
  assumes "flight_step origins s e s'" and "phase_at s rid = Some (Answered r)"
  shows "phase_at s' rid = Some (Answered r)"
proof -
  from flight_step_phase [OF assms(1)] obtain q new where
    p: "\<forall>x. phase_at s' x = (if x = q then Some new else phase_at s x)"
    and h: "case phase_at s q of
       None \<Rightarrow> \<exists>rq. e = Arrive q rq \<and> fits_check (check_request origins rq) new
     | Some before \<Rightarrow> (\<forall>q rq. e \<noteq> Arrive q rq) \<and> before \<in> {Waiting, Running} \<and> fits_check None new" by blast
  have "q \<noteq> rid" using h assms(2) by auto
  thus ?thesis using p assms(2) by simp
qed

lemma flight_history:
  assumes "runs (flight_step origins) (new_flight limit) es s"
  shows "(\<forall>rid. phase_at s rid = None \<longleftrightarrow> (\<forall>rq. Arrive rid rq \<notin> set es)) \<and>
    (\<forall>rid new rq. phase_at s rid = Some new \<and> Arrive rid rq \<in> set es \<longrightarrow> fits_check (check_request origins rq) new)"
  using assms
proof (induction "new_flight limit" es s rule: runs.induct)
  case runs_none
  show ?case by (simp add: new_flight_def phase_at_def)
next
  case (runs_more es s e s')
  from flight_step_phase [OF runs_more.hyps(3)] obtain rid new where
    p: "\<forall>q. phase_at s' q = (if q = rid then Some new else phase_at s q)"
    and h: "case phase_at s rid of
       None \<Rightarrow> \<exists>rq. e = Arrive rid rq \<and> fits_check (check_request origins rq) new
     | Some before \<Rightarrow> (\<forall>q rq. e \<noteq> Arrive q rq) \<and> before \<in> {Waiting, Running} \<and> fits_check None new" by blast
  have at: "phase_at s' q = (if q = rid then Some new else phase_at s q)" for q using p by blast
  have old: "phase_at s q = None \<longleftrightarrow> (\<forall>rq. Arrive q rq \<notin> set es)" for q using runs_more.hyps(2) by blast
  have fit: "fits_check (check_request origins rq) x" if "phase_at s q = Some x" "Arrive q rq \<in> set es" for q x rq
    using runs_more.hyps(2) that by blast
  show ?case
  proof (cases "phase_at s rid")
    case None
    then obtain rq where e: "e = Arrive rid rq" "fits_check (check_request origins rq) new" using h by auto
    have "phase_at s' q = None \<longleftrightarrow> (\<forall>rq. Arrive q rq \<notin> set (es @ [e]))" for q using at old e(1) by auto
    moreover have "fits_check (check_request origins rq') x" if "phase_at s' q = Some x" "Arrive q rq' \<in> set (es @ [e])" for q x rq'
      using that at old fit e None by (auto split: if_splits)
    ultimately show ?thesis by blast
  next
    case (Some before)
    hence no: "\<forall>q rq. e \<noteq> Arrive q rq" "before \<in> {Waiting, Running}" "fits_check None new" using h by auto
    have passed: "check_request origins rq = None" if "Arrive rid rq \<in> set es" for rq
      using fit [OF Some that] no(2) by (cases "check_request origins rq") (auto simp: fits_check_def)
    have "phase_at s' q = None \<longleftrightarrow> (\<forall>rq. Arrive q rq \<notin> set (es @ [e]))" for q
      using at [of q] old [of q] no(1) Some by (cases "q = rid") auto
    moreover have "fits_check (check_request origins rq') x" if "phase_at s' q = Some x" "Arrive q rq' \<in> set (es @ [e])" for q x rq'
      using that at fit no passed by (auto split: if_splits)
    ultimately show ?thesis by blast
  qed
qed

section \<open>Properties\<close>

text \<open>C34: However requests arrive, wait, time out and finish, at most the limit of them is in the handler at once and
  the permits are exactly the rest, so a waiting request can enter whenever fewer run; a request that was refused on
  arrival never enters, one that passed is never refused later, an answer never changes; and a request passes exactly when
  it has no foreign origin and declares no body above one mebibyte (nor a length on which the conversion raises: superscript digits or more than 4300 digits).\<close>

theorem ingress_bounded:
  assumes "runs (flight_step origins) (new_flight limit) es s"
  shows "length (running s) \<le> limit \<and> fl_permits s = limit - length (running s) \<and>
    (\<forall>rid. phase_at s rid = Some Waiting \<and> length (running s) < limit \<longrightarrow> (\<exists>s'. flight_step origins s (Acquire rid) s')) \<and>
    (\<forall>rid rq. Arrive rid rq \<in> set es \<longrightarrow> (case check_request origins rq of
        Some r \<Rightarrow> phase_at s rid = Some (Answered r)
      | None \<Rightarrow> phase_at s rid \<notin> {None, Some (Answered OriginRefused), Some (Answered EntityTooLarge)})) \<and>
    (\<forall>e s' rid r. flight_step origins s e s' \<and> phase_at s rid = Some (Answered r) \<longrightarrow> phase_at s' rid = Some (Answered r)) \<and>
    (\<forall>rq. check_request origins rq = None \<longleftrightarrow>
       (\<forall>origin. hr_origin rq = Some origin \<longrightarrow> origin \<in> set origins) \<and>
       (\<forall>len. hr_content_length rq = Some len \<and> is_digit_text len \<longrightarrow>
          \<not> int_raises len \<and> int (text_nat len) \<le> 1048576))"
proof -
  have inv: "flight_inv limit s" by (rule ingress.runs_inv [OF assms new_flight_inv])
  have enter: "\<exists>s'. flight_step origins s (Acquire rid) s'" if "phase_at s rid = Some Waiting" "length (running s) < limit" for rid
  proof -
    from that(2) inv obtain n where "fl_permits s = Suc n" by (cases "fl_permits s") (auto simp: flight_inv_def)
    thus ?thesis using acquire [OF that(1)] by blast
  qed
  have past: "case check_request origins rq of
        Some r \<Rightarrow> phase_at s rid = Some (Answered r)
      | None \<Rightarrow> phase_at s rid \<notin> {None, Some (Answered OriginRefused), Some (Answered EntityTooLarge)}"
    if "Arrive rid rq \<in> set es" for rid rq
  proof -
    have "phase_at s rid \<noteq> None" using conjunct1 [OF flight_history [OF assms]] that by blast
    then obtain new where new: "phase_at s rid = Some new" by blast
    hence "fits_check (check_request origins rq) new" using conjunct2 [OF flight_history [OF assms]] that by blast
    with new show ?thesis by (cases "check_request origins rq") (simp_all add: fits_check_def)
  qed
  have passes: "check_request origins rq = None \<longleftrightarrow>
       (\<forall>origin. hr_origin rq = Some origin \<longrightarrow> origin \<in> set origins) \<and>
       (\<forall>len. hr_content_length rq = Some len \<and> is_digit_text len \<longrightarrow>
          \<not> int_raises len \<and> int (text_nat len) \<le> 1048576)" for rq
    by (cases "hr_origin rq"; cases "hr_content_length rq")
      (auto simp: check_request_def check_origin_def check_body_def MAX_BODY_BYTES_def)
  have room: "length (running s) \<le> limit" "fl_permits s = limit - length (running s)" using inv by (auto simp: flight_inv_def)
  show ?thesis
  proof (intro conjI)
    show "\<forall>rid. phase_at s rid = Some Waiting \<and> length (running s) < limit \<longrightarrow> (\<exists>s'. flight_step origins s (Acquire rid) s')"
      using enter by blast
    show "\<forall>e s' rid r. flight_step origins s e s' \<and> phase_at s rid = Some (Answered r) \<longrightarrow> phase_at s' rid = Some (Answered r)"
      using answers_final by blast
    show "\<forall>rid rq. Arrive rid rq \<in> set es \<longrightarrow> (case check_request origins rq of
        Some r \<Rightarrow> phase_at s rid = Some (Answered r)
      | None \<Rightarrow> phase_at s rid \<notin> {None, Some (Answered OriginRefused), Some (Answered EntityTooLarge)})"
      using past by blast
    show "\<forall>rq. check_request origins rq = None \<longleftrightarrow>
       (\<forall>origin. hr_origin rq = Some origin \<longrightarrow> origin \<in> set origins) \<and>
       (\<forall>len. hr_content_length rq = Some len \<and> is_digit_text len \<longrightarrow>
          \<not> int_raises len \<and> int (text_nat len) \<le> 1048576)"
      by (rule allI) (rule passes)
  qed (rule room)+
qed

text \<open>One permit: a request from a foreign origin is refused, of two others one enters and the other times out.\<close>

definition plain_request :: http_request where
  "plain_request = \<lparr>hr_content_length = Some ''12'', hr_origin = None\<rparr>"

definition foreign_request :: http_request where
  "foreign_request = \<lparr>hr_content_length = None, hr_origin = Some ''https://e''\<rparr>"

lemma sample_flight:
  "runs (flight_step []) (new_flight 1) [Arrive ''x'' foreign_request, Arrive ''a'' plain_request, Arrive ''b'' plain_request, Acquire ''a'', Expire ''b'']
     \<lparr>fl_permits = 0, fl_phases = [(''x'', Answered OriginRefused), (''a'', Running), (''b'', Answered TimedOut)]\<rparr>"
proof -
  let ?x = "(''x'', Answered OriginRefused)"
  have foreign: "check_request [] foreign_request = Some OriginRefused" by code_simp
  have plain: "check_request [] plain_request = None" by code_simp
  have "flight_step [] (new_flight 1) (Arrive ''x'' foreign_request) (move ''x'' (Answered OriginRefused) (new_flight 1))"
    by (rule arrive_refused [OF _ foreign]) (simp add: phase_at_def new_flight_def)
  hence s1: "flight_step [] (new_flight 1) (Arrive ''x'' foreign_request) \<lparr>fl_permits = 1, fl_phases = [?x]\<rparr>"
    by (simp add: move_def new_flight_def)
  have s2: "flight_step [] \<lparr>fl_permits = 1, fl_phases = [?x]\<rparr> (Arrive ''a'' plain_request)
      \<lparr>fl_permits = 1, fl_phases = [?x, (''a'', Waiting)]\<rparr>"
    using arrive_waits [OF _ plain, of "\<lparr>fl_permits = 1, fl_phases = [?x]\<rparr>" "''a''"] by (simp add: phase_at_def move_def)
  have s3: "flight_step [] \<lparr>fl_permits = 1, fl_phases = [?x, (''a'', Waiting)]\<rparr> (Arrive ''b'' plain_request)
      \<lparr>fl_permits = 1, fl_phases = [?x, (''a'', Waiting), (''b'', Waiting)]\<rparr>"
    using arrive_waits [OF _ plain, of "\<lparr>fl_permits = 1, fl_phases = [?x, (''a'', Waiting)]\<rparr>" "''b''"]
    by (simp add: phase_at_def move_def)
  have s4: "flight_step [] \<lparr>fl_permits = 1, fl_phases = [?x, (''a'', Waiting), (''b'', Waiting)]\<rparr> (Acquire ''a'')
      \<lparr>fl_permits = 0, fl_phases = [?x, (''a'', Running), (''b'', Waiting)]\<rparr>"
    using acquire [of "\<lparr>fl_permits = 1, fl_phases = [?x, (''a'', Waiting), (''b'', Waiting)]\<rparr>" "''a''" 0 "[]"]
    by (simp add: phase_at_def move_def)
  have s5: "flight_step [] \<lparr>fl_permits = 0, fl_phases = [?x, (''a'', Running), (''b'', Waiting)]\<rparr> (Expire ''b'')
      \<lparr>fl_permits = 0, fl_phases = [?x, (''a'', Running), (''b'', Answered TimedOut)]\<rparr>"
    using expire_waiting [of "\<lparr>fl_permits = 0, fl_phases = [?x, (''a'', Running), (''b'', Waiting)]\<rparr>" "''b''" "[]"]
    by (simp add: phase_at_def move_def)
  note r1 = runs_more [where step = "flight_step []", OF runs_none s1]
  note r2 = runs_more [where step = "flight_step []", OF r1 s2]
  note r3 = runs_more [where step = "flight_step []", OF r2 s3]
  note r4 = runs_more [where step = "flight_step []", OF r3 s4]
  from runs_more [where step = "flight_step []", OF r4 s5] show ?thesis by simp
qed

theorem ingress_bounded_witness:
  "runs (flight_step []) (new_flight 1) [Arrive ''x'' foreign_request, Arrive ''a'' plain_request, Arrive ''b'' plain_request, Acquire ''a'', Expire ''b'']
     \<lparr>fl_permits = 0, fl_phases = [(''x'', Answered OriginRefused), (''a'', Running), (''b'', Answered TimedOut)]\<rparr> \<and>
   length (running \<lparr>fl_permits = 0, fl_phases = [(''x'', Answered OriginRefused), (''a'', Running), (''b'', Answered TimedOut)]\<rparr>) \<le> 1"
  using ingress_bounded [OF sample_flight] sample_flight by blast

text \<open>C33: A server that starts over HTTP is hosted exactly when it has a verifier; when the environment requires
  authentication it has one, for a configuration with asymmetric algorithms only and the settings of that configuration,
  and without a validated token no request ever stores a run or reads one.\<close>

theorem required_auth_never_open:
  assumes "start_http wd url_ok env = Inr app"
  shows "(sv_hosted (ha_server app) \<longleftrightarrow> ha_auth app \<noteq> None) \<and> ha_store app = empty_store 128 3600 \<and>
    (auth_required env \<longrightarrow>
      (\<exists>c settings. ha_auth app = Some (new_verifier c, settings) \<and> auth_from_env env = Inr (Some c) \<and>
         (\<forall>a \<in> set (ac_algorithms c). \<not> forbidden_algorithm a) \<and> non_blank (ac_issuer c) \<and> non_blank (ac_audience c) \<and>
         as_issuer settings = ac_issuer c \<and> as_resource settings = ac_resource_url c) \<and>
      (\<forall>wd' now rid m tt snap expected st.
         snd (run_resource wd' (ha_server app) now None rid st) = Inl (RunNotFoundError rid) \<and>
         (\<forall>st' out. tool_compile_runtime wd' (ha_server app) now rid None m tt snap expected st = Some (st', out) \<longrightarrow>
            st' = st \<and> (\<exists>e. out = Inl e))))"
proof -
  from assms obtain root auth where a: "resolve_hosted_auth url_ok env = Inr auth" "create_http_app wd env root auth = Inr app"
    unfolding start_http_def by (auto split: if_splits option.splits sum.splits)
  from a(2) obtain sv st where b: "build_server wd root (auth \<noteq> None) SERVER_NAME [] STREAMABLE_HTTP_TRANSPORT = Inr (sv, st)"
    and app: "ha_server app = sv" "ha_store app = st" "ha_auth app = auth"
    unfolding create_http_app_def by (auto split: sum.splits)
  have sv: "sv_hosted sv \<longleftrightarrow> auth \<noteq> None" "st = empty_store 128 3600"
    using b unfolding build_server_def Let_def by (auto simp: bindR_eq_Inr split: if_splits)
  have conf: "\<exists>c settings. auth = Some (new_verifier c, settings) \<and> auth_from_env env = Inr (Some c) \<and>
      as_issuer settings = ac_issuer c \<and> as_resource settings = ac_resource_url c" if "auth_required env"
    using a(1) that unfolding resolve_hosted_auth_def to_auth_settings_def by (auto split: sum.splits option.splits if_splits)
  have anon: "snd (run_resource wd' sv now None rid st) = Inl (RunNotFoundError rid) \<and>
     (\<forall>st' out. tool_compile_runtime wd' sv now rid None m tt snap expected st = Some (st', out) \<longrightarrow> st' = st \<and> (\<exists>e. out = Inl e))"
    if "sv_hosted sv" for wd' now rid m tt snap expected st
    using that by (auto simp: run_resource_def resolve_principal_def tool_compile_runtime_def split: option.splits sum.splits)
  show ?thesis
  proof (cases "auth_required env")
    case True
    then obtain c settings where c: "auth = Some (new_verifier c, settings)" "auth_from_env env = Inr (Some c)"
      "as_issuer settings = ac_issuer c" "as_resource settings = ac_resource_url c" using conf by blast
    hence "sv_hosted sv" using sv(1) by simp
    from anon [OF this] show ?thesis unfolding app using sv c auth_from_env_on [OF c(2)] by blast
  next
    case False
    thus ?thesis unfolding app using sv by blast
  qed
qed

definition sample_env :: "string \<Rightarrow> string option" where
  "sample_env = map_of [(''L9_PACK_ROOT'', ''/p''), (''L9_REQUIRE_AUTH'', '' TRUE ''), (''L9_OAUTH_ISSUER'', ''https://i''),
     (''L9_OAUTH_AUDIENCE'', ''mcp''), (''L9_MCP_RESOURCE_URL'', ''https://r'')]"

lemma sample_starts: "case start_http sample_wd (\<lambda>_. True) sample_env of Inl _ \<Rightarrow> False | Inr app \<Rightarrow> True"
  by code_simp

text \<open>Without the OAuth variables the same start is refused.\<close>

lemma unprotected_refused:
  "start_http sample_wd (\<lambda>_. True) (sample_env(''L9_OAUTH_ISSUER'' := None, ''L9_OAUTH_AUDIENCE'' := None, ''L9_MCP_RESOURCE_URL'' := None)) =
     Inl AuthRequired"
  by code_simp

theorem required_auth_never_open_witness:
  "auth_required sample_env \<and> (\<exists>app. start_http sample_wd (\<lambda>_. True) sample_env = Inr app \<and> sv_hosted (ha_server app) \<and>
     snd (run_resource sample_wd (ha_server app) 0 None ''a'' (ha_store app)) = Inl (RunNotFoundError ''a''))"
proof -
  have r: "auth_required sample_env" unfolding auth_required_def by code_simp
  obtain app where app: "start_http sample_wd (\<lambda>_. True) sample_env = Inr app" using sample_starts by (auto split: sum.splits)
  from required_auth_never_open [OF app] r app show ?thesis by blast
qed

end
