(* ===== verification/Cli.thy ===== *)
theory Cli
  imports Server Deployment
begin

text \<open>
  The command line of the compiler (\<open>cli.py\<close>): confinement of what it writes, the snapshot it reads, and
  \<open>main\<close> over parsed arguments, composed with the service. The expansion of \<open>~\<close> and the working directory are
  parameters; \<open>argparse\<close> itself is not modelled. Paths are their texts, and a printed object is the text printed.
\<close>

section \<open>Confinement\<close>

record cli_host =
  ch_expand :: "string \<Rightarrow> string"
  ch_cwd :: string

definition confine :: "cli_host \<Rightarrow> file_system \<Rightarrow> string \<Rightarrow> string \<Rightarrow> string \<Rightarrow> string res" where
  "confine host fs path root label =
     (let given = ch_expand host path;
          target = fs_resolve fs (if starts_with given ''/'' then given else under root given) in
      if \<not> relative_to target root then Inl (InvalidValueError (label @ '' escapes allow_root'') path) else Inr target)"

definition allow_root_of :: "cli_host \<Rightarrow> file_system \<Rightarrow> string option \<Rightarrow> string" where
  "allow_root_of host fs allow = fs_resolve fs (case allow of None \<Rightarrow> ch_cwd host | Some r \<Rightarrow> r)"

definition confined_write_dir :: "cli_host \<Rightarrow> file_system \<Rightarrow> string \<Rightarrow> string option \<Rightarrow> string res" where
  "confined_write_dir host fs dir allow = confine host fs dir (allow_root_of host fs allow) ''write_dir''"

definition confined_output_path :: "cli_host \<Rightarrow> file_system \<Rightarrow> string \<Rightarrow> string option \<Rightarrow> string res" where
  "confined_output_path host fs output allow = confine host fs output (allow_root_of host fs allow) ''output path''"

section \<open>The snapshot file\<close>

definition load_context_snapshot :: "world \<Rightarrow> cli_host \<Rightarrow> string \<Rightarrow> context_snapshot res" where
  "load_context_snapshot wd host path =
     (let resolved = fs_resolve (wd_files wd) (ch_expand host path) in
      if \<not> fs_is_file (wd_files wd) resolved then Inl (InvalidValueError ''context snapshot file not found'' resolved)
      else bindR (read_bytes (wd_files wd) resolved) (\<lambda>data.
        case wd_json wd data of
          None \<Rightarrow> Inl (InvalidValueError ''context snapshot is not valid JSON'' resolved)
        | Some (JObj kvs) \<Rightarrow>
            if payload_item_count (JObj kvs) > SNAPSHOT_MAX_ITEMS
            then Inl (InvalidValueError ''context snapshot exceeds the maximum item count'' resolved)
            else if payload_canonical_byte_size (JObj kvs) > SNAPSHOT_MAX_BYTES
            then Inl (InvalidValueError ''context snapshot exceeds the maximum canonical byte size'' resolved)
            else (case wd_snapshot wd (JObj kvs) of
                Inr s \<Rightarrow> Inr s
              | Inl e \<Rightarrow> if is_model_validation_error e
                  then Inl (InvalidValueError (''context snapshot is not a valid governed snapshot: '' @ error_text e) resolved)
                  else Inl e)
        | Some _ \<Rightarrow> Inl (InvalidValueError ''context snapshot root must be an object'' resolved)))"

section \<open>The command\<close>

record cli_args =
  ca_mission :: string
  ca_task_type :: string
  ca_pack_root :: string
  ca_snapshot :: "string option"
  ca_plan_context :: bool
  ca_expected :: "string option"
  ca_write_dir :: "string option"

datatype cli_result = UsageError | Failed cog_error | Printed string | Wrote string

definition cli_request :: "cli_args \<Rightarrow> service_request" where
  "cli_request a = compile_request.extend (default_request (ca_mission a) (ca_task_type a))
     (service_request.fields (Some (ca_pack_root a)) None)"

definition cli_snapshot :: "world \<Rightarrow> cli_host \<Rightarrow> cli_args \<Rightarrow> context_snapshot option res" where
  "cli_snapshot wd host a = (case ca_snapshot a of
     None \<Rightarrow> Inr None
   | Some p \<Rightarrow> bindR (load_context_snapshot wd host p) (\<lambda>s. Inr (Some s)))"

definition cli_plan :: "world \<Rightarrow> cli_host \<Rightarrow> cli_args \<Rightarrow> context_plan res" where
  "cli_plan wd host a = bindR (cli_snapshot wd host a)
     (service_plan_context (wd_hash wd) (world_service wd) (cli_request a))"

definition cli_compile :: "world \<Rightarrow> cli_host \<Rightarrow> cli_args \<Rightarrow> runtime_bundle res option" where
  "cli_compile wd host a = bindO (Some (cli_snapshot wd host a))
     (\<lambda>s. service_compile_runtime (wd_hash wd) (world_service wd) (cli_request a) s (ca_expected a))"

definition plan_payload :: "(string \<Rightarrow> string) \<Rightarrow> context_plan \<Rightarrow> (string \<times> json) list" where
  "plan_payload H p =
     [(''context_plan'', context_plan_json p), (''context_plan_id'', JStr (context_plan_id p)),
      (''context_plan_digest'', JStr (sha256_digest H (context_plan_json p)))]"

definition bundle_payload :: "(string \<Rightarrow> string) \<Rightarrow> runtime_bundle \<Rightarrow> (string \<times> json) list" where
  "bundle_payload H b =
     [(''digests'', jdict (bundle_digests H b)), (''context_plan'', context_plan_json (rb_context_plan b)),
      (''intent'', intent_json (rb_intent b)), (''compiled_task_context'', context_json (rb_context b)),
      (''execution'', execution_json (rb_execution b)), (''validation'', validation_json (rb_validation b)),
      (''handoff'', handoff_json (rb_handoff b)), (''graph'', graph_json (rb_graph b))]"

text \<open>The name of the file and the text of it.\<close>

definition cli_output :: "world \<Rightarrow> cli_host \<Rightarrow> cli_args \<Rightarrow> (string \<times> string) res option" where
  "cli_output wd host a =
     (if ca_plan_context a
      then bindO (Some (cli_plan wd host a)) (\<lambda>p.
        Some (Inr (''context-plan.json'', manifest_text (plan_payload (wd_hash wd) p))))
      else bindO (cli_compile wd host a) (\<lambda>b.
        Some (Inr (''bundle.json'', manifest_text (bundle_payload (wd_hash wd) b)))))"

definition write_output :: "cli_host \<Rightarrow> file_system \<Rightarrow> string \<Rightarrow> string \<Rightarrow> string \<Rightarrow> file_system \<times> cli_result" where
  "write_output host fs dir name data = (case confined_write_dir host fs dir None of
     Inl e \<Rightarrow> (fs, Failed e)
   | Inr out \<Rightarrow> (case make_dirs fs (parents out @ [out]) of
         None \<Rightarrow> (fs, Failed PyOSError)
       | Some fs1 \<Rightarrow> (case write_at fs1 (fs_resolve fs1 (under out name)) data of
             None \<Rightarrow> (fs1, Failed PyOSError)
           | Some fs2 \<Rightarrow> (fs2, Wrote (under out name)))))"

definition cli_main :: "world \<Rightarrow> cli_host \<Rightarrow> cli_args \<Rightarrow> (file_system \<times> cli_result) option" where
  "cli_main wd host a =
     (if ca_plan_context a \<and> ca_expected a \<noteq> None then Some (wd_files wd, UsageError)
      else case cli_output wd host a of
        None \<Rightarrow> None
      | Some (Inl e) \<Rightarrow> Some (wd_files wd, Failed e)
      | Some (Inr (name, data)) \<Rightarrow> (case ca_write_dir a of
            None \<Rightarrow> Some (wd_files wd, Printed data)
          | Some dir \<Rightarrow> Some (write_output host (wd_files wd) dir name data)))"

section \<open>The command line and the server\<close>

text \<open>The value of the file the command line is given, as the tool would receive it.\<close>

definition same_snapshot :: "world \<Rightarrow> cli_host \<Rightarrow> cli_args \<Rightarrow> json option \<Rightarrow> bool" where
  "same_snapshot wd host a raw = (case ca_snapshot a of
     None \<Rightarrow> raw = None
   | Some p \<Rightarrow> (case fs_bytes (wd_files wd) (fs_resolve (wd_files wd) (ch_expand host p)) of
         None \<Rightarrow> False
       | Some data \<Rightarrow> wd_json wd data \<noteq> None \<and> raw = wd_json wd data))"

lemma snapshot_of_file:
  assumes "same_snapshot wd host a raw"
  shows "case cli_snapshot wd host a of
     Inr s \<Rightarrow> parse_context_snapshot wd raw = Inr s | Inl e \<Rightarrow> \<exists>e'. parse_context_snapshot wd raw = Inl e'"
proof (cases "ca_snapshot a")
  case None
  thus ?thesis using assms by (simp add: same_snapshot_def cli_snapshot_def parse_context_snapshot_def)
next
  case (Some p)
  then obtain data j where d: "fs_bytes (wd_files wd) (fs_resolve (wd_files wd) (ch_expand host p)) = Some data"
      "wd_json wd data = Some j" "raw = Some j"
    using assms by (auto simp: same_snapshot_def split: option.splits)
  show ?thesis
    by (cases j) (simp_all add: Some d cli_snapshot_def load_context_snapshot_def read_bytes_def fs_is_file_def
      parse_context_snapshot_def Let_def split: sum.splits)
qed

lemma cli_tool_request: "sv_root sv = ca_pack_root a \<Longrightarrow> tool_request sv (ca_mission a) (ca_task_type a) = cli_request a"
  by (simp add: tool_request_def cli_request_def)

lemma translated_Inr: "translated m = Some (Inr x) \<longleftrightarrow> m = Some (Inr x)"
  by (auto simp: translated_def split: option.splits sum.splits)

lemma same_compile:
  assumes root: "sv_root sv = ca_pack_root a" and same: "same_snapshot wd host a raw"
  shows "mcp_compile wd sv (ca_mission a) (ca_task_type a) raw (ca_expected a) = Some (Inr b) \<longleftrightarrow> cli_compile wd host a = Some (Inr b)"
    and "mcp_plan wd sv (ca_mission a) (ca_task_type a) raw = Some (Inr p) \<longleftrightarrow> cli_plan wd host a = Inr p"
proof -
  have "case cli_snapshot wd host a of
     Inr s \<Rightarrow> parse_context_snapshot wd raw = Inr s | Inl e \<Rightarrow> \<exists>e'. parse_context_snapshot wd raw = Inl e'"
    by (rule snapshot_of_file [OF same])
  thus "mcp_compile wd sv (ca_mission a) (ca_task_type a) raw (ca_expected a) = Some (Inr b) \<longleftrightarrow> cli_compile wd host a = Some (Inr b)"
    "mcp_plan wd sv (ca_mission a) (ca_task_type a) raw = Some (Inr p) \<longleftrightarrow> cli_plan wd host a = Inr p"
    by (cases "cli_snapshot wd host a"; auto simp: mcp_compile_def mcp_plan_def cli_compile_def cli_plan_def translated_Inr
      cli_tool_request [OF root])+
qed

lemma cli_prints:
  assumes "ca_write_dir a = None"
  shows "cli_main wd host a = Some (fs', Printed data) \<longleftrightarrow>
    \<not> (ca_plan_context a \<and> ca_expected a \<noteq> None) \<and> fs' = wd_files wd \<and>
    (\<exists>name. cli_output wd host a = Some (Inr (name, data)))"
  unfolding cli_main_def using assms by (auto split: option.splits sum.splits)

lemma cli_output_Inr:
  "cli_output wd host a = Some (Inr (name, data)) \<longleftrightarrow>
     (if ca_plan_context a
      then name = ''context-plan.json'' \<and> (\<exists>p. cli_plan wd host a = Inr p \<and> data = manifest_text (plan_payload (wd_hash wd) p))
      else name = ''bundle.json'' \<and> (\<exists>b. cli_compile wd host a = Some (Inr b) \<and> data = manifest_text (bundle_payload (wd_hash wd) b)))"
  by (auto simp: cli_output_def bindO_Inr)

lemma tool_plan_Inr:
  "tool_plan_context_requirements wd sv m tt raw = Some (Inr v) \<longleftrightarrow>
     (\<exists>p. mcp_plan wd sv m tt raw = Some (Inr p) \<and> v = JObj (plan_payload (wd_hash wd) p))"
  by (auto simp: tool_plan_context_requirements_def bindS_def plan_payload_def split: option.splits sum.splits)

lemma output_without_directory: "cli_output wd host (a\<lparr>ca_write_dir := d\<rparr>) = cli_output wd host a"
  by (simp add: cli_output_def cli_plan_def cli_compile_def cli_snapshot_def cli_request_def)

lemma confine_Inr: "confine host fs path root label = Inr target \<Longrightarrow> relative_to target root"
  by (auto simp: confine_def Let_def split: if_splits)

lemma write_output_effect:
  assumes "write_output host fs dir name data = (fs', out)"
  shows "case out of
     Wrote path \<Rightarrow> (\<exists>d. relative_to d (fs_resolve fs (ch_cwd host)) \<and> path = under d name \<and>
       fs_bytes fs' = (fs_bytes fs)(fs_resolve fs path \<mapsto> data))
   | _ \<Rightarrow> fs_bytes fs' = fs_bytes fs"
proof (cases "confined_write_dir host fs dir None")
  case (Inl e)
  thus ?thesis using assms by (auto simp: write_output_def)
next
  case (Inr d)
  have beneath: "relative_to d (fs_resolve fs (ch_cwd host))"
    using confine_Inr Inr by (simp add: confined_write_dir_def allow_root_of_def)
  show ?thesis
  proof (cases "make_dirs fs (parents d @ [d])")
    case None
    thus ?thesis using assms Inr by (auto simp: write_output_def)
  next
    case (Some fs1)
    note made = make_dirs_Some [OF Some]
    show ?thesis
    proof (cases "write_at fs1 (fs_resolve fs1 (under d name)) data")
      case None
      thus ?thesis using assms Inr Some made by (auto simp: write_output_def)
    next
      case (Some fs2)
      thus ?thesis using assms Inr \<open>make_dirs fs _ = Some fs1\<close> made write_at_Some [OF Some] beneath
        by (auto simp: write_output_def)
    qed
  qed
qed

section \<open>Properties\<close>


text \<open>The command never writes without a directory to write to, and with one it writes a single file: one of two names in
  a directory that resolves beneath the working directory, where the write follows a link the file may be, holding exactly the text the command prints
  without one. Whatever fails, no file changes.\<close>

theorem cli_writes_confined:
  assumes "cli_main wd host a = Some (fs', out)"
  shows "(ca_write_dir a = None \<longrightarrow> fs' = wd_files wd) \<and>
    (case out of
       Wrote path \<Rightarrow> (\<exists>given dir name data. ca_write_dir a = Some given \<and>
          relative_to dir (fs_resolve (wd_files wd) (ch_cwd host)) \<and>
          name = (if ca_plan_context a then ''context-plan.json'' else ''bundle.json'') \<and> path = under dir name \<and>
          fs_bytes fs' = (fs_bytes (wd_files wd))(fs_resolve (wd_files wd) path \<mapsto> data) \<and>
          cli_main wd host (a\<lparr>ca_write_dir := None\<rparr>) = Some (wd_files wd, Printed data))
     | _ \<Rightarrow> fs_bytes fs' = fs_bytes (wd_files wd))"
proof -
  show ?thesis
  proof (cases "\<exists>given name data. ca_write_dir a = Some given \<and> cli_output wd host a = Some (Inr (name, data)) \<and>
      \<not> (ca_plan_context a \<and> ca_expected a \<noteq> None)")
    case True
    then obtain given name data where c: "ca_write_dir a = Some given" "cli_output wd host a = Some (Inr (name, data))"
      "\<not> (ca_plan_context a \<and> ca_expected a \<noteq> None)" by blast
    hence w: "write_output host (wd_files wd) given name data = (fs', out)" using assms by (auto simp: cli_main_def)
    have n: "name = (if ca_plan_context a then ''context-plan.json'' else ''bundle.json'')"
      using c(2) by (auto simp: cli_output_Inr split: if_splits)
    have p: "cli_main wd host (a\<lparr>ca_write_dir := None\<rparr>) = Some (wd_files wd, Printed data)"
      using c(2, 3) by (simp add: cli_main_def output_without_directory)
    show ?thesis using write_output_effect [OF w] c(1) n p by (cases out) auto
  next
    case False
    hence "fs' = wd_files wd \<and> (\<forall>path. out \<noteq> Wrote path)"
      using assms by (auto simp: cli_main_def split: if_splits option.splits sum.splits)
    thus ?thesis by (cases out) auto
  qed
qed

text \<open>A command with a snapshot file over the sample pack, and what it refuses.\<close>

definition sample_cli_world :: world where
  "sample_cli_world = sample_wd\<lparr>wd_files := sample_files\<lparr>fs_bytes := (fs_bytes sample_files)(''/s'' \<mapsto> ''{}'')\<rparr>,
     wd_json := (\<lambda>t. if t = ''{}'' then Some (JObj []) else sample_parse t)\<rparr>"

definition sample_host :: cli_host where
  "sample_host = \<lparr>ch_expand = (\<lambda>p. p), ch_cwd = ''/w''\<rparr>"

definition sample_args :: cli_args where
  "sample_args = \<lparr>ca_mission = ''m'', ca_task_type = ''t'', ca_pack_root = ''/p'', ca_snapshot = Some ''/s'',
     ca_plan_context = False, ca_expected = None, ca_write_dir = None\<rparr>"


text \<open>Planning over the sample pack into a directory.\<close>

definition planning_args :: cli_args where
  "planning_args = \<lparr>ca_mission = ''review'', ca_task_type = ''t'', ca_pack_root = ''/p'', ca_snapshot = None,
     ca_plan_context = True, ca_expected = None, ca_write_dir = Some ''o''\<rparr>"

lemma sample_tool_plan: "\<exists>p. cli_plan sample_wd sample_host planning_args = Inr p"
proof -
  let ?src = "pack_sources_of (\<lambda>bytes. bytes) sample_readers sample_files sample_loaded"
  have r: "read_source ?src RULES_REL = Inr ''r''" and q: "read_source ?src PIPELINE_REL = Inr ''q''" by code_simp+
  have n: "non_blank ''r''" "non_blank ''q''" by code_simp+
  have rules: "ps_rules ?src ''r'' = Inr plain_rules"
    and px: "ps_pipeline ?src ''q'' = Inr \<lparr>px_terminal_contract = None, px_pipeline_id = None, px_phases = []\<rparr>"
    by (simp_all add: pack_sources_of_def sources_over_def load_yaml_mapping_def sample_readers_def sample_parse_def n)
  obtain pp where pp: "prepare_context_plan (\<lambda>bytes. bytes) ?src (rp_provenance sample_loaded)
      (default_request ''review'' ''t'') None False None = Inr pp"
    using plain_prepare [OF r q rules px] by blast
  have e: "service_load_pack (world_service sample_wd) (cli_request planning_args) = Inr (?src, rp_provenance sample_loaded)"
  proof -
    have "resolve_pack_root sample_files (Some (pack_root (rp_provenance sample_loaded))) = Inr ''/p''"
      "non_blank ''review''" "non_blank ''/p''" by code_simp+
    thus ?thesis
      by (simp add: service_load_pack_def world_service_def sample_wd_def local_service_def cli_request_def planning_args_def
        default_request_def compile_request.defs service_request.defs sample_loads)
  qed
  have t: "compile_request.truncate (cli_request planning_args) = default_request ''review'' ''t''"
    by (simp add: cli_request_def planning_args_def compile_request.defs service_request.defs default_request_def)
  have "wd_hash sample_wd = (\<lambda>bytes. bytes)" by (simp add: sample_wd_def)
  thus ?thesis using pp
    by (simp add: cli_plan_def cli_snapshot_def planning_args_def [THEN arg_cong, of ca_snapshot] service_plan_context_def e t plan_pack_def)
qed

theorem cli_writes_confined_witness:
  "\<exists>fs' data. cli_main sample_wd sample_host planning_args = Some (fs', Wrote ''/w/o/context-plan.json'') \<and>
     fs_bytes fs' ''/w/o/context-plan.json'' = Some data \<and>
     cli_main sample_wd sample_host (planning_args\<lparr>ca_write_dir := None\<rparr>) = Some (wd_files sample_wd, Printed data)"
proof -
  obtain p where p: "cli_plan sample_wd sample_host planning_args = Inr p" using sample_tool_plan by blast
  let ?data = "manifest_text (plan_payload (wd_hash sample_wd) p)"
  have "cli_output sample_wd sample_host planning_args = Some (Inr (''context-plan.json'', ?data))"
    using p by (simp add: cli_output_Inr planning_args_def)
  moreover have "confined_write_dir sample_host (wd_files sample_wd) ''o'' None = Inr ''/w/o''"
    "list_ex (fs_is_file sample_files) (parents ''/w/o'' @ [''/w/o''])  = False"
    "fs_is_dir sample_files ''/w/o/context-plan.json'' = False"
    "under ''/w/o'' ''context-plan.json'' = ''/w/o/context-plan.json''"
    "list_ex (\<lambda>d. d = ''/w/o/context-plan.json'') (parents ''/w/o'' @ [''/w/o'']) = False"
    by code_simp+
  moreover have "fs_resolve (wd_files sample_wd) = (\<lambda>x. x)" by (simp add: sample_wd_def sample_files_def)
  ultimately obtain fs' where m: "cli_main sample_wd sample_host planning_args = Some (fs', Wrote ''/w/o/context-plan.json'')"
    by (auto simp: cli_main_def planning_args_def write_output_def make_dirs_def write_at_def sample_wd_def list_ex_iff)
  from cli_writes_confined [OF m] obtain dir name data where
    e: "''/w/o/context-plan.json'' = under dir name"
       "fs_bytes fs' = (fs_bytes (wd_files sample_wd))(fs_resolve (wd_files sample_wd) ''/w/o/context-plan.json'' \<mapsto> data)"
       "cli_main sample_wd sample_host (planning_args\<lparr>ca_write_dir := None\<rparr>) = Some (wd_files sample_wd, Printed data)"
    by auto
  have "fs_resolve (wd_files sample_wd) = (\<lambda>x. x)" by (simp add: sample_wd_def sample_files_def)
  hence "fs_bytes fs' ''/w/o/context-plan.json'' = Some data" using e(2) by simp
  with m e(3) show ?thesis by blast
qed

end
