(* ===== verification/GraphTools.thy ===== *)
theory GraphTools
  imports Pack
begin

text \<open>
  The tools beside the compiler that work on execution graphs (\<open>runtime/execution_graph\<close>): the builder and the
  validator, which delegate to the package, the listing of a graph, and the scheduler with its own topological order.
  That order is compared with the one of the package (\<open>Graph\<close>), whose loop it shares.
\<close>

section \<open>The scheduler\<close>

text \<open>An unknown end of an edge is a \<open>KeyError\<close>, the source of the edge first.\<close>

primrec resolver_links :: "string list \<Rightarrow> (string \<times> string) list \<Rightarrow> links \<times> links \<Rightarrow> (links \<times> links) res" where
  "resolver_links ids [] io = Inr io"
| "resolver_links ids (e # es) io =
     (if fst e \<notin> set ids then Inl (PyKeyError (fst e))
      else if snd e \<notin> set ids then Inl (PyKeyError (snd e))
      else resolver_links ids es
             ((fst io)(snd e := insert (fst e) (fst io (snd e))),
              (snd io)(fst e := insert (snd e) (snd io (fst e)))))"

definition resolver_order :: "string list \<Rightarrow> (string \<times> string) list \<Rightarrow> string list res option" where
  "resolver_order ids es =
     (case resolver_links ids es (\<lambda>_. {}, \<lambda>_. {}) of
        Inl err \<Rightarrow> Some (Inl err)
      | Inr io \<Rightarrow>
          (case kahn_loop (snd io) (fst io) (filter (\<lambda>i. fst io i = {}) ids) [] of
             None \<Rightarrow> None
           | Some ordered \<Rightarrow>
               Some (if length ordered \<noteq> length ids then Inl (PyValueError ''cycle detected in execution graph'')
                     else Inr ordered)))"

definition node_by_id :: "graph_node list \<Rightarrow> string \<Rightarrow> graph_node" where
  "node_by_id ns i = the (map_of (rev (map (\<lambda>n. (node_id n, n)) ns)) i)"

definition edge_ends :: "execution_graph \<Rightarrow> (string \<times> string) list" where
  "edge_ends g = map (\<lambda>e. (from_node e, to_node e)) (edges g)"

definition schedule :: "execution_graph \<Rightarrow> graph_node list res option" where
  "schedule g = (case resolver_order (map node_id (nodes g)) (edge_ends g) of
     None \<Rightarrow> None
   | Some r \<Rightarrow> Some (bindR r (\<lambda>order. Inr (map (node_by_id (nodes g)) order))))"

section \<open>The builder, the validator and the listing\<close>

text \<open>\<open>decode\<close> is \<open>ExecutionContract.from_mapping\<close>, and in the validator \<open>ExecutionGraph.from_mapping\<close>.\<close>

definition build_graph ::
  "(string \<Rightarrow> json option) \<Rightarrow> (json \<Rightarrow> execution_contract res) \<Rightarrow> file_system \<Rightarrow> string \<Rightarrow> string \<Rightarrow> json res option" where
  "build_graph parse decode fs contract_path root =
     (let base = fs_resolve fs root in
      case bindR (load_yaml_file parse fs (under base contract_path) base) decode of
        Inl e \<Rightarrow> Some (Inl e)
      | Inr contract \<Rightarrow> (case derive_execution_graph contract of
            None \<Rightarrow> None
          | Some r \<Rightarrow> Some (bindR r (\<lambda>g. Inr (graph_json g)))))"

definition validator_report ::
  "(string \<Rightarrow> json option) \<Rightarrow> (json \<Rightarrow> execution_graph res) \<Rightarrow> file_system \<Rightarrow> string \<Rightarrow> string \<Rightarrow>
     (bool \<times> string list) res option" where
  "validator_report parse decode fs path root =
     (case bindR (confined_input_file fs path root) (read_bytes fs) of
        Inl e \<Rightarrow> Some (Inl e)
      | Inr data \<Rightarrow> (case parse data of
            None \<Rightarrow> Some (Inl (PyValueError ''JSONDecodeError''))
          | Some graph \<Rightarrow> (case validate_execution_graph_mapping decode graph of
                None \<Rightarrow> None
              | Some findings \<Rightarrow> Some (Inr (findings = [], findings)))))"

text \<open>\<open>edge.get('reason', '')\<close> is \<open>None\<close> where the reason is null.\<close>

definition node_line :: "json \<Rightarrow> string res" where
  "node_line n =
     bindR (py_index n ''id'') (\<lambda>i. bindR (py_index n ''phase'') (\<lambda>p.
     bindR (bindR (py_index n ''outputs'') py_items) (\<lambda>os. bindR (mapR py_text os) (\<lambda>ts.
       Inr (''- `'' @ py_str i @ ''`: '' @ py_str p @ '' -> '' @ join_with '', '' ts)))))"

definition edge_line :: "json \<Rightarrow> string res" where
  "edge_line e =
     bindR (py_index e ''from'') (\<lambda>a. bindR (py_index e ''to'') (\<lambda>b. bindR (py_get e ''reason'') (\<lambda>r.
       Inr (''- `'' @ py_str a @ ''` -> `'' @ py_str b @ ''` ('' @ (case r of None \<Rightarrow> [] | Some v \<Rightarrow> py_str v) @ '')''))))"

definition graph_lines :: "json \<Rightarrow> string list res" where
  "graph_lines graph =
     bindR (bindR (py_index graph ''nodes'') py_items) (\<lambda>ns. bindR (mapR node_line ns) (\<lambda>nls.
     bindR (bindR (py_index graph ''edges'') py_items) (\<lambda>es. bindR (mapR edge_line es) (\<lambda>els.
       Inr ([''# Execution Graph'', []] @ nls @ [[], ''## Edges''] @ els)))))"

section \<open>Comparison with the order of the package\<close>

lemma resolver_links_closed: "closed_edges ids es \<Longrightarrow> resolver_links ids es io = link_edges ids es io"
  by (induction es arbitrary: io) auto

lemma resolver_links_open:
  "\<not> closed_edges ids es \<Longrightarrow> \<exists>k. resolver_links ids es io = Inl (PyKeyError k) \<and> k \<notin> set ids \<and>
     (\<exists>e \<in> set es. k = fst e \<or> k = snd e)"
proof (induction es arbitrary: io)
  case (Cons e es)
  show ?case
  proof (cases "fst e \<in> set ids \<and> snd e \<in> set ids")
    case True
    hence "\<not> closed_edges ids es" using Cons.prems by auto
    from Cons.IH [OF this] True show ?thesis by fastforce
  next
    case False
    thus ?thesis by auto
  qed
qed simp

lemma resolver_order_cases:
  assumes dist: "distinct ids"
  shows "if \<not> closed_edges ids es then \<exists>k. resolver_order ids es = Some (Inl (PyKeyError k)) \<and> k \<notin> set ids
    else if acyclic (set es) then \<exists>order. resolver_order ids es = Some (Inr order) \<and> mset order = mset ids \<and> forward es order
    else resolver_order ids es = Some (Inl (PyValueError ''cycle detected in execution graph''))"
proof (cases "closed_edges ids es")
  case True
  have l: "resolver_links ids es (\<lambda>_. {}, \<lambda>_. {}) = Inr (preds es, succs es)"
    unfolding resolver_links_closed [OF True] link_edges_Inr using True by simp
  have "queue_ok ids es (preds es) (filter (\<lambda>i. preds es i = {}) ids) []" by (rule queue_ok_initial) auto
  from kahn_exact [OF True dist this] dist obtain order where
    "kahn_loop (succs es) (preds es) (filter (\<lambda>i. preds es i = {}) ids) [] = Some order"
    "if acyclic (set es) then mset order = mset ids \<and> forward es order else length order \<noteq> length ids" by auto
  thus ?thesis using True mset_eq_length by (auto simp: resolver_order_def l split: if_splits)
next
  case False
  from resolver_links_open [OF False, of "(\<lambda>_. {}, \<lambda>_. {})"] show ?thesis
    using False by (auto simp: resolver_order_def)
qed

lemma resolver_order_ok:
  assumes "distinct ids" and "closed_edges ids es" and "acyclic (set es)"
  shows "\<exists>order. resolver_order ids es = Some (Inr order) \<and> mset order = mset ids \<and> forward es order"
  using resolver_order_cases [OF assms(1), of es] assms(2,3) by auto

lemma node_by_id_own: "distinct (map node_id ns) \<Longrightarrow> n \<in> set ns \<Longrightarrow> node_by_id ns (node_id n) = n"
  unfolding node_by_id_def by (subst map_of_is_SomeI [of _ _ n]) (auto simp: comp_def rev_map [symmetric])

lemma nodes_by_id: "distinct (map node_id ns) \<Longrightarrow> map (node_by_id ns) (map node_id ns) = ns"
  by (induction ns rule: rev_induct) (auto intro!: map_idI simp: node_by_id_own)

lemma scheduled_nodes:
  assumes "distinct (map node_id ns)" and "mset order = mset (map node_id ns)"
  shows "mset (map (node_by_id ns) order) = mset ns" and "map node_id (map (node_by_id ns) order) = order"
proof -
  have "mset (map (node_by_id ns) order) = mset (map (node_by_id ns) (map node_id ns))"
    using assms(2) by (simp only: mset_map)
  thus "mset (map (node_by_id ns) order) = mset ns" by (simp only: nodes_by_id [OF assms(1)])
  have "node_id (node_by_id ns i) = i" if "i \<in> set order" for i
  proof -
    have "i \<in> node_id ` set ns" using mset_eq_setD [OF assms(2)] that by simp
    thus ?thesis using node_by_id_own [OF assms(1)] by auto
  qed
  thus "map node_id (map (node_by_id ns) order) = order" by (simp add: map_idI)
qed

lemma chain_ends: "edge_ends (chain_graph c ns) = chain (map node_id ns)"
  by (simp add: edge_ends_def chain_graph_def comp_def step_edge_def)

lemma schedule_chain:
  assumes "distinct (map node_id ns)"
  shows "schedule (chain_graph c ns) = Some (Inr ns)"
proof -
  obtain order where o: "resolver_order (map node_id ns) (chain (map node_id ns)) = Some (Inr order)"
      "mset order = mset (map node_id ns)" "forward (chain (map node_id ns)) order"
    using resolver_order_ok [OF assms chain_closed chain_acyclic [OF assms]] by blast
  have "order = map node_id ns"
    by (rule forward_chain_unique [OF o(3)]) (use assms o(2) mset_eq_setD mset_eq_imp_distinct_iff in \<open>blast+\<close>)
  thus ?thesis using o(1) chain_ends [of c ns] nodes_by_id [OF assms]
    by (simp add: schedule_def chain_graph_def)
qed

section \<open>Property\<close>

text \<open>On distinct nodes the scheduler succeeds exactly where the topological order of the package does, telling an edge to an
  unknown node (a bare \<open>KeyError\<close>) from a cycle (a \<open>ValueError\<close>) as the package does with its typed error: it returns every
  node once, with every edge leading forward. A graph without findings can be scheduled, and the graph derived
  from a contract runs its steps in the order of the contract.\<close>

theorem scheduler_agrees:
  assumes dist: "distinct (map node_id (nodes g))"
  shows "((\<exists>ns. schedule g = Some (Inr ns)) \<longleftrightarrow> (\<exists>order. topological_order (map node_id (nodes g)) (edge_ends g) = Some (Inr order))) \<and>
    (\<forall>ns. schedule g = Some (Inr ns) \<longrightarrow> mset ns = mset (nodes g) \<and> forward (edge_ends g) (map node_id ns)) \<and>
    ((\<exists>k. schedule g = Some (Inl (PyKeyError k))) \<longleftrightarrow> topological_order (map node_id (nodes g)) (edge_ends g) =
       Some (Inl (InvalidValueError ''edge references missing node'' ''edges''))) \<and>
    (schedule g = Some (Inl (PyValueError ''cycle detected in execution graph'')) \<longleftrightarrow>
       topological_order (map node_id (nodes g)) (edge_ends g) =
       Some (Inl (InvalidValueError ''cycle detected in execution graph'' ''edges''))) \<and>
    (graph_findings g = Some [] \<longrightarrow> (\<exists>ns. schedule g = Some (Inr ns))) \<and>
    (\<forall>c. derive_execution_graph c = Some (Inr g) \<longrightarrow> schedule g = Some (Inr (map step_node (execution_steps c))))"
proof -
  let ?ids = "map node_id (nodes g)" and ?es = "edge_ends g"
  have derived: "schedule g = Some (Inr (map step_node (execution_steps c)))" if "derive_execution_graph c = Some (Inr g)" for c
  proof -
    have "distinct (map step_id (execution_steps c))" "g = chain_graph c (map step_node (execution_steps c))"
      using that unfolding derive_execution_graph_eq by (auto split: if_splits)
    thus ?thesis using schedule_chain [of "map step_node (execution_steps c)" c] by (simp add: comp_def)
  qed
  have checked: "\<exists>order. topological_order ?ids ?es = Some (Inr order)" if "graph_findings g = Some []"
    using that by (auto simp: graph_findings_def Let_def edge_ends_def split: option.splits sum.splits)
  consider (missing) "\<not> closed_edges ?ids ?es" | (cycle) "closed_edges ?ids ?es" "\<not> acyclic (set ?es)"
    | (fine) "closed_edges ?ids ?es" "acyclic (set ?es)" by blast
  thus ?thesis
  proof cases
    case missing
    with resolver_order_cases [OF dist, of ?es] obtain k where "resolver_order ?ids ?es = Some (Inl (PyKeyError k))" by auto
    hence "schedule g = Some (Inl (PyKeyError k))" by (simp add: schedule_def)
    moreover note topological_order_unknown [OF missing]
    ultimately show ?thesis using checked derived by auto
  next
    case cycle
    with resolver_order_cases [OF dist, of ?es]
    have "schedule g = Some (Inl (PyValueError ''cycle detected in execution graph''))" by (simp add: schedule_def)
    moreover have "topological_order ?ids ?es = Some (Inl (InvalidValueError ''cycle detected in execution graph'' ''edges''))"
      using topological_order_cases [OF cycle(1) dist] cycle(2) by blast
    ultimately show ?thesis using checked derived by auto
  next
    case fine
    with resolver_order_cases [OF dist, of ?es] obtain order where o: "resolver_order ?ids ?es = Some (Inr order)"
      "mset order = mset ?ids" "forward ?es order" by auto
    have "schedule g = Some (Inr (map (node_by_id (nodes g)) order))" using o(1) by (simp add: schedule_def)
    moreover obtain order' where "topological_order ?ids ?es = Some (Inr order')"
      using topological_order_cases [OF fine(1) dist] fine(2) by blast
    ultimately show ?thesis using scheduled_nodes [OF dist o(2)] o(3) derived by auto
  qed
qed

text \<open>A graph of three nodes, which the scheduler and the package order differently.\<close>

definition sample_node :: "string \<Rightarrow> graph_node" where
  "sample_node i = \<lparr>node_id = i, node_phase = ''p'', node_kernel_refs = [], node_outputs = [], node_status = None,
     node_obligation_refs = [], node_inputs = [], node_entry_gates = [], node_exit_gates = [], node_evidence = [],
     node_failure_routes = [], node_disposition = None\<rparr>"

definition sample_tool_graph :: execution_graph where
  "sample_tool_graph = \<lparr>graph_id = ''g'', source_contract = ''c'', nodes = map sample_node [''c'', ''b'', ''a''],
     edges = [\<lparr>from_node = ''b'', to_node = ''a'', edge_reason = None\<rparr>], terminal_node = ''a'', validation_gates = [],
     graph_obligation_refs = [], terminal_disposition = None\<rparr>"

lemma orders_differ:
  "resolver_order [''c'', ''b'', ''a''] [(''b'', ''a'')] = Some (Inr [''c'', ''b'', ''a''])"
  "topological_order [''c'', ''b'', ''a''] [(''b'', ''a'')] = Some (Inr [''b'', ''c'', ''a''])"
  by code_simp+

text \<open>A reason that is null is listed as \<open>None\<close>.\<close>

lemma sample_listing_lines:
  "graph_lines (graph_json sample_tool_graph) = Inr
     [''# Execution Graph'', [], ''- `c`: p -> '', ''- `b`: p -> '', ''- `a`: p -> '', [], ''## Edges'', ''- `b` -> `a` (None)'']"
  by code_simp

theorem scheduler_agrees_witness:
  "\<exists>ns. schedule sample_tool_graph = Some (Inr ns) \<and> mset ns = mset (nodes sample_tool_graph) \<and>
     forward [(''b'', ''a'')] (map node_id ns)"
proof -
  have d: "distinct (map node_id (nodes sample_tool_graph))" by code_simp
  have f: "graph_findings sample_tool_graph = Some []" by code_simp
  have "edge_ends sample_tool_graph = [(''b'', ''a'')]" by code_simp
  thus ?thesis using scheduler_agrees [OF d] f by metis
qed

end
