(* ===== verification/PackChecks.thy ===== *)
theory PackChecks
  imports Deployment
begin

text \<open>
  The validators of a kernel pack (\<open>runtime/kernel_pipeline/validators\<close>): pipeline order, phase outputs, kernel
  roles, and the two lists of required files. Each returns its findings, passing when there are none, or the
  exception that ends it. A finding is its fixed text with the values it interpolates; the YAML parser is a parameter.
\<close>

section \<open>Shared helpers\<close>

datatype finding = Finding string "json list"

type_synonym findings = "finding list res"

definition exists_at :: "file_system \<Rightarrow> string \<Rightarrow> bool" where
  "exists_at fs p \<longleftrightarrow> fs_exists fs (fs_resolve fs p)"

definition load_yaml :: "(string \<Rightarrow> json option) \<Rightarrow> file_system \<Rightarrow> string \<Rightarrow> json res" where
  "load_yaml yaml fs p = bindR (read_bytes fs (fs_resolve fs p)) (\<lambda>t. case yaml t of
     None \<Rightarrow> Inl (PyValueError ''YAMLError'') | Some v \<Rightarrow> Inr (if falsy v then JObj [] else v))"

text \<open>\<open>d.get(k, default)\<close>, and \<open>root / part\<close>, which an absolute part replaces.\<close>

definition get_or :: "json \<Rightarrow> string \<Rightarrow> json \<Rightarrow> json res" where
  "get_or d k dflt = bindR (py_get d k) (\<lambda>v. Inr (case v of None \<Rightarrow> dflt | Some x \<Rightarrow> x))"

definition join_path :: "string \<Rightarrow> string \<Rightarrow> string" where
  "join_path root part = (if starts_with part ''/'' then part else under root part)"

definition get_items :: "json \<Rightarrow> string \<Rightarrow> json list res" where
  "get_items d k = bindR (get_or d k (JList [])) py_items"

definition missing_files :: "file_system \<Rightarrow> string \<Rightarrow> string list \<Rightarrow> finding list" where
  "missing_files fs root rels =
     map (\<lambda>rel. Finding ''missing'' [JStr rel]) (filter (\<lambda>rel. \<not> exists_at fs (join_path root rel)) rels)"

section \<open>Pipeline order\<close>

definition PIPELINE_PATH :: string where
  "PIPELINE_PATH = ''runtime/kernel_pipeline/KERNEL_PIPELINE.yaml''"

definition EXPECTED_PHASES :: "string list" where
  "EXPECTED_PHASES = [''P0_UNPACK'', ''P1_CONSTITUTIONAL_PREFLIGHT'', ''P2_TASK_ROUTING'', ''P3_ARCHITECTURE_DECISION'',
     ''P4_ALIGNMENT_AND_STUB_GATE'', ''P5_RECURSIVE_IMPROVEMENT'', ''P6_LEVERAGE_COMPRESSION'', ''P7_FLAWLESS_VICTORY'']"

definition CONSTITUTIONAL_ORDER :: "string list" where
  "CONSTITUTIONAL_ORDER =
     [''runtime/kernels/constitutional/K01-platform-architecture-engine.yaml'',
      ''runtime/kernels/constitutional/K02-contracts-code-laws-enforcement.yaml'',
      ''runtime/kernels/constitutional/K03-constellation-transport-authority.yaml'',
      ''runtime/kernels/constitutional/K04-domain-spec-yaml-authoring.yaml'',
      ''runtime/kernels/constitutional/K05-file-ownership-placement-capability-registry.yaml'']"

definition TERMINAL :: string where
  "TERMINAL = ''runtime/kernels/terminal/flawless_victory.contract.yaml''"

text \<open>\<open>phase.get("id")\<close>.\<close>

definition id_of :: "json \<Rightarrow> json res" where
  "id_of p = get_or p ''id'' JNull"

fun joined :: "string \<Rightarrow> json \<Rightarrow> string res" where
  "joined root (JStr part) = Inr (join_path root part)"
| "joined root _ = Inl PyTypeError"

definition missing_kernels :: "file_system \<Rightarrow> string \<Rightarrow> json \<Rightarrow> findings" where
  "missing_kernels fs root p =
     bindR (get_or p ''id'' (JStr ''UNKNOWN_PHASE'')) (\<lambda>i.
     bindR (get_items p ''primary_kernels'') (\<lambda>ks.
     bindR (mapR (\<lambda>k. bindR (joined root k) (\<lambda>q. Inr
        (if exists_at fs q then [] else [Finding ''references missing kernel'' [i, k]]))) ks) (\<lambda>fss. Inr (concat fss))))"

definition terminal_refs_of :: "json \<Rightarrow> json list res" where
  "terminal_refs_of p =
     bindR (get_items p ''primary_kernels'') (\<lambda>ks. bindR (id_of p) (\<lambda>i.
       Inr (map (\<lambda>_. i) (filter (\<lambda>k. k = JStr TERMINAL) ks))))"

text \<open>\<open>next((p for p in phases if p.get("id") == "P1_..."), {})\<close>.\<close>

definition preflight_phase :: "json list \<Rightarrow> json" where
  "preflight_phase phases =
     (case filter (\<lambda>p. id_of p = Inr (JStr ''P1_CONSTITUTIONAL_PREFLIGHT'')) phases of [] \<Rightarrow> JObj [] | p # _ \<Rightarrow> p)"

definition pipeline_order_findings :: "file_system \<Rightarrow> string \<Rightarrow> json \<Rightarrow> findings" where
  "pipeline_order_findings fs root pipeline =
     bindR (get_items pipeline ''phase_order'') (\<lambda>phases.
     bindR (mapR id_of phases) (\<lambda>ids.
     bindR (mapR (missing_kernels fs root) phases) (\<lambda>missing.
     bindR (py_get (preflight_phase phases) ''primary_kernels'') (\<lambda>p1.
     bindR (mapR terminal_refs_of phases) (\<lambda>refs.
     bindR (py_get pipeline ''terminal_contract'') (\<lambda>tc. Inr
       ((if ids \<noteq> map JStr EXPECTED_PHASES then [Finding ''Phase order mismatch'' ids] else []) @
        concat missing @
        (if p1 \<noteq> Some (jstrs CONSTITUTIONAL_ORDER) then [Finding ''P1 constitutional kernel order is not exactly K01 -> K05'' []] else []) @
        (if concat refs \<noteq> [JStr P7] then [Finding ''Flawless Victory must be terminal-only in P7'' (concat refs)] else []) @
        (if tc \<noteq> Some (JStr TERMINAL) then [Finding ''terminal_contract does not point to the terminal contract'' []] else []))))))))"

definition validate_pipeline_order :: "(string \<Rightarrow> json option) \<Rightarrow> file_system \<Rightarrow> string \<Rightarrow> findings" where
  "validate_pipeline_order yaml fs root =
     (let path = under root PIPELINE_PATH in
      if \<not> exists_at fs path then Inr [Finding ''Missing runtime/kernel_pipeline/KERNEL_PIPELINE.yaml'' []]
      else bindR (load_yaml yaml fs path) (pipeline_order_findings fs root))"

section \<open>Phase outputs\<close>

definition CONTRACTS_PATH :: string where
  "CONTRACTS_PATH = ''runtime/kernel_pipeline/PHASE_OUTPUT_CONTRACTS.yaml''"

definition STATUS_VALUES :: "string list" where
  "STATUS_VALUES = [''passed'', ''failed'', ''blocked'', ''unknown'', ''not_applicable_with_reason'']"

text \<open>\<open>contracts.get(phase_id)\<close>: a value that is no text is in no document, and a container is no key.\<close>

fun get_key :: "json \<Rightarrow> json \<Rightarrow> json res" where
  "get_key (JObj kvs) (JStr k) = Inr (case map_of kvs k of None \<Rightarrow> JNull | Some v \<Rightarrow> v)"
| "get_key (JObj kvs) (JObj _) = Inl PyTypeError"
| "get_key (JObj kvs) (JList _) = Inl PyTypeError"
| "get_key (JObj kvs) _ = Inr JNull"
| "get_key _ _ = Inl PyAttributeError"

definition output_mismatch :: "json \<Rightarrow> json \<Rightarrow> findings" where
  "output_mismatch contracts p =
     bindR (id_of p) (\<lambda>i. bindR (get_or p ''required_outputs'' (JList [])) (\<lambda>required.
     bindR (get_key contracts i) (\<lambda>declared. Inr
       (if declared \<noteq> required then [Finding ''output contract mismatch'' [i, required, declared]] else []))))"

fun mapping_items :: "json \<Rightarrow> (string \<times> json) list res" where
  "mapping_items (JObj kvs) = Inr kvs"
| "mapping_items _ = Inl PyAttributeError"

definition missing_outputs :: "file_system \<Rightarrow> string \<Rightarrow> json \<Rightarrow> findings" where
  "missing_outputs fs dir contracts =
     bindR (mapping_items contracts) (\<lambda>kvs.
     bindR (mapR (\<lambda>(i, outs). bindR (py_items outs) (\<lambda>ns.
       bindR (mapR (\<lambda>n. bindR (joined dir n) (\<lambda>q. Inr
         (if exists_at fs q then [] else [Finding ''Missing generated output'' [JStr i, n]]))) ns) (\<lambda>fss. Inr (concat fss)))) kvs)
     (\<lambda>fss. Inr (concat fss)))"

definition phase_output_findings :: "file_system \<Rightarrow> string option \<Rightarrow> json \<Rightarrow> json \<Rightarrow> findings" where
  "phase_output_findings fs outputs_dir pipeline contracts_doc =
     bindR (get_or contracts_doc ''phase_output_contracts'' (JObj [])) (\<lambda>contracts.
     bindR (get_items pipeline ''phase_order'') (\<lambda>phases.
     bindR (mapR (output_mismatch contracts) phases) (\<lambda>mismatches.
     bindR (get_or contracts_doc ''validation_status_values'' (JList [])) (\<lambda>status.
     bindR (case outputs_dir of
         None \<Rightarrow> Inr []
       | Some d \<Rightarrow> if d = [] then Inr []
           else if \<not> exists_at fs d then Inr [Finding ''outputs-dir does not exist'' [JStr (fs_resolve fs d)]]
           else missing_outputs fs (fs_resolve fs d) contracts) (\<lambda>generated. Inr
       (concat mismatches @
        (if status \<noteq> jstrs STATUS_VALUES then [Finding ''validation_status_values'' [status]] else []) @ generated))))))"

definition validate_phase_outputs ::
  "(string \<Rightarrow> json option) \<Rightarrow> file_system \<Rightarrow> string \<Rightarrow> string option \<Rightarrow> findings" where
  "validate_phase_outputs yaml fs root outputs_dir =
     (let pipeline_path = under root PIPELINE_PATH; contracts_path = under root CONTRACTS_PATH;
          absent = (if exists_at fs pipeline_path then [] else [Finding ''Missing KERNEL_PIPELINE.yaml'' []]) @
                   (if exists_at fs contracts_path then [] else [Finding ''Missing PHASE_OUTPUT_CONTRACTS.yaml'' []]) in
      if absent \<noteq> [] then Inr absent
      else bindR (load_yaml yaml fs pipeline_path) (\<lambda>pipeline. bindR (load_yaml yaml fs contracts_path)
        (phase_output_findings fs outputs_dir pipeline)))"

section \<open>Kernel roles\<close>

definition ROLE_MAP_PATH :: string where
  "ROLE_MAP_PATH = ''runtime/kernel_pipeline/KERNEL_ROLE_MAP.yaml''"

text \<open>\<open>Path(name).suffix\<close> and \<open>.stem\<close>.\<close>

definition file_suffix :: "string \<Rightarrow> string" where
  "file_suffix n = (let ds = filter (\<lambda>i. n ! i = CHR ''.'') [0..<length n] in
     if ds = [] \<or> last ds = 0 \<or> last ds = length n - 1 then [] else drop (last ds) n)"

definition file_stem :: "string \<Rightarrow> string" where
  "file_stem n = take (length n - length (file_suffix n)) n"

definition is_yaml_file :: "string \<Rightarrow> bool" where
  "is_yaml_file n \<longleftrightarrow> lower (file_suffix n) \<in> {''.yaml'', ''.yml''}"

definition alnum :: "char \<Rightarrow> bool" where
  "alnum c \<longleftrightarrow> is_word_char c \<and> c \<noteq> CHR ''_''"

fun valid_kernel_id :: "string \<Rightarrow> bool" where
  "valid_kernel_id [] = False"
| "valid_kernel_id (c # cs) = (alnum c \<and> list_all (\<lambda>d. alnum d \<or> d \<in> {CHR ''.'', CHR ''_'', CHR ''-''}) cs)"

definition field :: "(string \<times> json) list \<Rightarrow> string \<Rightarrow> json" where
  "field kvs k = (case map_of kvs k of None \<Rightarrow> JNull | Some v \<Rightarrow> v)"

definition declared_id :: "string \<Rightarrow> (string \<times> json) list \<Rightarrow> string" where
  "declared_id name kvs = (if falsy (field kvs ''kernel_id'') then file_stem name else py_str (field kvs ''kernel_id''))"

text \<open>A finding that names a path relative to the root, which raises for a path that is not beneath it.\<close>

definition path_finding :: "string \<Rightarrow> string \<Rightarrow> finding \<Rightarrow> findings" where
  "path_finding root p f = (if relative_to p root then Inr [f] else Inl (PyValueError ''relative_to''))"

text \<open>The YAML files of a role, with the identities of the role so far and the role of every identity.\<close>

fun file_loop ::
  "(string \<Rightarrow> json option) \<Rightarrow> file_system \<Rightarrow> string \<Rightarrow> string \<Rightarrow> string \<Rightarrow> string list \<Rightarrow> string list \<Rightarrow>
     (string \<times> string) list \<Rightarrow> ((string \<times> string) list \<times> finding list) res" where
  "file_loop yaml fs root role dir [] seen ids = Inr (ids, [])"
| "file_loop yaml fs root role dir (n # ns) seen ids =
     (if \<not> is_yaml_file n then file_loop yaml fs root role dir ns seen ids
      else bindR (load_yaml yaml fs (under dir n)) (\<lambda>doc. case doc of
        JObj kvs \<Rightarrow>
          (let kid = declared_id n kvs in
           bindR (if valid_kernel_id kid then Inr []
             else path_finding root (under dir n) (Finding ''Kernel id invalid'' [JStr n, JStr kid])) (\<lambda>invalid.
           bindR (file_loop yaml fs root role dir ns (kid # seen) (dict_put kid role ids)) (\<lambda>(ids', rest). Inr (ids',
             invalid @
             (if kid \<in> set seen then [Finding ''Duplicate kernel id within role'' [JStr role, JStr kid]] else []) @
             (case map_of ids kid of
                Some other \<Rightarrow> if other \<noteq> role then [Finding ''Kernel id declared in both'' [JStr kid, JStr other, JStr role]] else []
              | None \<Rightarrow> []) @ rest))))
      | _ \<Rightarrow> bindR (path_finding root (under dir n) (Finding ''Kernel file is not a mapping'' [JStr n])) (\<lambda>bad.
          bindR (file_loop yaml fs root role dir ns seen ids) (\<lambda>(ids', rest). Inr (ids', bad @ rest)))))"

definition role_directory :: "string \<Rightarrow> json \<Rightarrow> string option" where
  "role_directory root entry = (case entry of
     JObj kvs \<Rightarrow> if falsy (field kvs ''directory'') then None else Some (join_path root (py_str (field kvs ''directory'')))
   | _ \<Rightarrow> None)"

definition role_files :: "dir_listing \<Rightarrow> file_system \<Rightarrow> string \<Rightarrow> string list" where
  "role_files dl fs dir =
     sort (filter (\<lambda>n. is_file_at fs (under dir n) \<and> (is_yaml_file n \<or> lower (file_suffix n) = ''.md'')) (dl_names dl dir))"

fun role_loop ::
  "(string \<Rightarrow> json option) \<Rightarrow> dir_listing \<Rightarrow> file_system \<Rightarrow> string \<Rightarrow> (string \<times> json) list \<Rightarrow>
     (string \<times> string) list \<Rightarrow> findings" where
  "role_loop yaml dl fs root [] ids = Inr []"
| "role_loop yaml dl fs root ((role, entry) # rest) ids =
     (case entry of
        JObj kvs \<Rightarrow>
          (case role_directory root entry of
             None \<Rightarrow> bindR (role_loop yaml dl fs root rest ids) (\<lambda>more. Inr (Finding ''Role has no directory'' [JStr role] # more))
           | Some dir \<Rightarrow>
               (let notes =
                  (if falsy (field kvs ''load_policy'') then [Finding ''Role has no load_policy'' [JStr role]] else []) @
                  (if falsy (field kvs ''duplicate_policy'') then [Finding ''Role has no duplicate_policy'' [JStr role]] else []) in
                if \<not> is_dir_at fs dir
                then bindR (role_loop yaml dl fs root rest ids) (\<lambda>more.
                  Inr (notes @ Finding ''Role directory missing'' [JStr role, field kvs ''directory''] # more))
                else
                  bindR (file_loop yaml fs root role dir (role_files dl fs dir) [] ids) (\<lambda>(ids', bad).
                  bindR (role_loop yaml dl fs root rest ids') (\<lambda>more. Inr (notes @
                    (if role_files dl fs dir = [] then [Finding ''Role directory holds no kernel files'' [JStr role]] else []) @
                    bad @ more)))))
      | _ \<Rightarrow> bindR (role_loop yaml dl fs root rest ids) (\<lambda>more. Inr (Finding ''Role entry is not a mapping'' [JStr role] # more)))"

text \<open>Every kernel of the pipeline is a file beneath the directory of a role.\<close>

definition role_dirs :: "file_system \<Rightarrow> string \<Rightarrow> (string \<times> json) list \<Rightarrow> string list" where
  "role_dirs fs root roles = map (fs_resolve fs) (concat (map (\<lambda>(_, entry).
     case role_directory root entry of None \<Rightarrow> [] | Some d \<Rightarrow> [d]) roles))"

definition placed_kernel :: "file_system \<Rightarrow> string \<Rightarrow> string list \<Rightarrow> json \<Rightarrow> finding list" where
  "placed_kernel fs root dirs k =
     (let p = join_path root (py_str k) in
      if \<not> is_file_at fs p then [Finding ''Pipeline references missing kernel'' [k]]
      else if \<not> list_ex (relative_to (fs_resolve fs p)) dirs
      then [Finding ''Pipeline kernel outside any declared role directory'' [k]] else [])"

definition pipeline_kernel_findings ::
  "(string \<Rightarrow> json option) \<Rightarrow> file_system \<Rightarrow> string \<Rightarrow> (string \<times> json) list \<Rightarrow> findings" where
  "pipeline_kernel_findings yaml fs root roles =
     (let path = under root PIPELINE_PATH in
      if \<not> exists_at fs path then Inr []
      else bindR (load_yaml yaml fs path) (\<lambda>pipeline.
        bindR (get_items pipeline ''phase_order'') (\<lambda>phases.
        bindR (mapR (\<lambda>p. get_items p ''primary_kernels'') phases) (\<lambda>kss.
          Inr (concat (map (placed_kernel fs root (role_dirs fs root roles)) (concat kss)))))))"

definition terminal_contract_findings :: "dir_listing \<Rightarrow> file_system \<Rightarrow> string \<Rightarrow> finding list" where
  "terminal_contract_findings dl fs root =
     (let dir = under root ''runtime/kernels/terminal'';
          contracts = (if exists_at fs dir
            then filter (\<lambda>n. is_file_at fs (under dir n) \<and> n = ''flawless_victory.contract.yaml'') (dl_names dl dir) else []) in
      if length contracts \<noteq> 1 then [Finding ''Exactly one terminal flawless_victory.contract.yaml is required'' []] else [])"

definition validate_kernel_roles :: "(string \<Rightarrow> json option) \<Rightarrow> dir_listing \<Rightarrow> file_system \<Rightarrow> string \<Rightarrow> findings" where
  "validate_kernel_roles yaml dl fs root =
     (let path = under root ROLE_MAP_PATH in
      if \<not> exists_at fs path then Inr [Finding ''Missing runtime/kernel_pipeline/KERNEL_ROLE_MAP.yaml'' []]
      else bindR (bindR (load_yaml yaml fs path) (\<lambda>doc. get_or doc ''role_map'' (JObj []))) (\<lambda>role_map.
        bindR (mapping_items role_map) (\<lambda>roles.
        bindR (role_loop yaml dl fs root roles []) (\<lambda>in_roles.
        bindR (pipeline_kernel_findings yaml fs root roles) (\<lambda>in_pipeline. Inr
          ((if roles = [] then [Finding ''role_map must declare at least one role'' []] else []) @
           in_roles @ in_pipeline @ terminal_contract_findings dl fs root))))))"

section \<open>Required files\<close>

definition CONTRACT_FILES :: "string list" where
  "CONTRACT_FILES =
     [''contracts/execution_contract.schema.json'', ''contracts/validation_contract.schema.json'',
      ''contracts/handoff_contract.schema.json'', ''contracts/adapter_render.schema.json'',
      ''runtime/contract_compiler/compile_execution_contract.py'', ''runtime/contract_compiler/compile_validation_contract.py'',
      ''runtime/contract_compiler/compile_handoff_contract.py'', ''runtime/contract_compiler/adapters/claude_code.md'',
      ''runtime/contract_compiler/adapters/cursor.md'', ''runtime/contract_compiler/adapters/codex.md'',
      ''runtime/contract_compiler/adapters/chatgpt.md'', ''runtime/contract_compiler/adapters/human_operator.md'']"

definition validate_contract_compiler :: "file_system \<Rightarrow> string \<Rightarrow> finding list" where
  "validate_contract_compiler fs root = missing_files fs root CONTRACT_FILES @
     (if exists_at fs (under root TERMINAL) then [] else [Finding ''missing terminal doctrine'' []])"

definition GRAPH_FILES :: "string list" where
  "GRAPH_FILES =
     [''contracts/intent_contract.schema.json'', ''runtime/intent_compiler/README.md'',
      ''runtime/intent_compiler/INTENT_COMPILER.yaml'', ''runtime/intent_compiler/compile_intent_contract.py'',
      ''runtime/execution_graph/README.md'', ''runtime/execution_graph/graph.schema.json'',
      ''runtime/execution_graph/build_execution_graph.py'', ''runtime/execution_graph/graph_validator.py'',
      ''runtime/execution_graph/dependency_resolver.py'', ''runtime/execution_graph/scheduler.py'',
      ''runtime/execution_graph/graph_visualizer.py'', ''EXECUTION_GRAPH.json'', ''EXECUTION_GRAPH.md'']"

definition validated_root :: "file_system \<Rightarrow> string \<Rightarrow> string \<Rightarrow> string res" where
  "validated_root fs repository raw =
     (let candidate = fs_resolve fs raw in
      if \<not> relative_to candidate (fs_resolve fs repository)
      then Inl (InvalidValueError ''validator root escapes repository'' raw)
      else if \<not> fs_is_dir fs candidate then Inl (InvalidValueError ''validator root is not a directory'' candidate)
      else Inr candidate)"

definition graph_file_findings ::
  "(string \<Rightarrow> json option) \<Rightarrow> (json \<Rightarrow> execution_graph res) \<Rightarrow> file_system \<Rightarrow> string \<Rightarrow> findings option" where
  "graph_file_findings parse decode fs root =
     (let path = under root ''EXECUTION_GRAPH.json'' in
      if \<not> exists_at fs path then Some (Inr [])
      else bindO (Some (bindR (confined_input_file fs path root) (read_bytes fs))) (\<lambda>data. case parse data of
          None \<Rightarrow> Some (Inr [Finding ''execution graph is not valid JSON'' []])
        | Some (JObj kvs) \<Rightarrow> (case validate_execution_graph_mapping decode (JObj kvs) of
              None \<Rightarrow> None
            | Some fnd \<Rightarrow> Some (Inr (map (\<lambda>f. Finding ''execution graph validation failed'' [JStr f]) fnd)))
        | Some _ \<Rightarrow> Some (Inr [Finding ''execution graph root must be an object'' []])))"

definition validate_intent_and_graph ::
  "(string \<Rightarrow> json option) \<Rightarrow> (json \<Rightarrow> execution_graph res) \<Rightarrow> file_system \<Rightarrow> string \<Rightarrow> string \<Rightarrow> findings option" where
  "validate_intent_and_graph parse decode fs repository raw =
     bindO (Some (validated_root fs repository raw)) (\<lambda>root.
     bindO (graph_file_findings parse decode fs root) (\<lambda>fnd. Some (Inr (missing_files fs root GRAPH_FILES @ fnd))))"

section \<open>A pipeline that passes\<close>

text \<open>The document of a pipeline.\<close>

definition phase_json :: "pipeline_phase \<Rightarrow> json" where
  "phase_json x = JObj
     [(''id'', JStr (phase_id x)), (''primary_kernels'', jstrs (primary_kernels x)), (''required_outputs'', jstrs (ph_required_outputs x))]"

definition pipeline_json :: "string option \<Rightarrow> pipeline_doc \<Rightarrow> json" where
  "pipeline_json tc doc = JObj [(''terminal_contract'', jopt tc), (''phase_order'', JList (map phase_json doc))]"

lemma phase_json_fields [simp]:
  "id_of (phase_json x) = Inr (JStr (phase_id x))"
  "get_or (phase_json x) ''id'' v = Inr (JStr (phase_id x))"
  "get_items (phase_json x) ''primary_kernels'' = Inr (map JStr (primary_kernels x))"
  by (simp_all add: id_of_def get_or_def get_items_def phase_json_def jstrs_def)

lemma pipeline_json_fields [simp]:
  "get_items (pipeline_json tc doc) ''phase_order'' = Inr (map phase_json doc)"
  "py_get (pipeline_json tc doc) ''terminal_contract'' = Inr (Some (jopt tc))"
  "\<not> falsy (pipeline_json tc doc)"
  by (simp_all add: pipeline_json_def get_items_def get_or_def)

lemma missing_kernels_json:
  "missing_kernels fs root (phase_json x) = Inr (concat (map (\<lambda>k.
     if exists_at fs (join_path root k) then [] else [Finding ''references missing kernel'' [JStr (phase_id x), JStr k]])
     (primary_kernels x)))"
  by (simp add: missing_kernels_def mapR_map [where h = "\<lambda>k. if exists_at fs (join_path root k) then []
      else [Finding ''references missing kernel'' [JStr (phase_id x), JStr k]]"])

lemma terminal_refs_json:
  "terminal_refs_of (phase_json x) = Inr (map (\<lambda>_. JStr (phase_id x)) (filter (\<lambda>k. k = TERMINAL) (primary_kernels x)))"
  by (simp add: terminal_refs_of_def filter_map comp_def)

lemma distinct_one: "distinct xs \<Longrightarrow> set xs = {x} \<Longrightarrow> xs = [x]"
  by (cases xs; cases "tl xs") auto

lemma phase_found:
  assumes d: "distinct (map phase_id doc)" and x: "x \<in> set doc" "phase_id x = i"
  shows "filter (\<lambda>y. phase_id y = i) doc = [x]"
proof (rule distinct_one)
  show "distinct (filter (\<lambda>y. phase_id y = i) doc)" using d by (simp add: distinct_map)
  show "set (filter (\<lambda>y. phase_id y = i) doc) = {x}" using x d by (auto simp: distinct_map inj_on_def)
qed

lemma pipeline_order_ok:
  assumes "pipeline_order_findings fs root (pipeline_json tc doc) = Inr []"
  shows "map phase_id doc = EXPECTED_PHASES"
    and "\<forall>x \<in> set doc. \<forall>k \<in> set (primary_kernels x). exists_at fs (join_path root k)"
    and "\<forall>x \<in> set doc. phase_id x = ''P1_CONSTITUTIONAL_PREFLIGHT'' \<longrightarrow> primary_kernels x = CONSTITUTIONAL_ORDER"
    and "\<forall>x \<in> set doc. TERMINAL \<in> set (primary_kernels x) \<longleftrightarrow> phase_id x = P7"
    and "tc = Some TERMINAL"
proof -
  let ?refs = "map (\<lambda>x. map (\<lambda>_. JStr (phase_id x)) (filter (\<lambda>k. k = TERMINAL) (primary_kernels x))) doc"
  have ids: "mapR id_of (map phase_json doc) = Inr (map (\<lambda>x. JStr (phase_id x)) doc)" by (rule mapR_map) simp
  have missing: "mapR (missing_kernels fs root) (map phase_json doc) = Inr (map (\<lambda>x. concat (map (\<lambda>k.
     if exists_at fs (join_path root k) then [] else [Finding ''references missing kernel'' [JStr (phase_id x), JStr k]])
     (primary_kernels x))) doc)" by (rule mapR_map) (rule missing_kernels_json)
  have refs: "mapR terminal_refs_of (map phase_json doc) = Inr ?refs" by (rule mapR_map) (rule terminal_refs_json)
  note f = assms [unfolded pipeline_order_findings_def, simplified bindR_simps pipeline_json_fields ids missing refs]
  show order: "map phase_id doc = EXPECTED_PHASES"
  proof -
    have "map JStr (map phase_id doc) = map JStr EXPECTED_PHASES"
      using f by (auto simp: bindR_eq_Inr comp_def split: if_splits)
    thus ?thesis by (rule map_injective) (simp add: inj_def)
  qed
  show "\<forall>x \<in> set doc. \<forall>k \<in> set (primary_kernels x). exists_at fs (join_path root k)"
    using f by (fastforce simp: bindR_eq_Inr split: if_splits)
  have "jopt tc = JStr TERMINAL" using f by (auto simp: bindR_eq_Inr split: if_splits)
  thus "tc = Some TERMINAL" by (simp add: jopt_def split: option.splits)
  have dist: "distinct (map phase_id doc)" unfolding order by code_simp
  have t: "concat ?refs = [JStr P7]" using f by (auto simp: bindR_eq_Inr split: if_splits)
  have "phase_id x = P7" if "x \<in> set doc" "TERMINAL \<in> set (primary_kernels x)" for x
  proof -
    have "JStr (phase_id x) \<in> set (concat ?refs)" using that by force
    thus ?thesis unfolding t by simp
  qed
  moreover obtain x7 where "x7 \<in> set doc" "TERMINAL \<in> set (primary_kernels x7)" "phase_id x7 = P7"
  proof -
    have "JStr P7 \<in> set (concat ?refs)" unfolding t by simp
    thus ?thesis using that by auto
  qed
  ultimately show "\<forall>x \<in> set doc. TERMINAL \<in> set (primary_kernels x) \<longleftrightarrow> phase_id x = P7"
    using dist by (auto simp: distinct_map inj_on_def)
  show "\<forall>x \<in> set doc. phase_id x = ''P1_CONSTITUTIONAL_PREFLIGHT'' \<longrightarrow> primary_kernels x = CONSTITUTIONAL_ORDER"
  proof (intro ballI impI)
    fix x assume p: "x \<in> set doc" "phase_id x = ''P1_CONSTITUTIONAL_PREFLIGHT''"
    note one = phase_found [OF dist p]
    have "preflight_phase (map phase_json doc) = phase_json x"
      using one by (simp add: preflight_phase_def filter_map comp_def)
    hence "jstrs (primary_kernels x) = jstrs CONSTITUTIONAL_ORDER"
      using f by (auto simp: bindR_eq_Inr phase_json_def split: if_splits)
    thus "primary_kernels x = CONSTITUTIONAL_ORDER" by (simp add: jstrs_def inj_map_eq_map inj_def)
  qed
qed

lemma phase_lookup_own:
  "distinct (map phase_id doc) \<Longrightarrow> phase_lookup doc p = Some x \<longleftrightarrow> x \<in> set doc \<and> phase_id x = p"
  unfolding phase_lookup_def by (induction doc rule: rev_induct) (auto simp: image_iff)

lemma phase_kernels_iff:
  assumes "distinct (map phase_id doc)"
  shows "k \<in> set (phase_kernels doc p) \<longleftrightarrow> p \<noteq> ''P2_TASK_ROUTING'' \<and> (\<exists>x \<in> set doc. phase_id x = p \<and> k \<in> set (primary_kernels x))"
proof (cases "phase_lookup doc p")
  case None
  hence "\<forall>x \<in> set doc. phase_id x \<noteq> p" using phase_lookup_own [OF assms, of p] by auto
  thus ?thesis using None by (auto simp: phase_kernels_def)
next
  case (Some x)
  have uniq: "y \<in> set doc \<and> phase_id y = p \<longleftrightarrow> y = x" for y
    using phase_lookup_own [OF assms, of p y] Some by auto
  have "phase_kernels doc p = (if p = ''P2_TASK_ROUTING'' then [] else primary_kernels x)"
    by (simp add: phase_kernels_def Some)
  moreover have "(\<exists>y \<in> set doc. phase_id y = p \<and> k \<in> set (primary_kernels y)) \<longleftrightarrow> k \<in> set (primary_kernels x)"
    by (simp add: Bex_def conj_assoc [symmetric] uniq)
  ultimately show ?thesis by simp
qed

lemma base_active_iff:
  assumes "distinct (map phase_id doc)"
  shows "k \<in> set (base_active doc phases) \<longleftrightarrow>
    (\<exists>x \<in> set doc. phase_id x \<in> set phases \<and> phase_id x \<noteq> ''P2_TASK_ROUTING'' \<and> k \<in> set (primary_kernels x))"
  by (auto simp: base_active_def phase_kernels_iff [OF assms])

lemma kernel_names:
  "ends_with TERMINAL ''flawless_victory.contract.yaml''" "P7 \<noteq> ''P2_TASK_ROUTING''"
  "k \<in> set CONSTITUTIONAL_ORDER \<Longrightarrow> \<not> ends_with k ''flawless_victory.contract.yaml''"
proof -
  have "list_all (\<lambda>k. \<not> ends_with k ''flawless_victory.contract.yaml'') CONSTITUTIONAL_ORDER" by code_simp
  thus "k \<in> set CONSTITUTIONAL_ORDER \<Longrightarrow> \<not> ends_with k ''flawless_victory.contract.yaml''" by (simp add: list_all_iff)
qed code_simp+

text \<open>Planning over a pipeline that passed, over the route \<open>r\<close> and the ordered phases before the terminal one is dropped.\<close>

lemma checked_active:
  assumes ok: "pipeline_order_findings fs root (pipeline_json tc doc) = Inr []" and dist: "distinct (map phase_id doc)"
    and drop: "dropped \<longleftrightarrow> P7 \<in> set phases0 \<and> \<not> allowed"
    and active: "active = (if dropped then filter (\<lambda>k. \<not> ends_with k ''flawless_victory.contract.yaml'')
        (insert_task_kernels (base_active doc phases0) ks) else insert_task_kernels (base_active doc phases0) ks)"
    and known: "set phases0 \<subseteq> phase_id ` set doc"
  shows "TERMINAL \<notin> set ks \<Longrightarrow> TERMINAL \<in> set active \<longleftrightarrow> P7 \<in> set phases0 \<and> allowed"
    and "''P1_CONSTITUTIONAL_PREFLIGHT'' \<in> set phases0 \<Longrightarrow> set CONSTITUTIONAL_ORDER \<subseteq> set active"
    and "k \<in> set active \<Longrightarrow> k \<in> set ks \<or> exists_at fs (join_path root k)"
proof -
  note o = pipeline_order_ok [OF ok]
  have all: "set (insert_task_kernels (base_active doc phases0) ks) = set (base_active doc phases0) \<union> set ks" by simp
  have t: "TERMINAL \<in> set (base_active doc phases0) \<longleftrightarrow> P7 \<in> set phases0"
  proof
    assume "TERMINAL \<in> set (base_active doc phases0)"
    then obtain x where "x \<in> set doc" "phase_id x \<in> set phases0" "TERMINAL \<in> set (primary_kernels x)"
      unfolding base_active_iff [OF dist] by blast
    thus "P7 \<in> set phases0" using o(4) by auto
  next
    assume p7: "P7 \<in> set phases0"
    then obtain x where x: "x \<in> set doc" "phase_id x = P7" using known by force
    hence "TERMINAL \<in> set (primary_kernels x)" using o(4) by blast
    thus "TERMINAL \<in> set (base_active doc phases0)"
      unfolding base_active_iff [OF dist] using x p7 kernel_names(2) by (intro bexI [of _ x]) simp_all
  qed
  show "TERMINAL \<notin> set ks \<Longrightarrow> TERMINAL \<in> set active \<longleftrightarrow> P7 \<in> set phases0 \<and> allowed"
    unfolding active using t drop kernel_names(1) all by auto
  show "set CONSTITUTIONAL_ORDER \<subseteq> set active" if p1: "''P1_CONSTITUTIONAL_PREFLIGHT'' \<in> set phases0"
  proof
    fix k assume k: "k \<in> set CONSTITUTIONAL_ORDER"
    obtain x where "x \<in> set doc" "phase_id x = ''P1_CONSTITUTIONAL_PREFLIGHT''" using p1 known by force
    hence "k \<in> set (base_active doc phases0)" unfolding base_active_iff [OF dist]
      using o(3) p1 k by (intro bexI [of _ x]) auto
    thus "k \<in> set active" unfolding active using kernel_names(3) [OF k] all by auto
  qed
  show "k \<in> set active \<Longrightarrow> k \<in> set ks \<or> exists_at fs (join_path root k)"
    unfolding active using o(2) all by (auto simp: base_active_iff [OF dist] split: if_splits)
qed

section \<open>Properties\<close>


definition checked_pipeline :: pipeline_doc where
  "checked_pipeline = map (\<lambda>p. \<lparr>phase_id = p,
     primary_kernels = (if p = ''P1_CONSTITUTIONAL_PREFLIGHT'' then CONSTITUTIONAL_ORDER else if p = P7 then [TERMINAL] else []),
     ph_required_outputs = []\<rparr>) EXPECTED_PHASES"

definition full_files :: file_system where
  "full_files = \<lparr>fs_resolve = (\<lambda>p. p), fs_is_dir = (\<lambda>_. False), fs_bytes = (\<lambda>_. Some ''q'')\<rparr>"

definition checked_yaml :: "string \<Rightarrow> json option" where
  "checked_yaml t = Some (pipeline_json (Some TERMINAL) checked_pipeline)"


section \<open>Roles that pass\<close>

text \<open>The identity a YAML file of a role declares, and those of all files of a role.\<close>

definition file_id :: "(string \<Rightarrow> json option) \<Rightarrow> file_system \<Rightarrow> string \<Rightarrow> string \<Rightarrow> string" where
  "file_id yaml fs dir n = (case load_yaml yaml fs (under dir n) of Inr (JObj kvs) \<Rightarrow> declared_id n kvs | _ \<Rightarrow> [])"

definition role_ids :: "(string \<Rightarrow> json option) \<Rightarrow> dir_listing \<Rightarrow> file_system \<Rightarrow> string \<Rightarrow> json \<Rightarrow> string list" where
  "role_ids yaml dl fs root entry = (case role_directory root entry of
     None \<Rightarrow> [] | Some dir \<Rightarrow> map (file_id yaml fs dir) (filter is_yaml_file (role_files dl fs dir)))"

lemma map_of_put_role: "map_of (dict_put k v d) q = (if q = k then Some v else map_of d q)"
  by (induction k v d rule: dict_put.induct) auto

lemma file_loop_clean:
  assumes "file_loop yaml fs root role dir ns seen ids = Inr (ids', [])"
  defines "kids \<equiv> map (file_id yaml fs dir) (filter is_yaml_file ns)"
  shows "distinct kids \<and> set kids \<inter> set seen = {} \<and> list_all valid_kernel_id kids \<and>
    (\<forall>k \<in> set kids. map_of ids k \<in> {None, Some role}) \<and>
    (\<forall>k. map_of ids' k = (if k \<in> set kids then Some role else map_of ids k))"
  using assms(1) unfolding kids_def
proof (induction ns arbitrary: seen ids)
  case (Cons n ns)
  show ?case
  proof (cases "is_yaml_file n")
    case False
    thus ?thesis using Cons by simp
  next
    case True
    with Cons.prems obtain doc where doc: "load_yaml yaml fs (under dir n) = Inr doc" by (auto simp: bindR_eq_Inr)
    from Cons.prems True doc obtain kvs where kvs: "doc = JObj kvs"
      by (cases doc) (auto simp: bindR_eq_Inr path_finding_def split: if_splits)
    let ?kid = "declared_id n kvs"
    have f: "file_id yaml fs dir n = ?kid" by (simp add: file_id_def doc kvs)
    from Cons.prems True doc kvs have r: "file_loop yaml fs root role dir ns (?kid # seen) (dict_put ?kid role ids) = Inr (ids', [])"
      and v: "valid_kernel_id ?kid" "?kid \<notin> set seen" "map_of ids ?kid \<in> {None, Some role}"
      by (auto simp: bindR_eq_Inr Let_def path_finding_def split: if_splits option.splits)
    from Cons.IH [OF r] v True show ?thesis by (auto simp: f map_of_put_role split: if_splits)
  qed
qed simp

lemma role_loop_clean:
  "role_loop yaml dl fs root roles ids = Inr [] \<Longrightarrow> distinct (map fst roles) \<Longrightarrow>
     (\<forall>k r. map_of ids k = Some r \<longrightarrow> r \<notin> set (map fst roles)) \<Longrightarrow>
   distinct (concat (map (\<lambda>e. role_ids yaml dl fs root (snd e)) roles)) \<and>
   (\<forall>e \<in> set roles. \<exists>dir. role_directory root (snd e) = Some dir \<and> is_dir_at fs dir \<and> role_files dl fs dir \<noteq> []) \<and>
   (\<forall>k \<in> set (concat (map (\<lambda>e. role_ids yaml dl fs root (snd e)) roles)). valid_kernel_id k \<and> map_of ids k = None)"
proof (induction roles arbitrary: ids)
  case (Cons e roles)
  obtain role entry where e: "e = (role, entry)" by (cases e)
  from Cons.prems(1) obtain kvs where kvs: "entry = JObj kvs"
    by (cases entry) (auto simp: e bindR_eq_Inr)
  with Cons.prems(1) obtain dir where dir: "role_directory root entry = Some dir"
    by (cases "role_directory root entry") (auto simp: e bindR_eq_Inr)
  with Cons.prems(1) kvs obtain ids' where run: "file_loop yaml fs root role dir (role_files dl fs dir) [] ids = Inr (ids', [])"
      "role_loop yaml dl fs root roles ids' = Inr []" and d: "is_dir_at fs dir" "role_files dl fs dir \<noteq> []"
    by (auto simp: e bindR_eq_Inr Let_def split: if_splits)
  note own = file_loop_clean [OF run(1)]
  let ?own = "map (file_id yaml fs dir) (filter is_yaml_file (role_files dl fs dir))"
  have o: "role_ids yaml dl fs root entry = ?own" by (simp add: role_ids_def dir)
  have "\<forall>k r. map_of ids' k = Some r \<longrightarrow> r \<notin> set (map fst roles)"
  proof (intro allI impI)
    fix k r assume "map_of ids' k = Some r"
    hence "r = role \<or> map_of ids k = Some r" using own by (auto split: if_splits)
    thus "r \<notin> set (map fst roles)" using Cons.prems(2,3) by (auto simp: e)
  qed
  note rest = Cons.IH [OF run(2) _ this]
  have rest': "distinct (concat (map (\<lambda>e. role_ids yaml dl fs root (snd e)) roles))"
    "\<forall>e \<in> set roles. \<exists>dir. role_directory root (snd e) = Some dir \<and> is_dir_at fs dir \<and> role_files dl fs dir \<noteq> []"
    "\<forall>k \<in> set (concat (map (\<lambda>e. role_ids yaml dl fs root (snd e)) roles)). valid_kernel_id k \<and> map_of ids' k = None"
    using rest Cons.prems(2) by auto
  have apart: "set ?own \<inter> set (concat (map (\<lambda>e. role_ids yaml dl fs root (snd e)) roles)) = {}"
    using own rest'(3) by fastforce
  have fresh: "map_of ids k = None" if "k \<in> set ?own" for k
    using own that Cons.prems(3) by (fastforce simp: e)
  have older: "map_of ids k = None" if "k \<in> set (concat (map (\<lambda>e. role_ids yaml dl fs root (snd e)) roles))" for k
    using own rest'(3) that by (metis option.distinct(1))
  show ?case
  proof (intro conjI)
    show "distinct (concat (map (\<lambda>e. role_ids yaml dl fs root (snd e)) (e # roles)))"
      using own rest'(1) apart by (simp add: e o)
    show "\<forall>x \<in> set (e # roles). \<exists>dir. role_directory root (snd x) = Some dir \<and> is_dir_at fs dir \<and> role_files dl fs dir \<noteq> []"
      using rest'(2) dir d by (simp add: e)
    show "\<forall>k \<in> set (concat (map (\<lambda>e. role_ids yaml dl fs root (snd e)) (e # roles))). valid_kernel_id k \<and> map_of ids k = None"
      using own fresh older rest'(3) by (auto simp: e o list_all_iff)
  qed
qed simp

lemma load_yaml_wf: "load_yaml yaml fs p = Inr v \<Longrightarrow> \<forall>t v. yaml t = Some v \<longrightarrow> wf_json v \<Longrightarrow> wf_json v"
  by (auto simp: load_yaml_def bindR_eq_Inr split: option.splits if_splits)

lemma get_or_wf: "get_or d k (JObj []) = Inr v \<Longrightarrow> wf_json d \<Longrightarrow> wf_json v"
  by (cases d) (auto simp: get_or_def list_all_iff split: option.splits dest: map_of_SomeD)

lemma mapping_items_Inr: "mapping_items v = Inr roles \<longleftrightarrow> v = JObj roles"
  by (cases v) auto

lemma placed_kernel_clean:
  "placed_kernel fs root (role_dirs fs root roles) k = [] \<Longrightarrow>
     is_file_at fs (join_path root (py_str k)) \<and>
     (\<exists>e \<in> set roles. \<exists>d. role_directory root (snd e) = Some d \<and>
        relative_to (fs_resolve fs (join_path root (py_str k))) (fs_resolve fs d))"
  by (force simp: placed_kernel_def Let_def role_dirs_def list_ex_iff split: if_splits option.splits)

lemma pipeline_kernels_clean:
  assumes "pipeline_kernel_findings yaml fs root roles = Inr []" and "exists_at fs (under root PIPELINE_PATH)"
    and "load_yaml yaml fs (under root PIPELINE_PATH) = Inr pipeline" and "get_items pipeline ''phase_order'' = Inr phases"
    and "x \<in> set phases"
  shows "\<exists>ks. get_items x ''primary_kernels'' = Inr ks \<and>
    (\<forall>k \<in> set ks. placed_kernel fs root (role_dirs fs root roles) k = [])"
proof -
  from assms(1-4) obtain kss where m: "mapR (\<lambda>p. get_items p ''primary_kernels'') phases = Inr kss"
      and clean: "concat (map (placed_kernel fs root (role_dirs fs root roles)) (concat kss)) = []"
    by (auto simp: pipeline_kernel_findings_def Let_def bindR_eq_Inr)
  from assms(5) obtain j where j: "j < length phases" "x = phases ! j" by (metis in_set_conv_nth)
  have "get_items x ''primary_kernels'' = Inr (kss ! j)" "kss ! j \<in> set kss"
    using mapR_Inr [OF m] j by (auto simp: list_all2_conv_all_nth)
  thus ?thesis using clean by (intro exI [of _ "kss ! j"]) auto
qed

text \<open>When the roles pass, over a parser whose mappings have distinct keys, the role map declares roles with existing non-empty
  directories, no identity is declared twice by the YAML kernels of all of them, every such identity is
  well formed, and every kernel the pipeline names is a file that resolves beneath the directory of a role.\<close>

theorem checked_roles_unique:
  assumes ok: "validate_kernel_roles yaml dl fs root = Inr []" and docs: "\<forall>t v. yaml t = Some v \<longrightarrow> wf_json v"
  shows "\<exists>doc roles. load_yaml yaml fs (under root ROLE_MAP_PATH) = Inr doc \<and> get_or doc ''role_map'' (JObj []) = Inr (JObj roles) \<and>
    roles \<noteq> [] \<and>
    (\<forall>e \<in> set roles. \<exists>dir. role_directory root (snd e) = Some dir \<and> is_dir_at fs dir \<and> role_files dl fs dir \<noteq> []) \<and>
    distinct (concat (map (\<lambda>e. role_ids yaml dl fs root (snd e)) roles)) \<and>
    (\<forall>k \<in> set (concat (map (\<lambda>e. role_ids yaml dl fs root (snd e)) roles)). valid_kernel_id k) \<and>
    (\<forall>pipeline phases x. exists_at fs (under root PIPELINE_PATH) \<and> load_yaml yaml fs (under root PIPELINE_PATH) = Inr pipeline \<and>
       get_items pipeline ''phase_order'' = Inr phases \<and> x \<in> set phases \<longrightarrow>
       (\<exists>ks. get_items x ''primary_kernels'' = Inr ks \<and>
         (\<forall>k \<in> set ks. is_file_at fs (join_path root (py_str k)) \<and>
           (\<exists>e \<in> set roles. \<exists>d. role_directory root (snd e) = Some d \<and>
              relative_to (fs_resolve fs (join_path root (py_str k))) (fs_resolve fs d)))))"
proof -
  from ok obtain doc v roles where d: "load_yaml yaml fs (under root ROLE_MAP_PATH) = Inr doc" "get_or doc ''role_map'' (JObj []) = Inr v"
      "mapping_items v = Inr roles" "role_loop yaml dl fs root roles [] = Inr []" "roles \<noteq> []"
      "pipeline_kernel_findings yaml fs root roles = Inr []"
    by (auto simp: validate_kernel_roles_def Let_def bindR_eq_Inr split: if_splits)
  have v: "v = JObj roles" using d(3) by (simp add: mapping_items_Inr)
  have "wf_json v" using get_or_wf [OF d(2) load_yaml_wf [OF d(1) docs]] .
  hence keys: "distinct (map fst roles)" by (simp add: v)
  have "\<forall>k r. map_of ([] :: (string \<times> string) list) k = Some r \<longrightarrow> r \<notin> set (map fst roles)" by simp
  note r = role_loop_clean [OF d(4) keys this]
  have placed: "\<exists>ks. get_items x ''primary_kernels'' = Inr ks \<and>
      (\<forall>k \<in> set ks. is_file_at fs (join_path root (py_str k)) \<and>
        (\<exists>e \<in> set roles. \<exists>d. role_directory root (snd e) = Some d \<and>
           relative_to (fs_resolve fs (join_path root (py_str k))) (fs_resolve fs d)))"
    if "exists_at fs (under root PIPELINE_PATH)" "load_yaml yaml fs (under root PIPELINE_PATH) = Inr pipeline"
      "get_items pipeline ''phase_order'' = Inr phases" "x \<in> set phases" for pipeline phases x
    using pipeline_kernels_clean [OF d(6) that] placed_kernel_clean [of fs root roles] by blast
  show ?thesis
    by (intro exI [of _ doc] exI [of _ roles] conjI allI impI; (elim conjE)?; (rule placed; assumption)?)
      (use d v r in \<open>auto simp: comp_def\<close>)
qed

text \<open>
  Two roles hold a file of one name with different declared identities: the roles pass, although the compiler
  identifies a kernel by the name of its file.
\<close>

definition twin_files :: file_system where
  "twin_files = \<lparr>fs_resolve = (\<lambda>p. p), fs_is_dir = (\<lambda>p. p \<in> {''/r/x'', ''/r/y'', ''/r/runtime/kernels/terminal''}),
     fs_bytes = map_of [(under ''/r'' ROLE_MAP_PATH, ''roles''), (''/r/x/a.yaml'', ''one''), (''/r/y/a.yaml'', ''two''),
       (under ''/r'' TERMINAL, ''t'')]\<rparr>"

definition twin_listing :: dir_listing where
  "twin_listing = \<lparr>dl_names = (\<lambda>d. if d = ''/r/runtime/kernels/terminal'' then [''flawless_victory.contract.yaml''] else [''a.yaml'']),
     dl_walk = (\<lambda>_. [])\<rparr>"

definition twin_yaml :: "string \<Rightarrow> json option" where
  "twin_yaml t = (if t = ''roles'' then Some (JObj [(''role_map'', JObj (map (\<lambda>(r, d). (r, JObj
       [(''directory'', JStr d), (''load_policy'', JStr ''p''), (''duplicate_policy'', JStr ''q'')])) [(''X'', ''x''), (''Y'', ''y'')]))])
     else Some (JObj [(''kernel_id'', JStr t)]))"

lemma twin_kernels_pass:
  "validate_kernel_roles twin_yaml twin_listing twin_files ''/r'' = Inr []"
  "kernel_id_of ''x/a.yaml'' = kernel_id_of ''y/a.yaml''"
  by code_simp+

theorem checked_roles_unique_witness:
  "\<exists>doc roles. load_yaml twin_yaml twin_files (under ''/r'' ROLE_MAP_PATH) = Inr doc \<and>
     get_or doc ''role_map'' (JObj []) = Inr (JObj roles) \<and>
     distinct (concat (map (\<lambda>e. role_ids twin_yaml twin_listing twin_files ''/r'' (snd e)) roles))"
proof -
  have "\<forall>t v. twin_yaml t = Some v \<longrightarrow> wf_json v"
    by (auto simp: twin_yaml_def split: if_splits)
  from checked_roles_unique [OF twin_kernels_pass(1) this] show ?thesis by blast
qed

end
