(* ===== verification/PlanFile.thy ===== *)
theory PlanFile
  imports Cli
begin

text \<open>
  Activation plans as files (\<open>ActivationPlan.from_mapping\<close> of \<open>compiler/activation.py\<close>) and the scripts that write
  and read them: the planner (\<open>runtime/kernel_pipeline/planner/plan_activation.py\<close>), the contract compilers
  (\<open>runtime/contract_compiler\<close>) and the intent compiler (\<open>runtime/intent_compiler\<close>). The YAML dumper
  is a parameter, as the parser is. A script returns the files after it and its result or exception.
\<close>

section \<open>Reading a plan\<close>

definition REQUIRED_PLAN_FIELDS :: "string list" where
  "REQUIRED_PLAN_FIELDS = [''task_summary'', ''matched_route'', ''confidence'', ''phase_sequence'', ''active_kernels'',
     ''skipped_kernels'', ''terminal_allowed'', ''required_outputs'', ''blockers'', ''unknowns'', ''next_phase'',
     ''architecture_materiality'']"

definition plan_field :: "(string \<times> json) list \<Rightarrow> string \<Rightarrow> json" where
  "plan_field kvs k = (case map_of kvs k of None \<Rightarrow> JNull | Some v \<Rightarrow> v)"

definition str_items :: "json \<Rightarrow> string list res" where
  "str_items v = bindR (py_items v) (\<lambda>xs. Inr (map py_str xs))"

text \<open>\<open>dict(v or {})\<close>, as what the stages read of it: whether it is required, and its lists of texts.\<close>

definition text_list :: "json \<Rightarrow> string list" where
  "text_list v = (case v of JList xs \<Rightarrow> map py_str xs | _ \<Rightarrow> [])"

definition read_materiality :: "json \<Rightarrow> materiality_result res" where
  "read_materiality v =
     (if falsy v then Inr NOT_REQUIRED
      else case v of
        JObj kvs \<Rightarrow> Inr \<lparr>mt_required = (\<not> falsy (plan_field kvs ''required'')), mt_triggers = text_list (plan_field kvs ''triggers''),
          mt_active_lenses = text_list (plan_field kvs ''active_lenses''), mt_evidence = text_list (plan_field kvs ''evidence'')\<rparr>
      | JList _ \<Rightarrow> Inl (PyValueError ''dictionary update sequence'')
      | JStr _ \<Rightarrow> Inl (PyValueError ''dictionary update sequence'')
      | _ \<Rightarrow> Inl PyTypeError)"

definition plan_from_mapping :: "(string \<times> json) list \<Rightarrow> activation_plan res" where
  "plan_from_mapping kvs =
     (if list_ex (\<lambda>f. f \<notin> set (map fst kvs)) REQUIRED_PLAN_FIELDS
      then Inl (InvalidValueError ''activation plan missing required fields'' ''activation_plan'')
      else
        bindR (str_items (plan_field kvs ''phase_sequence'')) (\<lambda>phases.
        bindR (str_items (plan_field kvs ''active_kernels'')) (\<lambda>active.
        bindR (str_items (plan_field kvs ''skipped_kernels'')) (\<lambda>skipped.
        bindR (str_items (plan_field kvs ''required_outputs'')) (\<lambda>outputs.
        bindR (str_items (plan_field kvs ''blockers'')) (\<lambda>blocked.
        bindR (str_items (plan_field kvs ''unknowns'')) (\<lambda>unknowns.
        bindR (read_materiality (plan_field kvs ''architecture_materiality'')) (\<lambda>mat.
        Inr \<lparr>task_summary = py_str (plan_field kvs ''task_summary''), matched_route = py_str (plan_field kvs ''matched_route''),
          confidence = py_str (plan_field kvs ''confidence''), phase_sequence = phases, active_kernels = active,
          skipped_kernels = skipped, terminal_allowed = (\<not> falsy (plan_field kvs ''terminal_allowed'')),
          ap_required_outputs = outputs, blockers = blocked, ap_unknowns = unknowns,
          next_phase = py_str (plan_field kvs ''next_phase''), architecture_materiality = mat\<rparr>))))))))"

section \<open>The scripts\<close>

text \<open>\<open>write_text\<close>, which needs the directory of the file.\<close>

definition write_file :: "file_system \<Rightarrow> string \<Rightarrow> string \<Rightarrow> file_system option" where
  "write_file fs p data = (if parents p = [] \<or> last (parents p) = [] \<or> fs_is_dir fs (last (parents p)) then write_at fs p data else None)"

definition write_artifact ::
  "cli_host \<Rightarrow> file_system \<Rightarrow> string \<Rightarrow> string option \<Rightarrow> string \<Rightarrow> file_system \<times> string res" where
  "write_artifact host fs out allow data =
     (case confined_output_path host fs out allow of
        Inl e \<Rightarrow> (fs, Inl e)
      | Inr target \<Rightarrow> (case write_file fs target data of None \<Rightarrow> (fs, Inl PyOSError) | Some fs' \<Rightarrow> (fs', Inr target)))"

text \<open>An optional argument of the command line that is empty counts as absent.\<close>

definition given_root :: "string option \<Rightarrow> string option" where
  "given_root w = (case w of None \<Rightarrow> None | Some r \<Rightarrow> if r = [] then None else Some r)"

text \<open>The printed text and whether the plan is blocked, which is the exit code.\<close>

definition plan_script ::
  "(string \<Rightarrow> string) \<Rightarrow> (json \<Rightarrow> string) \<Rightarrow> document_readers \<Rightarrow> cli_host \<Rightarrow> file_system \<Rightarrow> string \<Rightarrow> string \<Rightarrow> bool \<Rightarrow>
     string option \<Rightarrow> string option \<Rightarrow> file_system \<times> (string \<times> bool) res" where
  "plan_script H dump dr host fs root task terminal out write_root =
     (case plan_activation_from_root H (root_sources_of dr fs root) root task terminal of
        Inl e \<Rightarrow> (fs, Inl e)
      | Inr p \<Rightarrow>
          (let dumped = dump (activation_json p); answer = (dumped, blockers p \<noteq> []) in
           case given_root out of
             None \<Rightarrow> (fs, Inr answer)
           | Some f \<Rightarrow> (case write_artifact host fs f (given_root write_root) dumped of
                 (fs', Inl e) \<Rightarrow> (fs', Inl e) | (fs', Inr _) \<Rightarrow> (fs', Inr answer))))"

definition read_plan :: "(string \<Rightarrow> json option) \<Rightarrow> file_system \<Rightarrow> string \<Rightarrow> string \<Rightarrow> activation_plan res" where
  "read_plan yaml fs path allow_root =
     bindR (load_yaml_file yaml fs path allow_root) (\<lambda>v. case v of
       JObj kvs \<Rightarrow> if falsy (plan_field kvs ''active_kernels'')
         then Inl (InvalidValueError ''activation plan has no active kernels; refusing a default kernel set'' path)
         else plan_from_mapping kvs
     | _ \<Rightarrow> Inl PyAttributeError)"

definition execution_script ::
  "(string \<Rightarrow> string) \<Rightarrow> (string \<Rightarrow> json option) \<Rightarrow> (json \<Rightarrow> string) \<Rightarrow> document_readers \<Rightarrow> cli_host \<Rightarrow> file_system \<Rightarrow>
     string \<Rightarrow> string \<Rightarrow> string \<Rightarrow> string option \<Rightarrow> (file_system \<times> string res) option" where
  "execution_script H yaml dump dr host fs root plan_file out write_root =
     (let base = fs_resolve fs root;
          io = (case given_root write_root of None \<Rightarrow> base | Some w \<Rightarrow> fs_resolve fs w);
          given = ch_expand host plan_file; absolute = starts_with given ''/'' in
      case read_plan yaml fs (if absolute then given else under base given) (if absolute then io else base) of
        Inl e \<Rightarrow> Some (fs, Inl e)
      | Inr p \<Rightarrow> (case compile_execution_from_plan H (root_sources_of dr fs base) base p of
            None \<Rightarrow> None
          | Some (Inl e) \<Rightarrow> Some (fs, Inl e)
          | Some (Inr ex) \<Rightarrow> Some (write_artifact host fs out (Some io) (dump (execution_json ex)))))"

definition CANONICAL_MISSION :: string where
  "CANONICAL_MISSION = ''compile the l9 cognitive runtime kernel pack''"

definition contract_script ::
  "(string \<Rightarrow> string) \<Rightarrow> (compiled_contracts \<Rightarrow> string) \<Rightarrow> document_readers \<Rightarrow> cli_host \<Rightarrow> file_system \<Rightarrow>
     string \<Rightarrow> string \<Rightarrow> string option \<Rightarrow> (file_system \<times> string res) option" where
  "contract_script H shown dr host fs root out write_root =
     (case compile_contracts_from_root H (root_sources_of dr fs (fs_resolve fs root)) (fs_resolve fs root) CANONICAL_MISSION False of
        None \<Rightarrow> None
      | Some (Inl e) \<Rightarrow> Some (fs, Inl e)
      | Some (Inr cc) \<Rightarrow> Some (write_artifact host fs out
          (Some (case given_root write_root of None \<Rightarrow> root | Some w \<Rightarrow> w)) (shown cc)))"

definition validation_script where
  "validation_script H dump = contract_script H (\<lambda>cc. dump (validation_json (cc_validation cc)))"

definition handoff_script where
  "handoff_script H dump = contract_script H (\<lambda>cc. dump (handoff_json (cc_handoff cc)))"

definition intent_script ::
  "(json \<Rightarrow> string) \<Rightarrow> cli_host \<Rightarrow> file_system \<Rightarrow> string \<Rightarrow> string \<Rightarrow> string \<Rightarrow> string option \<Rightarrow> file_system \<times> string res" where
  "intent_script dump host fs m tt out write_root =
     (case confined_output_path host fs out (given_root write_root) of
        Inl e \<Rightarrow> (fs, Inl e)
      | Inr _ \<Rightarrow> (case derive_intent ((default_request m tt)
            \<lparr>rq_source_context := [(''pack'', JStr ''l9_cognitive_runtime_kernel_pack_clean'')]\<rparr>) of
          Inl e \<Rightarrow> (fs, Inl e)
        | Inr i \<Rightarrow> write_artifact host fs out (given_root write_root) (dump (intent_json i))))"

section \<open>The plan that is read is the plan that was written\<close>

lemma str_items_jstrs [simp]: "str_items (jstrs xs) = Inr xs"
  by (simp add: str_items_def jstrs_def comp_def)

lemma read_materiality_json [simp]: "read_materiality (materiality_json m) = Inr m"
  by (cases m) (simp add: read_materiality_def materiality_json_def plan_field_def text_list_def jstrs_def comp_def)

lemma activation_fields:
  assumes "activation_json p = JObj kvs"
  shows "map fst kvs = REQUIRED_PLAN_FIELDS"
    and "plan_field kvs ''task_summary'' = JStr (task_summary p)"
    and "plan_field kvs ''matched_route'' = JStr (matched_route p)"
    and "plan_field kvs ''confidence'' = JStr (confidence p)"
    and "plan_field kvs ''phase_sequence'' = jstrs (phase_sequence p)"
    and "plan_field kvs ''active_kernels'' = jstrs (active_kernels p)"
    and "plan_field kvs ''skipped_kernels'' = jstrs (skipped_kernels p)"
    and "plan_field kvs ''terminal_allowed'' = JBool (terminal_allowed p)"
    and "plan_field kvs ''required_outputs'' = jstrs (ap_required_outputs p)"
    and "plan_field kvs ''blockers'' = jstrs (blockers p)"
    and "plan_field kvs ''unknowns'' = jstrs (ap_unknowns p)"
    and "plan_field kvs ''next_phase'' = JStr (next_phase p)"
    and "plan_field kvs ''architecture_materiality'' = materiality_json (architecture_materiality p)"
  using assms [symmetric] by (simp_all add: activation_json_def REQUIRED_PLAN_FIELDS_def plan_field_def)

lemma plan_reads_back:
  assumes "activation_json p = JObj kvs"
  shows "plan_from_mapping kvs = Inr p"
proof -
  note f = activation_fields [OF assms]
  have "\<not> list_ex (\<lambda>f. f \<notin> set (map fst kvs)) REQUIRED_PLAN_FIELDS"
    unfolding f(1) by (simp add: list_ex_iff)
  thus ?thesis by (simp add: plan_from_mapping_def f del: set_map)
qed

lemma planned_summary:
  assumes "prepare_context_plan H src prov (default_request m tt) snap incl None = Inr pp"
  shows "task_summary (pp_activation pp) = m"
    and "prepare_context_plan H src prov (default_request m tt) snap False (Some (pp_activation pp)) = Inr pp"
proof -
  from assms obtain i rules doc disc where "derive_intent (default_request m tt) = Inr i"
      "plan_activation i rules doc disc incl = Inr (pp_activation pp)"
    by (auto simp: prepare_context_plan_def Let_def bindR_eq_Inr)
  moreover have "intent_contract.mission i = m" if "derive_intent (default_request m tt) = Inr i"
    using that by (auto simp: derive_intent_def make_intent_def default_request_def Let_def bindR_eq_Inr split: if_splits)
  ultimately show "task_summary (pp_activation pp) = m" using plan_activation_Inr by metis
  show "prepare_context_plan H src prov (default_request m tt) snap False (Some (pp_activation pp)) = Inr pp"
    using assms by (auto simp: prepare_context_plan_def Let_def bindR_eq_Inr)
qed

lemma planned_compiles:
  assumes "plan_activation_from_root H src root m incl = Inr p"
  shows "compile_execution_from_plan H src root p =
    bindO (compile_contracts_from_root H src root m incl) (\<lambda>cc. Some (Inr (cc_execution cc)))"
proof -
  obtain rq prov where u: "unverified_root root m None = (rq, prov)" "rq = default_request m DEFAULT_TASK_TYPE"
    by (simp add: unverified_root_def)
  with assms obtain pp where pp: "prepare_context_plan H src prov rq None incl None = Inr pp" "pp_activation pp = p"
    by (auto simp: plan_activation_from_root_def bindR_eq_Inr)
  note s = planned_summary [OF pp(1) [unfolded u(2)]]
  have "compile_from_root H src root (task_summary p) None False None (Some p) None =
      compile_from_root H src root m None incl None None None"
    using s pp u by (simp add: compile_from_root_def compile_spine_def)
  thus ?thesis
    by (cases "compile_from_root H src root m None incl None None None")
      (auto simp: compile_execution_from_plan_def compile_contracts_from_root_def bindO_def Let_def split: sum.splits option.splits)
qed

lemma activation_object: "\<exists>kvs. activation_json p = JObj kvs"
  by (simp add: activation_json_def)

lemma falsy_jstrs: "falsy (jstrs xs) \<longleftrightarrow> xs = []"
  by (simp add: jstrs_def)

lemma read_plan_written:
  assumes "load_yaml_file yaml fs path allow = Inr (activation_json p)"
  shows "read_plan yaml fs path allow = (if active_kernels p = []
     then Inl (InvalidValueError ''activation plan has no active kernels; refusing a default kernel set'' path) else Inr p)"
proof -
  obtain kvs where k: "activation_json p = JObj kvs" using activation_object by blast
  show ?thesis using assms activation_fields(6) [OF k] plan_reads_back [OF k]
    by (simp add: read_plan_def k falsy_jstrs)
qed

lemma write_artifact_Inr:
  assumes "write_artifact host fs out (Some io) data = (fs', Inr target)"
  shows "relative_to target (fs_resolve fs io) \<and> fs_bytes fs' = (fs_bytes fs)(target \<mapsto> data)"
  using assms confine_Inr write_at_Some
  by (fastforce simp: write_artifact_def confined_output_path_def allow_root_of_def write_file_def
      split: sum.splits option.splits if_splits)

section \<open>Property\<close>

text \<open>C36: A plan that is written to a file and read back is the same plan. When the planner's plan of a mission lies in a
  file of the repository, compiling the execution contract from that file is compiling the mission directly, whatever
  the planner was told about the terminal phase: the script fails as the compilation does, or writes its execution contract to a
  file confined beneath its root; and a plan without kernels is refused with nothing written.\<close>

theorem saved_plan_compiles:
  assumes plan: "plan_activation_from_root H (root_sources_of dr fs (fs_resolve fs root)) (fs_resolve fs root) m incl = Inr p"
    and rel: "\<not> starts_with (ch_expand host f) ''/''"
    and saved: "load_yaml_file yaml fs (under (fs_resolve fs root) (ch_expand host f)) (fs_resolve fs root) = Inr (activation_json p)"
  shows "(\<forall>kvs. activation_json p = JObj kvs \<longrightarrow> plan_from_mapping kvs = Inr p) \<and>
    execution_script H yaml dump dr host fs root f out w =
      (if active_kernels p = []
       then Some (fs, Inl (InvalidValueError ''activation plan has no active kernels; refusing a default kernel set''
              (under (fs_resolve fs root) (ch_expand host f))))
       else case compile_contracts_from_root H (root_sources_of dr fs (fs_resolve fs root)) (fs_resolve fs root) m incl of
         None \<Rightarrow> None
       | Some (Inl e) \<Rightarrow> Some (fs, Inl e)
       | Some (Inr cc) \<Rightarrow> Some (write_artifact host fs out
           (Some (case given_root w of None \<Rightarrow> fs_resolve fs root | Some r \<Rightarrow> fs_resolve fs r)) (dump (execution_json (cc_execution cc))))) \<and>
    (\<forall>fs' target. execution_script H yaml dump dr host fs root f out w = Some (fs', Inr target) \<longrightarrow>
       (\<exists>data. fs_bytes fs' = (fs_bytes fs)(target \<mapsto> data)) \<and>
       relative_to target (fs_resolve fs (case given_root w of None \<Rightarrow> fs_resolve fs root | Some r \<Rightarrow> fs_resolve fs r)))"
proof -
  have script: "execution_script H yaml dump dr host fs root f out w =
      (if active_kernels p = []
       then Some (fs, Inl (InvalidValueError ''activation plan has no active kernels; refusing a default kernel set''
              (under (fs_resolve fs root) (ch_expand host f))))
       else case compile_contracts_from_root H (root_sources_of dr fs (fs_resolve fs root)) (fs_resolve fs root) m incl of
         None \<Rightarrow> None
       | Some (Inl e) \<Rightarrow> Some (fs, Inl e)
       | Some (Inr cc) \<Rightarrow> Some (write_artifact host fs out
           (Some (case given_root w of None \<Rightarrow> fs_resolve fs root | Some r \<Rightarrow> fs_resolve fs r)) (dump (execution_json (cc_execution cc)))))"
    using rel by (simp add: execution_script_def Let_def read_plan_written [OF saved] planned_compiles [OF plan] bindO_def
      split: option.splits sum.splits)
  show ?thesis
  proof (intro conjI allI impI)
    fix fs' target assume "execution_script H yaml dump dr host fs root f out w = Some (fs', Inr target)"
    then obtain data where "write_artifact host fs out
        (Some (case given_root w of None \<Rightarrow> fs_resolve fs root | Some r \<Rightarrow> fs_resolve fs r)) data = (fs', Inr target)"
      unfolding script by (auto split: if_splits option.splits sum.splits)
    from write_artifact_Inr [OF this] show "\<exists>data. fs_bytes fs' = (fs_bytes fs)(target \<mapsto> data)"
      "relative_to target (fs_resolve fs (case given_root w of None \<Rightarrow> fs_resolve fs root | Some r \<Rightarrow> fs_resolve fs r))" by blast+
  qed (rule plan_reads_back, assumption, rule script)
qed

text \<open>The plan of the sample repository has no kernels, and its file is refused.\<close>

definition plan_files :: file_system where
  "plan_files = sample_files\<lparr>fs_bytes := (fs_bytes sample_files)(''/p/plan'' \<mapsto> ''x'')\<rparr>"

lemma sample_plan:
  "\<exists>p. plan_activation_from_root (\<lambda>bytes. bytes) (root_sources_of sample_readers plan_files ''/p'') ''/p'' ''review'' False = Inr p \<and>
     active_kernels p = []"
proof -
  let ?src = "root_sources_of sample_readers plan_files ''/p''"
  have r: "read_source ?src RULES_REL = Inr ''r''" and q: "read_source ?src PIPELINE_REL = Inr ''q''" by code_simp+
  have n: "non_blank ''r''" "non_blank ''q''" by code_simp+
  have rules: "ps_rules ?src ''r'' = Inr plain_rules"
    and px: "ps_pipeline ?src ''q'' = Inr \<lparr>px_terminal_contract = None, px_pipeline_id = None, px_phases = []\<rparr>"
    by (simp_all add: root_sources_of_def sources_over_def load_yaml_mapping_def sample_readers_def sample_parse_def n)
  obtain rq prov where u: "unverified_root ''/p'' ''review'' None = (rq, prov)" "rq = default_request ''review'' DEFAULT_TASK_TYPE"
    by (simp add: unverified_root_def)
  obtain pp where pp: "prepare_context_plan (\<lambda>bytes. bytes) ?src prov (default_request ''review'' DEFAULT_TASK_TYPE) None False None = Inr pp"
    using plain_prepare [OF r q rules px] by blast
  then obtain i disc where "plan_activation i plain_rules [] disc False = Inr (pp_activation pp)"
    by (auto simp: prepare_context_plan_def Let_def bindR_eq_Inr r q rules px phase_order_def)
  from plan_route_and_kernels [OF this] have "active_kernels (pp_activation pp) = []"
    by (auto simp: plain_rules_def)
  thus ?thesis using pp u by (simp add: plan_activation_from_root_def)
qed

theorem saved_plan_compiles_witness:
  "\<exists>p. plan_activation_from_root (\<lambda>bytes. bytes) (root_sources_of sample_readers plan_files ''/p'') ''/p'' ''review'' False = Inr p \<and>
     execution_script (\<lambda>bytes. bytes) (\<lambda>_. Some (activation_json p)) encode sample_readers sample_host plan_files ''/p'' ''plan'' ''o'' None =
       Some (plan_files, Inl (InvalidValueError ''activation plan has no active kernels; refusing a default kernel set'' ''/p/plan''))"
proof -
  obtain p where p: "plan_activation_from_root (\<lambda>bytes. bytes) (root_sources_of sample_readers plan_files ''/p'') ''/p'' ''review'' False = Inr p"
    "active_kernels p = []" using sample_plan by blast
  have root: "fs_resolve plan_files ''/p'' = ''/p''" and f: "ch_expand sample_host ''plan'' = ''plan''"
    by (simp_all add: plan_files_def sample_files_def sample_host_def)
  have "\<not> starts_with (ch_expand sample_host ''plan'') ''/''" and u: "under ''/p'' ''plan'' = ''/p/plan''" by code_simp+
  moreover have "load_yaml_file (\<lambda>_. Some (activation_json p)) plan_files ''/p/plan'' ''/p'' = Inr (activation_json p)"
  proof -
    have "confined_input_file plan_files ''/p/plan'' ''/p'' = Inr ''/p/plan''" "non_blank ''x''" by code_simp+
    moreover have "fs_bytes plan_files ''/p/plan'' = Some ''x''" by (simp add: plan_files_def)
    ultimately show ?thesis
      by (simp add: load_yaml_file_def read_bytes_def load_yaml_mapping_def activation_json_def)
  qed
  ultimately show ?thesis
    using saved_plan_compiles [of "\<lambda>bytes. bytes" sample_readers plan_files "''/p''" "''review''" False p sample_host "''plan''"] p
    unfolding root f u by (intro exI [of _ p]) simp
qed

end
