(* ===== verification/Spec2Isabelle.thy ===== *)
theory Spec2Isabelle
  imports ContextClosure RequirementPlanner Adapters Pack Server Deployment Ingress Cli GraphTools PackChecks PlanFile
begin

text \<open>
  A verification development for the L9 cognitive runtime (\<open>src/src/l9_cognitive_runtime\<close>), a
  deterministic compiler: a mission, a pack of kernels and a snapshot of governed context claims become an
  intent, a compiled task context, an execution contract, a graph and a packet that an agent executes, or a
  typed error.

  \<^bold>\<open>The program and the theories.\<close> One compilation runs the parts below in this order; each theory
  opens with what it holds and follows its source file function by function, with the source's names.

  \<^item> \<open>Prelude\<close>: the typed errors (\<open>models/errors.py\<close>), the result type \<open>'a res\<close> of everything that can
    raise, and what the source uses of Python: strings, sorting, insertion-ordered dictionaries, word search.
  \<^item> \<open>Canonical\<close> (\<open>models/canonical.py\<close>): JSON values, their canonical bytes, digests, and the recipe by
    which every value derives its identity, stated once as the locale \<open>identity_recipe\<close> and interpreted for items,
    unknowns, scopes, requirements, plans and derived requirements.
  \<^item> \<open>Artifacts\<close> (\<open>models/artifacts.py\<close>), \<open>ContextModels\<close>, \<open>ContextRequirements\<close>,
    \<open>ContextSnapshots\<close> (\<open>models/context.py\<close>): the records of the contracts, the ten classes of context items, the
    demand side (requirements, budgets, capability and authority requirements) and the supply side (snapshot,
    discovery context, context plan, compiled context), with validation and canonical forms.
  \<^item> \<open>Reachability\<close>, \<open>Supersession\<close>, \<open>Resolution\<close> (first half of \<open>compiler/task_context.py\<close>): the
    graph of explicit supersession, its authority gate and cycles, the resolution of claims of one key, and the
    discovery projection.
  \<^item> \<open>Intake\<close> (\<open>types.py\<close>, \<open>compiler/objective.py\<close>, \<open>compiler/task_scope.py\<close>): request, intent, scope.
  \<^item> \<open>Kernels\<close> (\<open>compiler/kernels.py\<close>), \<open>Activation\<close> (\<open>compiler/activation.py\<close>,
    \<open>compiler/architecture_materiality.py\<close>): routing, phases and kernels, and the parse of each kernel document.
  \<^item> \<open>RequirementPlanner\<close> (\<open>compiler/context_requirements.py\<close>): what context the task demands.
  \<^item> \<open>Selection\<close>, \<open>ContextCompile\<close> (second half of \<open>compiler/task_context.py\<close>): selection under the
    budgets, the disposition of everything unmet, derived capabilities and authorities, the compiled context.
  \<^item> \<open>ContextClosure\<close> (\<open>compiler/context_closure.py\<close>): the independent recomputation that certifies it.
  \<^item> \<open>Obligations\<close>, \<open>Execution\<close> (with \<open>compiler/validation.py\<close>, \<open>handoff.py\<close>, \<open>convergence.py\<close>),
    \<open>Graph\<close>, \<open>Packet\<close>, \<open>Adapters\<close> (with \<open>compiler/providers.py\<close>), \<open>Liveness\<close>: the contracts, the graph,
    the packet and its renderings, and the checks that no representation loses what another one owes.
  \<^item> \<open>Pipeline\<close> (\<open>compiler/pipeline.py\<close>, \<open>compiler/context.py\<close>, \<open>service.py\<close>): the composition of all of
    these, bound to a context plan or not, from a pack or from a repository root.
  \<^item> \<open>Pack\<close> (\<open>parsing/__init__.py\<close>, \<open>pack/loader.py\<close>): the verified pack and every read the compiler makes.
  \<^item> \<open>RunStore\<close> (\<open>mcp/run_store.py\<close>), \<open>Auth\<close> (\<open>mcp/auth.py\<close>), \<open>Server\<close> (\<open>mcp/__init__.py\<close>,
    \<open>mcp/manus_adapter.py\<close>): the server that compiles for tenants and keeps their runs.
  \<^item> \<open>Ingress\<close> (\<open>mcp/http.py\<close> and the \<open>main\<close> functions of \<open>mcp/\<close>), \<open>Deployment\<close> (\<open>deployment.py\<close>),
    \<open>Cli\<close> (\<open>cli.py\<close>): how a server starts and which requests reach it, the build that seals a pack and proves that its
    routes compile, and the command line over the same service.
  \<^item> \<open>PlanFile\<close>, \<open>GraphTools\<close>, \<open>PackChecks\<close> (the scripts under \<open>src/runtime\<close>): plans as files and
    the contract compilers that read them, the scheduler and the other tools on graphs, and the validators of a pack.

  \<^bold>\<open>State and operations.\<close> The compiler is a function of its inputs: its loops over accumulators are folds or
  recursions over explicit records (\<open>selection\<close>, \<open>loop_state\<close>, \<open>supersession_index\<close>), and a raise is \<open>Inl\<close> of its
  typed error. The stateful parts pass their state explicitly: the run store (\<open>run_store\<close>, with \<open>store_step\<close>
  and \<open>runs\<close> for sequences of locked operations), the token verifier with its cached key set (\<open>verifier\<close>,
  \<open>present\<close>), the server over its store (\<open>serve_step\<close>), the requests in flight before it (\<open>flight_step\<close>), and the
  files a build, the command or a script writes (\<open>file_system\<close>, returned updated). \<open>invariant_system\<close> and
  \<open>refined_system\<close> are the contracts of a stepping system, interpreted for the store, the server and the ingress.

  \<^bold>\<open>What the lemmas show.\<close>

  \<^item> Values: canonical bytes determine a value up to key order, identities are injective up to a collision of the
    hash, construction normalizes and is idempotent.
  \<^item> Governance: supersession refines a set-based specification and a weaker claim never retires a stronger
    one; resolution, discovery and compilation depend only on eligible claims and not on their order.
  \<^item> Coverage: a requirement is covered, or what is missing is recorded; budgets bound the selection; a passed
    closure certifies this from a recomputed view, without trusting the selection.
  \<^item> Contracts: obligations are owned and conserved, the execution contract, the graph and the packet mirror the
    plan, gates and validations hold exactly under their stated conditions, and projections drop nothing.
  \<^item> Composition: a compilation always returns, and succeeds exactly under the conditions listed in
    \<open>compile_succeeds_exactly\<close>; a bound compilation is the unbound one of the same plan; a pack compiles only verified
    bytes.
  \<^item> Service: the store refines a list of records by recency, runs are isolated and fairly evicted, tokens are
    accepted exactly when verified, a served run is one that its reader's principal compiled, a server that must be
    authenticated never starts open, and the requests in flight stay within their limit.
  \<^item> Delivery: a sealed pack loads again with the bytes it was built from and every route compiled; the command line
    and the server accept and answer the same; a plan survives its file; a pipeline that passes its validator
    gates the terminal contract in every plan; the scheduler agrees with the order of the package.

  \<^bold>\<open>Termination and bounds.\<close> Nothing runs on fuel. The depth-first search, the scanner of templates and the trimming
  of the store are total by a measure; the topological order is \<open>partial_function (option)\<close> and proved to return on every
  graph, so that the \<open>option\<close> around a compilation (\<open>bindO\<close>) is proved to be \<open>Some\<close> as well. Python integers are
  unbounded and are \<open>int\<close> here; sizes and budgets are those of the source.

  \<^bold>\<open>Parameters.\<close> \<open>H\<close> is the digest of bytes (SHA-256 in the source), used through \<open>sha256_digest\<close>; where injectivity
  matters, the theorem offers a collision as its alternative. The JSON and YAML parsers, the readers that turn a parsed
  document into the planner's records, pydantic's validation of a snapshot and of a graph, the file system, the
  clock, fresh run identities, the HTTP fetch, the selection of a signing key, the decoding of a token, the listing of a
  directory, the expansion of \<open>~\<close>, the acceptance of a URL and the YAML dumper are arguments of the definitions that use
  them; witnesses instantiate them with concrete functions.

  \<^bold>\<open>Not modelled.\<close> The web framework, its routes and event loop, argument parsing and printing, the registration of
  handlers with the MCP SDK, YAML output, the diagnostic \<open>details\<close> of errors, and \<open>str()\<close> of a nested container,
  which is its JSON text here. Of the scripts, the planner's self-test (it imports a module by path), the check for duplicate
  kernels (multi-document YAML), the runner of the validators (processes) and the tooling under \<open>src/ops\<close>. A
  failing \<open>mkdir\<close> leaves no directory behind. Text functions are those of ASCII.
\<close>

end
